(* ===== verification/Go_Prelude.thy ===== *)
theory Go_Prelude
  imports Main
begin

text \<open>
  The vocabulary every other theory shares: Go strings as byte lists, the functions of
  \<^verbatim>\<open>strings\<close> and \<^verbatim>\<open>strconv\<close> the repository calls, 64-bit wrap-around, and the
  "call, and return early on an error" pattern of fallible, state-changing code. A Go
  string is a list of \<open>char\<close> (a \<open>char\<close> is one byte); a call that can fail returns
  \<open>'e + 'a\<close>, with the error on the left; a call with effects takes the state of the
  outside world and returns it.
\<close>

named_theorems go_simps \<open>unfolding of the error-propagation combinators\<close>
named_theorems bytes_simps \<open>the alphabets of encoded text\<close>

section \<open>Early return\<close>

text \<open>
  \<^verbatim>\<open>x, err := m(); if err != nil { return h(err) }; k(x)\<close>: the shape of nearly every
  function of the repository, on a state that the call changes also when it fails.
\<close>

definition call :: "('s \<Rightarrow> ('e + 'a) \<times> 's) \<Rightarrow> ('e \<Rightarrow> 'e2) \<Rightarrow> ('a \<Rightarrow> 's \<Rightarrow> ('e2 + 'b) \<times> 's)
    \<Rightarrow> 's \<Rightarrow> ('e2 + 'b) \<times> 's" where
  "call m h k s = (case m s of (Inl e, s') \<Rightarrow> (Inl (h e), s') | (Inr x, s') \<Rightarrow> k x s')"

lemma call_simps [simp, go_simps]:
  "m s = (Inl e, s') \<Longrightarrow> call m h k s = (Inl (h e), s')"
  "m s = (Inr x, s') \<Longrightarrow> call m h k s = k x s'"
  by (simp_all add: call_def)

lemma call_Inr_iff:
  "call m h k s = (Inr y, t) \<longleftrightarrow> (\<exists>x s'. m s = (Inr x, s') \<and> k x s' = (Inr y, t))"
  by (auto simp: call_def split: prod.splits sum.splits)

lemma call_Inl_iff:
  "call m h k s = (Inl e, t) \<longleftrightarrow>
     (\<exists>e0. m s = (Inl e0, t) \<and> e = h e0) \<or> (\<exists>x s'. m s = (Inr x, s') \<and> k x s' = (Inl e, t))"
  by (auto simp: call_def split: prod.splits sum.splits)

text \<open>The same for a call without effects.\<close>

definition check :: "('e + 'a) \<Rightarrow> ('e \<Rightarrow> 'e2) \<Rightarrow> ('a \<Rightarrow> 's \<Rightarrow> ('e2 + 'b) \<times> 's)
    \<Rightarrow> 's \<Rightarrow> ('e2 + 'b) \<times> 's" where
  "check r h k s = (case r of Inl e \<Rightarrow> (Inl (h e), s) | Inr x \<Rightarrow> k x s)"

lemma check_simps [simp, go_simps]:
  "check (Inl e) h k s = (Inl (h e), s)"
  "check (Inr x) h k s = k x s"
  by (simp_all add: check_def)

lemma check_Inr_iff: "check r h k s = (Inr y, t) \<longleftrightarrow> (\<exists>x. r = Inr x \<and> k x s = (Inr y, t))"
  by (cases r) auto

section \<open>\<open>strings\<close>\<close>

text \<open>\<^verbatim>\<open>strings.Split\<close> on a one-byte separator: at least one part, which may be empty.\<close>

fun split_on :: "'a \<Rightarrow> 'a list \<Rightarrow> 'a list list" where
  "split_on c [] = [[]]"
| "split_on c (x # xs) =
     (if x = c then [] # split_on c xs
      else (case split_on c xs of [] \<Rightarrow> [[x]] | y # ys \<Rightarrow> (x # y) # ys))"

text \<open>\<^verbatim>\<open>strings.Join\<close>.\<close>

fun join_with :: "'a list \<Rightarrow> 'a list list \<Rightarrow> 'a list" where
  "join_with sep [] = []"
| "join_with sep [x] = x"
| "join_with sep (x # y # ys) = x @ sep @ join_with sep (y # ys)"

lemma split_on_nonempty [simp]: "split_on c xs \<noteq> []"
  by (induction xs) (auto split: list.splits)

lemma split_on_no_sep: "x \<in> set (split_on c xs) \<Longrightarrow> c \<notin> set x"
  by (induction xs arbitrary: x) (auto split: list.splits if_splits)

lemma split_on_set: "x \<in> set (split_on c xs) \<Longrightarrow> set x \<subseteq> set xs"
proof (induction xs arbitrary: x)
  case (Cons a xs)
  then show ?case
    by (cases "split_on c xs") (fastforce split: if_splits)+
qed simp

lemma join_with_cons: "xs \<noteq> [] \<Longrightarrow> join_with sep (x # xs) = x @ sep @ join_with sep xs"
  by (cases xs) auto

lemma split_on_absent [simp]: "c \<notin> set xs \<Longrightarrow> split_on c xs = [xs]"
  by (induction xs) auto

lemma split_on_append [simp]: "c \<notin> set x \<Longrightarrow> split_on c (x @ c # ys) = x # split_on c ys"
  by (induction x) auto

lemma split_on_join:
  "xs \<noteq> [] \<Longrightarrow> \<forall>x\<in>set xs. c \<notin> set x \<Longrightarrow> split_on c (join_with [c] xs) = xs"
  by (induction xs rule: induct_list012) auto

lemma join_split_on [simp]: "join_with [c] (split_on c xs) = xs"
proof (induction xs)
  case (Cons x xs)
  obtain y ys where s: "split_on c xs = y # ys" by (cases "split_on c xs") auto
  with Cons show ?case by (cases ys) auto
qed simp

lemma split_on_single_iff: "length (split_on c xs) = 1 \<longleftrightarrow> c \<notin> set xs"
proof (induction xs)
  case (Cons x xs)
  then show ?case by (cases "split_on c xs") (auto)
qed simp

text \<open>\<^verbatim>\<open>strings.HasPrefix\<close>, \<^verbatim>\<open>TrimPrefix\<close>, \<^verbatim>\<open>HasSuffix\<close>, \<^verbatim>\<open>TrimSuffix\<close>.\<close>

fun has_prefix :: "'a list \<Rightarrow> 'a list \<Rightarrow> bool" where
  "has_prefix xs [] = True"
| "has_prefix [] (p # ps) = False"
| "has_prefix (x # xs) (p # ps) = (x = p \<and> has_prefix xs ps)"

definition trim_prefix :: "'a list \<Rightarrow> 'a list \<Rightarrow> 'a list" where
  "trim_prefix xs p = (if has_prefix xs p then drop (length p) xs else xs)"

definition has_suffix :: "'a list \<Rightarrow> 'a list \<Rightarrow> bool" where
  "has_suffix xs p = has_prefix (rev xs) (rev p)"

definition trim_suffix :: "'a list \<Rightarrow> 'a list \<Rightarrow> 'a list" where
  "trim_suffix xs p = (if has_suffix xs p then take (length xs - length p) xs else xs)"

lemma has_prefix_iff: "has_prefix xs p \<longleftrightarrow> (\<exists>ys. xs = p @ ys)"
  by (induction xs p rule: has_prefix.induct) auto

lemma has_suffix_iff: "has_suffix xs p \<longleftrightarrow> (\<exists>ys. xs = ys @ p)"
  unfolding has_suffix_def has_prefix_iff
  by (metis rev_append rev_rev_ident)

lemma trim_prefix_append [simp]: "trim_prefix (p @ xs) p = xs"
  by (simp add: trim_prefix_def has_prefix_iff)

lemma trim_suffix_append [simp]: "trim_suffix (xs @ p) p = xs"
  by (simp add: trim_suffix_def has_suffix_iff)

lemma trim_suffix_other: "\<not> has_suffix xs p \<Longrightarrow> trim_suffix xs p = xs"
  by (simp add: trim_suffix_def)

text \<open>\<^verbatim>\<open>strings.Replace(s, old, new, 1)\<close> for a non-empty \<open>old\<close>: the first occurrence.\<close>

fun replace_first :: "'a list \<Rightarrow> 'a list \<Rightarrow> 'a list \<Rightarrow> 'a list" where
  "replace_first [] old new = (if old = [] then new else [])"
| "replace_first (x # xs) old new =
     (if has_prefix (x # xs) old then new @ drop (length old) (x # xs)
      else x # replace_first xs old new)"

lemma replace_first_hit [simp]: "replace_first (old @ ys) old new = new @ ys"
proof (cases "old @ ys")
  case (Cons a xs)
  then have "has_prefix (a # xs) old" and "drop (length old) (a # xs) = ys"
    by (auto simp: has_prefix_iff simp flip: Cons)
  with Cons show ?thesis by simp
qed auto

lemma replace_first_later:
  "c \<notin> set xs \<Longrightarrow> replace_first (xs @ (c # old) @ ys) (c # old) new = xs @ new @ ys"
proof (induction xs)
  case Nil
  show ?case using replace_first_hit [of "c # old" ys new] by simp
qed (auto simp: has_prefix_iff)

lemma replace_first_longer: "length s < length old \<Longrightarrow> replace_first s old new = s"
proof (induction s)
  case (Cons a s)
  then have "\<not> has_prefix (a # s) old" by (auto simp: has_prefix_iff dest!: arg_cong [of "_ # _" _ length])
  with Cons show ?case by simp
qed simp

text \<open>\<^verbatim>\<open>strings.Trim(s, cutset)\<close>.\<close>

definition trim_chars :: "'a list \<Rightarrow> 'a set \<Rightarrow> 'a list" where
  "trim_chars xs cs = rev (dropWhile (\<lambda>c. c \<in> cs) (rev (dropWhile (\<lambda>c. c \<in> cs) xs)))"

text \<open>A text in single quotes, as the messages have it.\<close>

definition in_quotes :: "string \<Rightarrow> string" where
  "in_quotes s = CHR 39 # s @ [CHR 39]"

section \<open>64-bit integers\<close>

text \<open>
  Go's \<^verbatim>\<open>int\<close> and \<^verbatim>\<open>int64\<close> (on the 64-bit targets of the release build) wrap around: a
  result is brought back into \<open>[-2^63, 2^63)\<close>.
\<close>

definition max_int64 :: int where
  "max_int64 = 9223372036854775807"

definition min_int64 :: int where
  "min_int64 = -9223372036854775808"

definition in_int64 :: "int \<Rightarrow> bool" where
  "in_int64 n \<longleftrightarrow> min_int64 \<le> n \<and> n \<le> max_int64"

definition wrap64 :: "int \<Rightarrow> int" where
  "wrap64 n = (n + 2 ^ 63) mod 2 ^ 64 - 2 ^ 63"

lemma wrap64_id [simp]: "in_int64 n \<Longrightarrow> wrap64 n = n"
  by (simp add: wrap64_def in_int64_def min_int64_def max_int64_def)

lemma wrap64_in [simp]: "in_int64 (wrap64 n)"
  by (simp add: wrap64_def in_int64_def min_int64_def max_int64_def)

section \<open>\<open>strconv\<close>\<close>

text \<open>Decimal text of a number (\<^verbatim>\<open>strconv.FormatInt(n, 10)\<close>, \<^verbatim>\<open>%v\<close> of an integer).\<close>

definition digit_char :: "nat \<Rightarrow> char" where
  "digit_char d = char_of (48 + d)"

definition is_digit :: "char \<Rightarrow> bool" where
  "is_digit c \<longleftrightarrow> 48 \<le> (of_char c :: nat) \<and> (of_char c :: nat) \<le> 57"

definition digit_val :: "char \<Rightarrow> nat" where
  "digit_val c = of_char c - 48"

fun nat_text :: "nat \<Rightarrow> string" where
  "nat_text n = (if n < 10 then [digit_char n] else nat_text (n div 10) @ [digit_char (n mod 10)])"

declare nat_text.simps [simp del]

definition int_text :: "int \<Rightarrow> string" where
  "int_text i = (if i < 0 then CHR ''-'' # nat_text (nat (- i)) else nat_text (nat i))"

fun digits_val :: "nat \<Rightarrow> string \<Rightarrow> nat" where
  "digits_val acc [] = acc"
| "digits_val acc (c # cs) = digits_val (acc * 10 + digit_val c) cs"

lemma digit_char_val [simp]: "d < 10 \<Longrightarrow> digit_val (digit_char d) = d"
  by (simp add: digit_val_def digit_char_def)

lemma digit_char_is_digit [simp]: "d < 10 \<Longrightarrow> is_digit (digit_char d)"
  by (simp add: is_digit_def digit_char_def)

lemma digits_val_append [simp]: "digits_val acc (xs @ ys) = digits_val (digits_val acc xs) ys"
  by (induction xs arbitrary: acc) auto

lemma nat_text_nonempty [simp]: "nat_text n \<noteq> []"
  by (subst nat_text.simps) simp

lemma nat_text_digits [bytes_simps]: "c \<in> set (nat_text n) \<Longrightarrow> is_digit c"
proof (induction n rule: nat_text.induct)
  case (1 n)
  show ?case
  proof (cases "n < 10")
    case True
    with 1 show ?thesis by (simp add: nat_text.simps [of n])
  next
    case False
    with 1 show ?thesis by (auto simp: nat_text.simps [of n])
  qed
qed

lemma digits_val_nat_text [simp]: "digits_val 0 (nat_text n) = n"
proof (induction n rule: nat_text.induct)
  case (1 n)
  show ?case
  proof (cases "n < 10")
    case True
    then show ?thesis by (simp add: nat_text.simps [of n])
  next
    case False
    with 1 show ?thesis by (simp add: nat_text.simps [of n])
  qed
qed

text \<open>
  \<^verbatim>\<open>strconv.ParseUint\<close> in base 10: digit by digit, so that an overflow is reported before a
  later character that is not a digit.
\<close>

datatype atoi_error = ErrSyntax | ErrRange

definition max_uint64 :: int where
  "max_uint64 = 18446744073709551615"

fun parse_digits :: "nat \<Rightarrow> string \<Rightarrow> atoi_error + nat" where
  "parse_digits acc [] = Inr acc"
| "parse_digits acc (c # cs) =
     (if \<not> is_digit c then Inl ErrSyntax
      else if int (acc * 10 + digit_val c) > max_uint64 then Inl ErrRange
      else parse_digits (acc * 10 + digit_val c) cs)"

text \<open>
  \<^verbatim>\<open>strconv.Atoi\<close>, with the value it returns beside an error: 0 on a syntax error, the nearest
  bound when the number does not fit.
\<close>

definition Atoi :: "string \<Rightarrow> int \<times> atoi_error option" where
  "Atoi s =
     (let neg = (s \<noteq> [] \<and> hd s = CHR ''-'');
          ds = (if s \<noteq> [] \<and> (hd s = CHR ''-'' \<or> hd s = CHR ''+'') then tl s else s);
          out_of_range = (if neg then min_int64 else max_int64, Some ErrRange)
      in if ds = [] then (0, Some ErrSyntax)
         else (case parse_digits 0 ds of
             Inl ErrSyntax \<Rightarrow> (0, Some ErrSyntax)
           | Inl ErrRange \<Rightarrow> out_of_range
           | Inr n \<Rightarrow> if (if neg then int n > - min_int64 else int n > max_int64) then out_of_range
                      else (if neg then - int n else int n, None)))"

lemma digits_val_le: "acc \<le> digits_val acc ds"
proof (induction ds arbitrary: acc)
  case (Cons d ds)
  have "acc \<le> acc * 10 + digit_val d" by simp
  also have "\<dots> \<le> digits_val (acc * 10 + digit_val d) ds" by (rule Cons)
  finally show ?case by simp
qed simp

lemma parse_digits_ok:
  "list_all is_digit ds \<Longrightarrow> int (digits_val acc ds) \<le> max_uint64 \<Longrightarrow>
     parse_digits acc ds = Inr (digits_val acc ds)"
proof (induction ds arbitrary: acc)
  case (Cons d ds)
  from Cons.prems(2) have "int (acc * 10 + digit_val d) \<le> max_uint64"
    using digits_val_le [of "acc * 10 + digit_val d" ds] by simp
  with Cons show ?case by simp
qed simp

lemma parse_digits_Inr:
  "parse_digits acc ds = Inr n \<Longrightarrow> list_all is_digit ds \<and> n = digits_val acc ds"
  by (induction ds arbitrary: acc) (auto split: if_splits)

lemma nat_text_parse: "int n \<le> max_uint64 \<Longrightarrow> parse_digits 0 (nat_text n) = Inr n"
  using parse_digits_ok [of "nat_text n" 0] by (simp add: list_all_iff nat_text_digits)

lemma is_digit_signs [simp, bytes_simps]:
  "\<not> is_digit CHR ''-''" "\<not> is_digit CHR ''+''" "\<not> is_digit CHR ''.''" "\<not> is_digit CHR ''/''"
  "\<not> is_digit CHR ''_''" "\<not> is_digit CHR ''(''" "\<not> is_digit CHR '')''"
  by (simp_all add: is_digit_def)

lemma nat_text_hd: "is_digit (hd (nat_text n))"
  by (rule nat_text_digits [of _ n]) simp

lemma nat_text_no_sign [simp]:
  "hd (nat_text n) \<noteq> CHR ''-''" "hd (nat_text n) \<noteq> CHR ''+''"
  using nat_text_hd [of n] by (auto simp del: nat_text_nonempty)

lemma Atoi_int_text [simp]: "in_int64 i \<Longrightarrow> Atoi (int_text i) = (i, None)"
  by (auto simp: Atoi_def Let_def int_text_def nat_text_parse in_int64_def
      min_int64_def max_int64_def max_uint64_def)

lemma Atoi_in_int64: "in_int64 (fst (Atoi s))"
  by (auto simp: Atoi_def Let_def in_int64_def min_int64_def max_int64_def
      split: sum.splits atoi_error.splits)

lemma int_text_no_dot [simp]: "CHR ''.'' \<notin> set (int_text i)"
  using nat_text_digits [of "CHR ''.''"] by (auto simp: int_text_def)

lemma nat_text_inj: "nat_text m = nat_text n \<longleftrightarrow> m = n"
  by (metis digits_val_nat_text)

lemma int_text_nonempty [simp]: "int_text i \<noteq> []"
  by (simp add: int_text_def)

lemma int_text_no_slash [simp]: "CHR ''/'' \<notin> set (int_text i)"
  using nat_text_digits [of "CHR ''/''"] by (auto simp: int_text_def)

end
