(* ===== verification/Go_Errors.thy ===== *)
theory Go_Errors
  imports Go_Prelude
begin

text \<open>
  The error values of the repository and their chains: the sentinels of
  \<^verbatim>\<open>nerd/errors.go\<close>, \<^verbatim>\<open>client.Error\<close> (\<^verbatim>\<open>nerd/client/client.go\<close>), the two HTTP errors of the
  API clients, and the wrappers of the vendored \<^verbatim>\<open>pkg/errors\<close>. The chain decides what the
  command line shows to the user, so \<^verbatim>\<open>Error()\<close>, \<^verbatim>\<open>Cause()\<close> and the loop of \<^verbatim>\<open>errors.Cause\<close> are
  modelled as they are written. Stack traces are left out of the texts.
\<close>

section \<open>The values\<close>

text \<open>Errors compared by identity: those of \<^verbatim>\<open>nerd/errors.go\<close>, \<^verbatim>\<open>io\<close> and \<^verbatim>\<open>context\<close>.\<close>

datatype sentinel =
    ErrNotImplemented | ErrTokenRevoked | ErrTokenUnset | ErrProjectIDNotSet
  | EOF | ErrUnexpectedEOF | CtxCanceled | CtxDeadlineExceeded

fun sentinel_text :: "sentinel \<Rightarrow> string" where
  "sentinel_text ErrNotImplemented = ''not yet implemented''"
| "sentinel_text ErrTokenRevoked = ''ErrTokenRevoked''"
| "sentinel_text ErrTokenUnset = ''You're not logged in. Please login with `nerd login`.''"
| "sentinel_text ErrProjectIDNotSet =
     ''No project ID specified, use `nerd project set` to configure a project to work on.''"
| "sentinel_text EOF = ''EOF''"
| "sentinel_text ErrUnexpectedEOF = ''unexpected EOF''"
| "sentinel_text CtxCanceled = ''context canceled''"
| "sentinel_text CtxDeadlineExceeded = ''context deadline exceeded''"

text \<open>\<^verbatim>\<open>v1payload.Error\<close> of the batch API: what the server says beside a status of 400 or more.\<close>

record api_error =
  Retry :: bool
  Message :: string
  Trace :: "string list"
  Fields :: "(string \<times> string) list"

text \<open>The errno values the code tells apart (\<^verbatim>\<open>os.IsExist\<close>).\<close>

datatype errno = EEXIST | ENOENT | EACCES | ENOTDIR | EISDIR | EINVAL | ENOSPC | EMFILE

datatype goerr =
    Sentinel sentinel
  | Fundamental string \<comment> \<open>\<^verbatim>\<open>errors.New\<close>, \<^verbatim>\<open>errors.Errorf\<close>, \<^verbatim>\<open>fmt.Errorf\<close>, errors of the library\<close>
  | WithMessage goerr string
  | WithStack goerr
  | ClientError string "goerr option" \<comment> \<open>\<^verbatim>\<open>client.Error\<close> with its \<^verbatim>\<open>Underlying\<close>\<close>
  | BatchHTTPError int api_error
  | AuthHTTPError int string
  | OSError errno string
  | ShowHelp string \<comment> \<open>\<^verbatim>\<open>errShowHelp\<close> of \<^verbatim>\<open>command\<close>\<close>

text \<open>\<^verbatim>\<open>Error()\<close> of each.\<close>

fun error_text :: "goerr \<Rightarrow> string" where
  "error_text (Sentinel s) = sentinel_text s"
| "error_text (Fundamental m) = m"
| "error_text (WithMessage e m) = m @ '': '' @ error_text e"
| "error_text (WithStack e) = error_text e"
| "error_text (ClientError m (Some e)) = m @ '': '' @ error_text e"
| "error_text (ClientError m None) = m"
| "error_text (BatchHTTPError _ p) = Message p"
| "error_text (AuthHTTPError _ m) = m"
| "error_text (OSError _ m) = m"
| "error_text (ShowHelp m) = m"

text \<open>What \<^verbatim>\<open>%+v\<close> prints, frames left out (\<^verbatim>\<open>Format\<close> of \<^verbatim>\<open>client.Error\<close> and of \<^verbatim>\<open>pkg/errors\<close>).\<close>

fun verbose_text :: "goerr \<Rightarrow> string" where
  "verbose_text (WithMessage e m) = verbose_text e @ [CHR 10] @ m"
| "verbose_text (WithStack e) = verbose_text e"
| "verbose_text (ClientError m (Some e)) = verbose_text e @ [CHR 10] @ m"
| "verbose_text e = error_text e"

section \<open>Constructors\<close>

text \<open>\<^verbatim>\<open>client.NewError\<close>: the underlying error may be nil.\<close>

definition NewError :: "string \<Rightarrow> goerr option \<Rightarrow> goerr" where
  "NewError msg underlying = ClientError msg underlying"

text \<open>\<^verbatim>\<open>errors.Wrap\<close>: a message and a stack, but nil stays nil.\<close>

definition Wrap :: "goerr option \<Rightarrow> string \<Rightarrow> goerr option" where
  "Wrap err msg = map_option (\<lambda>e. WithStack (WithMessage e msg)) err"

abbreviation wrapped :: "string \<Rightarrow> goerr \<Rightarrow> goerr" where
  "wrapped msg e \<equiv> WithStack (WithMessage e msg)"

lemma Wrap_simps [simp]:
  "Wrap None msg = None"
  "Wrap (Some e) msg = Some (wrapped msg e)"
  by (simp_all add: Wrap_def)

section \<open>Causes\<close>

text \<open>
  One step: \<^verbatim>\<open>ErrorCauser\<close> (\<^verbatim>\<open>command/utils.go\<close>) and \<^verbatim>\<open>errorCauser\<close>
  (\<^verbatim>\<open>command/format/outputter.go\<close>) return \<^verbatim>\<open>err.Cause()\<close> where there is one and the error
  itself otherwise. The HTTP errors do implement \<^verbatim>\<open>Cause\<close>, and return nil.
\<close>

fun cause_method :: "goerr \<Rightarrow> goerr option option" where
  "cause_method (WithMessage e m) = Some (Some e)"
| "cause_method (WithStack e) = Some (Some e)"
| "cause_method (ClientError m u) = Some u"
| "cause_method (BatchHTTPError c p) = Some None"
| "cause_method (AuthHTTPError c m) = Some None"
| "cause_method _ = None"

definition ErrorCauser :: "goerr option \<Rightarrow> goerr option" where
  "ErrorCauser err = (case err of None \<Rightarrow> None
     | Some e \<Rightarrow> (case cause_method e of None \<Rightarrow> Some e | Some c \<Rightarrow> c))"

text \<open>
  The loop of \<^verbatim>\<open>errors.Cause\<close>: follow \<^verbatim>\<open>Cause()\<close> until the error is nil or has no such method.
\<close>

lemma cause_method_size: "cause_method e = Some (Some e') \<Longrightarrow> size e' < size e"
  by (induction e rule: cause_method.induct) auto

function Cause :: "goerr option \<Rightarrow> goerr option" where
  "Cause err = (case err of None \<Rightarrow> None
     | Some e \<Rightarrow> (case cause_method e of None \<Rightarrow> Some e | Some c \<Rightarrow> Cause c))"
  by pat_completeness auto
termination
  by (relation "measure (\<lambda>err. case err of None \<Rightarrow> 0 | Some e \<Rightarrow> Suc (size e))")
    (auto split: option.splits dest: cause_method_size)

declare Cause.simps [simp del]

lemma Cause_simps [simp]:
  "Cause None = None"
  "Cause (Some (Sentinel s)) = Some (Sentinel s)"
  "Cause (Some (Fundamental m)) = Some (Fundamental m)"
  "Cause (Some (WithMessage e m)) = Cause (Some e)"
  "Cause (Some (WithStack e)) = Cause (Some e)"
  "Cause (Some (ClientError m u)) = Cause u"
  "Cause (Some (BatchHTTPError c p)) = None"
  "Cause (Some (AuthHTTPError c m)) = None"
  "Cause (Some (OSError n m)) = Some (OSError n m)"
  "Cause (Some (ShowHelp m)) = Some (ShowHelp m)"
  by (simp_all add: Cause.simps)

text \<open>A cause is a root: it has no \<^verbatim>\<open>Cause\<close> method itself.\<close>

lemma Cause_root: "Cause err = Some r \<Longrightarrow> cause_method r = None"
proof (induction err rule: Cause.induct)
  case (1 err)
  then show ?case
    by (auto simp: Cause.simps [of err] split: option.splits)
qed

lemma Cause_step: "Cause (ErrorCauser err) = Cause err"
  by (cases err; simp add: ErrorCauser_def)
    (subst (2) Cause.simps, auto simp: Cause.simps split: option.splits)

text \<open>The chain never ends in an HTTP error of the clients: their \<^verbatim>\<open>Cause\<close> is nil.\<close>

lemma Cause_not_http:
  "Cause err \<noteq> Some (BatchHTTPError c p)" "Cause err \<noteq> Some (AuthHTTPError c m)"
  by (auto dest: Cause_root)

text \<open>The text of the cause ends the text of the whole chain.\<close>

lemma Cause_text_suffix: "Cause (Some e) = Some r \<Longrightarrow> \<exists>pre. error_text e = pre @ error_text r"
proof (induction e rule: error_text.induct)
  case (3 e m)
  then obtain pre where "error_text e = pre @ error_text r" by auto
  then show ?case by (intro exI [of _ "m @ '': '' @ pre"]) simp
next
  case (5 m e)
  then obtain pre where "error_text e = pre @ error_text r" by auto
  then show ?case by (intro exI [of _ "m @ '': '' @ pre"]) simp
qed auto

end
