(* ===== verification/Go_Encoding.thy ===== *)
theory Go_Encoding
  imports Go_Errors
begin

text \<open>
  Bytes as text: \<^verbatim>\<open>encoding/hex\<close> (the keys of chunks) and \<^verbatim>\<open>encoding/base64\<close> (byte slices in
  JSON, the output of a failed process), both ways, with the errors of the decoders.
\<close>

abbreviation byte_val :: "char \<Rightarrow> nat" where
  "byte_val c \<equiv> of_char c"

section \<open>Hexadecimal\<close>

definition hex_digit :: "nat \<Rightarrow> char" where
  "hex_digit n = (if n < 10 then char_of (48 + n) else char_of (87 + n))"

definition hex_val :: "char \<Rightarrow> nat option" where
  "hex_val c = (let v = byte_val c in
     if 48 \<le> v \<and> v \<le> 57 then Some (v - 48)
     else if 97 \<le> v \<and> v \<le> 102 then Some (v - 87)
     else if 65 \<le> v \<and> v \<le> 70 then Some (v - 55)
     else None)"

fun hex_encode :: "string \<Rightarrow> string" where
  "hex_encode [] = []"
| "hex_encode (b # bs) = hex_digit (byte_val b div 16) # hex_digit (byte_val b mod 16) # hex_encode bs"

definition ErrLength :: goerr where
  "ErrLength = Fundamental ''encoding/hex: odd length hex string''"

definition InvalidByteError :: goerr where
  "InvalidByteError = Fundamental ''encoding/hex: invalid byte''"

fun hex_pairs :: "string \<Rightarrow> goerr + string" where
  "hex_pairs [] = Inr []"
| "hex_pairs [_] = Inl ErrLength"
| "hex_pairs (a # b # cs) =
     (case (hex_val a, hex_val b) of
        (Some x, Some y) \<Rightarrow> (case hex_pairs cs of Inl e \<Rightarrow> Inl e | Inr bs \<Rightarrow> Inr (char_of (x * 16 + y) # bs))
      | _ \<Rightarrow> Inl InvalidByteError)"

text \<open>\<^verbatim>\<open>hex.DecodeString\<close>: the length is checked first.\<close>

definition hex_decode :: "string \<Rightarrow> goerr + string" where
  "hex_decode s = (if odd (length s) then Inl ErrLength else hex_pairs s)"

lemma hex_val_digit [simp]: "n < 16 \<Longrightarrow> hex_val (hex_digit n) = Some n"
  by (auto simp: hex_val_def hex_digit_def Let_def)

lemma length_hex_encode [simp]: "length (hex_encode bs) = 2 * length bs"
  by (induction bs) auto

lemma hex_pairs_encode: "hex_pairs (hex_encode bs) = Inr bs"
  by (induction bs) (auto simp: less_mult_imp_div_less)

lemma hex_roundtrip [simp]: "hex_decode (hex_encode bs) = Inr bs"
  by (simp add: hex_decode_def hex_pairs_encode)

lemma hex_encode_inj: "hex_encode a = hex_encode b \<longleftrightarrow> a = b"
  by (metis hex_roundtrip sum.inject(2))

lemma hex_digit_not_newline [bytes_simps]: "n < 16 \<Longrightarrow> hex_digit n \<noteq> CHR 10" "n < 16 \<Longrightarrow> hex_digit n \<noteq> CHR 13"
  by (auto simp: hex_digit_def simp flip: of_char_eq_iff [where ?'a = nat])

lemma hex_encode_no_newline [bytes_simps]: "CHR 10 \<notin> set (hex_encode bs)" "CHR 13 \<notin> set (hex_encode bs)"
  by (induction bs) (simp_all add: hex_digit_not_newline [symmetric] less_mult_imp_div_less)

section \<open>Base 64\<close>

definition b64_alphabet :: string where
  "b64_alphabet = ''ABCDEFGHIJKLMNOPQRSTUVWXYZabcdefghijklmnopqrstuvwxyz0123456789+/''"

abbreviation b64_digit :: "nat \<Rightarrow> char" where
  "b64_digit n \<equiv> b64_alphabet ! n"

definition b64_val :: "char \<Rightarrow> nat option" where
  "b64_val c = map_of (zip b64_alphabet [0..<64]) c"

abbreviation pad :: char where
  "pad \<equiv> CHR ''=''"

text \<open>\<^verbatim>\<open>base64.StdEncoding.EncodeToString\<close>: three bytes give four digits, the rest is padded.\<close>

fun b64_encode :: "string \<Rightarrow> string" where
  "b64_encode [] = []"
| "b64_encode [a] = [b64_digit (byte_val a div 4), b64_digit (byte_val a mod 4 * 16), pad, pad]"
| "b64_encode [a, b] = [b64_digit (byte_val a div 4), b64_digit (byte_val a mod 4 * 16 + byte_val b div 16),
     b64_digit (byte_val b mod 16 * 4), pad]"
| "b64_encode (a # b # c # cs) =
     b64_digit (byte_val a div 4) # b64_digit (byte_val a mod 4 * 16 + byte_val b div 16) #
     b64_digit (byte_val b mod 16 * 4 + byte_val c div 64) # b64_digit (byte_val c mod 64) # b64_encode cs"

definition CorruptInputError :: goerr where
  "CorruptInputError = Fundamental ''illegal base64 data''"

fun b64_quads :: "string \<Rightarrow> goerr + string" where
  "b64_quads [] = Inr []"
| "b64_quads (w # x # y # z # cs) =
     (case (b64_val w, b64_val x) of
        (Some p, Some q) \<Rightarrow>
          (if y = pad \<and> z = pad \<and> cs = [] then Inr [char_of (p * 4 + q div 16)]
           else (case b64_val y of None \<Rightarrow> Inl CorruptInputError
             | Some r \<Rightarrow>
               (if z = pad \<and> cs = [] then Inr [char_of (p * 4 + q div 16), char_of (q mod 16 * 16 + r div 4)]
                else (case b64_val z of None \<Rightarrow> Inl CorruptInputError
                  | Some s \<Rightarrow> (case b64_quads cs of Inl e \<Rightarrow> Inl e
                     | Inr bs \<Rightarrow> Inr (char_of (p * 4 + q div 16) # char_of (q mod 16 * 16 + r div 4)
                                   # char_of (r mod 4 * 64 + s) # bs))))))
      | _ \<Rightarrow> Inl CorruptInputError)"
| "b64_quads _ = Inl CorruptInputError"

text \<open>The decoder skips line breaks.\<close>

definition b64_decode :: "string \<Rightarrow> goerr + string" where
  "b64_decode s = b64_quads (filter (\<lambda>c. c \<noteq> CHR 10 \<and> c \<noteq> CHR 13) s)"

lemma b64_alphabet_length [simp]: "length b64_alphabet = 64"
  by (simp add: b64_alphabet_def)

lemma b64_alphabet_distinct: "distinct b64_alphabet"
  by code_simp

lemma b64_alphabet_members [bytes_simps]: "c \<in> set b64_alphabet \<Longrightarrow> c \<noteq> pad \<and> c \<noteq> CHR 10 \<and> c \<noteq> CHR 13"
  by (auto simp: b64_alphabet_def)

lemma b64_val_digit [simp]: "n < 64 \<Longrightarrow> b64_val (b64_digit n) = Some n"
  using map_of_zip_nth [OF _ b64_alphabet_distinct, of "[0..<64]" n]
  by (simp add: b64_val_def)

lemma b64_digit_other [simp]:
  "n < 64 \<Longrightarrow> b64_digit n \<noteq> pad" "n < 64 \<Longrightarrow> b64_digit n \<noteq> CHR 10" "n < 64 \<Longrightarrow> b64_digit n \<noteq> CHR 13"
  using b64_alphabet_members [OF nth_mem [of n b64_alphabet]] by simp_all

lemma byte_parts [simp]:
  "byte_val b div 16 < 16" "byte_val b div 4 < 64" "byte_val b div 64 < 4"
  by (simp_all add: less_mult_imp_div_less)

lemma b64_bounds [simp]:
  "byte_val a mod 4 * 16 < 64" "byte_val b mod 16 * 4 < 64"
  "byte_val a mod 4 * 16 + byte_val b div 16 < 64" "byte_val b mod 16 * 4 + byte_val c div 64 < 64"
proof -
  have "byte_val a mod 4 < 4" "byte_val b mod 16 < 16" by simp_all
  moreover have "byte_val b div 16 \<le> 15" "byte_val c div 64 \<le> 3"
    using byte_parts(1) [of b] byte_parts(3) [of c] by linarith+
  ultimately show "byte_val a mod 4 * 16 < 64" "byte_val b mod 16 * 4 < 64"
    "byte_val a mod 4 * 16 + byte_val b div 16 < 64" "byte_val b mod 16 * 4 + byte_val c div 64 < 64"
    by linarith+
qed

lemma b64_clean: "filter (\<lambda>c. c \<noteq> CHR 10 \<and> c \<noteq> CHR 13) (b64_encode bs) = b64_encode bs"
  by (induction bs rule: b64_encode.induct) simp_all

lemma b64_bytes [simp]:
  "byte_val b div 16 div 16 = 0" "byte_val b div 16 mod 16 = byte_val b div 16"
  "byte_val c div 64 div 4 = 0" "byte_val c div 64 mod 4 = byte_val c div 64"
  by simp_all

lemma b64_quads_encode: "b64_quads (b64_encode bs) = Inr bs"
  by (induction bs rule: b64_encode.induct) simp_all

lemma b64_roundtrip [simp]: "b64_decode (b64_encode bs) = Inr bs"
  by (simp add: b64_decode_def b64_clean b64_quads_encode)

end
