(* ===== verification/Go_Path.thy ===== *)
theory Go_Path
  imports Go_Prelude
begin

text \<open>
  Slash-separated paths as Go's \<^verbatim>\<open>path\<close> and (on Unix) \<^verbatim>\<open>path/filepath\<close> treat them: \<^verbatim>\<open>Clean\<close>,
  \<^verbatim>\<open>Join\<close>, \<^verbatim>\<open>Base\<close>, \<^verbatim>\<open>Dir\<close>, \<^verbatim>\<open>Ext\<close>. Request paths (\<^verbatim>\<open>createPath\<close>), object keys and the names of
  unpacked files are built with them, so whether a component can climb with \<open>..\<close> decides
  where a request or a file ends up.
\<close>

abbreviation slash :: char where
  "slash \<equiv> CHR ''/''"

abbreviation join_slash :: "string list \<Rightarrow> string" where
  "join_slash \<equiv> join_with ''/''"

section \<open>\<open>Clean\<close> and \<open>Join\<close>\<close>

text \<open>
  The elements of the cleaned path; the second argument is the output so far, last element
  first. \<open>..\<close> takes back an element; at the start of a relative path it is kept, at the root
  it is dropped.
\<close>

fun clean_elems :: "bool \<Rightarrow> string list \<Rightarrow> string list \<Rightarrow> string list" where
  "clean_elems rooted out [] = rev out"
| "clean_elems rooted out (c # cs) =
     (if c = [] \<or> c = ''.'' then clean_elems rooted out cs
      else if c = ''..'' then
        (case out of
           [] \<Rightarrow> if rooted then clean_elems rooted [] cs else clean_elems rooted [c] cs
         | x # xs \<Rightarrow> if x = ''..'' then clean_elems rooted (c # out) cs else clean_elems rooted xs cs)
      else clean_elems rooted (c # out) cs)"

definition Clean :: "string \<Rightarrow> string" where
  "Clean p =
     (if p = [] then ''.''
      else let rooted = (hd p = slash); out = clean_elems rooted [] (split_on slash p) in
        if rooted then slash # join_slash out
        else if out = [] then ''.'' else join_slash out)"

text \<open>\<^verbatim>\<open>path.Join\<close>: empty elements before the first non-empty one are dropped.\<close>

definition Join :: "string list \<Rightarrow> string" where
  "Join elem = (case dropWhile (\<lambda>e. e = []) elem of [] \<Rightarrow> [] | es \<Rightarrow> Clean (join_slash es))"

section \<open>\<open>Base\<close>, \<open>Dir\<close>, \<open>Ext\<close>\<close>

definition strip_trailing :: "string \<Rightarrow> string" where
  "strip_trailing p = rev (dropWhile (\<lambda>c. c = slash) (rev p))"

definition Base :: "string \<Rightarrow> string" where
  "Base p =
     (if p = [] then ''.''
      else let b = last (split_on slash (strip_trailing p)) in if b = [] then ''/'' else b)"

text \<open>Everything up to the last slash, cleaned.\<close>

definition Dir :: "string \<Rightarrow> string" where
  "Dir p = Clean (rev (dropWhile (\<lambda>c. c \<noteq> slash) (rev p)))"

text \<open>From the last dot of the last element, the dot included.\<close>

definition Ext :: "string \<Rightarrow> string" where
  "Ext p = (let b = last (split_on slash p) in
     if CHR ''.'' \<in> set b then CHR ''.'' # last (split_on CHR ''.'' b) else [])"

section \<open>Plain elements\<close>

text \<open>An element that \<^verbatim>\<open>Clean\<close> keeps as it is.\<close>

definition plain :: "string \<Rightarrow> bool" where
  "plain e \<longleftrightarrow> e \<noteq> [] \<and> e \<noteq> ''.'' \<and> e \<noteq> ''..'' \<and> slash \<notin> set e"

lemma plainD:
  "plain e \<Longrightarrow> e \<noteq> []" "plain e \<Longrightarrow> e \<noteq> ''.''" "plain e \<Longrightarrow> e \<noteq> ''..''" "plain e \<Longrightarrow> slash \<notin> set e"
  by (auto simp: plain_def)

lemma plain_int_text [simp]: "plain (int_text i)"
proof -
  have dots: "CHR ''.'' \<notin> set (int_text i)" by simp
  have "e \<noteq> ''.'' \<and> e \<noteq> ''..''" if "CHR ''.'' \<notin> set e" for e :: string
    using that by (cases e) auto
  from this [OF dots] show ?thesis by (simp add: plain_def)
qed

lemma clean_elems_plain:
  "list_all plain cs \<Longrightarrow> clean_elems rooted out (cs @ ds) = clean_elems rooted (rev cs @ out) ds"
  by (induction cs arbitrary: out) (auto simp: plain_def)

lemma clean_elems_plain_all [simp]:
  "list_all plain cs \<Longrightarrow> clean_elems rooted out cs = rev out @ cs"
  using clean_elems_plain [of cs rooted out "[]"] by simp

lemma plain_split:
  "es \<noteq> [] \<Longrightarrow> list_all plain es \<Longrightarrow> split_on slash (join_slash es) = es"
  by (rule split_on_join) (auto simp: list_all_iff plain_def)

lemma join_slash_hd: "es \<noteq> [] \<Longrightarrow> list_all plain es \<Longrightarrow> join_slash es \<noteq> [] \<and> hd (join_slash es) \<noteq> slash"
proof (cases es)
  case (Cons e rest)
  assume "list_all plain es"
  with Cons have e: "e \<noteq> []" "slash \<notin> set e" by (auto simp: plain_def)
  then have "hd e \<noteq> slash" using hd_in_set by fastforce
  with e Cons show ?thesis by (cases rest) auto
qed simp

lemma Clean_plain: "es \<noteq> [] \<Longrightarrow> list_all plain es \<Longrightarrow> Clean (join_slash es) = join_slash es"
  using join_slash_hd [of es] by (simp add: Clean_def plain_split)

lemma Join_plain: "es \<noteq> [] \<Longrightarrow> list_all plain es \<Longrightarrow> Join es = join_slash es"
  by (cases es) (auto simp: Join_def Clean_plain dest: plainD(1))

lemma join_slash_append:
  "xs \<noteq> [] \<Longrightarrow> ys \<noteq> [] \<Longrightarrow> join_slash (xs @ ys) = join_slash xs @ ''/'' @ join_slash ys"
proof (induction xs)
  case (Cons x xs)
  then show ?case by (cases xs) (simp_all add: join_with_cons)
qed simp

lemma split_join_slash_append:
  "xs \<noteq> [] \<Longrightarrow> split_on slash (join_slash xs @ ''/'' @ s) = concat (map (split_on slash) xs) @ split_on slash s"
proof (induction xs)
  case (Cons x xs)
  have split2: "split_on slash (a @ slash # b) = split_on slash a @ split_on slash b" for a b
  proof (induction a)
    case (Cons c cs)
    then show ?case by (cases "split_on slash cs") auto
  qed simp
  from Cons show ?case
    by (cases xs) (simp_all add: join_with_cons split2 del: split_on_append)
qed simp

lemma Join_snoc:
  "es \<noteq> [] \<Longrightarrow> list_all plain es \<Longrightarrow> plain e \<Longrightarrow> Join [join_slash es, e] = join_slash (es @ [e])"
  using join_slash_hd [of es] Clean_plain [of "es @ [e]"] by (simp add: Join_def join_slash_append)

text \<open>Distinct lists of plain elements give distinct paths.\<close>

lemma join_slash_inj:
  "es \<noteq> [] \<Longrightarrow> fs \<noteq> [] \<Longrightarrow> list_all plain es \<Longrightarrow> list_all plain fs \<Longrightarrow>
     join_slash es = join_slash fs \<longleftrightarrow> es = fs"
  by (metis plain_split)

text \<open>
  \<^verbatim>\<open>Join\<close> under a plain directory: the rest is cleaned on top of the directory's elements.
\<close>

lemma Join_under:
  assumes "es \<noteq> []" and "list_all plain es" and "s \<noteq> []"
  shows "Join [join_slash es, s] =
    (let out = clean_elems False (rev es) (split_on slash s)
     in if out = [] then ''.'' else join_slash out)"
proof -
  have conc: "concat (map (split_on slash) es) = es"
    using assms(2) by (induction es) (auto simp: plain_def)
  have "Join [join_slash es, s] = Clean (join_slash es @ ''/'' @ s)"
    using join_slash_hd [OF assms(1,2)] assms(3) by (simp add: Join_def)
  moreover have "hd (join_slash es @ ''/'' @ s) \<noteq> slash"
    using join_slash_hd [OF assms(1,2)] by simp
  moreover have "split_on slash (join_slash es @ ''/'' @ s) = es @ split_on slash s"
    using split_join_slash_append [OF assms(1), of s] conc by simp
  ultimately show ?thesis
    using assms(2) by (simp add: Clean_def Let_def clean_elems_plain)
qed

end
