(* ===== verification/Go_Url.thy ===== *)
theory Go_Url
  imports Go_Encoding Go_Path
begin

text \<open>
  The part of \<^verbatim>\<open>net/url\<close> the API clients use: parsing of the reference a client method builds,
  and its resolution against the base URL (\<^verbatim>\<open>url.Parse\<close>, \<^verbatim>\<open>URL.ResolveReference\<close>,
  \<^verbatim>\<open>URL.EscapedPath\<close>). A reference that starts with two slashes (an authority) is left out: no
  client method builds one, since every path starts with a constant segment. User information
  and query re-encoding are left out too.
\<close>

record url =
  Scheme :: string
  Opaque :: string
  Host :: string
  Path :: string
  RawPath :: string
  ForceQuery :: bool
  RawQuery :: string
  Fragment :: string

definition empty_url :: url where
  "empty_url = \<lparr>Scheme = [], Opaque = [], Host = [], Path = [], RawPath = [], ForceQuery = False,
     RawQuery = [], Fragment = []\<rparr>"

section \<open>Escaping\<close>

definition is_alnum :: "char \<Rightarrow> bool" where
  "is_alnum c = (let v = byte_val c in 48 \<le> v \<and> v \<le> 57 \<or> 65 \<le> v \<and> v \<le> 90 \<or> 97 \<le> v \<and> v \<le> 122)"

definition is_alpha :: "char \<Rightarrow> bool" where
  "is_alpha c = (let v = byte_val c in 65 \<le> v \<and> v \<le> 90 \<or> 97 \<le> v \<and> v \<le> 122)"

text \<open>\<^verbatim>\<open>shouldEscape(c, encodePath)\<close> is the negation.\<close>

definition path_char :: "char \<Rightarrow> bool" where
  "path_char c \<longleftrightarrow> is_alnum c \<or> c \<in> set ''-_.~$&+,/:;=@''"

definition upper_hex :: "nat \<Rightarrow> char" where
  "upper_hex n = (if n < 10 then char_of (48 + n) else char_of (55 + n))"

fun escape_path :: "string \<Rightarrow> string" where
  "escape_path [] = []"
| "escape_path (c # cs) =
     (if path_char c then c # escape_path cs
      else CHR ''%'' # upper_hex (byte_val c div 16) # upper_hex (byte_val c mod 16) # escape_path cs)"

definition EscapeError :: "string \<Rightarrow> goerr" where
  "EscapeError s = Fundamental (''invalid URL escape '' @ [CHR 34] @ s @ [CHR 34])"

fun unescape :: "string \<Rightarrow> goerr + string" where
  "unescape [] = Inr []"
| "unescape (c # cs) =
     (if c \<noteq> CHR ''%'' then (case unescape cs of Inl e \<Rightarrow> Inl e | Inr s \<Rightarrow> Inr (c # s))
      else (case cs of
          a # b # ds \<Rightarrow> (case (hex_val a, hex_val b) of
              (Some x, Some y) \<Rightarrow> (case unescape ds of Inl e \<Rightarrow> Inl e | Inr s \<Rightarrow> Inr (char_of (x * 16 + y) # s))
            | _ \<Rightarrow> Inl (EscapeError [c, a, b]))
        | _ \<Rightarrow> Inl (EscapeError (c # cs))))"

fun valid_encoded :: "string \<Rightarrow> bool" where
  "valid_encoded [] = True"
| "valid_encoded (c # cs) \<longleftrightarrow> (path_char c \<or> c \<in> set ''!$&()*+,;=:@[]%'' \<or> c = CHR 39) \<and> valid_encoded cs"

definition EscapedPath :: "url \<Rightarrow> string" where
  "EscapedPath u =
     (if RawPath u \<noteq> [] \<and> valid_encoded (RawPath u) \<and> unescape (RawPath u) = Inr (Path u) then RawPath u
      else if Path u = ''*'' then ''*''
      else escape_path (Path u))"

definition setPath :: "string \<Rightarrow> url \<Rightarrow> goerr + url" where
  "setPath p u = (case unescape p of Inl e \<Rightarrow> Inl e
     | Inr path \<Rightarrow> Inr (u\<lparr>Path := path, RawPath := (if p = escape_path path then [] else p)\<rparr>))"

section \<open>Parsing a reference\<close>

text \<open>Before and after the first occurrence of a character, which is dropped.\<close>

definition cut :: "char \<Rightarrow> string \<Rightarrow> string \<times> string" where
  "cut c s = (takeWhile (\<lambda>x. x \<noteq> c) s, drop 1 (dropWhile (\<lambda>x. x \<noteq> c) s))"

text \<open>\<^verbatim>\<open>getscheme\<close>: letters, then letters, digits, \<open>+\<close>, \<open>-\<close>, \<open>.\<close>, up to a colon.\<close>

definition scheme_char :: "char \<Rightarrow> bool" where
  "scheme_char c \<longleftrightarrow> is_alnum c \<or> c \<in> set ''+-.''"

definition getscheme :: "string \<Rightarrow> goerr + string \<times> string" where
  "getscheme s = (let (a, b) = (takeWhile scheme_char s, dropWhile scheme_char s) in
     if a \<noteq> [] \<and> \<not> is_alpha (hd a) then Inr ([], s)
     else case b of
         [] \<Rightarrow> Inr ([], s)
       | c # cs \<Rightarrow> if c \<noteq> CHR '':'' then Inr ([], s)
                  else if a = [] then Inl (Fundamental ''missing protocol scheme'')
                  else Inr (a, cs))"

definition authority_error :: goerr where
  "authority_error = Fundamental ''reference with an authority''"

definition parse_rest :: "string \<Rightarrow> goerr + url" where
  "parse_rest s =
     (if s = ''*'' then Inr (empty_url\<lparr>Path := ''*''\<rparr>)
      else case getscheme s of Inl e \<Rightarrow> Inl e
      | Inr (scheme, rest) \<Rightarrow>
         let (rest, fq, rq) =
               (if has_suffix rest ''?'' \<and> count_list rest CHR ''?'' = 1
                then (butlast rest, True, []) else let (r, q) = cut CHR ''?'' rest in (r, False, q));
             u = empty_url\<lparr>Scheme := scheme, ForceQuery := fq, RawQuery := rq\<rparr>
         in if has_prefix rest ''//'' then Inl authority_error
            else if \<not> has_prefix rest ''/'' \<and> scheme \<noteq> [] then Inr (u\<lparr>Opaque := rest\<rparr>)
            else if \<not> has_prefix rest ''/'' \<and> CHR '':'' \<in> set (fst (cut slash rest))
              then Inl (Fundamental ''first path segment in URL cannot contain colon'')
            else setPath rest u)"

definition url_Parse :: "string \<Rightarrow> goerr + url" where
  "url_Parse rawurl = (let (s, frag) = cut CHR ''#'' rawurl in
     case parse_rest s of Inl e \<Rightarrow> Inl e
     | Inr u \<Rightarrow> (case unescape frag of Inl e \<Rightarrow> Inl e | Inr f \<Rightarrow> Inr (u\<lparr>Fragment := f\<rparr>)))"

section \<open>Resolving against a base\<close>

fun dot_segments :: "string list \<Rightarrow> string list \<Rightarrow> string list" where
  "dot_segments dst [] = rev dst"
| "dot_segments dst (e # es) =
     (if e = ''.'' then dot_segments dst es
      else if e = ''..'' then dot_segments (tl dst) es
      else dot_segments (e # dst) es)"

text \<open>The part of a base path up to its last slash.\<close>

definition upto_slash :: "string \<Rightarrow> string" where
  "upto_slash b = rev (dropWhile (\<lambda>c. c \<noteq> slash) (rev b))"

definition resolvePath :: "string \<Rightarrow> string \<Rightarrow> string" where
  "resolvePath base ref =
     (let full = (if ref = [] then base else if hd ref \<noteq> slash then upto_slash base @ ref else ref);
          src = split_on slash full;
          dst = dot_segments [] src @ (if last src = ''.'' \<or> last src = ''..'' then [[]] else [])
      in if full = [] then [] else slash # trim_prefix (join_slash dst) ''/'')"

definition ResolveReference :: "url \<Rightarrow> url \<Rightarrow> url" where
  "ResolveReference u ref =
     (let set_path = (\<lambda>p r. case setPath p r of Inr r' \<Rightarrow> r' | Inl _ \<Rightarrow> r);
          r = (if Scheme ref = [] then ref\<lparr>Scheme := Scheme u\<rparr> else ref)
      in if Scheme ref \<noteq> [] \<or> Host ref \<noteq> [] then set_path (resolvePath (EscapedPath ref) []) r
         else if Opaque ref \<noteq> [] then r\<lparr>Host := [], Path := []\<rparr>
         else let r = (if Path ref = [] \<and> RawQuery ref = []
                       then r\<lparr>RawQuery := RawQuery u, Fragment := (if Fragment ref = [] then Fragment u else Fragment ref)\<rparr>
                       else r)
              in set_path (resolvePath (EscapedPath u) (EscapedPath ref)) (r\<lparr>Host := Host u\<rparr>))"

section \<open>Paths that need no escaping\<close>

definition safe_char :: "char \<Rightarrow> bool" where
  "safe_char c \<longleftrightarrow> path_char c \<and> c \<noteq> slash"

text \<open>An element of a request path that goes over the wire as it is.\<close>

definition safe_elem :: "string \<Rightarrow> bool" where
  "safe_elem e \<longleftrightarrow> e \<noteq> [] \<and> e \<noteq> ''.'' \<and> e \<noteq> ''..'' \<and> list_all safe_char e"

lemma safe_plain: "safe_elem e \<Longrightarrow> plain e"
  by (auto simp: safe_elem_def plain_def safe_char_def list_all_iff)

lemma path_char_not [simp]: "\<not> path_char CHR ''%''" "\<not> path_char CHR ''?''" "\<not> path_char CHR ''#''"
  by (simp_all add: path_char_def is_alnum_def)

lemma escape_path_id: "list_all path_char s \<Longrightarrow> escape_path s = s"
  by (induction s) auto

lemma unescape_id: "list_all path_char s \<Longrightarrow> unescape s = Inr s"
proof (induction s)
  case (Cons c cs)
  then have "c \<noteq> CHR ''%''" using path_char_not(1) by auto
  with Cons show ?case by simp
qed simp

lemma setPath_id: "list_all path_char s \<Longrightarrow> setPath s u = Inr (u\<lparr>Path := s, RawPath := []\<rparr>)"
  by (simp add: setPath_def unescape_id escape_path_id)

lemma EscapedPath_id:
  "list_all path_char (Path u) \<Longrightarrow> RawPath u = [] \<Longrightarrow> EscapedPath u = Path u"
  by (simp add: EscapedPath_def escape_path_id)

lemma path_char_slash [simp]: "path_char slash"
  by (simp add: path_char_def)

lemma safe_elem_path_char: "safe_elem e \<Longrightarrow> list_all path_char e"
  by (auto simp: safe_elem_def safe_char_def elim: list.pred_mono_strong)

lemma safe_elems_path_char: "list_all safe_elem es \<Longrightarrow> list_all path_char (join_slash es)"
proof (induction es rule: induct_list012)
  case (3 x y zs)
  then have "list_all path_char x" "list_all path_char (join_slash (y # zs))"
    by (auto intro: safe_elem_path_char)
  then show ?case by simp
qed (simp_all add: safe_elem_path_char)

lemma cut_absent [simp]:
  assumes "c \<notin> set s"
  shows "cut c s = (s, [])"
proof -
  have "\<forall>x\<in>set s. x \<noteq> c" using assms by auto
  then have "takeWhile (\<lambda>x. x \<noteq> c) s = s" "dropWhile (\<lambda>x. x \<noteq> c) s = []"
    by (simp_all only: takeWhile_eq_all_conv dropWhile_eq_Nil_conv)
  then show ?thesis unfolding cut_def by (simp only: drop_Nil)
qed

lemma dot_segments_plain:
  "list_all (\<lambda>e. e \<noteq> ''.'' \<and> e \<noteq> ''..'') es \<Longrightarrow> dot_segments dst es = rev dst @ es"
  by (induction es arbitrary: dst) auto

end
