(* ===== verification/Go_Json.thy ===== *)
theory Go_Json
  imports Go_Errors
begin

text \<open>
  JSON documents and the rules by which \<^verbatim>\<open>encoding/json\<close> stores them into Go structs. A document
  is its value; the text level (white space, escapes) is left out, strings are taken to be valid
  UTF-8, and a string literal that holds an RFC 3339 time is kept as the instant, in nanoseconds
  since 1970. Struct decoding follows the package: keys in the order of the document, an exact
  match of the field name before a match up to letter case, unknown keys skipped, \<open>null\<close>
  without effect, fields without a key left as they were, and an error for a value of another
  type. Letter case is that of ASCII.
\<close>

datatype json =
    JNull
  | JBool bool
  | JNum int
  | JFrac string \<comment> \<open>a number literal that is not an integer literal\<close>
  | JStr string
  | JTime int
  | JArr "json list"
  | JObj "(string \<times> json) list"

definition json_type_error :: goerr where
  "json_type_error = Fundamental ''json: cannot unmarshal value into Go struct field''"

definition json_syntax_error :: goerr where
  "json_syntax_error = Fundamental ''unexpected end of JSON input''"

section \<open>Matching of keys\<close>

definition fold_char :: "char \<Rightarrow> char" where
  "fold_char c = (if 65 \<le> (of_char c :: nat) \<and> (of_char c :: nat) \<le> 90
                  then char_of (of_char c + 32 :: nat) else c)"

definition fold_eq :: "string \<Rightarrow> string \<Rightarrow> bool" where
  "fold_eq a b \<longleftrightarrow> map fold_char a = map fold_char b"

type_synonym 'r setter = "json \<Rightarrow> 'r \<Rightarrow> goerr + 'r"
type_synonym 'r fields = "(string \<times> 'r setter) list"

definition find_field :: "'r fields \<Rightarrow> string \<Rightarrow> 'r setter option" where
  "find_field fs k = (case map_of fs k of Some d \<Rightarrow> Some d
     | None \<Rightarrow> map_option snd (find (\<lambda>(n, _). fold_eq n k) fs))"

section \<open>Decoding\<close>

fun decode_members :: "'r fields \<Rightarrow> (string \<times> json) list \<Rightarrow> 'r \<Rightarrow> goerr + 'r" where
  "decode_members fs [] r = Inr r"
| "decode_members fs ((k, v) # kvs) r =
     (case find_field fs k of None \<Rightarrow> decode_members fs kvs r
      | Some d \<Rightarrow> (case d v r of Inl e \<Rightarrow> Inl e | Inr r' \<Rightarrow> decode_members fs kvs r'))"

definition decode_struct :: "'r fields \<Rightarrow> json \<Rightarrow> 'r \<Rightarrow> goerr + 'r" where
  "decode_struct fs j r = (case j of JObj kvs \<Rightarrow> decode_members fs kvs r | JNull \<Rightarrow> Inr r
     | _ \<Rightarrow> Inl json_type_error)"

text \<open>Setters for the field types of the repository; \<open>upd\<close> is the record update.\<close>

definition set_str :: "(string \<Rightarrow> 'r \<Rightarrow> 'r) \<Rightarrow> 'r setter" where
  "set_str upd j r = (case j of JStr s \<Rightarrow> Inr (upd s r) | JNull \<Rightarrow> Inr r | _ \<Rightarrow> Inl json_type_error)"

definition set_bool :: "(bool \<Rightarrow> 'r \<Rightarrow> 'r) \<Rightarrow> 'r setter" where
  "set_bool upd j r = (case j of JBool b \<Rightarrow> Inr (upd b r) | JNull \<Rightarrow> Inr r | _ \<Rightarrow> Inl json_type_error)"

definition set_int :: "(int \<Rightarrow> 'r \<Rightarrow> 'r) \<Rightarrow> 'r setter" where
  "set_int upd j r = (case j of JNum n \<Rightarrow> if in_int64 n then Inr (upd n r) else Inl json_type_error
     | JNull \<Rightarrow> Inr r | _ \<Rightarrow> Inl json_type_error)"

definition set_time :: "(int \<Rightarrow> 'r \<Rightarrow> 'r) \<Rightarrow> 'r setter" where
  "set_time upd j r = (case j of JTime t \<Rightarrow> Inr (upd t r) | JNull \<Rightarrow> Inr r | _ \<Rightarrow> Inl json_type_error)"

definition set_struct :: "'f fields \<Rightarrow> ('r \<Rightarrow> 'f) \<Rightarrow> ('f \<Rightarrow> 'r \<Rightarrow> 'r) \<Rightarrow> 'r setter" where
  "set_struct fs get upd j r = (case decode_struct fs j (get r) of Inl e \<Rightarrow> Inl e | Inr x \<Rightarrow> Inr (upd x r))"

text \<open>A slice of element type \<open>'x\<close>: decoding replaces it; \<open>null\<close> makes it nil.\<close>

fun decode_elems :: "(json \<Rightarrow> goerr + 'x) \<Rightarrow> json list \<Rightarrow> goerr + 'x list" where
  "decode_elems d [] = Inr []"
| "decode_elems d (j # js) = (case d j of Inl e \<Rightarrow> Inl e
     | Inr x \<Rightarrow> (case decode_elems d js of Inl e \<Rightarrow> Inl e | Inr xs \<Rightarrow> Inr (x # xs)))"

definition set_slice :: "(json \<Rightarrow> goerr + 'x) \<Rightarrow> ('x list \<Rightarrow> 'r \<Rightarrow> 'r) \<Rightarrow> 'r setter" where
  "set_slice d upd j r = (case j of
       JArr js \<Rightarrow> (case decode_elems d js of Inl e \<Rightarrow> Inl e | Inr xs \<Rightarrow> Inr (upd xs r))
     | JNull \<Rightarrow> Inr (upd [] r)
     | _ \<Rightarrow> Inl json_type_error)"

definition elem_str :: "json \<Rightarrow> goerr + string" where
  "elem_str j = (case j of JStr s \<Rightarrow> Inr s | JNull \<Rightarrow> Inr [] | _ \<Rightarrow> Inl json_type_error)"

text \<open>A \<^verbatim>\<open>map[string]string\<close>, kept as the list of its members.\<close>

definition set_strmap :: "((string \<times> string) list \<Rightarrow> 'r \<Rightarrow> 'r) \<Rightarrow> 'r setter" where
  "set_strmap upd j r = (case j of
       JObj kvs \<Rightarrow> (case decode_elems elem_str (map snd kvs) of Inl e \<Rightarrow> Inl e
                     | Inr vs \<Rightarrow> Inr (upd (zip (map fst kvs) vs) r))
     | JNull \<Rightarrow> Inr (upd [] r)
     | _ \<Rightarrow> Inl json_type_error)"

lemmas setter_defs = set_str_def set_bool_def set_int_def set_time_def set_struct_def
  set_slice_def elem_str_def set_strmap_def

section \<open>Encoding\<close>

text \<open>A member with the option \<^verbatim>\<open>omitempty\<close>.\<close>

definition omit_str :: "string \<Rightarrow> string \<Rightarrow> (string \<times> json) list" where
  "omit_str k s = (if s = [] then [] else [(k, JStr s)])"

text \<open>
  \<^verbatim>\<open>time.Time.MarshalJSON\<close> refuses a year outside \<open>[0, 9999]\<close> (here in UTC).
\<close>

definition time_min :: int where
  "time_min = -62167219200 * 1000000000"

definition time_max :: int where
  "time_max = 253402300800 * 1000000000"

definition encode_time :: "int \<Rightarrow> goerr + json" where
  "encode_time t = (if time_min \<le> t \<and> t < time_max then Inr (JTime t)
     else Inl (Fundamental ''Time.MarshalJSON: year outside of range [0,9999]''))"

section \<open>Lemmas\<close>

text \<open>What a setter can have done: the update with some value, or nothing.\<close>

lemma setterD:
  "set_str us v r = Inr r' \<Longrightarrow> r' = r \<or> (\<exists>s. r' = us s r)"
  "set_bool ub v r = Inr r' \<Longrightarrow> r' = r \<or> (\<exists>b. r' = ub b r)"
  "set_int ui v r = Inr r' \<Longrightarrow> r' = r \<or> (\<exists>n. r' = ui n r)"
  "set_time ui v r = Inr r' \<Longrightarrow> r' = r \<or> (\<exists>n. r' = ui n r)"
  "set_struct fs get ux v r = Inr r' \<Longrightarrow> r' = r \<or> (\<exists>x. r' = ux x r)"
  by (auto simp: setter_defs split: json.splits sum.splits if_splits)

lemma decode_members_append:
  "decode_members fs (xs @ ys) r =
     (case decode_members fs xs r of Inl e \<Rightarrow> Inl e | Inr r' \<Rightarrow> decode_members fs ys r')"
  by (induction fs xs r rule: decode_members.induct) (auto split: option.splits sum.splits)

lemma find_field_exact: "map_of fs k = Some d \<Longrightarrow> find_field fs k = Some d"
  by (simp add: find_field_def)

text \<open>A key that names no field, not even up to case, has no effect.\<close>

lemma decode_unknown:
  "find_field fs k = None \<Longrightarrow> decode_members fs ((k, v) # kvs) r = decode_members fs kvs r"
  by simp

lemma decode_omit_str:
  assumes "map_of fs k = Some (set_str upd)" and "s = [] \<Longrightarrow> upd [] r = r"
  shows "decode_members fs (omit_str k s @ kvs) r = decode_members fs kvs (upd s r)"
  using assms by (simp add: omit_str_def find_field_exact set_str_def)

lemma decode_elems_map:
  "(\<And>x. x \<in> set xs \<Longrightarrow> d (e x) = Inr x) \<Longrightarrow> decode_elems d (map e xs) = Inr xs"
  by (induction xs) auto

end
