(* ===== verification/Http_Client.thy ===== *)
theory Http_Client
  imports Go_Url Go_Json "HOL-Library.Char_ord" "HOL-Library.List_Lexorder"
begin

text \<open>
  The request engine of the API clients: \<^verbatim>\<open>nerd/client/batch/v1/client.go\<close> and the three clients of
  \<^verbatim>\<open>nerd/client/auth/v1\<close>. The outside world is a state \<open>'w\<close>; a doer sends one request
  and returns a response, a provider hands out credentials. Both are arguments, since HTTP and the
  sources of credentials are not part of the clients. A request carries the resolved URL as a value
  (\<^verbatim>\<open>http.NewRequest\<close> prints and parses it again), a response body is what one call of the JSON
  decoder finds in it. Encoding never fails on the payloads of the API (strings, numbers, booleans,
  maps and slices of these), so the two error branches behind it are left out. The mutex makes one
  \<^verbatim>\<open>getJWT\<close> one step; logging is left out.
\<close>

section \<open>Requests and responses\<close>

datatype http_method = GET | POST | PUT | DELETE

datatype body = NoBody | JsonBody json | FormBody string

record http_request =
  Method :: http_method
  ReqURL :: url
  Header :: "(string \<times> string) list"
  ReqBody :: body

record http_response =
  StatusCode :: int
  Status :: string
  RespBody :: "goerr + json"

type_synonym 'w doer = "http_request \<Rightarrow> 'w \<Rightarrow> (goerr + http_response) \<times> 'w"

text \<open>\<^verbatim>\<open>JWTProvider\<close> and \<^verbatim>\<open>OAuthTokenProvider\<close> have the same two methods.\<close>

record 'w provider =
  IsExpired :: "'w \<Rightarrow> bool \<times> 'w"
  Retrieve :: "'w \<Rightarrow> (goerr + string) \<times> 'w"

text \<open>Where a response is decoded to: the zero value, and a decoder unless the output is nil.\<close>

type_synonym 'o target = "'o \<times> (json \<Rightarrow> 'o \<Rightarrow> goerr + 'o) option"

definition Decode :: "(json \<Rightarrow> 'r \<Rightarrow> goerr + 'r) \<Rightarrow> goerr + json \<Rightarrow> 'r \<Rightarrow> goerr + 'r" where
  "Decode d content r = (case content of Inl e \<Rightarrow> Inl e | Inr j \<Rightarrow> d j r)"

section \<open>Errors of the servers\<close>

definition batch_error_fields :: "api_error fields" where
  "batch_error_fields = [
     (''retry'', set_bool (\<lambda>b r. r\<lparr>Retry := b\<rparr>)),
     (''message'', set_str (\<lambda>s r. r\<lparr>Message := s\<rparr>)),
     (''trace'', set_slice elem_str (\<lambda>xs r. r\<lparr>Trace := xs\<rparr>)),
     (''fields'', set_strmap (\<lambda>xs r. r\<lparr>Fields := xs\<rparr>))]"

definition empty_api_error :: api_error where
  "empty_api_error = \<lparr>Retry = False, Message = [], Trace = [], Fields = []\<rparr>"

definition auth_error_fields :: "string fields" where
  "auth_error_fields = [(''error'', set_str (\<lambda>s _. s))]"

text \<open>
  The tail the four \<^verbatim>\<open>doRequest\<close> methods share: send, and turn the response into the output or
  an error. \<open>http_error\<close> is what an error status leads to.
\<close>

definition unexpected_text :: "http_response \<Rightarrow> string" where
  "unexpected_text resp = ''failed to decode unexpected HTTP response ('' @ Status resp @ '')''"

definition successfull_text :: "http_response \<Rightarrow> string" where
  "successfull_text resp = ''failed to decode successfull HTTP response ('' @ Status resp @ '')''"

definition finish_response ::
    "(int \<Rightarrow> goerr + json \<Rightarrow> goerr + goerr) \<Rightarrow> 'o target \<Rightarrow> http_response \<Rightarrow> goerr + 'o" where
  "finish_response http_error output resp =
     (if StatusCode resp > 399 then
        (case http_error (StatusCode resp) (RespBody resp) of
           Inl err \<Rightarrow> Inl (NewError (unexpected_text resp) (Some err))
         | Inr herr \<Rightarrow> Inl herr)
      else case snd output of
        None \<Rightarrow> Inr (fst output)
      | Some d \<Rightarrow> (case Decode d (RespBody resp) (fst output) of
           Inl err \<Rightarrow> Inl (NewError (successfull_text resp) (Some err))
         | Inr out \<Rightarrow> Inr out))"

definition send :: "'w doer \<Rightarrow> (int \<Rightarrow> goerr + json \<Rightarrow> goerr + goerr) \<Rightarrow> 'o target \<Rightarrow> http_request
    \<Rightarrow> 'w \<Rightarrow> (goerr + 'o) \<times> 'w" where
  "send exec http_error output req w =
     (case exec req w of
        (Inl err, w) \<Rightarrow> (Inl (NewError ''failed to create HTTP request'' (Some err)), w)
      | (Inr resp, w) \<Rightarrow> (finish_response http_error output resp, w))"

definition batch_http_error :: "int \<Rightarrow> goerr + json \<Rightarrow> goerr + goerr" where
  "batch_http_error status content =
     (case Decode (decode_struct batch_error_fields) content empty_api_error of
        Inl err \<Rightarrow> Inl err | Inr errv \<Rightarrow> Inr (BatchHTTPError status errv))"

definition auth_http_error :: "int \<Rightarrow> goerr + json \<Rightarrow> goerr + goerr" where
  "auth_http_error status content =
     (case Decode (decode_struct auth_error_fields) content [] of
        Inl err \<Rightarrow> Inl err | Inr errv \<Rightarrow> Inr (AuthHTTPError status errv))"

section \<open>The clients with credentials\<close>

text \<open>
  The batch client and the auth client differ in the texts and in the error payload only. The
  state of a call is the cached credential and the world.
\<close>

record 'w ClientConfig =
  Doer :: "'w doer"
  TokenProvider :: "'w provider option"
  BaseURL :: url

text \<open>\<^verbatim>\<open>NewClient\<close>, \<^verbatim>\<open>NewOpsClient\<close>, \<^verbatim>\<open>NewTokenClient\<close>: a base path ends in a slash.\<close>

definition with_slash :: "url \<Rightarrow> url" where
  "with_slash base = (if Path base \<noteq> [] \<and> last (Path base) \<noteq> slash
                      then base\<lparr>Path := Path base @ ''/''\<rparr> else base)"

definition NewClient :: "'w ClientConfig \<Rightarrow> 'w ClientConfig" where
  "NewClient conf = conf\<lparr>BaseURL := with_slash (BaseURL conf)\<rparr>"

definition get_credential :: "string \<Rightarrow> 'w provider option \<Rightarrow> string \<times> 'w
    \<Rightarrow> (goerr + string) \<times> (string \<times> 'w)" where
  "get_credential no_provider prov s = (case s of (cred, w) \<Rightarrow>
     (case prov of None \<Rightarrow> (Inl (Fundamental no_provider), cred, w)
      | Some p \<Rightarrow>
         let (stale, w) = (if cred = [] then (True, w) else IsExpired p w) in
         if stale then
           (case Retrieve p w of
              (Inl err, w) \<Rightarrow> (Inl err, cred, w)
            | (Inr new, w) \<Rightarrow> (Inr new, new, w))
         else (Inr cred, cred, w)))"

definition getJWT :: "'w ClientConfig \<Rightarrow> string \<times> 'w \<Rightarrow> (goerr + string) \<times> (string \<times> 'w)" where
  "getJWT c = get_credential ''No JWT provider found'' (TokenProvider c)"

definition getOAuthAccessToken :: "'w ClientConfig \<Rightarrow> string \<times> 'w \<Rightarrow> (goerr + string) \<times> (string \<times> 'w)" where
  "getOAuthAccessToken c = get_credential ''no oauth token provider provider found'' (TokenProvider c)"

text \<open>A body for an input that is not nil, unless the method is GET.\<close>

definition json_body :: "http_method \<Rightarrow> json option \<Rightarrow> body" where
  "json_body m input = (case input of None \<Rightarrow> NoBody | Some j \<Rightarrow> if m \<noteq> GET then JsonBody j else NoBody)"

definition AuthHeader :: string where
  "AuthHeader = ''Authorization''"

definition bearer_request :: "http_method \<Rightarrow> url \<Rightarrow> json option \<Rightarrow> string \<Rightarrow> http_request" where
  "bearer_request m u input cred =
     \<lparr>Method = m, ReqURL = u, Header = [(AuthHeader, ''Bearer '' @ cred)], ReqBody = json_body m input\<rparr>"

definition doRequest :: "'w ClientConfig \<Rightarrow> http_method \<Rightarrow> string \<Rightarrow> json option \<Rightarrow> 'o target
    \<Rightarrow> string \<times> 'w \<Rightarrow> (goerr + 'o) \<times> (string \<times> 'w)" where
  "doRequest c m urlPath input output =
     call (getJWT c) (\<lambda>err. err) (\<lambda>cred.
     check (url_Parse urlPath) (\<lambda>err. NewError ''invalid url path provided'' (Some err)) (\<lambda>path s.
       (case send (Doer c) batch_http_error output
               (bearer_request m (ResolveReference (BaseURL c) path) input cred) (snd s) of
          (r, w) \<Rightarrow> (r, fst s, w))))"

definition auth_doRequest :: "'w ClientConfig \<Rightarrow> http_method \<Rightarrow> string \<Rightarrow> json option \<Rightarrow> 'o target
    \<Rightarrow> string \<times> 'w \<Rightarrow> (goerr + 'o) \<times> (string \<times> 'w)" where
  "auth_doRequest c m urlPath input output =
     call (getOAuthAccessToken c) (\<lambda>err. err) (\<lambda>cred.
     check (url_Parse urlPath) (\<lambda>err. NewError ''invalid url path provided'' (Some err)) (\<lambda>path s.
       (case send (Doer c) auth_http_error output
               (bearer_request m (ResolveReference (BaseURL c) path) input cred) (snd s) of
          (r, w) \<Rightarrow> (r, fst s, w))))"

section \<open>The clients without credentials\<close>

text \<open>\<^verbatim>\<open>url.QueryEscape\<close> and \<^verbatim>\<open>url.Values.Encode\<close>: sorted by key.\<close>

fun QueryEscape :: "string \<Rightarrow> string" where
  "QueryEscape [] = []"
| "QueryEscape (c # cs) =
     (if is_alnum c \<or> c \<in> set ''-_.~'' then c # QueryEscape cs
      else if c = CHR '' '' then CHR ''+'' # QueryEscape cs
      else CHR ''%'' # upper_hex (byte_val c div 16) # upper_hex (byte_val c mod 16) # QueryEscape cs)"

definition Values_Encode :: "(string \<times> string) list \<Rightarrow> string" where
  "Values_Encode kvs = join_with ''&'' (map (\<lambda>(k, v). QueryEscape k @ ''='' @ QueryEscape v) (sort_key fst kvs))"

definition ops_request :: "http_method \<Rightarrow> url \<Rightarrow> (string \<times> string) list \<Rightarrow> http_request" where
  "ops_request m u form =
     (let query = Values_Encode form;
          header = [(''Content-Type'', ''application/x-www-form-urlencoded''), (''Accept'', ''application/json'')]
      in if m = GET then \<lparr>Method = m, ReqURL = u\<lparr>RawQuery := query\<rparr>, Header = header, ReqBody = NoBody\<rparr>
         else \<lparr>Method = m, ReqURL = u, Header = header, ReqBody = FormBody query\<rparr>)"

definition ops_doRequest :: "'w doer \<Rightarrow> url \<Rightarrow> http_method \<Rightarrow> string \<Rightarrow> (string \<times> string) list \<Rightarrow> 'o target
    \<Rightarrow> 'w \<Rightarrow> (goerr + 'o) \<times> 'w" where
  "ops_doRequest exec base m urlPath form output =
     check (url_Parse urlPath) (\<lambda>err. NewError ''invalid url path provided'' (Some err)) (\<lambda>path.
       send exec auth_http_error output (ops_request m (ResolveReference base path) form))"

definition token_doRequest :: "'w doer \<Rightarrow> url \<Rightarrow> http_method \<Rightarrow> string \<Rightarrow> json option \<Rightarrow> 'o target
    \<Rightarrow> 'w \<Rightarrow> (goerr + 'o) \<times> 'w" where
  "token_doRequest exec base m urlPath input output =
     check (url_Parse urlPath) (\<lambda>err. NewError ''invalid url path provided'' (Some err)) (\<lambda>path.
       send exec auth_http_error output
         \<lparr>Method = m, ReqURL = ResolveReference base path,
          Header = [(''Content-Type'', ''application/json''), (''Accept'', ''application/json'')],
          ReqBody = json_body m input\<rparr>)"

section \<open>Paths of resources\<close>

definition projectsPrefix :: string where
  "projectsPrefix = ''projects''"

definition createPath :: "string \<Rightarrow> string list \<Rightarrow> string" where
  "createPath projectID elem =
     (if length projectID > 0 then Join [projectsPrefix, projectID, Join elem] else Join elem)"

lemma not_in_path: "list_all path_char s \<Longrightarrow> CHR ''?'' \<notin> set s \<and> CHR ''#'' \<notin> set s \<and> CHR ''*'' \<notin> set s"
  using path_char_not by (auto simp: list_all_iff path_char_def is_alnum_def)

lemma scheme_stops:
  assumes "CHR '':'' \<notin> set h" and "r = [] \<or> hd r = slash"
  shows "case dropWhile scheme_char (h @ r) of [] \<Rightarrow> True | c # cs \<Rightarrow> c \<noteq> CHR '':''"
  using assms
proof (induction h)
  case Nil
  then show ?case
    by (cases r) (auto simp: scheme_char_def is_alnum_def)
qed (auto)

lemma getscheme_path:
  assumes "CHR '':'' \<notin> set h" and "r = [] \<or> hd r = slash"
  shows "getscheme (h @ r) = Inr ([], h @ r)"
proof (cases "dropWhile scheme_char (h @ r)")
  case (Cons c cs)
  with scheme_stops [OF assms] have "c \<noteq> CHR '':''" by (simp only: list.case) simp
  with Cons show ?thesis by (simp only: getscheme_def Let_def prod.case list.case) simp
qed (simp only: getscheme_def Let_def prod.case list.case, simp)

lemma join_slash_hd_tl: "join_slash (e # es) = e @ (if es = [] then [] else slash # join_slash es)"
  by (cases es) auto

lemma cut_slash_join: "slash \<notin> set e \<Longrightarrow> fst (cut slash (join_slash (e # es))) = e"
  by (auto simp: cut_def join_slash_hd_tl takeWhile_tail intro: takeWhile_eq_all_conv [THEN iffD2])

lemma parse_path_only:
  assumes pc: "list_all path_char s" and sch: "getscheme s = Inr ([], s)"
    and sl: "\<not> has_prefix s ''/''" and colon: "CHR '':'' \<notin> set (fst (cut slash s))"
  shows "url_Parse s = Inr (empty_url\<lparr>Path := s\<rparr>)"
proof -
  note ni = not_in_path [OF pc]
  have q: "\<not> has_suffix s ''?''" using ni by (auto simp: has_suffix_iff)
  have sl2: "\<not> has_prefix s ''//''" using sl by (cases s) auto
  have star: "s \<noteq> ''*''" using ni by auto
  have "parse_rest s = Inr (empty_url\<lparr>Path := s\<rparr>)"
    using ni by (simp add: parse_rest_def star sch q sl sl2 colon Let_def setPath_id [OF pc] empty_url_def)
  with ni show ?thesis
    by (simp add: url_Parse_def empty_url_def)
qed

text \<open>A reference of safe elements parses to its own path and nothing else.\<close>

lemma parse_reference:
  assumes "list_all safe_elem (e # es)" and "CHR '':'' \<notin> set e"
  shows "url_Parse (join_slash (e # es)) = Inr (empty_url\<lparr>Path := join_slash (e # es)\<rparr>)"
proof (rule parse_path_only)
  have e: "e \<noteq> []" "slash \<notin> set e" using assms(1) safe_plain [of e] plainD [of e] by auto
  show "list_all path_char (join_slash (e # es))" using assms(1) by (rule safe_elems_path_char)
  show "getscheme (join_slash (e # es)) = Inr ([], join_slash (e # es))"
    unfolding join_slash_hd_tl by (rule getscheme_path) (use assms(2) in auto)
  show "\<not> has_prefix (join_slash (e # es)) ''/''"
    using e by (cases e) (auto simp: join_slash_hd_tl)
  show "CHR '':'' \<notin> set (fst (cut slash (join_slash (e # es))))"
    unfolding cut_slash_join [OF e(2)] by (rule assms(2))
qed

text \<open>A base path: slashes around its elements.\<close>

definition base_path :: "string list \<Rightarrow> string" where
  "base_path bs = slash # concat (map (\<lambda>b. b @ ''/'') bs)"

lemma split_concat_slash:
  "list_all plain bs \<Longrightarrow> split_on slash (concat (map (\<lambda>b. b @ ''/'') bs) @ s) = bs @ split_on slash s"
  by (induction bs) (auto dest: plainD)

lemma base_path_char: "list_all safe_elem bs \<Longrightarrow> list_all path_char (base_path bs)"
  by (induction bs) (auto simp: base_path_def safe_elem_path_char)

lemma upto_slash_last: "upto_slash (xs @ [slash]) = xs @ [slash]"
  by (simp add: upto_slash_def)

lemma base_path_last: "\<exists>xs. base_path bs = xs @ [slash]"
proof (cases bs rule: rev_cases)
  case (snoc cs c)
  then have "base_path bs = (slash # concat (map (\<lambda>b. b @ ''/'') cs) @ c) @ [slash]"
    by (simp add: base_path_def)
  then show ?thesis ..
qed (simp add: base_path_def)

lemma resolve_under_base:
  assumes "list_all plain bs" and "es \<noteq> []" and "list_all plain es"
  shows "resolvePath (base_path bs) (join_slash es) = slash # join_slash (bs @ es)"
proof -
  have up: "upto_slash (base_path bs) = base_path bs"
    using base_path_last [of bs] upto_slash_last by metis
  have hd: "join_slash es \<noteq> []" "hd (join_slash es) \<noteq> slash"
    using join_slash_hd [OF assms(2,3)] by auto
  let ?full = "base_path bs @ join_slash es"
  have src: "split_on slash ?full = [] # bs @ es"
    using assms by (simp add: base_path_def split_concat_slash plain_split)
  have dots: "dot_segments [] ([] # bs @ es) = [] # bs @ es"
    using assms by (subst dot_segments_plain) (auto simp: list_all_iff plain_def)
  have last: "last ([] # bs @ es) \<noteq> ''.'' \<and> last ([] # bs @ es) \<noteq> ''..''"
    using assms by (auto simp: list_all_iff plain_def)
  have "join_slash ([] # bs @ es) = ''/'' @ join_slash (bs @ es)"
    using assms(2) by (simp add: join_with_cons)
  then have trim: "trim_prefix (join_slash ([] # bs @ es)) ''/'' = join_slash (bs @ es)"
    by (simp only: trim_prefix_append)
  have full: "?full \<noteq> []" using hd by simp
  show ?thesis
    unfolding resolvePath_def Let_def
    by (simp only: hd up src dots last trim full if_False if_True not_False_eq_True simp_thms append_Nil2)
qed

section \<open>What a request leads to\<close>

lemma get_credential_cached:
  assumes "cred \<noteq> []" and "IsExpired p w = (False, w')"
  shows "get_credential msg (Some p) (cred, w) = (Inr cred, cred, w')"
  using assms by (simp add: get_credential_def)

text \<open>A credential is handed out exactly when it is the cached one or a provider returned it.\<close>

lemma get_credential_Inr:
  assumes "get_credential msg prov s = (Inr cred, s')"
  shows "fst s' = cred \<and> (\<exists>p. prov = Some p \<and>
    ((fst s = cred \<and> cred \<noteq> [] \<and> IsExpired p (snd s) = (False, snd s')) \<or>
     (\<exists>w. Retrieve p w = (Inr cred, snd s'))))"
  using assms
  by (cases s) (auto simp: get_credential_def Let_def split: option.splits prod.splits sum.splits if_splits)

lemma finish_response_Inr:
  "finish_response he out resp = Inr r \<longleftrightarrow> StatusCode resp \<le> 399 \<and>
     (case snd out of None \<Rightarrow> r = fst out | Some d \<Rightarrow> Decode d (RespBody resp) (fst out) = Inr r)"
  by (auto simp: finish_response_def split: option.splits sum.splits)

lemma send_Inr:
  "send exec he out req w = (Inr r, w') \<longleftrightarrow>
     (\<exists>resp. exec req w = (Inr resp, w') \<and> finish_response he out resp = Inr r)"
  by (auto simp: send_def split: prod.splits sum.splits)

text \<open>
  A call of the batch API succeeds exactly when a credential is obtained, the path parses, the
  request (with that credential as bearer token) is answered, the status is below 400 and
  the body decodes into the output; the result is then the decoded output and the client keeps the
  credential.
\<close>
theorem doRequest_success:
  "doRequest c m urlPath input out s = (Inr r, s') \<longleftrightarrow>
     (\<exists>cred s1 path resp.
        getJWT c s = (Inr cred, s1) \<and> url_Parse urlPath = Inr path \<and>
        Doer c (bearer_request m (ResolveReference (BaseURL c) path) input cred) (snd s1) = (Inr resp, snd s') \<and>
        fst s' = fst s1 \<and> StatusCode resp \<le> 399 \<and>
        (case snd out of None \<Rightarrow> r = fst out | Some d \<Rightarrow> Decode d (RespBody resp) (fst out) = Inr r))"
proof -
  have pair: "\<And>q a b. (case q of (x, w) \<Rightarrow> (x, a, w)) = (Inr r, b) \<longleftrightarrow> q = (Inr r, snd b) \<and> fst b = a"
    by (auto split: prod.splits)
  show ?thesis
    unfolding doRequest_def call_Inr_iff check_Inr_iff pair send_Inr finish_response_Inr
    by blast
qed

text \<open>
  An error status of a response, and the decoding of its body, as the caller sees them.
\<close>

definition error_payload :: "goerr + json \<Rightarrow> goerr + api_error" where
  "error_payload content = Decode (decode_struct batch_error_fields) content empty_api_error"

lemma batch_http_error_payload:
  "batch_http_error code content = map_sum id (BatchHTTPError code) (error_payload content)"
  by (simp add: batch_http_error_def error_payload_def split: sum.splits)


text \<open>A world that answers every request with 404, and a provider with a fixed token.\<close>

definition demo_url :: url where
  "demo_url = empty_url\<lparr>Scheme := ''https'', Host := ''batch.nerdalize.com'', Path := ''/v1/''\<rparr>"

definition demo_provider :: "'w provider" where
  "demo_provider = \<lparr>IsExpired = (\<lambda>w. (False, w)), Retrieve = (\<lambda>w. (Inr ''tok'', w))\<rparr>"

definition demo_404 :: "http_request list ClientConfig" where
  "demo_404 = \<lparr>Doer = (\<lambda>req log. (Inr \<lparr>StatusCode = 404, Status = ''404 Not Found'',
       RespBody = Inr (JObj [(''message'', JStr ''no such workload'')])\<rparr>, log @ [req])),
     TokenProvider = Some demo_provider, BaseURL = demo_url\<rparr>"


section \<open>Credentials and requests\<close>

text \<open>A sequence of calls; each may fail, and the next one is made all the same.\<close>

fun do_requests :: "'w ClientConfig \<Rightarrow> (http_method \<times> string \<times> json option) list \<Rightarrow> string \<times> 'w \<Rightarrow> string \<times> 'w" where
  "do_requests c [] s = s"
| "do_requests c ((m, p, input) # rs) s =
     do_requests c rs (snd (doRequest c m p input ((), None :: (json \<Rightarrow> unit \<Rightarrow> goerr + unit) option) s))"

text \<open>A doer that keeps a log of the requests beside its own world.\<close>

definition logged :: "'w doer \<Rightarrow> (http_request list \<times> 'w) doer" where
  "logged exec req lw = (case exec req (snd lw) of (r, w) \<Rightarrow> (r, fst lw @ [req], w))"

lemma doRequest_no_credential:
  "fst (getJWT c s) = Inl e \<Longrightarrow> doRequest c m p i out s = (Inl e, snd (getJWT c s))"
  by (cases "getJWT c s") (simp add: doRequest_def)

text \<open>
  A provider that does not expire, seen from the logged world, and the headers of a log.
\<close>

definition lift_provider :: "'w provider \<Rightarrow> (http_request list \<times> 'w) provider" where
  "lift_provider p = \<lparr>IsExpired = (\<lambda>(log, w). case IsExpired p w of (b, w) \<Rightarrow> (b, log, w)),
     Retrieve = (\<lambda>(log, w). case Retrieve p w of (r, w) \<Rightarrow> (r, log, w))\<rparr>"

definition with_log :: "'w ClientConfig \<Rightarrow> (http_request list \<times> 'w) ClientConfig" where
  "with_log c = \<lparr>Doer = logged (Doer c), TokenProvider = map_option lift_provider (TokenProvider c),
     BaseURL = BaseURL c\<rparr>"

lemma with_log_sel [simp]:
  "Doer (with_log c) = logged (Doer c)" "BaseURL (with_log c) = BaseURL c"
  "TokenProvider (with_log c) = map_option lift_provider (TokenProvider c)"
  by (simp_all add: with_log_def)

definition bearer_of :: "http_request \<Rightarrow> string option" where
  "bearer_of req = map_of (Header req) AuthHeader"

lemma doRequest_log:
  assumes "TokenProvider c = Some p" and "\<And>w. IsExpired p w = (False, w)" and "cred \<noteq> []"
  obtains reqs w' r where "doRequest (with_log c) m path i out (cred, log, w) = (r, cred, log @ reqs, w')"
    "length reqs \<le> 1" "\<forall>req\<in>set reqs. bearer_of req = Some (''Bearer '' @ cred) \<and> Method req = m \<and> ReqBody req = json_body m i"
proof -
  have jwt: "getJWT (with_log c) (cred, log, w) = (Inr cred, cred, log, w)"
    using assms by (simp add: getJWT_def get_credential_def with_log_def lift_provider_def)
  show thesis
  proof (cases "url_Parse path")
    case (Inl e)
    with jwt that [of _ "[]"] show thesis by (simp add: doRequest_def)
  next
    case (Inr ref)
    define req where "req = bearer_request m (ResolveReference (BaseURL c) ref) i cred"
    obtain r w' where sent: "Doer c req w = (r, w')" by fastforce
    have "bearer_of req = Some (''Bearer '' @ cred)" "Method req = m" "ReqBody req = json_body m i"
      by (simp_all add: req_def bearer_of_def bearer_request_def)
    moreover have "\<exists>r. doRequest (with_log c) m path i out (cred, log, w) = (r, cred, log @ [req], w')"
      using sent jwt Inr
      by (cases r) (simp_all add: doRequest_def send_def with_log_def logged_def flip: req_def)
    ultimately show thesis using that [of _ "[req]"] by auto
  qed
qed

text \<open>
  While the provider does not report its credential as expired, a client that holds a
  credential sends every request of a sequence of calls (failed ones included) with that same
  bearer token, never asks the provider for another one and still holds it afterwards.
\<close>
theorem credential_reused:
  assumes "TokenProvider c = Some p" and "\<And>w. IsExpired p w = (False, w)" and "cred \<noteq> []"
    and "do_requests (with_log c) rs (cred, log, w) = (cred', log', w')"
  shows "cred' = cred \<and> (\<exists>reqs. log' = log @ reqs \<and> length reqs \<le> length rs \<and>
           (\<forall>req\<in>set reqs. bearer_of req = Some (''Bearer '' @ cred)))"
  using assms(4)
proof (induction rs arbitrary: log w)
  case (Cons r rs)
  obtain m path i where r: "r = (m, path, i)" by (cases r)
  obtain reqs w1 res where step: "doRequest (with_log c) m path i ((), None) (cred, log, w) = (res, cred, log @ reqs, w1)"
    and reqs: "length reqs \<le> 1" "\<forall>req\<in>set reqs. bearer_of req = Some (''Bearer '' @ cred)"
    using doRequest_log [OF assms(1-3)] by metis
  from Cons.prems have "do_requests (with_log c) rs (cred, log @ reqs, w1) = (cred', log', w')"
    by (simp add: r step)
  from Cons.IH [OF this] reqs show ?case by fastforce
qed simp

theorem credential_reused_witness:
  "\<exists>reqs. do_requests (with_log demo_404) [(GET, ''ping'', None), (POST, ''a:b'', None), (GET, ''ping'', None)]
      (''tok'', [], []) = (''tok'', reqs, snd (snd (do_requests (with_log demo_404)
        [(GET, ''ping'', None), (POST, ''a:b'', None), (GET, ''ping'', None)] (''tok'', [], []))))
    \<and> length reqs \<le> 3 \<and> (\<forall>req\<in>set reqs. bearer_of req = Some ''Bearer tok'')"
proof -
  let ?rs = "[(GET, ''ping'', None), (POST, ''a:b'', None), (GET, ''ping'', None)] :: (http_method \<times> string \<times> json option) list"
  obtain cred' log' w' where run: "do_requests (with_log demo_404) ?rs (''tok'', [], []) = (cred', log', w')"
    by (cases "do_requests (with_log demo_404) ?rs (''tok'', [], [])") auto
  have p: "TokenProvider demo_404 = Some demo_provider" by (simp add: demo_404_def)
  have e: "IsExpired demo_provider w = (False, w)" for w :: "http_request list"
    by (simp add: demo_provider_def)
  have ne: "''tok'' \<noteq> []" by simp
  from credential_reused [OF p e ne run] run show ?thesis by auto
qed

section \<open>Which resource a request addresses\<close>

lemma Join_safe: "es \<noteq> [] \<Longrightarrow> list_all safe_elem es \<Longrightarrow> Join es = join_slash es"
  by (rule Join_plain) (auto simp: list_all_iff safe_plain)

lemma list_all_safe_plain: "list_all safe_elem es \<Longrightarrow> list_all plain es"
  by (auto simp: list_all_iff safe_plain)

lemma safe_projects [simp]: "safe_elem projectsPrefix"
  by code_simp

lemma createPath_safe:
  assumes "list_all safe_elem (p # es)" and "es \<noteq> []"
  shows "createPath p es = join_slash (projectsPrefix # p # es)"
proof -
  have pl: "list_all plain (projectsPrefix # p # es)"
    using assms safe_projects by (intro list_all_safe_plain) simp
  have p: "p \<noteq> []" using pl plainD(1) [of p] by auto
  have J: "Join es = join_slash es" using assms by (intro Join_safe) auto
  have ne: "join_slash es \<noteq> []" using join_slash_hd [OF assms(2)] pl by auto
  have "Join [projectsPrefix, p, join_slash es] = Clean (join_slash (projectsPrefix # p # es))"
    using assms(2) by (simp add: Join_def projectsPrefix_def join_with_cons)
  then show ?thesis
    using Clean_plain [OF _ pl] p by (simp add: createPath_def J)
qed

lemma createPath_parses:
  assumes "list_all safe_elem (p # es)" and "es \<noteq> []"
  shows "url_Parse (createPath p es) = Inr (empty_url\<lparr>Path := join_slash (projectsPrefix # p # es)\<rparr>)"
proof -
  have "CHR '':'' \<notin> set projectsPrefix" by (simp add: projectsPrefix_def)
  moreover have "list_all safe_elem (projectsPrefix # p # es)" using assms(1) by simp
  ultimately show ?thesis
    unfolding createPath_safe [OF assms] by (rule parse_reference [rotated])
qed

lemma base_path_snoc: "bs \<noteq> [] \<Longrightarrow> slash # join_slash bs @ ''/'' = base_path bs"
  by (induction bs rule: induct_list012) (auto simp: base_path_def)

lemma join_slash_last: "bs \<noteq> [] \<Longrightarrow> list_all plain bs \<Longrightarrow> join_slash bs \<noteq> [] \<and> last (join_slash bs) \<noteq> slash"
proof (induction bs rule: induct_list012)
  case (2 x)
  then have "x \<noteq> []" "slash \<notin> set x" using plainD [of x] by auto
  then show ?case by (metis join_with.simps(2) last_in_set)
qed auto

lemma with_slash_base:
  assumes "Path base = slash # join_slash bs \<or> Path base = base_path bs" and "list_all plain bs"
  shows "with_slash base = base\<lparr>Path := base_path bs\<rparr>"
proof (cases "Path base = base_path bs")
  case True
  then show ?thesis using base_path_last [of bs] by (auto simp: with_slash_def)
next
  case False
  with assms(1) have p: "Path base = slash # join_slash bs" by simp
  with False have "bs \<noteq> []" by (auto simp: base_path_def)
  then show ?thesis
    using join_slash_last [OF _ assms(2)] base_path_snoc [of bs] p by (simp add: with_slash_def)
qed

text \<open>The path of the URL a batch API call addresses, or \<open>None\<close> when its reference does not parse.\<close>

definition addressed :: "'w ClientConfig \<Rightarrow> string \<Rightarrow> string list \<Rightarrow> url option" where
  "addressed c p es = (case url_Parse (createPath p es) of Inl e \<Rightarrow> None
     | Inr ref \<Rightarrow> Some (ResolveReference (BaseURL c) ref))"

lemma addressed_path:
  assumes "Path (BaseURL conf) = slash # join_slash bs \<or> Path (BaseURL conf) = base_path bs"
    and "RawPath (BaseURL conf) = []" and "list_all safe_elem bs"
    and "list_all safe_elem (p # es)" and "es \<noteq> []"
  shows "addressed (NewClient conf) p es = Some \<lparr>Scheme = Scheme (BaseURL conf), Opaque = [],
           Host = Host (BaseURL conf), Path = slash # join_slash (bs @ projectsPrefix # p # es), RawPath = [],
           ForceQuery = False, RawQuery = [], Fragment = []\<rparr>"
proof -
  let ?es = "projectsPrefix # p # es" and ?base = "BaseURL (NewClient conf)"
  have safe: "list_all safe_elem ?es" using assms(4) by simp
  have base: "?base = (BaseURL conf)\<lparr>Path := base_path bs\<rparr>"
    using with_slash_base [OF assms(1) list_all_safe_plain [OF assms(3)]] by (simp add: NewClient_def)
  have eb: "EscapedPath ?base = base_path bs"
    using EscapedPath_id [of ?base] base_path_char [OF assms(3)] by (simp add: base assms(2))
  note parse = createPath_parses [OF assms(4,5)]
  have er: "EscapedPath (empty_url\<lparr>Path := join_slash ?es\<rparr>) = join_slash ?es"
    using EscapedPath_id [of "empty_url\<lparr>Path := join_slash ?es\<rparr>"] safe_elems_path_char [OF safe]
    by (simp add: empty_url_def)
  have rp: "resolvePath (base_path bs) (join_slash ?es) = slash # join_slash (bs @ ?es)"
    using list_all_safe_plain [OF assms(3)] list_all_safe_plain [OF safe] by (intro resolve_under_base) auto
  have "list_all path_char (slash # join_slash (bs @ ?es))"
    using safe_elems_path_char [of "bs @ ?es"] assms(3) safe by simp
  from setPath_id [OF this] eb er rp show ?thesis
    using join_slash_hd [OF _ list_all_safe_plain [OF safe]]
    by (simp add: addressed_def parse ResolveReference_def empty_url_def base)
qed

text \<open>
  With a client made by \<^verbatim>\<open>NewClient\<close>, a call for elements of plain URL characters under a
  project addresses exactly base path, \<open>projects\<close>, the project and the elements, on the host
  of the base URL, without a query or a fragment; the base path needs no slash at its end.
\<close>
theorem request_addresses:
  assumes "Path (BaseURL conf) = slash # join_slash bs \<or> Path (BaseURL conf) = base_path bs"
    and "RawPath (BaseURL conf) = []" and "list_all safe_elem bs"
    and "list_all safe_elem (p # es)" and "es \<noteq> []"
  shows "addressed (NewClient conf) p es = Some \<lparr>Scheme = Scheme (BaseURL conf), Opaque = [],
           Host = Host (BaseURL conf), Path = slash # join_slash (bs @ projectsPrefix # p # es), RawPath = [],
           ForceQuery = False, RawQuery = [], Fragment = []\<rparr>"
  using assms by (rule addressed_path)

definition demo_base :: "http_request list ClientConfig" where
  "demo_base = demo_404\<lparr>BaseURL := demo_url\<lparr>Path := ''/v1''\<rparr>\<rparr>"

theorem request_addresses_witness:
  "map_option Path (addressed (NewClient demo_base) ''7'' [''workloads'', ''x'']) =
     Some ''/v1/projects/7/workloads/x''"
  by (subst request_addresses [where bs = "[''v1'']"])
    (simp_all add: demo_base_def demo_404_def demo_url_def empty_url_def projectsPrefix_def
      safe_elem_def safe_char_def path_char_def is_alnum_def)

text \<open>
  C29: No two resources share a URL: calls for plain elements that address the same URL are
  for the same project and the same elements, so a call can never reach the resources of
  another project that way.
\<close>
theorem projects_apart:
  assumes "Path (BaseURL conf) = slash # join_slash bs \<or> Path (BaseURL conf) = base_path bs"
    and "RawPath (BaseURL conf) = []" and "list_all safe_elem bs"
    and "list_all safe_elem (p # es)" and "es \<noteq> []"
    and "list_all safe_elem (q # fs)" and "fs \<noteq> []"
  shows "map_option Path (addressed (NewClient conf) p es) = map_option Path (addressed (NewClient conf) q fs)
           \<longleftrightarrow> p = q \<and> es = fs"
proof -
  have addr: "map_option Path (addressed (NewClient conf) r gs) = Some (slash # join_slash (bs @ projectsPrefix # r # gs))"
    if "list_all safe_elem (r # gs)" "gs \<noteq> []" for r gs
    by (simp add: addressed_path [OF assms(1-3) that])
  have "list_all plain (bs @ projectsPrefix # r # gs)" if "list_all safe_elem (r # gs)" for r gs
    using assms(3) that by (intro list_all_safe_plain) simp
  from join_slash_inj [OF _ _ this [OF assms(4)] this [OF assms(6)]] show ?thesis
    using addr [OF assms(4,5)] addr [OF assms(6,7)] by auto
qed

theorem projects_apart_witness:
  "map_option Path (addressed (NewClient demo_base) ''7'' [''workloads'', ''x'']) \<noteq>
     map_option Path (addressed (NewClient demo_base) ''8'' [''workloads'', ''x''])"
  by (subst projects_apart [where bs = "[''v1'']"])
    (simp_all add: demo_base_def demo_404_def demo_url_def empty_url_def
      safe_elem_def safe_char_def path_char_def is_alnum_def)

lemma split_on_join_any:
  "xs \<noteq> [] \<Longrightarrow> split_on slash (join_slash xs) = concat (map (split_on slash) xs)"
proof (induction xs rule: induct_list012)
  case (3 x y zs)
  then show ?case using split_join_slash_append [of "[x]" "join_slash (y # zs)"] by simp
qed auto

text \<open>\<^verbatim>\<open>Join\<close> of any elements, the first of which is relative and not empty.\<close>

lemma Join_segments:
  assumes "e \<noteq> []" and "hd e \<noteq> slash"
  shows "Join (e # es) = (let out = clean_elems False [] (concat (map (split_on slash) (e # es)))
     in if out = [] then ''.'' else join_slash out)"
proof -
  have "hd (join_slash (e # es)) \<noteq> slash" "join_slash (e # es) \<noteq> []"
    using assms by (cases e; simp add: join_slash_hd_tl)+
  then show ?thesis
    using assms(1) by (simp add: Join_def Clean_def split_on_join_any del: list.map)
qed

lemma plain_hd: "plain e \<Longrightarrow> hd e \<noteq> slash"
  using plainD(1,4) [of e] by (cases e) auto

text \<open>
  Ids are not escaped, so an id with dots in it addresses something else: \<open>..\<close> is the
  project itself, the empty id is the whole collection, and \<open>../../q/e/x\<close> is the resource
  \<open>x\<close> of another project \<open>q\<close>.
\<close>
theorem ids_are_not_escaped:
  assumes "plain p" "plain q" "plain e" "plain x"
  shows "createPath p [e, ''..''] = join_slash [projectsPrefix, p]
       \<and> createPath p [e, []] = createPath p [e]
       \<and> createPath p [e, ''../../'' @ q @ ''/'' @ e @ ''/'' @ x] = createPath q [e, x]"
proof -
  have pr: "plain projectsPrefix" using safe_plain by simp
  have split: "split_on slash y = [y]" if "plain y" for y using plainD(4) [OF that] by simp
  have two: "createPath r es = Join [projectsPrefix, r, Join es]" if "plain r" for r es
    using plainD(1) [OF that] by (simp add: createPath_def)
  note J = Join_segments [OF plainD(1) plain_hd, OF assms(3) assms(3)]
  note JP = Join_segments [OF plainD(1) plain_hd, OF pr pr]
  note pl = plainD [OF pr] plainD [OF assms(1)] plainD [OF assms(2)] plainD [OF assms(3)] plainD [OF assms(4)]
  have rel: "split_on slash (''../../'' @ q @ ''/'' @ e @ ''/'' @ x) = [''..'', ''..'', q, e, x]"
    using assms [THEN plainD(4)] by simp
  have 1: "Join [e, ''..''] = ''.''" "Join [e, []] = e" "Join [e] = e"
    "Join [e, ''../../'' @ q @ ''/'' @ e @ ''/'' @ x] = join_slash [''..'', q, e, x]"
    "Join [e, x] = join_slash [e, x]"
    using pl by (simp_all only: J list.map concat.simps split [OF assms(3)] split [OF assms(4)] rel) auto
  have dots: "split_on slash ''.'' = [''.'']" "split_on slash (join_slash [''..'', q, e, x]) = [''..'', q, e, x]"
    "split_on slash (join_slash [e, x]) = [e, x]"
    using assms [THEN plainD(4)] by simp_all
  have "Join [projectsPrefix, p, ''.''] = join_slash [projectsPrefix, p]"
    "Join [projectsPrefix, p, join_slash [''..'', q, e, x]] = join_slash [projectsPrefix, q, e, x]"
    "Join [projectsPrefix, q, join_slash [e, x]] = join_slash [projectsPrefix, q, e, x]"
    using pl by (simp_all only: JP list.map concat.simps split [OF pr] split [OF assms(1)]
        split [OF assms(2)] dots) auto
  then show ?thesis
    unfolding two [OF assms(1)] two [OF assms(2)] 1 by (simp only: simp_thms)
qed

theorem ids_are_not_escaped_witness:
  "createPath ''7'' [''secrets'', ''../../8/secrets/db''] = createPath ''8'' [''secrets'', ''db'']"
  using ids_are_not_escaped [of "''7''" "''8''" "''secrets''" "''db''"] by (simp add: plain_def)

end
