(* ===== verification/Batch_Payload.thy ===== *)
theory Batch_Payload
  imports Go_Json Go_Encoding "HOL-Library.Char_ord" "HOL-Library.List_Lexorder"
begin

text \<open>
  \<^verbatim>\<open>nerd/client/batch/v1/payload\<close>: what the batch API accepts and returns. An input struct is only
  ever encoded, so it is a function from its members to a document; an output struct is a
  record, its zero value, and the list of its JSON members with their setters. Embedding is record
  extension, with setters that work on every extension. A nil slice or map of an input is \<open>None\<close>.
\<close>

section \<open>Values of members\<close>

definition json_strs :: "string list option \<Rightarrow> json" where
  "json_strs xs = (case xs of None \<Rightarrow> JNull | Some xs \<Rightarrow> JArr (map JStr xs))"

text \<open>The encoder writes the members of a map in the order of their keys.\<close>

definition json_strmap :: "(string \<times> string) list option \<Rightarrow> json" where
  "json_strmap m = (case m of None \<Rightarrow> JNull
     | Some kvs \<Rightarrow> JObj (map (\<lambda>(k, v). (k, JStr v)) (sort_key fst kvs)))"

text \<open>A \<^verbatim>\<open>[]byte\<close> is written in base 64.\<close>

definition json_bytes :: "string option \<Rightarrow> json" where
  "json_bytes b = (case b of None \<Rightarrow> JNull | Some bs \<Rightarrow> JStr (b64_encode bs))"

definition set_bytes :: "(string \<Rightarrow> 'r \<Rightarrow> 'r) \<Rightarrow> 'r setter" where
  "set_bytes upd j r = (case j of
       JStr s \<Rightarrow> (case b64_decode s of Inl e \<Rightarrow> Inl e | Inr bs \<Rightarrow> Inr (upd bs r))
     | JNull \<Rightarrow> Inr (upd [] r)
     | _ \<Rightarrow> Inl json_type_error)"

text \<open>A slice of pointers to structs: \<open>null\<close> is a nil pointer.\<close>

definition elem_struct :: "'x fields \<Rightarrow> 'x \<Rightarrow> json \<Rightarrow> goerr + 'x option" where
  "elem_struct fs zero j = (if j = JNull then Inr None
     else case decode_struct fs j zero of Inl e \<Rightarrow> Inl e | Inr x \<Rightarrow> Inr (Some x))"

text \<open>A pointer to a struct.\<close>

definition set_ptr :: "'x fields \<Rightarrow> 'x \<Rightarrow> ('r \<Rightarrow> 'x option) \<Rightarrow> ('x option \<Rightarrow> 'r \<Rightarrow> 'r) \<Rightarrow> 'r setter" where
  "set_ptr fs zero get upd j r = (if j = JNull then Inr (upd None r)
     else case decode_struct fs j (case get r of None \<Rightarrow> zero | Some x \<Rightarrow> x) of
         Inl e \<Rightarrow> Inl e | Inr x \<Rightarrow> Inr (upd (Some x) r))"

definition elem_int :: "json \<Rightarrow> goerr + int" where
  "elem_int j = (case j of JNum n \<Rightarrow> if in_int64 n then Inr n else Inl json_type_error
     | JNull \<Rightarrow> Inr 0 | _ \<Rightarrow> Inl json_type_error)"

definition set_intmap :: "((string \<times> int) list \<Rightarrow> 'r \<Rightarrow> 'r) \<Rightarrow> 'r setter" where
  "set_intmap upd j r = (case j of
       JObj kvs \<Rightarrow> (case decode_elems elem_int (map snd kvs) of Inl e \<Rightarrow> Inl e
                     | Inr vs \<Rightarrow> Inr (upd (zip (map fst kvs) vs) r))
     | JNull \<Rightarrow> Inr (upd [] r)
     | _ \<Rightarrow> Inl json_type_error)"

text \<open>The structs without members.\<close>

definition no_fields :: "unit fields" where
  "no_fields = []"

section \<open>Datasets\<close>

definition DatasetUploadStatusCreated :: string where "DatasetUploadStatusCreated = ''CREATED''"
definition DatasetUploadStatusUploading :: string where "DatasetUploadStatusUploading = ''UPLOADING''"
definition DatasetUploadStatusSuccess :: string where "DatasetUploadStatusSuccess = ''SUCCESS''"

definition CreateDatasetInput :: "string \<Rightarrow> json" where
  "CreateDatasetInput projectID = JObj [(''project_id'', JStr projectID)]"

record DatasetSummary =
  dsProjectID :: string
  DatasetID :: string
  Bucket :: string
  DatasetRoot :: string
  ProjectRoot :: string
  UploadExpire :: int
  UploadStatus :: string
  dsCreatedAt :: int

record CreateDatasetOutput = DatasetSummary +
  HeartbeatInterval :: int

definition dataset_fields :: "'a DatasetSummary_scheme fields" where
  "dataset_fields = [
     (''project_id'', set_str (\<lambda>s r. r\<lparr>dsProjectID := s\<rparr>)),
     (''dataset_id'', set_str (\<lambda>s r. r\<lparr>DatasetID := s\<rparr>)),
     (''bucket'', set_str (\<lambda>s r. r\<lparr>Bucket := s\<rparr>)),
     (''dataset_root'', set_str (\<lambda>s r. r\<lparr>DatasetRoot := s\<rparr>)),
     (''project_root'', set_str (\<lambda>s r. r\<lparr>ProjectRoot := s\<rparr>)),
     (''upload_expire'', set_int (\<lambda>n r. r\<lparr>UploadExpire := n\<rparr>)),
     (''upload_status'', set_str (\<lambda>s r. r\<lparr>UploadStatus := s\<rparr>)),
     (''created_at'', set_int (\<lambda>n r. r\<lparr>dsCreatedAt := n\<rparr>))]"

definition create_dataset_fields :: "CreateDatasetOutput fields" where
  "create_dataset_fields = dataset_fields @ [(''heartbeat_interval'', set_int (\<lambda>n r. r\<lparr>HeartbeatInterval := n\<rparr>))]"

definition empty_dataset :: DatasetSummary where
  "empty_dataset = \<lparr>dsProjectID = [], DatasetID = [], Bucket = [], DatasetRoot = [], ProjectRoot = [],
     UploadExpire = 0, UploadStatus = [], dsCreatedAt = 0\<rparr>"

definition empty_create_dataset :: CreateDatasetOutput where
  "empty_create_dataset = DatasetSummary.extend empty_dataset \<lparr>HeartbeatInterval = 0\<rparr>"

definition datasets_fields :: "DatasetSummary option list fields" where
  "datasets_fields = [(''Datasets'', set_slice (elem_struct dataset_fields empty_dataset) (\<lambda>xs _. xs))]"

section \<open>Tasks and runs\<close>

text \<open>The members that name a task, in the inputs of tasks and of runs.\<close>

definition task_members :: "string \<Rightarrow> string \<Rightarrow> int \<Rightarrow> (string \<times> json) list" where
  "task_members projectID workloadID taskID =
     [(''project_id'', JStr projectID), (''workload_id'', JStr workloadID), (''task_id'', JNum taskID)]"

definition StopTaskInput :: "string \<Rightarrow> string \<Rightarrow> int \<Rightarrow> json" where
  "StopTaskInput projectID workloadID taskID = JObj (task_members projectID workloadID taskID)"

definition DescribeTaskInput :: "string \<Rightarrow> string \<Rightarrow> int \<Rightarrow> json" where
  "DescribeTaskInput projectID workloadID taskID = JObj (task_members projectID workloadID taskID)"

definition StartTaskInput :: "string \<Rightarrow> string \<Rightarrow> string list option \<Rightarrow> (string \<times> string) list option
    \<Rightarrow> string option \<Rightarrow> json" where
  "StartTaskInput projectID workloadID cmd env stdin = JObj [
     (''project_id'', JStr projectID), (''workload_id'', JStr workloadID),
     (''cmd'', json_strs cmd), (''env'', json_strmap env), (''stdin'', json_bytes stdin)]"

definition ListTasksInput :: "string \<Rightarrow> string \<Rightarrow> bool \<Rightarrow> json" where
  "ListTasksInput projectID workloadID onlySuccessTasks = JObj [
     (''project_id'', JStr projectID), (''workload_id'', JStr workloadID),
     (''only_success_tasks'', JBool onlySuccessTasks)]"

record TaskSummary =
  tsTaskID :: int
  TTL :: int
  tsWorkloadID :: string
  tsStatus :: string
  tsOutputDatasetID :: string
  tsCmd :: "string list"

record DescribeTaskOutput = TaskSummary +
  ExecutionARN :: string
  NumDispatches :: int
  Result :: string
  LastErrCode :: string
  LastErrMessage :: string

definition task_fields :: "'a TaskSummary_scheme fields" where
  "task_fields = [
     (''task_id'', set_int (\<lambda>n r. r\<lparr>tsTaskID := n\<rparr>)),
     (''ttl'', set_int (\<lambda>n r. r\<lparr>TTL := n\<rparr>)),
     (''workload_id'', set_str (\<lambda>s r. r\<lparr>tsWorkloadID := s\<rparr>)),
     (''status'', set_str (\<lambda>s r. r\<lparr>tsStatus := s\<rparr>)),
     (''output_dataset_id'', set_str (\<lambda>s r. r\<lparr>tsOutputDatasetID := s\<rparr>)),
     (''cmd'', set_slice elem_str (\<lambda>xs r. r\<lparr>tsCmd := xs\<rparr>))]"

definition describe_task_fields :: "DescribeTaskOutput fields" where
  "describe_task_fields = task_fields @ [
     (''execution_arn'', set_str (\<lambda>s r. r\<lparr>ExecutionARN := s\<rparr>)),
     (''num_dispatches'', set_int (\<lambda>n r. r\<lparr>NumDispatches := n\<rparr>)),
     (''result'', set_str (\<lambda>s r. r\<lparr>Result := s\<rparr>)),
     (''last_err_code'', set_str (\<lambda>s r. r\<lparr>LastErrCode := s\<rparr>)),
     (''last_err_message'', set_str (\<lambda>s r. r\<lparr>LastErrMessage := s\<rparr>))]"

definition empty_task :: TaskSummary where
  "empty_task = \<lparr>tsTaskID = 0, TTL = 0, tsWorkloadID = [], tsStatus = [], tsOutputDatasetID = [], tsCmd = []\<rparr>"

definition empty_describe_task :: DescribeTaskOutput where
  "empty_describe_task = TaskSummary.extend empty_task
     \<lparr>ExecutionARN = [], NumDispatches = 0, Result = [], LastErrCode = [], LastErrMessage = []\<rparr>"

definition tasks_fields :: "TaskSummary option list fields" where
  "tasks_fields = [(''Tasks'', set_slice (elem_struct task_fields empty_task) (\<lambda>xs _. xs))]"

record Run =
  rProjectID :: string
  rWorkloadID :: string
  rTaskID :: int
  rToken :: string
  rCmd :: "string list"
  rEnv :: "(string \<times> string) list"
  rStdin :: string

definition run_fields :: "Run fields" where
  "run_fields = [
     (''project_id'', set_str (\<lambda>s r. r\<lparr>rProjectID := s\<rparr>)),
     (''workload_id'', set_str (\<lambda>s r. r\<lparr>rWorkloadID := s\<rparr>)),
     (''task_id'', set_int (\<lambda>n r. r\<lparr>rTaskID := n\<rparr>)),
     (''token'', set_str (\<lambda>s r. r\<lparr>rToken := s\<rparr>)),
     (''cmd'', set_slice elem_str (\<lambda>xs r. r\<lparr>rCmd := xs\<rparr>)),
     (''env'', set_strmap (\<lambda>xs r. r\<lparr>rEnv := xs\<rparr>)),
     (''stdin'', set_bytes (\<lambda>s r. r\<lparr>rStdin := s\<rparr>))]"

definition empty_run :: Run where
  "empty_run = \<lparr>rProjectID = [], rWorkloadID = [], rTaskID = 0, rToken = [], rCmd = [], rEnv = [], rStdin = []\<rparr>"

definition SendRunHeartbeatInput :: "string \<Rightarrow> string \<Rightarrow> int \<Rightarrow> string \<Rightarrow> json" where
  "SendRunHeartbeatInput projectID workloadID taskID runToken =
     JObj (task_members projectID workloadID taskID @ [(''run_token'', JStr runToken)])"

text \<open>\<^verbatim>\<open>SendRunHeartbeatOutput\<close> and \<^verbatim>\<open>SendUploadHeartbeatOutput\<close> have one member.\<close>

definition heartbeat_fields :: "bool fields" where
  "heartbeat_fields = [(''has_expired'', set_bool (\<lambda>b _. b))]"

definition SendRunSuccessInput :: "string \<Rightarrow> string \<Rightarrow> int \<Rightarrow> string \<Rightarrow> string \<Rightarrow> string \<Rightarrow> json" where
  "SendRunSuccessInput projectID workloadID taskID runToken result outputDatasetID =
     JObj (task_members projectID workloadID taskID @ [(''run_token'', JStr runToken),
       (''result'', JStr result), (''output_dataset_id'', JStr outputDatasetID)])"

definition SendRunFailureInput :: "string \<Rightarrow> string \<Rightarrow> int \<Rightarrow> string \<Rightarrow> string \<Rightarrow> string \<Rightarrow> json" where
  "SendRunFailureInput projectID workloadID taskID runToken errCode errMessage =
     JObj (task_members projectID workloadID taskID @ [(''run_token'', JStr runToken),
       (''error_code'', JStr errCode), (''error_message'', JStr errMessage)])"

section \<open>Secrets\<close>

definition SecretTypeRegistry :: string where "SecretTypeRegistry = ''registry''"
definition SecretTypeOpaque :: string where "SecretTypeOpaque = ''opaque''"

definition CreateSecretInput :: "string \<Rightarrow> string \<Rightarrow> string \<Rightarrow> string \<Rightarrow> string \<Rightarrow> string \<Rightarrow> string \<Rightarrow> json" where
  "CreateSecretInput projectID name key val username password type = JObj [
     (''project_id'', JStr projectID), (''name'', JStr name), (''key'', JStr key), (''value'', JStr val),
     (''dockerUsername'', JStr username), (''dockerPassword'', JStr password), (''type'', JStr type)]"

text \<open>\<^verbatim>\<open>DeleteSecretInput\<close> and \<^verbatim>\<open>DescribeSecretInput\<close>.\<close>

definition NamedSecretInput :: "string \<Rightarrow> string \<Rightarrow> json" where
  "NamedSecretInput projectID name = JObj [(''project_id'', JStr projectID), (''name'', JStr name)]"

text \<open>An input whose only member is the project.\<close>

definition ProjectInput :: "string \<Rightarrow> json" where
  "ProjectInput projectID = JObj [(''project_id'', JStr projectID)]"

text \<open>\<^verbatim>\<open>CreateSecretOutput\<close> and \<^verbatim>\<open>SecretSummary\<close> have the same members.\<close>

record SecretSummary =
  scProjectID :: string
  scName :: string
  scType :: string

record DescribeSecretOutput = SecretSummary +
  scKey :: string
  scValue :: string
  DockerUsername :: string
  DockerPassword :: string

record ListSecretsOutput =
  lsProjectID :: string
  Secrets :: "SecretSummary option list"

definition secret_fields :: "'a SecretSummary_scheme fields" where
  "secret_fields = [
     (''project_id'', set_str (\<lambda>s r. r\<lparr>scProjectID := s\<rparr>)),
     (''name'', set_str (\<lambda>s r. r\<lparr>scName := s\<rparr>)),
     (''type'', set_str (\<lambda>s r. r\<lparr>scType := s\<rparr>))]"

definition describe_secret_fields :: "DescribeSecretOutput fields" where
  "describe_secret_fields = secret_fields @ [
     (''key'', set_str (\<lambda>s r. r\<lparr>scKey := s\<rparr>)),
     (''value'', set_str (\<lambda>s r. r\<lparr>scValue := s\<rparr>)),
     (''dockerUsername'', set_str (\<lambda>s r. r\<lparr>DockerUsername := s\<rparr>)),
     (''dockerPassword'', set_str (\<lambda>s r. r\<lparr>DockerPassword := s\<rparr>))]"

definition empty_secret :: SecretSummary where
  "empty_secret = \<lparr>scProjectID = [], scName = [], scType = []\<rparr>"

definition empty_describe_secret :: DescribeSecretOutput where
  "empty_describe_secret = SecretSummary.extend empty_secret
     \<lparr>scKey = [], scValue = [], DockerUsername = [], DockerPassword = []\<rparr>"

definition list_secrets_fields :: "ListSecretsOutput fields" where
  "list_secrets_fields = [
     (''project_id'', set_str (\<lambda>s r. r\<lparr>lsProjectID := s\<rparr>)),
     (''secrets'', set_slice (elem_struct secret_fields empty_secret) (\<lambda>xs r. r\<lparr>Secrets := xs\<rparr>))]"

end
