(* ===== verification/Workload_Payload.thy ===== *)
theory Workload_Payload
  imports Batch_Payload
begin

text \<open>
  The payloads of \<^verbatim>\<open>nerd/client/batch/v1/payload\<close> for workloads, workers, plans, placements,
  tokens and uploads, in the form \<open>Batch_Payload\<close> describes, and those of
  \<^verbatim>\<open>nerd/client/auth/v1/payload\<close>.
\<close>

section \<open>Workloads and workers\<close>

record WorkerCondition =
  ProbeTime :: int
  wcType :: string

record WorkerSummary =
  WorkerID :: string
  wkStatus :: string
  Conditions :: "WorkerCondition option list"

definition condition_fields :: "WorkerCondition fields" where
  "condition_fields = [
     (''probe_time'', set_time (\<lambda>t r. r\<lparr>ProbeTime := t\<rparr>)),
     (''type'', set_str (\<lambda>s r. r\<lparr>wcType := s\<rparr>))]"

text \<open>The zero \<^verbatim>\<open>time.Time\<close> is the first of January of year 1.\<close>

definition zero_instant :: int where
  "zero_instant = -62135596800 * 1000000000"

definition empty_condition :: WorkerCondition where
  "empty_condition = \<lparr>ProbeTime = zero_instant, wcType = []\<rparr>"

definition worker_fields :: "WorkerSummary fields" where
  "worker_fields = [
     (''worker_id'', set_str (\<lambda>s r. r\<lparr>WorkerID := s\<rparr>)),
     (''status'', set_str (\<lambda>s r. r\<lparr>wkStatus := s\<rparr>)),
     (''conditions'', set_slice (elem_struct condition_fields empty_condition) (\<lambda>xs r. r\<lparr>Conditions := xs\<rparr>))]"

definition empty_worker :: WorkerSummary where
  "empty_worker = \<lparr>WorkerID = [], wkStatus = [], Conditions = []\<rparr>"

definition WorkerLogsInput :: "string \<Rightarrow> string \<Rightarrow> string \<Rightarrow> json" where
  "WorkerLogsInput projectID workloadID workerID = JObj [
     (''project_id'', JStr projectID), (''workload_id'', JStr workloadID), (''worker_id'', JStr workerID)]"

text \<open>\<^verbatim>\<open>WorkerLogsOutput\<close> is its data.\<close>

definition logs_fields :: "string fields" where
  "logs_fields = [(''data'', set_bytes (\<lambda>s _. s))]"

record WorkloadSummary =
  wlProjectID :: string
  wlWorkloadID :: string
  QueueURL :: string
  Image :: string
  NrOfWorkers :: int
  InputDatasetID :: string
  wlCreatedAt :: int
  wlComputeUnits :: string
  Workers :: "WorkerSummary option list"

record DescribeWorkloadOutput = WorkloadSummary +
  TaskCount :: "(string \<times> int) list"
  wlEnv :: "(string \<times> string) list"
  PullSecret :: string

definition workload_fields :: "'a WorkloadSummary_scheme fields" where
  "workload_fields = [
     (''project_id'', set_str (\<lambda>s r. r\<lparr>wlProjectID := s\<rparr>)),
     (''workload_id'', set_str (\<lambda>s r. r\<lparr>wlWorkloadID := s\<rparr>)),
     (''queue_url'', set_str (\<lambda>s r. r\<lparr>QueueURL := s\<rparr>)),
     (''image'', set_str (\<lambda>s r. r\<lparr>Image := s\<rparr>)),
     (''nr_of_workers'', set_int (\<lambda>n r. r\<lparr>NrOfWorkers := n\<rparr>)),
     (''input_dataset_id'', set_str (\<lambda>s r. r\<lparr>InputDatasetID := s\<rparr>)),
     (''created_at'', set_int (\<lambda>n r. r\<lparr>wlCreatedAt := n\<rparr>)),
     (''compute_units'', set_str (\<lambda>s r. r\<lparr>wlComputeUnits := s\<rparr>)),
     (''workers'', set_slice (elem_struct worker_fields empty_worker) (\<lambda>xs r. r\<lparr>Workers := xs\<rparr>))]"

definition describe_workload_fields :: "DescribeWorkloadOutput fields" where
  "describe_workload_fields = workload_fields @ [
     (''task_count'', set_intmap (\<lambda>xs r. r\<lparr>TaskCount := xs\<rparr>)),
     (''env'', set_strmap (\<lambda>xs r. r\<lparr>wlEnv := xs\<rparr>)),
     (''pull_secret'', set_str (\<lambda>s r. r\<lparr>PullSecret := s\<rparr>))]"

definition empty_workload :: WorkloadSummary where
  "empty_workload = \<lparr>wlProjectID = [], wlWorkloadID = [], QueueURL = [], Image = [], NrOfWorkers = 0,
     InputDatasetID = [], wlCreatedAt = 0, wlComputeUnits = [], Workers = []\<rparr>"

definition empty_describe_workload :: DescribeWorkloadOutput where
  "empty_describe_workload = WorkloadSummary.extend empty_workload
     \<lparr>TaskCount = [], wlEnv = [], PullSecret = []\<rparr>"

definition workloads_fields :: "WorkloadSummary option list fields" where
  "workloads_fields = [(''Workloads'', set_slice (elem_struct workload_fields empty_workload) (\<lambda>xs _. xs))]"

text \<open>\<^verbatim>\<open>StopWorkloadInput\<close> and \<^verbatim>\<open>DescribeWorkloadInput\<close>.\<close>

definition WorkloadInput :: "string \<Rightarrow> string \<Rightarrow> json" where
  "WorkloadInput projectID workloadID = JObj [(''project_id'', JStr projectID), (''workload_id'', JStr workloadID)]"

definition CreateWorkloadInput :: "string \<Rightarrow> string \<Rightarrow> string \<Rightarrow> string \<Rightarrow> nat \<Rightarrow> (string \<times> string) list option
    \<Rightarrow> int \<Rightarrow> bool \<Rightarrow> json" where
  "CreateWorkloadInput projectID img inputDatasetID pullSecret computeUnits env nrOfWorkers useCuteur = JObj [
     (''project_id'', JStr projectID), (''image'', JStr img), (''nr_of_workers'', JNum nrOfWorkers),
     (''input_dataset_id'', JStr inputDatasetID), (''use_cuteur'', JBool useCuteur), (''env'', json_strmap env),
     (''pull_secret'', JStr pullSecret), (''compute_units'', JNum (int computeUnits))]"

section \<open>Plans and placements\<close>

definition CreatePlanInput :: "string \<Rightarrow> string \<Rightarrow> json" where
  "CreatePlanInput planID computeUnits = JObj [
     (''billing_package_id'', JStr planID), (''compute_units'', JStr computeUnits)]"

definition UpdatePlanInput :: "bool \<Rightarrow> string \<Rightarrow> json" where
  "UpdatePlanInput onDemand computeUnits = JObj [
     (''on_demand'', JBool onDemand), (''compute_units'', JStr computeUnits)]"

text \<open>The structs without members: \<^verbatim>\<open>RemovePlanInput\<close>, \<^verbatim>\<open>DeletePlanInput\<close>, \<^verbatim>\<open>ListPlansInput\<close>.\<close>

definition EmptyInput :: json where
  "EmptyInput = JObj []"

text \<open>\<^verbatim>\<open>CreatePlanOutput\<close> and \<^verbatim>\<open>UpdatePlanOutput\<close>.\<close>

record PlanOutput =
  plProjectID :: string
  plPlanID :: string
  plComputeUnits :: string

record PlanSummary =
  psComputeUnits :: string
  psPlanID :: string

record Resource =
  RequestsCPU :: string
  RequestsMemory :: string
  LimitsCPU :: string
  LimitsMemory :: string

record ListPlansOutput =
  lpProjectID :: string
  Plans :: "PlanSummary option list"
  Total :: "Resource option"
  Used :: "Resource option"

definition plan_fields :: "PlanOutput fields" where
  "plan_fields = [
     (''project_id'', set_str (\<lambda>s r. r\<lparr>plProjectID := s\<rparr>)),
     (''billing_package_id'', set_str (\<lambda>s r. r\<lparr>plPlanID := s\<rparr>)),
     (''compute_units'', set_str (\<lambda>s r. r\<lparr>plComputeUnits := s\<rparr>))]"

definition empty_plan :: PlanOutput where
  "empty_plan = \<lparr>plProjectID = [], plPlanID = [], plComputeUnits = []\<rparr>"

definition plan_summary_fields :: "PlanSummary fields" where
  "plan_summary_fields = [
     (''compute_units'', set_str (\<lambda>s r. r\<lparr>psComputeUnits := s\<rparr>)),
     (''billing_package_id'', set_str (\<lambda>s r. r\<lparr>psPlanID := s\<rparr>))]"

definition resource_fields :: "Resource fields" where
  "resource_fields = [
     (''requests_cpu'', set_str (\<lambda>s r. r\<lparr>RequestsCPU := s\<rparr>)),
     (''requests_memory'', set_str (\<lambda>s r. r\<lparr>RequestsMemory := s\<rparr>)),
     (''limits_cpu'', set_str (\<lambda>s r. r\<lparr>LimitsCPU := s\<rparr>)),
     (''limits_memory'', set_str (\<lambda>s r. r\<lparr>LimitsMemory := s\<rparr>))]"

definition empty_resource :: Resource where
  "empty_resource = \<lparr>RequestsCPU = [], RequestsMemory = [], LimitsCPU = [], LimitsMemory = []\<rparr>"

definition list_plans_fields :: "ListPlansOutput fields" where
  "list_plans_fields = [
     (''project_id'', set_str (\<lambda>s r. r\<lparr>lpProjectID := s\<rparr>)),
     (''billing_packages'', set_slice (elem_struct plan_summary_fields \<lparr>psComputeUnits = [], psPlanID = []\<rparr>)
        (\<lambda>xs r. r\<lparr>Plans := xs\<rparr>)),
     (''Total'', set_ptr resource_fields empty_resource Total (\<lambda>x r. r\<lparr>Total := x\<rparr>)),
     (''Used'', set_ptr resource_fields empty_resource Used (\<lambda>x r. r\<lparr>Used := x\<rparr>))]"

definition empty_list_plans :: ListPlansOutput where
  "empty_list_plans = \<lparr>lpProjectID = [], Plans = [], Total = None, Used = None\<rparr>"

definition PlaceProjectInput :: "string \<Rightarrow> string \<Rightarrow> string \<Rightarrow> string \<Rightarrow> string \<Rightarrow> string \<Rightarrow> bool \<Rightarrow> string \<Rightarrow> json" where
  "PlaceProjectInput projectID host token capem password username insecure computeUnits = JObj [
     (''project_id'', JStr projectID), (''host'', JStr host), (''token'', JStr token), (''ca_pem'', JStr capem),
     (''password'', JStr password), (''username'', JStr username), (''insecure'', JBool insecure),
     (''compute_units'', JStr computeUnits)]"

section \<open>Tokens and uploads\<close>

record CreateTokenOutput =
  ctAWSRegion :: string
  AWSAccessKeyID :: string
  AWSExpiration :: int
  AWSSecretAccessKey :: string
  AWSSessionToken :: string

definition token_fields :: "CreateTokenOutput fields" where
  "token_fields = [
     (''aws_region'', set_str (\<lambda>s r. r\<lparr>ctAWSRegion := s\<rparr>)),
     (''aws_access_key_id'', set_str (\<lambda>s r. r\<lparr>AWSAccessKeyID := s\<rparr>)),
     (''aws_expiration'', set_time (\<lambda>t r. r\<lparr>AWSExpiration := t\<rparr>)),
     (''aws_secret_access_key'', set_str (\<lambda>s r. r\<lparr>AWSSecretAccessKey := s\<rparr>)),
     (''aws_session_token'', set_str (\<lambda>s r. r\<lparr>AWSSessionToken := s\<rparr>))]"

definition empty_token :: CreateTokenOutput where
  "empty_token = \<lparr>ctAWSRegion = [], AWSAccessKeyID = [], AWSExpiration = zero_instant,
     AWSSecretAccessKey = [], AWSSessionToken = []\<rparr>"

text \<open>\<^verbatim>\<open>SendUploadHeartbeatInput\<close> and \<^verbatim>\<open>SendUploadSuccessInput\<close>.\<close>

definition UploadInput :: "string \<Rightarrow> string \<Rightarrow> json" where
  "UploadInput projectID datasetID = JObj [(''project_id'', JStr projectID), (''dataset_id'', JStr datasetID)]"

section \<open>The auth API\<close>

text \<open>\<^verbatim>\<open>GetJWTOutput\<close>, \<^verbatim>\<open>RefreshWorkerJWTOutput\<close> and \<^verbatim>\<open>ListProjectsOutput\<close> have one member.\<close>

definition jwt_output_fields :: "string fields" where
  "jwt_output_fields = [(''token'', set_str (\<lambda>s _. s))]"

record GetWorkerJWTOutput =
  wjToken :: string
  wjSecret :: string

definition worker_jwt_fields :: "GetWorkerJWTOutput fields" where
  "worker_jwt_fields = [
     (''token'', set_str (\<lambda>s r. r\<lparr>wjToken := s\<rparr>)),
     (''secret'', set_str (\<lambda>s r. r\<lparr>wjSecret := s\<rparr>))]"

definition RefreshWorkerJWTInput :: "string \<Rightarrow> string \<Rightarrow> json" where
  "RefreshWorkerJWTInput token secret = JObj [(''jwt'', JStr token), (''secret'', JStr secret)]"

record OAuthCredentials =
  ocAccessToken :: string
  ocRefreshToken :: string
  ExpiresIn :: int
  ocScope :: string
  ocTokenType :: string

definition credentials_fields :: "OAuthCredentials fields" where
  "credentials_fields = [
     (''access_token'', set_str (\<lambda>s r. r\<lparr>ocAccessToken := s\<rparr>)),
     (''refresh_token'', set_str (\<lambda>s r. r\<lparr>ocRefreshToken := s\<rparr>)),
     (''expires_in'', set_int (\<lambda>n r. r\<lparr>ExpiresIn := n\<rparr>)),
     (''scope'', set_str (\<lambda>s r. r\<lparr>ocScope := s\<rparr>)),
     (''token_type'', set_str (\<lambda>s r. r\<lparr>ocTokenType := s\<rparr>))]"

definition empty_credentials :: OAuthCredentials where
  "empty_credentials = \<lparr>ocAccessToken = [], ocRefreshToken = [], ExpiresIn = 0, ocScope = [], ocTokenType = []\<rparr>"

definition GetOAuthCredentialsInput :: "string \<Rightarrow> string \<Rightarrow> string \<Rightarrow> string \<Rightarrow> (string \<times> string) list" where
  "GetOAuthCredentialsInput code clientID redirectURI grantType = [
     (''code'', code), (''client_id'', clientID), (''redirect_uri'', redirectURI), (''grant_type'', grantType)]"

definition RefreshOAuthCredentialsInput :: "string \<Rightarrow> string \<Rightarrow> string \<Rightarrow> (string \<times> string) list" where
  "RefreshOAuthCredentialsInput refreshToken clientID grantType = [
     (''refresh_token'', refreshToken), (''client_id'', clientID), (''grant_type'', grantType)]"

record auth_Project =
  apID :: int
  apURL :: string
  apSlug :: string

definition auth_project_fields :: "auth_Project fields" where
  "auth_project_fields = [
     (''id'', set_int (\<lambda>n r. r\<lparr>apID := n\<rparr>)),
     (''url'', set_str (\<lambda>s r. r\<lparr>apURL := s\<rparr>)),
     (''slug'', set_str (\<lambda>s r. r\<lparr>apSlug := s\<rparr>))]"

text \<open>\<^verbatim>\<open>ListProjects\<close> decodes a slice, not a struct.\<close>

definition decode_projects :: "json \<Rightarrow> auth_Project option list \<Rightarrow> goerr + auth_Project option list" where
  "decode_projects = set_slice (elem_struct auth_project_fields \<lparr>apID = 0, apURL = [], apSlug = []\<rparr>) (\<lambda>xs _. xs)"

end
