(* ===== verification/Batch_Client.thy ===== *)
theory Batch_Client
  imports Http_Client Workload_Payload
begin

text \<open>
  The operations of the API clients over the request engine: \<^verbatim>\<open>nerd/client/batch/v1\<close>
  (\<^verbatim>\<open>dataset.go\<close>, \<^verbatim>\<open>task.go\<close>, \<^verbatim>\<open>run.go\<close>, \<^verbatim>\<open>secret.go\<close>, \<^verbatim>\<open>workload.go\<close>, \<^verbatim>\<open>plan.go\<close>,
  \<^verbatim>\<open>placement.go\<close>, \<^verbatim>\<open>token.go\<close>, \<^verbatim>\<open>upload.go\<close>, \<^verbatim>\<open>worker.go\<close>, \<^verbatim>\<open>ping.go\<close>) and
  \<^verbatim>\<open>nerd/client/auth/v1\<close>. Each operation fixes a method, a path, an input and an output; on an
  error the output is not used by any caller and is left out.
\<close>

type_synonym ('w, 'o) api = "string \<times> 'w \<Rightarrow> (goerr + 'o) \<times> (string \<times> 'w)"

text \<open>The output of a struct type, and no members at all.\<close>

definition into :: "'o fields \<Rightarrow> 'o \<Rightarrow> 'o target" where
  "into fs zero = (zero, Some (decode_struct fs))"

abbreviation into_nothing :: "unit target" where
  "into_nothing \<equiv> into no_fields ()"

definition tasksEndpoint :: string where "tasksEndpoint = ''tasks''"
definition tokensEndpoint :: string where "tokensEndpoint = ''tokens''"
definition datasetEndpoint :: string where "datasetEndpoint = ''datasets''"
definition workloadsEndpoint :: string where "workloadsEndpoint = ''workloads''"
definition secretsEndpoint :: string where "secretsEndpoint = ''secrets''"
definition placementsEndpoint :: string where "placementsEndpoint = ''placements''"
definition plansEndpoint :: string where "plansEndpoint = ''plans''"

section \<open>Datasets and uploads\<close>

definition CreateDataset :: "'w ClientConfig \<Rightarrow> string \<Rightarrow> ('w, CreateDatasetOutput) api" where
  "CreateDataset c projectID = doRequest c POST (createPath projectID [datasetEndpoint])
     (Some (CreateDatasetInput [])) (into create_dataset_fields empty_create_dataset)"

definition DescribeDataset :: "'w ClientConfig \<Rightarrow> string \<Rightarrow> string \<Rightarrow> ('w, DatasetSummary) api" where
  "DescribeDataset c projectID datasetID = doRequest c GET (createPath projectID [datasetEndpoint, datasetID])
     None (into dataset_fields empty_dataset)"

definition ListDatasets :: "'w ClientConfig \<Rightarrow> string \<Rightarrow> ('w, DatasetSummary option list) api" where
  "ListDatasets c projectID = doRequest c GET (createPath projectID [datasetEndpoint])
     None (into datasets_fields [])"

definition SendUploadHeartbeat :: "'w ClientConfig \<Rightarrow> string \<Rightarrow> string \<Rightarrow> ('w, bool) api" where
  "SendUploadHeartbeat c projectID datasetID =
     doRequest c POST (createPath projectID [datasetEndpoint, datasetID, ''heartbeats''])
       (Some (UploadInput projectID datasetID)) (into heartbeat_fields False)"

definition SendUploadSuccess :: "'w ClientConfig \<Rightarrow> string \<Rightarrow> string \<Rightarrow> ('w, unit) api" where
  "SendUploadSuccess c projectID datasetID =
     doRequest c POST (createPath projectID [datasetEndpoint, datasetID, ''success''])
       (Some (UploadInput projectID datasetID)) into_nothing"

section \<open>Tasks and runs\<close>

definition DescribeTask :: "'w ClientConfig \<Rightarrow> string \<Rightarrow> string \<Rightarrow> int \<Rightarrow> ('w, DescribeTaskOutput) api" where
  "DescribeTask c projectID workloadID taskID =
     doRequest c GET (createPath projectID [workloadsEndpoint, workloadID, ''tasks'', int_text taskID])
       (Some (DescribeTaskInput projectID workloadID taskID)) (into describe_task_fields empty_describe_task)"

definition StartTask :: "'w ClientConfig \<Rightarrow> string \<Rightarrow> string \<Rightarrow> string list option
    \<Rightarrow> (string \<times> string) list option \<Rightarrow> string option \<Rightarrow> ('w, TaskSummary) api" where
  "StartTask c projectID workloadID cmd env stdin =
     doRequest c POST (createPath projectID [workloadsEndpoint, workloadID, ''tasks''])
       (Some (StartTaskInput projectID workloadID cmd env stdin)) (into task_fields empty_task)"

definition StopTask :: "'w ClientConfig \<Rightarrow> string \<Rightarrow> string \<Rightarrow> int \<Rightarrow> ('w, unit) api" where
  "StopTask c projectID workloadID taskID =
     doRequest c DELETE (createPath projectID [workloadsEndpoint, workloadID, ''tasks'', int_text taskID])
       (Some (StopTaskInput projectID workloadID taskID)) into_nothing"

definition ListTasks :: "'w ClientConfig \<Rightarrow> string \<Rightarrow> string \<Rightarrow> bool \<Rightarrow> ('w, TaskSummary option list) api" where
  "ListTasks c projectID workloadID onlySuccessTasks =
     doRequest c GET (createPath projectID [workloadsEndpoint, workloadID, ''tasks''])
       (Some (ListTasksInput projectID workloadID onlySuccessTasks)) (into tasks_fields [])"

definition SendRunHeartbeat :: "'w ClientConfig \<Rightarrow> string \<Rightarrow> string \<Rightarrow> int \<Rightarrow> string \<Rightarrow> ('w, bool) api" where
  "SendRunHeartbeat c projectID workloadID taskID runToken =
     doRequest c POST (createPath projectID [workloadsEndpoint, workloadID, ''tasks'', int_text taskID, ''heartbeats''])
       (Some (SendRunHeartbeatInput projectID workloadID taskID runToken)) (into heartbeat_fields False)"

definition SendRunSuccess :: "'w ClientConfig \<Rightarrow> string \<Rightarrow> string \<Rightarrow> int \<Rightarrow> string \<Rightarrow> string \<Rightarrow> string
    \<Rightarrow> ('w, unit) api" where
  "SendRunSuccess c projectID workloadID taskID runToken result outputDatasetID =
     doRequest c POST (createPath projectID [workloadsEndpoint, workloadID, ''tasks'', int_text taskID, ''success''])
       (Some (SendRunSuccessInput projectID workloadID taskID runToken result outputDatasetID)) into_nothing"

definition SendRunFailure :: "'w ClientConfig \<Rightarrow> string \<Rightarrow> string \<Rightarrow> int \<Rightarrow> string \<Rightarrow> string \<Rightarrow> string
    \<Rightarrow> ('w, unit) api" where
  "SendRunFailure c projectID workloadID taskID runToken errCode errMessage =
     doRequest c POST (createPath projectID [workloadsEndpoint, workloadID, ''tasks'', int_text taskID, ''failure''])
       (Some (SendRunFailureInput projectID workloadID taskID runToken errCode errMessage)) into_nothing"

section \<open>Secrets\<close>

definition CreateSecret :: "'w ClientConfig \<Rightarrow> string \<Rightarrow> string \<Rightarrow> string \<Rightarrow> string \<Rightarrow> ('w, SecretSummary) api" where
  "CreateSecret c projectID name key val =
     doRequest c POST (createPath projectID [secretsEndpoint])
       (Some (CreateSecretInput projectID name key val [] [] SecretTypeOpaque)) (into secret_fields empty_secret)"

definition CreatePullSecret :: "'w ClientConfig \<Rightarrow> string \<Rightarrow> string \<Rightarrow> string \<Rightarrow> string \<Rightarrow> ('w, SecretSummary) api" where
  "CreatePullSecret c projectID name dockerUsername dockerPassword =
     doRequest c POST (createPath projectID [secretsEndpoint])
       (Some (CreateSecretInput projectID name [] [] dockerUsername dockerPassword SecretTypeRegistry))
       (into secret_fields empty_secret)"

definition DeleteSecret :: "'w ClientConfig \<Rightarrow> string \<Rightarrow> string \<Rightarrow> ('w, unit) api" where
  "DeleteSecret c projectID name =
     doRequest c DELETE (createPath projectID [secretsEndpoint, name])
       (Some (NamedSecretInput projectID name)) into_nothing"

definition ListSecrets :: "'w ClientConfig \<Rightarrow> string \<Rightarrow> ('w, ListSecretsOutput) api" where
  "ListSecrets c projectID =
     doRequest c GET (createPath projectID [secretsEndpoint])
       (Some (ProjectInput projectID)) (into list_secrets_fields \<lparr>lsProjectID = [], Secrets = []\<rparr>)"

definition DescribeSecret :: "'w ClientConfig \<Rightarrow> string \<Rightarrow> string \<Rightarrow> ('w, DescribeSecretOutput) api" where
  "DescribeSecret c projectID name =
     doRequest c GET (createPath projectID [secretsEndpoint, name])
       (Some (NamedSecretInput projectID name)) (into describe_secret_fields empty_describe_secret)"

section \<open>Workloads and workers\<close>

definition CreateWorkload :: "'w ClientConfig \<Rightarrow> string \<Rightarrow> string \<Rightarrow> string \<Rightarrow> string \<Rightarrow> nat
    \<Rightarrow> (string \<times> string) list option \<Rightarrow> int \<Rightarrow> bool \<Rightarrow> ('w, WorkloadSummary) api" where
  "CreateWorkload c projectID img inputDatasetID pullSecret computeUnits env nrOfWorkers useCuteur =
     doRequest c POST (createPath projectID [workloadsEndpoint])
       (Some (CreateWorkloadInput projectID img inputDatasetID pullSecret computeUnits env nrOfWorkers useCuteur))
       (into workload_fields empty_workload)"

definition StopWorkload :: "'w ClientConfig \<Rightarrow> string \<Rightarrow> string \<Rightarrow> ('w, unit) api" where
  "StopWorkload c projectID workloadID =
     doRequest c DELETE (createPath projectID [workloadsEndpoint, workloadID])
       (Some (WorkloadInput projectID workloadID)) into_nothing"

definition ListWorkloads :: "'w ClientConfig \<Rightarrow> string \<Rightarrow> ('w, WorkloadSummary option list) api" where
  "ListWorkloads c projectID =
     doRequest c GET (createPath projectID [workloadsEndpoint])
       (Some (ProjectInput projectID)) (into workloads_fields [])"

definition DescribeWorkload :: "'w ClientConfig \<Rightarrow> string \<Rightarrow> string \<Rightarrow> ('w, DescribeWorkloadOutput) api" where
  "DescribeWorkload c projectID workloadID =
     doRequest c GET (createPath projectID [workloadsEndpoint, workloadID])
       (Some (WorkloadInput projectID workloadID)) (into describe_workload_fields empty_describe_workload)"

definition WorkerLogs :: "'w ClientConfig \<Rightarrow> string \<Rightarrow> string \<Rightarrow> string \<Rightarrow> ('w, string) api" where
  "WorkerLogs c projectID workloadID workerID =
     doRequest c GET (createPath projectID [workloadsEndpoint, workloadID, ''workers'', workerID, ''logs''])
       (Some (WorkerLogsInput projectID workloadID workerID)) (into logs_fields [])"

section \<open>Plans, placements, tokens, ping\<close>

definition CreatePlan :: "'w ClientConfig \<Rightarrow> string \<Rightarrow> string \<Rightarrow> string \<Rightarrow> ('w, PlanOutput) api" where
  "CreatePlan c projectID planID computeUnits =
     doRequest c POST (createPath projectID [plansEndpoint])
       (Some (CreatePlanInput planID computeUnits)) (into plan_fields empty_plan)"

definition RemovePlan :: "'w ClientConfig \<Rightarrow> string \<Rightarrow> string \<Rightarrow> ('w, unit) api" where
  "RemovePlan c projectID planID =
     doRequest c DELETE (createPath projectID [plansEndpoint, planID]) (Some EmptyInput) into_nothing"

definition DeletePlan :: "'w ClientConfig \<Rightarrow> string \<Rightarrow> ('w, unit) api" where
  "DeletePlan c planID =
     doRequest c DELETE (createPath [] [plansEndpoint, planID]) (Some EmptyInput) into_nothing"

definition ListPlans :: "'w ClientConfig \<Rightarrow> string \<Rightarrow> ('w, ListPlansOutput) api" where
  "ListPlans c projectID =
     doRequest c GET (createPath projectID [plansEndpoint]) (Some EmptyInput)
       (into list_plans_fields empty_list_plans)"

definition UpdatePlan :: "'w ClientConfig \<Rightarrow> string \<Rightarrow> string \<Rightarrow> string \<Rightarrow> ('w, PlanOutput) api" where
  "UpdatePlan c projectID planID computeUnits =
     doRequest c PUT (createPath projectID [plansEndpoint, planID])
       (Some (UpdatePlanInput False computeUnits)) (into plan_fields empty_plan)"

definition PlaceProject :: "'w ClientConfig \<Rightarrow> string \<Rightarrow> string \<Rightarrow> string \<Rightarrow> string \<Rightarrow> string \<Rightarrow> string
    \<Rightarrow> string \<Rightarrow> bool \<Rightarrow> ('w, unit) api" where
  "PlaceProject c projectID host token capem username password computeUnits insecure =
     doRequest c POST (createPath projectID [placementsEndpoint])
       (Some (PlaceProjectInput projectID host token capem password username insecure computeUnits)) into_nothing"

definition ExpelProject :: "'w ClientConfig \<Rightarrow> string \<Rightarrow> ('w, unit) api" where
  "ExpelProject c projectID =
     doRequest c DELETE (createPath projectID [placementsEndpoint]) (Some (ProjectInput projectID)) into_nothing"

definition CreateToken :: "'w ClientConfig \<Rightarrow> string \<Rightarrow> ('w, CreateTokenOutput) api" where
  "CreateToken c projectID =
     doRequest c POST (createPath projectID [tokensEndpoint])
       (Some (ProjectInput projectID)) (into token_fields empty_token)"

definition Ping :: "'w ClientConfig \<Rightarrow> ('w, unit) api" where
  "Ping c = doRequest c GET ''ping'' None ((), None)"

section \<open>The auth API\<close>

definition tokenEndpoint :: string where "tokenEndpoint = ''token''"
definition projectsEndpoint :: string where "projectsEndpoint = ''projects''"
definition NCEScope :: string where "NCEScope = ''nce.nerdalize.com''"

definition ListProjects :: "'w ClientConfig \<Rightarrow> ('w, auth_Project option list) api" where
  "ListProjects c = auth_doRequest c GET projectsEndpoint None ([], Some decode_projects)"

definition GetJWT :: "'w ClientConfig \<Rightarrow> string \<Rightarrow> ('w, string) api" where
  "GetJWT c scope = auth_doRequest c GET (tokenEndpoint @ ''?service='' @ scope) None (into jwt_output_fields [])"

definition GetWorkerJWT :: "'w ClientConfig \<Rightarrow> string \<Rightarrow> string \<Rightarrow> ('w, GetWorkerJWTOutput) api" where
  "GetWorkerJWT c project scope =
     auth_doRequest c POST (tokenEndpoint @ ''/'' @ project @ ''/worker/?service='' @ scope) None
       (into worker_jwt_fields \<lparr>wjToken = [], wjSecret = []\<rparr>)"

definition GetOAuthCredentials :: "'w doer \<Rightarrow> url \<Rightarrow> string \<Rightarrow> string \<Rightarrow> string \<Rightarrow> 'w
    \<Rightarrow> (goerr + OAuthCredentials) \<times> 'w" where
  "GetOAuthCredentials exec base code clientID localServerURL =
     ops_doRequest exec base POST ''o/token/''
       (GetOAuthCredentialsInput code clientID localServerURL ''authorization_code'')
       (into credentials_fields empty_credentials)"

definition RefreshOAuthCredentials :: "'w doer \<Rightarrow> url \<Rightarrow> string \<Rightarrow> string \<Rightarrow> 'w
    \<Rightarrow> (goerr + OAuthCredentials) \<times> 'w" where
  "RefreshOAuthCredentials exec base refreshToken clientID =
     ops_doRequest exec base POST ''o/token/''
       (RefreshOAuthCredentialsInput refreshToken clientID ''refresh_token'')
       (into credentials_fields empty_credentials)"

definition RefreshJWT :: "'w doer \<Rightarrow> url \<Rightarrow> string \<Rightarrow> string \<Rightarrow> string \<Rightarrow> 'w \<Rightarrow> (goerr + string) \<times> 'w" where
  "RefreshJWT exec base projectID jwt secret =
     token_doRequest exec base POST (tokenEndpoint @ ''/'' @ projectID @ ''/refresh/'')
       (Some (RefreshWorkerJWTInput jwt secret)) (into jwt_output_fields [])"

definition RevokeJWT :: "'w doer \<Rightarrow> url \<Rightarrow> string \<Rightarrow> string \<Rightarrow> string \<Rightarrow> 'w \<Rightarrow> (goerr + string) \<times> 'w" where
  "RevokeJWT exec base projectID jwt secret =
     token_doRequest exec base POST (tokenEndpoint @ ''/'' @ projectID @ ''/revoke/'')
       (Some (RefreshWorkerJWTInput jwt secret)) (into jwt_output_fields [])"

section \<open>What goes over the wire\<close>

text \<open>
  The filter of \<^verbatim>\<open>ListTasks\<close> never reaches the server: the input of a GET request is dropped
  and the path does not mention it, so listing all tasks and listing the successful ones
  are the same call.
\<close>
theorem ListTasks_ignores_filter:
  "ListTasks c projectID workloadID onlySuccessTasks = ListTasks c projectID workloadID other"
  by (rule ext)
    (simp add: ListTasks_def doRequest_def bearer_request_def json_body_def call_def)

lemma safe_digit: "is_digit c \<Longrightarrow> safe_char c"
  by (auto simp: is_digit_def safe_char_def path_char_def is_alnum_def Let_def)

lemma safe_int_text [simp]: "safe_elem (int_text n)"
proof -
  have "list_all safe_char (nat_text m)" for m
    using nat_text_digits safe_digit by (auto simp: list_all_iff)
  moreover have "safe_char CHR ''-''" by code_simp
  ultimately have "list_all safe_char (int_text n)" by (simp add: int_text_def)
  with plainD [OF plain_int_text, of n] show ?thesis by (simp add: safe_elem_def)
qed

lemma safe_constants [simp]:
  "safe_elem workloadsEndpoint" "safe_elem datasetEndpoint" "safe_elem ''tasks''" "safe_elem ''heartbeats''"
  "safe_elem ''success''" "safe_elem ''failure''"
  by code_simp+

text \<open>A call with a cached credential sends exactly one request, to the address of its elements.\<close>

lemma doRequest_sends:
  assumes "TokenProvider c = Some p" and "IsExpired p w = (False, w)" and "cred \<noteq> []"
    and "addressed c projectID es = Some u"
  shows "fst (snd (snd (doRequest (with_log c) m (createPath projectID es) input out (cred, log, w)))) =
    log @ [\<lparr>Method = m, ReqURL = u, Header = [(AuthHeader, ''Bearer '' @ cred)], ReqBody = json_body m input\<rparr>]"
proof -
  have jwt: "getJWT (with_log c) (cred, log, w) = (Inr cred, cred, log, w)"
    using assms by (simp add: getJWT_def get_credential_def with_log_def lift_provider_def)
  from assms(4) obtain ref where ref: "url_Parse (createPath projectID es) = Inr ref"
    and u: "u = ResolveReference (BaseURL c) ref"
    by (auto simp: addressed_def split: sum.splits)
  then show ?thesis
    by (simp add: doRequest_def jwt send_def logged_def bearer_request_def split: prod.splits sum.splits)
qed

text \<open>The address of a sub-resource of a task.\<close>

definition task_url :: "url \<Rightarrow> string list \<Rightarrow> string \<Rightarrow> string \<Rightarrow> int \<Rightarrow> string \<Rightarrow> url" where
  "task_url base bs projectID workloadID taskID what = \<lparr>Scheme = Scheme base, Opaque = [], Host = Host base,
     Path = slash # join_slash (bs @ [projectsPrefix, projectID, workloadsEndpoint, workloadID, ''tasks'',
       int_text taskID, what]),
     RawPath = [], ForceQuery = False, RawQuery = [], Fragment = []\<rparr>"

lemma task_addressed:
  assumes "Path (BaseURL conf) = slash # join_slash bs \<or> Path (BaseURL conf) = base_path bs"
    and "RawPath (BaseURL conf) = []" and "list_all safe_elem bs"
    and "safe_elem projectID" and "safe_elem workloadID" and "safe_elem what"
  shows "addressed (NewClient conf) projectID [workloadsEndpoint, workloadID, ''tasks'', int_text taskID, what]
    = Some (task_url (BaseURL conf) bs projectID workloadID taskID what)"
  using assms(4-6) by (subst addressed_path [OF assms(1-3)]) (simp_all add: task_url_def)

definition post_request :: "url \<Rightarrow> string \<Rightarrow> json \<Rightarrow> http_request" where
  "post_request u cred input =
     \<lparr>Method = POST, ReqURL = u, Header = [(AuthHeader, ''Bearer '' @ cred)], ReqBody = JsonBody input\<rparr>"

text \<open>
  The reports of a worker on its run: with plain ids and a valid credential, a heartbeat, a
  success and a failure each send exactly one POST, to the task of the run, with the
  bearer token and with the run's token and ids in the body, and the three go to three addresses.
\<close>
theorem run_reports:
  assumes "Path (BaseURL conf) = slash # join_slash bs \<or> Path (BaseURL conf) = base_path bs"
    and "RawPath (BaseURL conf) = []" and "list_all safe_elem bs"
    and "safe_elem projectID" and "safe_elem workloadID"
    and "TokenProvider conf = Some p" and "IsExpired p w = (False, w)" and "cred \<noteq> []"
  shows "fst (snd (snd (SendRunHeartbeat (with_log (NewClient conf)) projectID workloadID taskID token (cred, log, w)))) =
           log @ [post_request (task_url (BaseURL conf) bs projectID workloadID taskID ''heartbeats'') cred (SendRunHeartbeatInput projectID workloadID taskID token)]
       \<and> fst (snd (snd (SendRunSuccess (with_log (NewClient conf)) projectID workloadID taskID token result dataset (cred, log, w)))) =
           log @ [post_request (task_url (BaseURL conf) bs projectID workloadID taskID ''success'') cred (SendRunSuccessInput projectID workloadID taskID token result dataset)]
       \<and> fst (snd (snd (SendRunFailure (with_log (NewClient conf)) projectID workloadID taskID token code msg (cred, log, w)))) =
           log @ [post_request (task_url (BaseURL conf) bs projectID workloadID taskID ''failure'') cred (SendRunFailureInput projectID workloadID taskID token code msg)]"
proof -
  have p: "TokenProvider (NewClient conf) = Some p" by (simp add: NewClient_def assms(6))
  note addr = task_addressed [OF assms(1-5)]
  show ?thesis
    unfolding SendRunHeartbeat_def SendRunSuccess_def SendRunFailure_def
    by (simp add: doRequest_sends [OF p assms(7,8) addr] json_body_def post_request_def)
qed

theorem run_reports_witness:
  "map Method (fst (snd (snd (SendRunHeartbeat (with_log (NewClient demo_base)) ''7'' ''w'' 3 ''rt'' (''tok'', [], [])))))
     = [POST]"
proof -
  have s: "Path (BaseURL demo_base) = slash # join_slash [''v1''] \<or> Path (BaseURL demo_base) = base_path [''v1'']"
    "RawPath (BaseURL demo_base) = []" "TokenProvider demo_base = Some demo_provider"
    by (simp_all add: demo_base_def demo_404_def demo_url_def empty_url_def)
  have e: "list_all safe_elem [''v1'']" "safe_elem ''7''" "safe_elem ''w''" "''tok'' \<noteq> []" by code_simp+
  have d: "IsExpired demo_provider w = (False, w)" for w :: "http_request list" by (simp add: demo_provider_def)
  show ?thesis
    using run_reports [OF s(1,2) e(1-3) s(3) d e(4), where log = "[]" and taskID = 3 and token = "''rt''"]
    by (simp add: post_request_def)
qed

end
