(* ===== verification/Task_Queue.thy ===== *)
theory Task_Queue
  imports Batch_Client
begin

text \<open>
  Receiving task runs: \<^verbatim>\<open>ReceiveTaskRuns\<close> of \<^verbatim>\<open>nerd/client/batch/v1/task.go\<close> and the queue of
  \<^verbatim>\<open>nerd/aws/queue_client.go\<close>. SQS itself is the argument of the queue client. The loop has no
  bound of its own, so it takes fuel, one unit per poll; \<open>None\<close> means the fuel ran out. The timer is
  the clock of the world reaching the deadline.
\<close>

record ('m, 'w) QueueOps =
  ReceiveMessages :: "string \<Rightarrow> int \<Rightarrow> int \<Rightarrow> 'w \<Rightarrow> (goerr + 'm list) \<times> 'w"
  UnmarshalMessage :: "'m \<Rightarrow> Run \<Rightarrow> goerr + Run"
  DeleteMessage :: "string \<Rightarrow> 'm \<Rightarrow> 'w \<Rightarrow> (goerr + unit) \<times> 'w"

section \<open>The SQS queue\<close>

text \<open>A message is an SQS message (its body as a document, its receipt) or a value of another type.\<close>

datatype message = SqsMessage "json option" string | OtherMessage

record 'w sqs =
  sqs_receive :: "string \<Rightarrow> int \<Rightarrow> int \<Rightarrow> 'w \<Rightarrow> (goerr + (json option \<times> string) list) \<times> 'w"
  sqs_delete :: "string \<Rightarrow> string \<Rightarrow> 'w \<Rightarrow> (goerr + unit) \<times> 'w"

definition not_a_message :: goerr where
  "not_a_message = Fundamental ''message was not of type *sqs.Message''"

definition sqs_ReceiveMessages :: "'w sqs \<Rightarrow> string \<Rightarrow> int \<Rightarrow> int \<Rightarrow> 'w \<Rightarrow> (goerr + message list) \<times> 'w" where
  "sqs_ReceiveMessages svc queueURL maxNoOfMessages waitTimeSeconds =
     call (sqs_receive svc queueURL maxNoOfMessages waitTimeSeconds) (\<lambda>err. err)
       (\<lambda>out w. (Inr (map (\<lambda>(body, receipt). SqsMessage body receipt) out), w))"

definition sqs_UnmarshalMessage :: "message \<Rightarrow> Run \<Rightarrow> goerr + Run" where
  "sqs_UnmarshalMessage message v = (case message of
     OtherMessage \<Rightarrow> Inl not_a_message
   | SqsMessage body receipt \<Rightarrow> (case body of
         None \<Rightarrow> Inl json_syntax_error
       | Some j \<Rightarrow> decode_struct run_fields j v))"

definition sqs_DeleteMessage :: "'w sqs \<Rightarrow> string \<Rightarrow> message \<Rightarrow> 'w \<Rightarrow> (goerr + unit) \<times> 'w" where
  "sqs_DeleteMessage svc queueURL message w = (case message of
     OtherMessage \<Rightarrow> (Inl not_a_message, w)
   | SqsMessage body receipt \<Rightarrow> sqs_delete svc queueURL receipt w)"

definition QueueClient :: "'w sqs \<Rightarrow> (message, 'w) QueueOps" where
  "QueueClient svc = \<lparr>ReceiveMessages = sqs_ReceiveMessages svc, UnmarshalMessage = sqs_UnmarshalMessage,
     DeleteMessage = sqs_DeleteMessage svc\<rparr>"

section \<open>Receiving\<close>

text \<open>An operation of the world beside the cached credential of the client.\<close>

definition beside :: "('w \<Rightarrow> 'r \<times> 'w) \<Rightarrow> string \<times> 'w \<Rightarrow> 'r \<times> (string \<times> 'w)" where
  "beside f s = (case f (snd s) of (r, w) \<Rightarrow> (r, fst s, w))"

text \<open>
  The loop over the messages of one poll: \<open>Inr None\<close> when it comes to an end without a run.
\<close>

fun handle_messages :: "'w ClientConfig \<Rightarrow> ('m, 'w) QueueOps \<Rightarrow> string \<Rightarrow> 'm list
    \<Rightarrow> string \<times> 'w \<Rightarrow> (goerr + Run option) \<times> (string \<times> 'w)" where
  "handle_messages c q queueURL [] s = (Inr None, s)"
| "handle_messages c q queueURL (msg # msgs) s =
     (case UnmarshalMessage q msg empty_run of
        Inl err \<Rightarrow> (Inl (Fundamental (''failed to decode message: '' @ verbose_text err)), s)
      | Inr r \<Rightarrow>
         (case beside (DeleteMessage q queueURL msg) s of
            (Inl err, s) \<Rightarrow> (Inl (Fundamental (''failed to receive runs: '' @ verbose_text err)), s)
          | (Inr _, s) \<Rightarrow>
             (case SendRunHeartbeat c (rProjectID r) (rWorkloadID r) (rTaskID r) (rToken r) s of
                (Inl err, s) \<Rightarrow> handle_messages c q queueURL msgs s
              | (Inr hasExpired, s) \<Rightarrow>
                  if hasExpired then handle_messages c q queueURL msgs s else (Inr (Some r), s))))"

fun receive_loop :: "nat \<Rightarrow> ('w \<Rightarrow> int) \<Rightarrow> 'w ClientConfig \<Rightarrow> ('m, 'w) QueueOps \<Rightarrow> string \<Rightarrow> int
    \<Rightarrow> string \<times> 'w \<Rightarrow> ((goerr + Run list) \<times> (string \<times> 'w)) option" where
  "receive_loop 0 clock c q queueURL deadline s = None"
| "receive_loop (Suc n) clock c q queueURL deadline s =
     (if deadline \<le> clock (snd s) then Some (Inr [], s)
      else case beside (ReceiveMessages q queueURL 1 5) s of
        (Inl err, s) \<Rightarrow> Some (Inl (Fundamental (''failed to receive runs: '' @ verbose_text err)), s)
      | (Inr out, s) \<Rightarrow>
         (case handle_messages c q queueURL out s of
            (Inl err, s) \<Rightarrow> Some (Inl err, s)
          | (Inr (Some r), s) \<Rightarrow> Some (Inr [r], s)
          | (Inr None, s) \<Rightarrow> receive_loop n clock c q queueURL deadline s))"

definition ReceiveTaskRuns :: "nat \<Rightarrow> ('w \<Rightarrow> int) \<Rightarrow> 'w ClientConfig \<Rightarrow> string \<Rightarrow> string \<Rightarrow> int
    \<Rightarrow> ('m, 'w) QueueOps \<Rightarrow> string \<times> 'w \<Rightarrow> ((goerr + Run list) \<times> (string \<times> 'w)) option" where
  "ReceiveTaskRuns n clock c projectID workloadID timeout q s =
     (case DescribeWorkload c projectID workloadID s of
        (Inl err, s) \<Rightarrow> Some (Inl (Fundamental (''failed to describe workload: '' @ verbose_text err)), s)
      | (Inr workload, s) \<Rightarrow>
          receive_loop n clock c q (QueueURL workload) (clock (snd s) + timeout) s)"

section \<open>What a received run has gone through\<close>

text \<open>Decoded from a message that was deleted from the queue, and then confirmed alive.\<close>

definition confirmed :: "'w ClientConfig \<Rightarrow> ('m, 'w) QueueOps \<Rightarrow> string \<Rightarrow> Run \<Rightarrow> string \<times> 'w \<Rightarrow> bool" where
  "confirmed c q queueURL r s' \<longleftrightarrow> (\<exists>msg s1 s2.
     UnmarshalMessage q msg empty_run = Inr r \<and>
     beside (DeleteMessage q queueURL msg) s1 = (Inr (), s2) \<and>
     SendRunHeartbeat c (rProjectID r) (rWorkloadID r) (rTaskID r) (rToken r) s2 = (Inr False, s'))"

lemma handle_messages_run:
  "handle_messages c q queueURL msgs s = (Inr (Some r), s') \<Longrightarrow> confirmed c q queueURL r s'"
proof (induction msgs arbitrary: s)
  case (Cons msg msgs)
  from Cons.prems obtain r0 s2 where 1: "UnmarshalMessage q msg empty_run = Inr r0"
    and 2: "beside (DeleteMessage q queueURL msg) s = (Inr (), s2)"
    by (auto split: sum.splits prod.splits)
  obtain h s3 where 3: "SendRunHeartbeat c (rProjectID r0) (rWorkloadID r0) (rTaskID r0) (rToken r0) s2 = (h, s3)"
    by (rule prod.exhaust)
  show ?case
  proof (cases "h = Inr False")
    case True
    with Cons.prems 1 2 3 have "r0 = r" "s3 = s'" by simp_all
    with 1 2 3 True show ?thesis unfolding confirmed_def by blast
  next
    case False
    with Cons.prems 1 2 3 have "handle_messages c q queueURL msgs s3 = (Inr (Some r), s')"
      by (cases h) simp_all
    then show ?thesis by (rule Cons.IH)
  qed
qed simp

lemma receive_loop_run:
  "receive_loop n clock c q queueURL deadline s = Some (Inr rs, s') \<Longrightarrow>
     rs = [] \<or> (\<exists>r. rs = [r] \<and> confirmed c q queueURL r s')"
proof (induction n arbitrary: s)
  case (Suc n)
  show ?case
  proof (cases "deadline \<le> clock (snd s)")
    case False
    with Suc.prems obtain out s1 where 1: "beside (ReceiveMessages q queueURL 1 5) s = (Inr out, s1)"
      by (auto split: prod.splits sum.splits)
    obtain h s2 where 2: "handle_messages c q queueURL out s1 = (h, s2)"
      by (rule prod.exhaust)
    with 1 False Suc show ?thesis
      by (cases h; simp split: option.splits) (use handle_messages_run in blast)
  qed (use Suc in simp)
qed simp

text \<open>
  C10: \<^verbatim>\<open>ReceiveTaskRuns\<close> returns at most one run, and one that it returns was decoded from a message
  that had already been deleted from the workload's queue when a heartbeat for it was answered
  with "not expired": no other worker can receive it again from that message, and it is alive.
\<close>
theorem received_run_is_confirmed:
  assumes "ReceiveTaskRuns n clock c projectID workloadID timeout q s = Some (Inr rs, s')"
  shows "rs = [] \<or> (\<exists>r workload s1. rs = [r] \<and> DescribeWorkload c projectID workloadID s = (Inr workload, s1)
           \<and> confirmed c q (QueueURL workload) r s')"
  using assms receive_loop_run [of n clock c q] unfolding ReceiveTaskRuns_def
  by (auto split: prod.splits sum.splits)

text \<open>
  A run can be lost: when the heartbeat that should confirm it fails for any reason, a broken
  connection or a server error included, the loop goes on without it, although its message has
  already been deleted from the queue.
\<close>
theorem failed_heartbeat_drops_run:
  assumes "UnmarshalMessage q msg empty_run = Inr r"
    and "beside (DeleteMessage q queueURL msg) s = (Inr (), s1)"
    and "SendRunHeartbeat c (rProjectID r) (rWorkloadID r) (rTaskID r) (rToken r) s1 = (Inl err, s2)"
  shows "handle_messages c q queueURL [msg] s = (Inr None, s2)"
  using assms by simp

section \<open>The loop ends\<close>

text \<open>
  Each poll that returns takes time (a long poll waits, or the network does), and no other
  operation turns the clock back.
\<close>

definition time_passes :: "('w \<Rightarrow> int) \<Rightarrow> 'w ClientConfig \<Rightarrow> ('m, 'w) QueueOps \<Rightarrow> int \<Rightarrow> bool" where
  "time_passes clock c q d \<longleftrightarrow>
     (\<forall>u w. clock w + d \<le> clock (snd (ReceiveMessages q u 1 5 w))) \<and>
     (\<forall>u m w. clock w \<le> clock (snd (DeleteMessage q u m w))) \<and>
     (\<forall>p wl t k s. clock (snd s) \<le> clock (snd (snd (SendRunHeartbeat c p wl t k s))))"

lemma beside_snd [simp]: "snd (snd (beside f s)) = snd (f (snd s))" "fst (snd (beside f s)) = fst s"
  by (simp_all add: beside_def split: prod.splits)

lemma handle_messages_clock:
  assumes "time_passes clock c q d"
  shows "clock (snd s) \<le> clock (snd (snd (handle_messages c q u msgs s)))"
proof (induction msgs arbitrary: s)
  case (Cons msg msgs)
  show ?case
  proof (cases "UnmarshalMessage q msg empty_run")
    case (Inr r)
    obtain h1 s1 where 1: "beside (DeleteMessage q u msg) s = (h1, s1)" by (rule prod.exhaust)
    obtain h2 s2 where 2: "SendRunHeartbeat c (rProjectID r) (rWorkloadID r) (rTaskID r) (rToken r) s1 = (h2, s2)"
      by (rule prod.exhaust)
    have "clock (snd s) \<le> clock (snd (snd (beside (DeleteMessage q u msg) s)))"
      using assms by (simp add: time_passes_def)
    moreover have "clock (snd s1) \<le> clock (snd (snd (SendRunHeartbeat c (rProjectID r) (rWorkloadID r) (rTaskID r) (rToken r) s1)))"
      using assms unfolding time_passes_def by blast
    ultimately have le: "clock (snd s) \<le> clock (snd s1)" "clock (snd s1) \<le> clock (snd s2)"
      by (simp_all only: 1 2 snd_conv)
    have ih: "clock (snd s2) \<le> clock (snd (snd (handle_messages c q u msgs s2)))" by (rule Cons)
    show ?thesis
      using le ih by (cases h1; cases h2) (simp_all add: Inr 1 2)
  qed simp
qed simp

lemma receive_loop_ends:
  assumes tp: "time_passes clock c q d" and "0 < d"
  shows "deadline - clock (snd s) \<le> int n * d \<Longrightarrow> receive_loop (Suc n) clock c q u deadline s \<noteq> None"
proof (induction n arbitrary: s)
  case 0
  then show ?case by simp
next
  case (Suc n)
  obtain h1 s1 where 1: "beside (ReceiveMessages q u 1 5) s = (h1, s1)" by (rule prod.exhaust)
  have "clock (snd s) + d \<le> clock (snd (snd (beside (ReceiveMessages q u 1 5) s)))"
    using tp unfolding time_passes_def by simp
  then have le1: "clock (snd s) + d \<le> clock (snd s1)" by (simp only: 1 snd_conv)
  show ?case
  proof (cases h1)
    case (Inr out)
    obtain h2 s2 where 2: "handle_messages c q u out s1 = (h2, s2)" by (rule prod.exhaust)
    then have "clock (snd s1) \<le> clock (snd s2)"
      using handle_messages_clock [OF tp, of s1 u out] by simp
    with le1 Suc.prems have "deadline - clock (snd s2) \<le> int n * d"
      by (simp add: algebra_simps)
    then have "receive_loop (Suc n) clock c q u deadline s2 \<noteq> None" by (rule Suc.IH)
    then show ?thesis
      by (subst receive_loop.simps) (auto simp: Inr 1 2 simp del: receive_loop.simps split: sum.splits option.splits)
  qed (subst receive_loop.simps, simp add: 1 del: receive_loop.simps)
qed

text \<open>
  C30: \<^verbatim>\<open>ReceiveTaskRuns\<close> returns: if every poll takes at least \<open>d\<close> nanoseconds, it ends within
  \<open>timeout div d + 2\<close> polls, with runs, with none after the timeout, or with an error.
\<close>
theorem receive_returns:
  assumes "time_passes clock c q d" and "0 < d" and "0 \<le> timeout"
  shows "\<exists>r. ReceiveTaskRuns (nat (timeout div d) + 2) clock c projectID workloadID timeout q s = Some r"
proof -
  obtain h s1 where 1: "DescribeWorkload c projectID workloadID s = (h, s1)" by (rule prod.exhaust)
  show ?thesis
  proof (cases h)
    case (Inr workload)
    have "timeout = timeout div d * d + timeout mod d" by simp
    also have "\<dots> \<le> timeout div d * d + d" using pos_mod_bound [OF assms(2), of timeout] by linarith
    also have "\<dots> = int (nat (timeout div d) + 1) * d"
      using assms(2,3) by (simp add: pos_imp_zdiv_nonneg_iff algebra_simps)
    finally have "clock (snd s1) + timeout - clock (snd s1) \<le> int (nat (timeout div d) + 1) * d" by simp
    from receive_loop_ends [OF assms(1,2) this] show ?thesis
      by (auto simp: ReceiveTaskRuns_def 1 Inr simp del: receive_loop.simps)
  qed (simp add: ReceiveTaskRuns_def 1)
qed

section \<open>A queue with one run\<close>

text \<open>The world is its clock; a poll takes five seconds and finds the same message each time.\<close>

definition demo_queue_api :: "bool \<Rightarrow> int ClientConfig" where
  "demo_queue_api expired = \<lparr>Doer = (\<lambda>req t. (Inr \<lparr>StatusCode = 200, Status = ''200 OK'',
       RespBody = Inr (JObj (if Method req = GET then [(''queue_url'', JStr ''q'')]
                             else [(''has_expired'', JBool expired)]))\<rparr>, t)),
     TokenProvider = Some demo_provider, BaseURL = demo_url\<rparr>"

definition demo_run :: Run where
  "demo_run = empty_run\<lparr>rProjectID := ''7'', rWorkloadID := ''w'', rTaskID := 3, rToken := ''rt''\<rparr>"

definition demo_body :: json where
  "demo_body = JObj [(''project_id'', JStr ''7''), (''workload_id'', JStr ''w''), (''task_id'', JNum 3), (''token'', JStr ''rt'')]"

definition demo_sqs :: "int sqs" where
  "demo_sqs = \<lparr>sqs_receive = (\<lambda>u n k t. (Inr [(Some demo_body, ''h'')], t + 5)), sqs_delete = (\<lambda>u h t. (Inr (), t))\<rparr>"

lemma demo_unmarshal: "UnmarshalMessage (QueueClient demo_sqs) (SqsMessage (Some demo_body) ''h'') empty_run = Inr demo_run"
  by (simp add: QueueClient_def sqs_UnmarshalMessage_def demo_body_def decode_struct_def run_fields_def find_field_def
      set_str_def set_int_def in_int64_def min_int64_def max_int64_def demo_run_def empty_run_def)

lemma demo_request:
  assumes "list_all safe_elem (p # es)" and "es \<noteq> []"
  shows "doRequest (demo_queue_api x) m (createPath p es) input out (''tok'', t) =
    (finish_response batch_http_error out \<lparr>StatusCode = 200, Status = ''200 OK'',
       RespBody = Inr (JObj (if m = GET then [(''queue_url'', JStr ''q'')] else [(''has_expired'', JBool x)]))\<rparr>, ''tok'', t)"
proof -
  have "getJWT (demo_queue_api x) (''tok'', t) = (Inr ''tok'', ''tok'', t)"
    by (simp add: getJWT_def get_credential_def demo_queue_api_def demo_provider_def)
  then show ?thesis
    using createPath_parses [OF assms]
    by (simp add: doRequest_def send_def demo_queue_api_def bearer_request_def)
qed

lemma demo_describe:
  "DescribeWorkload (demo_queue_api x) ''7'' ''w'' (''tok'', t) = (Inr (empty_describe_workload\<lparr>QueueURL := ''q''\<rparr>), ''tok'', t)"
proof -
  have "list_all safe_elem [''7'', workloadsEndpoint, ''w'']" by code_simp
  then show ?thesis
    by (simp add: DescribeWorkload_def demo_request finish_response_def into_def Decode_def decode_struct_def
        describe_workload_fields_def workload_fields_def find_field_def set_str_def empty_describe_workload_def
        WorkloadSummary.defs empty_workload_def)
qed

lemma demo_heartbeat:
  "SendRunHeartbeat (demo_queue_api x) ''7'' ''w'' 3 ''rt'' (''tok'', t) = (Inr x, ''tok'', t)"
proof -
  have "list_all safe_elem [''7'', workloadsEndpoint, ''w'', ''tasks'', int_text 3, ''heartbeats'']"
    using safe_int_text [of 3] by (simp del: safe_int_text) code_simp
  then show ?thesis
    by (simp add: SendRunHeartbeat_def demo_request finish_response_def into_def Decode_def decode_struct_def
        heartbeat_fields_def find_field_def set_bool_def)
qed

lemma demo_receive:
  "ReceiveTaskRuns (Suc 0) (\<lambda>t. t) (demo_queue_api False) ''7'' ''w'' 60 (QueueClient demo_sqs) (''tok'', 0)
     = Some (Inr [demo_run], ''tok'', 5)"
proof -
  have rm: "beside (ReceiveMessages (QueueClient demo_sqs) ''q'' 1 5) (''tok'', 0) =
      (Inr [SqsMessage (Some demo_body) ''h''], ''tok'', 5)"
    by (simp add: beside_def QueueClient_def sqs_ReceiveMessages_def demo_sqs_def)
  have del: "beside (DeleteMessage (QueueClient demo_sqs) ''q'' (SqsMessage (Some demo_body) ''h'')) (''tok'', 5) = (Inr (), ''tok'', 5)"
    by (simp add: beside_def QueueClient_def sqs_DeleteMessage_def demo_sqs_def)
  have "rProjectID demo_run = ''7''" "rWorkloadID demo_run = ''w''" "rTaskID demo_run = 3" "rToken demo_run = ''rt''"
    by (simp_all add: demo_run_def)
  then show ?thesis
    by (simp add: ReceiveTaskRuns_def demo_describe rm del demo_unmarshal demo_heartbeat)
qed

theorem received_run_is_confirmed_witness:
  "\<exists>workload s1. DescribeWorkload (demo_queue_api False) ''7'' ''w'' (''tok'', 0) = (Inr workload, s1)
     \<and> confirmed (demo_queue_api False) (QueueClient demo_sqs) (QueueURL workload) demo_run (''tok'', 5)"
  using received_run_is_confirmed [OF demo_receive] by simp

theorem failed_heartbeat_drops_run_witness:
  "\<exists>s2. handle_messages ((demo_queue_api False)\<lparr>TokenProvider := None\<rparr>) (QueueClient demo_sqs) ''q''
     [SqsMessage (Some demo_body) ''h''] (''tok'', 5) = (Inr None, s2)"
proof -
  have del: "beside (DeleteMessage (QueueClient demo_sqs) ''q'' (SqsMessage (Some demo_body) ''h'')) (''tok'', 5) = (Inr (), ''tok'', 5)"
    by (simp add: beside_def QueueClient_def sqs_DeleteMessage_def demo_sqs_def)
  have "getJWT ((demo_queue_api False)\<lparr>TokenProvider := None\<rparr>) (''tok'', 5) = (Inl (Fundamental ''No JWT provider found''), ''tok'', 5)"
    by (simp add: getJWT_def get_credential_def)
  then have "SendRunHeartbeat ((demo_queue_api False)\<lparr>TokenProvider := None\<rparr>) (rProjectID demo_run) (rWorkloadID demo_run)
      (rTaskID demo_run) (rToken demo_run) (''tok'', 5) = (Inl (Fundamental ''No JWT provider found''), ''tok'', 5)"
    by (simp add: SendRunHeartbeat_def doRequest_def)
  from failed_heartbeat_drops_run [OF demo_unmarshal del this] show ?thesis by blast
qed

lemma demo_credential: "snd (snd (get_credential m (Some demo_provider) (k, w))) = w"
  by (simp add: get_credential_def demo_provider_def)

lemma demo_api_clock: "snd (snd (doRequest (demo_queue_api x) m p input out (k, w))) = w"
proof -
  obtain r k' w' where g: "getJWT (demo_queue_api x) (k, w) = (r, k', w')"
    by (cases "getJWT (demo_queue_api x) (k, w)") auto
  then have "w' = w"
    using demo_credential [of _ k w] by (simp add: getJWT_def demo_queue_api_def) (metis snd_conv)
  with g show ?thesis
    by (cases r) (auto simp: doRequest_def check_def send_def demo_queue_api_def split: sum.splits prod.splits)
qed

theorem receive_returns_witness:
  "\<exists>r. ReceiveTaskRuns 14 (\<lambda>t. t) (demo_queue_api True) ''7'' ''w'' 60 (QueueClient demo_sqs) (''tok'', 0) = Some r"
proof -
  have "time_passes (\<lambda>t. t) (demo_queue_api True) (QueueClient demo_sqs) 5"
    by (auto simp: time_passes_def QueueClient_def sqs_ReceiveMessages_def sqs_DeleteMessage_def demo_sqs_def
        SendRunHeartbeat_def demo_api_clock split: message.splits)
  from receive_returns [OF this, of 60] show ?thesis by simp
qed

end
