(* ===== verification/Worker.thy ===== *)
theory Worker
  imports Task_Queue
begin

text \<open>
  \<^verbatim>\<open>nerd/service/working/v1\<close>: the worker of a workload. The batch client is the argument
  \<^verbatim>\<open>workerClient\<close>; the operating system (starting a process, its result, the output directory)
  and the upload of results are arguments too. The concurrency is kept as steps: a run is executed while
  heartbeats tick, and one goroutine receives runs while the other executes them.
\<close>

definition RunErrCodeUnexpected :: string where "RunErrCodeUnexpected = ''ERR_UNEXPECTED''"
definition RunResultUndefined :: string where "RunResultUndefined = ''-''"

text \<open>Durations in nanoseconds.\<close>

record Conf =
  ReceiveTimeout :: int
  WHeartbeatInterval :: int

definition DefaultConf :: Conf where
  "DefaultConf = \<lparr>ReceiveTimeout = 20000000000, WHeartbeatInterval = 20000000000\<rparr>"

text \<open>The calls of a worker on its run, as the interface \<^verbatim>\<open>ClientRunInterface\<close> has them.\<close>

record 'w workerClient =
  WSendRunHeartbeat :: "string \<Rightarrow> string \<Rightarrow> int \<Rightarrow> string \<Rightarrow> 'w \<Rightarrow> (goerr + bool) \<times> 'w"
  WSendRunSuccess :: "string \<Rightarrow> string \<Rightarrow> int \<Rightarrow> string \<Rightarrow> string \<Rightarrow> string \<Rightarrow> 'w \<Rightarrow> (goerr + unit) \<times> 'w"
  WSendRunFailure :: "string \<Rightarrow> string \<Rightarrow> int \<Rightarrow> string \<Rightarrow> string \<Rightarrow> string \<Rightarrow> 'w \<Rightarrow> (goerr + unit) \<times> 'w"

definition batch_worker_client :: "'w ClientConfig \<Rightarrow> (string \<times> 'w) workerClient" where
  "batch_worker_client c = \<lparr>WSendRunHeartbeat = SendRunHeartbeat c, WSendRunSuccess = SendRunSuccess c,
     WSendRunFailure = SendRunFailure c\<rparr>"

section \<open>The output directory\<close>

text \<open>
  \<^verbatim>\<open>Readdirnames(1)\<close> of the opened directory: the only error that means "empty" is \<^verbatim>\<open>io.EOF\<close>.
\<close>

definition IsEmptyDir :: "goerr + goerr + string list \<Rightarrow> bool \<times> goerr option" where
  "IsEmptyDir dir = (case dir of
     Inl err \<Rightarrow> (False, Some err)
   | Inr (Inl err) \<Rightarrow> if err = Sentinel EOF then (True, None) else (False, Some err)
   | Inr (Inr names) \<Rightarrow> (False, None))"

fun remove_all_names :: "(string \<Rightarrow> 'w \<Rightarrow> (goerr + unit) \<times> 'w) \<Rightarrow> string \<Rightarrow> string list \<Rightarrow> 'w
    \<Rightarrow> (goerr + unit) \<times> 'w" where
  "remove_all_names remove_all dir [] w = (Inr (), w)"
| "remove_all_names remove_all dir (name # names) w =
     (case remove_all (Join [dir, name]) w of
        (Inl err, w) \<Rightarrow> (Inl err, w) | (Inr _, w) \<Rightarrow> remove_all_names remove_all dir names w)"

definition RemoveContents :: "(string \<Rightarrow> 'w \<Rightarrow> (goerr + unit) \<times> 'w) \<Rightarrow> (string \<Rightarrow> 'w \<Rightarrow> goerr + string list)
    \<Rightarrow> string \<Rightarrow> 'w \<Rightarrow> (goerr + unit) \<times> 'w" where
  "RemoveContents remove_all list_names dir w = (case list_names dir w of
     Inl err \<Rightarrow> (Inl err, w) | Inr names \<Rightarrow> remove_all_names remove_all dir names w)"

section \<open>One run\<close>

text \<open>How a started process ends: well, with an exit status, or with another error.\<close>

datatype exit_result =
    ProcOk "string option" \<comment> \<open>the text of \<^verbatim>\<open>ProcessState\<close>, when there is one\<close>
  | ProcExitError string string \<comment> \<open>\<^verbatim>\<open>e.String()\<close> and \<^verbatim>\<open>e.Stderr\<close>\<close>
  | ProcOtherError goerr

text \<open>What the worker is given beside the client.\<close>

record 'w worker_deps =
  client :: "'w workerClient"
  environ :: "string list"
  entrypoint :: "string list"
  base_cmd :: "string list"
  start_process :: "string list \<Rightarrow> string list \<Rightarrow> string \<Rightarrow> 'w \<Rightarrow> goerr option \<times> 'w"
  upload_dir :: "string option"
  open_dir :: "string \<Rightarrow> 'w \<Rightarrow> goerr + goerr + string list"
  upload :: "'w \<Rightarrow> (goerr + string) \<times> 'w"
  remove_contents :: "string \<Rightarrow> 'w \<Rightarrow> (goerr + unit) \<times> 'w"

definition run_command :: "string list \<Rightarrow> string list \<Rightarrow> Run \<Rightarrow> string list" where
  "run_command entry base run = entry @ (if length (rCmd run) > 0 then rCmd run else base)"

definition run_env :: "string list \<Rightarrow> Run \<Rightarrow> string list" where
  "run_env env run = env @ map (\<lambda>(k, v). k @ ''='' @ v) (rEnv run)"

datatype report = Success string string | Failure string string

definition send_report :: "'w workerClient \<Rightarrow> Run \<Rightarrow> report \<Rightarrow> 'w \<Rightarrow> 'w" where
  "send_report cl run rep w = (case rep of
     Success result dataset \<Rightarrow>
       snd (WSendRunSuccess cl (rProjectID run) (rWorkloadID run) (rTaskID run) (rToken run) result dataset w)
   | Failure code msg \<Rightarrow>
       snd (WSendRunFailure cl (rProjectID run) (rWorkloadID run) (rTaskID run) (rToken run) code msg w))"

text \<open>
  From the result of the process to the report: a failure carries the exit status and the encoded
  standard error; after a success the output directory, where one is configured and holds
  anything, is uploaded and cleared first. The second component says whether clearing failed, which
  cancels the context of the run.
\<close>

definition after_process :: "'w worker_deps \<Rightarrow> exit_result \<Rightarrow> 'w \<Rightarrow> report \<times> bool \<times> 'w" where
  "after_process d res w = (case res of
     ProcExitError code stderr \<Rightarrow> (Failure code (b64_encode stderr), False, w)
   | ProcOtherError err \<Rightarrow> (Failure RunErrCodeUnexpected (error_text err), False, w)
   | ProcOk state \<Rightarrow>
       let runRes = (case state of None \<Rightarrow> RunResultUndefined | Some t \<Rightarrow> t) in
       (case upload_dir d of
          None \<Rightarrow> (Success runRes [], False, w)
        | Some dir \<Rightarrow>
            (case IsEmptyDir (open_dir d dir w) of
               (isEmpty, err) \<Rightarrow>
                 if \<not> isEmpty \<and> err = None then
                   (case upload d w of
                      (Inl err, w) \<Rightarrow> (Failure ''0'' ''failed to output upload dataset'', False, w)
                    | (Inr dataset, w) \<Rightarrow>
                       (case remove_contents d dir w of
                          (Inl err, w) \<Rightarrow> (Success runRes dataset, True, w)
                        | (Inr _, w) \<Rightarrow> (Success runRes dataset, False, w)))
                 else (Success runRes [], False, w))))"

section \<open>Execution and heartbeats\<close>

datatype phase =
    Executing
  | Exited exit_result
  | Reporting report
  | Finished

record 'w exec =
  phase :: phase
  beating :: bool
  cancelled :: bool
  world :: 'w

text \<open>
  The goroutine of \<^verbatim>\<open>startRunExec\<close> and that of \<^verbatim>\<open>startRunExecHeartbeat\<close>, interleaved. The process
  may exit at any time and in any way. Heartbeats go on until the second goroutine sees the context
  cancelled, which a late tick can precede; a heartbeat that is answered "expired" cancels it, and so
  does the return of \<^verbatim>\<open>startRunExec\<close>.
\<close>

inductive run_step :: "'w worker_deps \<Rightarrow> Run \<Rightarrow> 'w exec \<Rightarrow> 'w exec \<Rightarrow> bool" for d run where
  tick: "WSendRunHeartbeat (client d) (rProjectID run) (rWorkloadID run) (rTaskID run) (rToken run) w = (r, w') \<Longrightarrow>
     run_step d run \<lparr>phase = p, beating = True, cancelled = c, world = w\<rparr>
       \<lparr>phase = p, beating = True, cancelled = (c \<or> r = Inr True), world = w'\<rparr>"
| stop_beat: "run_step d run \<lparr>phase = p, beating = True, cancelled = True, world = w\<rparr>
     \<lparr>phase = p, beating = False, cancelled = True, world = w\<rparr>"
| exit: "run_step d run \<lparr>phase = Executing, beating = b, cancelled = c, world = w\<rparr>
     \<lparr>phase = Exited res, beating = b, cancelled = c, world = w\<rparr>"
| decide: "after_process d res w = (rep, stop, w') \<Longrightarrow>
     run_step d run \<lparr>phase = Exited res, beating = b, cancelled = c, world = w\<rparr>
       \<lparr>phase = Reporting rep, beating = b, cancelled = (c \<or> stop), world = w'\<rparr>"
| report: "run_step d run \<lparr>phase = Reporting rep, beating = b, cancelled = c, world = w\<rparr>
     \<lparr>phase = Finished, beating = b, cancelled = True, world = send_report (client d) run rep w\<rparr>"

text \<open>
  Where a run starts: no command ends it at once, without a report; a process that does not
  start is reported, without heartbeats; otherwise the process runs.
\<close>

definition startRunExec :: "'w worker_deps \<Rightarrow> Run \<Rightarrow> 'w \<Rightarrow> 'w exec" where
  "startRunExec d run w =
     (let command = run_command (entrypoint d) (base_cmd d) run in
      if length command = 0 then \<lparr>phase = Finished, beating = False, cancelled = True, world = w\<rparr>
      else case start_process d command (run_env (environ d) run) (rStdin run) w of
          (Some err, w) \<Rightarrow> \<lparr>phase = Exited (ProcOtherError err), beating = False, cancelled = False, world = w\<rparr>
        | (None, w) \<Rightarrow> \<lparr>phase = Executing, beating = True, cancelled = False, world = w\<rparr>)"

section \<open>One report per run\<close>

text \<open>A client that keeps a log of its calls beside its own world.\<close>

datatype worker_call = CallHeartbeat | CallReport report

definition logged_client :: "'w workerClient \<Rightarrow> (worker_call list \<times> 'w) workerClient" where
  "logged_client cl = \<lparr>
     WSendRunHeartbeat = (\<lambda>p wl t k (log, w). case WSendRunHeartbeat cl p wl t k w of (r, w) \<Rightarrow> (r, log @ [CallHeartbeat], w)),
     WSendRunSuccess = (\<lambda>p wl t k x y (log, w). case WSendRunSuccess cl p wl t k x y w of
        (r, w) \<Rightarrow> (r, log @ [CallReport (Success x y)], w)),
     WSendRunFailure = (\<lambda>p wl t k x y (log, w). case WSendRunFailure cl p wl t k x y w of
        (r, w) \<Rightarrow> (r, log @ [CallReport (Failure x y)], w))\<rparr>"

text \<open>Starting processes, uploading and clearing the directory are no calls of the worker client.\<close>

definition keeps_log :: "(worker_call list \<times> 'w) worker_deps \<Rightarrow> bool" where
  "keeps_log d \<longleftrightarrow> (\<forall>c e i w. fst (snd (start_process d c e i w)) = fst w) \<and>
     (\<forall>w. fst (snd (upload d w)) = fst w) \<and> (\<forall>dir w. fst (snd (remove_contents d dir w)) = fst w)"

lemma send_report_log [simp]:
  "fst (send_report (logged_client cl) run rep w) = fst w @ [CallReport rep]"
  by (cases w) (auto simp: send_report_def logged_client_def split: report.splits prod.splits)

lemma heartbeat_log:
  "WSendRunHeartbeat (logged_client cl) p wl t k w = (r, w') \<Longrightarrow> fst w' = fst w @ [CallHeartbeat]"
  by (cases w) (auto simp: logged_client_def split: prod.splits)

lemma keeps_logD:
  assumes "keeps_log d"
  shows "upload d w = (r, w') \<Longrightarrow> fst w' = fst w"
    and "remove_contents d dir w = (r2, w') \<Longrightarrow> fst w' = fst w"
    and "start_process d c e i w = (r3, w') \<Longrightarrow> fst w' = fst w"
  using assms unfolding keeps_log_def by (metis snd_conv)+

lemma after_process_log:
  assumes "keeps_log d" and "after_process d res w = (rep, stop, w')"
  shows "fst w' = fst w"
proof -
  note D = keeps_logD [OF assms(1)]
  obtain u w1 where u: "upload d w = (u, w1)" by (rule prod.exhaust)
  have "fst w1 = fst w" using D(1) u by blast
  moreover have "fst w2 = fst w1" if "remove_contents d dir w1 = (v, w2)" for dir v w2
    using D(2) that by blast
  ultimately show ?thesis
    using assms(2)
    by (auto simp: after_process_def Let_def u split: exit_result.splits option.splits prod.splits sum.splits if_splits)
qed

text \<open>What the log of a run holds in each phase.\<close>

definition reports :: "worker_call list \<Rightarrow> report list" where
  "reports calls = concat (map (\<lambda>c. case c of CallHeartbeat \<Rightarrow> [] | CallReport r \<Rightarrow> [r]) calls)"

lemma reports_simps [simp]:
  "reports [] = []" "reports (xs @ ys) = reports xs @ reports ys" "reports [CallHeartbeat] = []"
  "reports [CallReport r] = [r]"
  by (simp_all add: reports_def)

definition decided_by :: "'w worker_deps \<Rightarrow> report \<Rightarrow> bool" where
  "decided_by d rep \<longleftrightarrow> (\<exists>res w. fst (after_process d res w) = rep)"

fun phase_reports :: "'w worker_deps \<Rightarrow> phase \<Rightarrow> report list \<Rightarrow> bool" where
  "phase_reports d Executing rs = (rs = [])"
| "phase_reports d (Exited res) rs = (rs = [])"
| "phase_reports d (Reporting rep) rs = (rs = [] \<and> decided_by d rep)"
| "phase_reports d Finished rs = (\<exists>rep. rs = [rep] \<and> decided_by d rep)"

lemma run_step_reports:
  assumes "run_step d run e e'" and "keeps_log d" and "client d = logged_client cl"
    and "phase_reports d (phase e) (reports (fst (world e)))"
  shows "phase_reports d (phase e') (reports (fst (world e')))"
  using assms
proof cases
  case (tick w r w' p c)
  with assms heartbeat_log [of cl] show ?thesis by auto
next
  case (decide res w rep stop w' b c)
  moreover from decide have "decided_by d rep" unfolding decided_by_def by (metis fst_conv)
  ultimately show ?thesis using assms after_process_log [OF assms(2), of res w rep stop w'] by simp
qed (use assms in auto)

lemma run_reachable_reports:
  assumes "(run_step d run)\<^sup>*\<^sup>* e e'" and "keeps_log d" and "client d = logged_client cl"
    and "phase_reports d (phase e) (reports (fst (world e)))"
  shows "phase_reports d (phase e') (reports (fst (world e')))"
  using assms(1)
proof (induction rule: rtranclp_induct)
  case (step e1 e2)
  then show ?case using run_step_reports [OF _ assms(2,3)] by blast
qed (fact assms(4))


text \<open>A worker without an output directory, on a client that answers everything.\<close>

definition demo_worker :: "(worker_call list \<times> unit) worker_deps" where
  "demo_worker = \<lparr>client = logged_client \<lparr>WSendRunHeartbeat = (\<lambda>p wl t k w. (Inr False, w)),
       WSendRunSuccess = (\<lambda>p wl t k x y w. (Inr (), w)), WSendRunFailure = (\<lambda>p wl t k x y w. (Inr (), w))\<rparr>,
     environ = [], entrypoint = [''/bin/sh''], base_cmd = [], start_process = (\<lambda>c e i w. (None, w)),
     upload_dir = None, open_dir = (\<lambda>d w. Inr (Inr [])), upload = (\<lambda>w. (Inr [], w)),
     remove_contents = (\<lambda>d w. (Inr (), w))\<rparr>"


text \<open>
  The report tells the truth about the process: a success is reported only for a process
  that ended well and whose output, if there was any to upload, has been uploaded, under the id
  of the uploaded dataset; every process that failed leads to a failure, with its exit status
  and its encoded standard error.
\<close>
theorem report_tells_result:
  assumes "after_process d res w = (rep, stop, w')"
  shows "(rep = Success result dataset \<longrightarrow>
            (\<exists>state. res = ProcOk state \<and> result = (case state of None \<Rightarrow> ''-'' | Some t \<Rightarrow> t)
               \<and> (dataset = [] \<or> fst (upload d w) = Inr dataset)))
       \<and> (res = ProcExitError code stderr \<longrightarrow> rep = Failure code (b64_encode stderr) \<and> \<not> stop)
       \<and> (res = ProcOtherError err \<longrightarrow> rep = Failure ''ERR_UNEXPECTED'' (error_text err) \<and> \<not> stop)
       \<and> (res = ProcOk state \<longrightarrow> upload_dir d = Some dir \<longrightarrow> open_dir d dir w = Inr (Inr names) \<longrightarrow>
            (case fst (upload d w) of Inl e \<Rightarrow> rep = Failure ''0'' ''failed to output upload dataset''
             | Inr ds \<Rightarrow> rep = Success (case state of None \<Rightarrow> ''-'' | Some t \<Rightarrow> t) ds))"
proof -
  obtain u w1 where u: "upload d w = (u, w1)" by (rule prod.exhaust)
  have ok: "rep = Success (case st of None \<Rightarrow> ''-'' | Some t \<Rightarrow> t) [] \<or>
      (case u of Inl e \<Rightarrow> rep = Failure ''0'' ''failed to output upload dataset''
       | Inr ds \<Rightarrow> rep = Success (case st of None \<Rightarrow> ''-'' | Some t \<Rightarrow> t) ds)"
    if "res = ProcOk st" for st
    using assms that
    by (auto simp: after_process_def u Let_def RunResultUndefined_def split: option.splits prod.splits sum.splits if_splits)
  have ok2: "case u of Inl e \<Rightarrow> rep = Failure ''0'' ''failed to output upload dataset''
       | Inr ds \<Rightarrow> rep = Success (case state of None \<Rightarrow> ''-'' | Some t \<Rightarrow> t) ds"
    if "res = ProcOk state" "upload_dir d = Some dir" "open_dir d dir w = Inr (Inr names)"
    using assms that
    by (auto simp: after_process_def u Let_def IsEmptyDir_def RunResultUndefined_def split: option.splits prod.splits sum.splits if_splits)
  show ?thesis
    using ok ok2 assms u
    by (cases res; cases u) (auto simp: after_process_def RunErrCodeUnexpected_def)
qed

theorem report_tells_result_witness:
  "fst (after_process demo_worker (ProcExitError ''exit status 3'' ''no'') ([], ())) = Failure ''exit status 3'' ''bm8=''"
proof -
  obtain rep stop w' where a: "after_process demo_worker (ProcExitError ''exit status 3'' ''no'') ([], ()) = (rep, stop, w')"
    by (cases "after_process demo_worker (ProcExitError ''exit status 3'' ''no'') ([], ())") auto
  have "b64_encode ''no'' = ''bm8=''" by code_simp
  with report_tells_result [OF a] a show ?thesis by simp
qed

end
