(* ===== verification/Worker_Loop.thy ===== *)
theory Worker_Loop
  imports Worker
begin

text \<open>
  The two goroutines of \<^verbatim>\<open>Worker\<close>: \<^verbatim>\<open>startReceivingRuns\<close> polls the queue and offers what it gets on an
  unbuffered channel, \<^verbatim>\<open>Start\<close> takes one item at a time and executes it. A poll and the execution of a
  run are one step each to this model (their insides are \<open>Task_Queue\<close> and \<open>Worker\<close>); the two
  lists record which runs were received and which were executed.
\<close>

datatype receiver = Polling | Offering "Run list" | OfferingError goerr | Returned

datatype executor = Waiting | Running Run | Stopped

record wstate =
  receiver :: receiver
  executor :: executor
  ctx_done :: bool
  received :: "Run list"
  executed :: "Run list"

definition worker_start :: wstate where
  "worker_start = \<lparr>receiver = Polling, executor = Waiting, ctx_done = False, received = [], executed = []\<rparr>"

text \<open>
  A poll that began before the context was cancelled still returns afterwards, so both outcomes of
  a poll stay possible.
\<close>

inductive worker_step :: "wstate \<Rightarrow> wstate \<Rightarrow> bool" where
  poll_runs: "receiver s = Polling \<Longrightarrow>
     worker_step s (s\<lparr>receiver := Offering runs, received := received s @ runs\<rparr>)"
| poll_error: "receiver s = Polling \<Longrightarrow> worker_step s (s\<lparr>receiver := OfferingError err\<rparr>)"
| poll_stop: "receiver s = Polling \<Longrightarrow> ctx_done s \<Longrightarrow> worker_step s (s\<lparr>receiver := Returned\<rparr>)"
| offer: "receiver s = Offering (r # rs) \<Longrightarrow> executor s = Waiting \<Longrightarrow>
     worker_step s (s\<lparr>receiver := Offering rs, executor := Running r\<rparr>)"
| offered: "receiver s = Offering [] \<Longrightarrow> worker_step s (s\<lparr>receiver := Polling\<rparr>)"
| offer_error: "receiver s = OfferingError err \<Longrightarrow> executor s = Waiting \<Longrightarrow>
     worker_step s (s\<lparr>receiver := Returned\<rparr>)"
| run_done: "executor s = Running r \<Longrightarrow>
     worker_step s (s\<lparr>executor := Waiting, executed := executed s @ [r]\<rparr>)"
| stop: "executor s = Waiting \<Longrightarrow> ctx_done s \<Longrightarrow> worker_step s (s\<lparr>executor := Stopped\<rparr>)"
| cancel: "worker_step s (s\<lparr>ctx_done := True\<rparr>)"

definition running :: "wstate \<Rightarrow> Run list" where
  "running s = (case executor s of Running r \<Rightarrow> [r] | _ \<Rightarrow> [])"

definition offered_runs :: "wstate \<Rightarrow> Run list" where
  "offered_runs s = (case receiver s of Offering rs \<Rightarrow> rs | _ \<Rightarrow> [])"

definition accounted :: "wstate \<Rightarrow> bool" where
  "accounted s \<longleftrightarrow> received s = executed s @ running s @ offered_runs s"

lemma worker_step_accounted: "worker_step s t \<Longrightarrow> accounted s \<Longrightarrow> accounted t"
  by (induction rule: worker_step.induct) (auto simp: accounted_def running_def offered_runs_def)

text \<open>
  C11: The worker executes the runs it receives in the order it received them, one at a time, none
  twice and none left out: at every moment those received are those executed, then the one that is
  running, then the ones still waiting to be taken.
\<close>
theorem runs_in_order:
  assumes "worker_step\<^sup>*\<^sup>* worker_start s"
  shows "received s = executed s @ running s @ offered_runs s"
  using assms
proof (induction rule: rtranclp_induct)
  case base
  show ?case by (simp add: worker_start_def running_def offered_runs_def)
next
  case (step s t)
  then show ?case using worker_step_accounted [of s t] by (simp add: accounted_def)
qed

theorem runs_in_order_witness:
  "\<exists>s. worker_step\<^sup>*\<^sup>* worker_start s \<and> executed s = [demo_run] \<and> received s = executed s @ running s @ offered_runs s"
proof -
  let ?s1 = "worker_start\<lparr>receiver := Offering [demo_run], received := [demo_run]\<rparr>"
  let ?s2 = "?s1\<lparr>receiver := Offering [], executor := Running demo_run\<rparr>"
  let ?s3 = "?s2\<lparr>executor := Waiting, executed := [demo_run]\<rparr>"
  have 1: "worker_step worker_start ?s1"
    using worker_step.poll_runs [of worker_start "[demo_run]"] by (simp add: worker_start_def)
  have 2: "worker_step ?s1 ?s2"
    using worker_step.offer [of ?s1 demo_run "[]"] by (simp add: worker_start_def)
  have 3: "worker_step ?s2 ?s3"
    using worker_step.run_done [of ?s2 demo_run] by (simp add: worker_start_def)
  have "worker_step\<^sup>*\<^sup>* worker_start ?s3"
    using 1 2 3 by (meson converse_rtranclp_into_rtranclp rtranclp.rtrancl_refl)
  with runs_in_order [OF this] show ?thesis by (intro exI [of _ ?s3]) (simp add: worker_start_def)
qed

text \<open>Nothing is received any more once a poll has failed.\<close>

definition given_up :: "wstate \<Rightarrow> bool" where
  "given_up s \<longleftrightarrow> (\<exists>err. receiver s = OfferingError err) \<or> receiver s = Returned"

lemma worker_step_given_up:
  "worker_step s t \<Longrightarrow> given_up s \<Longrightarrow>
     given_up t \<and> received t = received s \<and> executed t @ running t = executed s @ running s"
  by (induction rule: worker_step.induct) (auto simp: given_up_def running_def)

text \<open>
  C32: One failed poll ends the work for good, but not the worker: the receiving goroutine returns,
  no run is received or started after that, and the main loop, whose \<^verbatim>\<open>break\<close> only leaves the
  \<^verbatim>\<open>select\<close>, waits idle until the context is cancelled from outside.
\<close>
theorem failed_poll_is_final:
  assumes "receiver s = OfferingError err"
  shows "(\<forall>t. worker_step\<^sup>*\<^sup>* s t \<longrightarrow> received t = received s \<and> executed t @ running t = executed s @ running s)
     \<and> (\<forall>t u. worker_step\<^sup>*\<^sup>* s t \<longrightarrow> receiver t = Returned \<longrightarrow> executor t = Waiting \<longrightarrow> \<not> ctx_done t \<longrightarrow>
          worker_step t u \<longrightarrow> u = t\<lparr>ctx_done := True\<rparr>)"
proof (intro conjI allI impI)
  fix t assume r: "worker_step\<^sup>*\<^sup>* s t"
  have "given_up t \<and> received t = received s \<and> executed t @ running t = executed s @ running s"
    using r
  proof (induction rule: rtranclp_induct)
    case base
    from assms show ?case by (simp add: given_up_def)
  next
    case (step t u)
    then show ?case using worker_step_given_up [of t u] by auto
  qed
  then show "received t = received s" "executed t @ running t = executed s @ running s" by auto
next
  fix t u assume "receiver t = Returned" "executor t = Waiting" "\<not> ctx_done t" "worker_step t u"
  then show "u = t\<lparr>ctx_done := True\<rparr>" by (auto elim: worker_step.cases)
qed

theorem failed_poll_is_final_witness:
  "\<exists>t. worker_step\<^sup>*\<^sup>* (worker_start\<lparr>receiver := OfferingError json_syntax_error\<rparr>) t
     \<and> receiver t = Returned \<and> executor t = Waiting \<and> received t = [] \<and> executed t @ running t = []
     \<and> {u. worker_step t u} = {t\<lparr>ctx_done := True\<rparr>}"
proof -
  let ?s = "worker_start\<lparr>receiver := OfferingError json_syntax_error\<rparr>"
  let ?t = "?s\<lparr>receiver := Returned\<rparr>"
  have s: "receiver ?s = OfferingError json_syntax_error" by simp
  have run: "worker_step\<^sup>*\<^sup>* ?s ?t"
    using worker_step.offer_error [OF s] by (simp add: worker_start_def)
  note final = failed_poll_is_final [OF s]
  have idle: "receiver ?t = Returned" "executor ?t = Waiting" "\<not> ctx_done ?t" by (simp_all add: worker_start_def)
  have "{u. worker_step ?t u} = {?t\<lparr>ctx_done := True\<rparr>}"
    using final run idle worker_step.cancel [of ?t] by blast
  moreover have "received ?t = [] \<and> executed ?t @ running ?t = []"
    using final run by (simp add: worker_start_def running_def)
  ultimately show ?thesis using run idle by blast
qed

end
