(* ===== verification/Data_Client.thy ===== *)
theory Data_Client
  imports Go_Encoding Go_Path Go_Json
begin

text \<open>
  \<^verbatim>\<open>nerd/service/datatransfer/v1/client\<close> and \<^verbatim>\<open>nerd/aws/data_client.go\<close>: objects of a store, with
  retries, on top of the operations of S3. The world is \<open>'w\<close>; the context is what \<open>ctx\<close> reads
  from it: the error of a cancelled context, or nothing. The body of a download is what reading it to
  the end gives. The locale \<open>object_store\<close> is the contract of \<^verbatim>\<open>DataOps\<close> that uploads and downloads
  rely on.
\<close>

type_synonym 'w ctx = "'w \<Rightarrow> goerr option"

record 'w DataOps =
  ops_upload :: "string \<Rightarrow> string \<Rightarrow> string \<Rightarrow> 'w \<Rightarrow> (goerr + unit) \<times> 'w"
  ops_download :: "string \<Rightarrow> string \<Rightarrow> 'w \<Rightarrow> (goerr + goerr + string) \<times> 'w"
  ops_exists :: "string \<Rightarrow> string \<Rightarrow> 'w \<Rightarrow> (goerr + bool) \<times> 'w"

section \<open>The client\<close>

definition NoOfRetries :: nat where
  "NoOfRetries = 2"

text \<open>
  The loop \<^verbatim>\<open>for i := 0; i <= NoOfRetries; i++\<close>, with the number of attempts left and the last
  error; the context is looked at before each attempt.
\<close>

fun attempts :: "'w ctx \<Rightarrow> (goerr option \<Rightarrow> goerr) \<Rightarrow> ('w \<Rightarrow> (goerr + 'r) \<times> 'w) \<Rightarrow> nat \<Rightarrow> goerr option \<Rightarrow> 'w
    \<Rightarrow> (goerr + 'r) \<times> 'w" where
  "attempts ctx give_up op 0 err w = (Inl (give_up err), w)"
| "attempts ctx give_up op (Suc n) err w =
     (case ctx w of Some e \<Rightarrow> (Inl e, w)
      | None \<Rightarrow> (case op w of (Inr r, w) \<Rightarrow> (Inr r, w) | (Inl e, w) \<Rightarrow> attempts ctx give_up op n (Some e) w))"

definition quoted :: "string \<Rightarrow> string" where
  "quoted s = CHR 39 # s @ [CHR 39]"

definition Client_Upload :: "'w ctx \<Rightarrow> 'w DataOps \<Rightarrow> string \<Rightarrow> string \<Rightarrow> string \<Rightarrow> 'w \<Rightarrow> (goerr + unit) \<times> 'w" where
  "Client_Upload ctx ops bucket key body =
     attempts ctx (NewError (''failed to put '' @ quoted key)) (ops_upload ops bucket key body) (Suc NoOfRetries) None"

definition Client_Download :: "'w ctx \<Rightarrow> 'w DataOps \<Rightarrow> string \<Rightarrow> string \<Rightarrow> 'w \<Rightarrow> (goerr + goerr + string) \<times> 'w" where
  "Client_Download ctx ops bucket key =
     attempts ctx (NewError (''failed to download '' @ quoted key)) (ops_download ops bucket key) (Suc NoOfRetries) None"

definition Client_Exists :: "'w DataOps \<Rightarrow> string \<Rightarrow> string \<Rightarrow> 'w \<Rightarrow> (goerr + bool) \<times> 'w" where
  "Client_Exists ops bucket key = ops_exists ops bucket key"

section \<open>The operations of S3\<close>

text \<open>
  The SDK is an argument: its three calls, and the code of an error where it is an error of
  the service.
\<close>

record 'w s3 =
  put_object :: "string \<Rightarrow> string \<Rightarrow> string \<Rightarrow> 'w \<Rightarrow> (goerr + unit) \<times> 'w"
  get_object :: "string \<Rightarrow> string \<Rightarrow> 'w \<Rightarrow> (goerr + goerr + string) \<times> 'w"
  head_object :: "string \<Rightarrow> string \<Rightarrow> 'w \<Rightarrow> (goerr + unit) \<times> 'w"
  aws_code :: "goerr \<Rightarrow> string option"

definition ErrCodeNoSuchKey :: string where "ErrCodeNoSuchKey = ''NoSuchKey''"
definition ErrCodeNotFoundException :: string where "ErrCodeNotFoundException = ''NotFound''"
definition StatusCodeForbidden :: string where "StatusCodeForbidden = ''Forbidden''"

definition S3_Upload :: "'w s3 \<Rightarrow> string \<Rightarrow> string \<Rightarrow> string \<Rightarrow> 'w \<Rightarrow> (goerr + unit) \<times> 'w" where
  "S3_Upload svc bucket key body = put_object svc bucket key body"

definition S3_Download :: "'w s3 \<Rightarrow> string \<Rightarrow> string \<Rightarrow> 'w \<Rightarrow> (goerr + goerr + string) \<times> 'w" where
  "S3_Download svc bucket key = get_object svc bucket key"

definition S3_Exists :: "'w s3 \<Rightarrow> string \<Rightarrow> string \<Rightarrow> 'w \<Rightarrow> (goerr + bool) \<times> 'w" where
  "S3_Exists svc bucket key w = (case head_object svc bucket key w of
     (Inr _, w) \<Rightarrow> (Inr True, w)
   | (Inl err, w) \<Rightarrow>
       (case aws_code svc err of
          Some code \<Rightarrow>
            if code = ErrCodeNoSuchKey \<or> code = ErrCodeNotFoundException \<or> code = StatusCodeForbidden
            then (Inr False, w)
            else (Inl (wrapped (''failed to check if key '' @ key @ '' exists'') err), w)
        | None \<Rightarrow> (Inl (wrapped (''failed to check if key '' @ key @ '' exists'') err), w)))"

definition DataClient :: "'w s3 \<Rightarrow> 'w DataOps" where
  "DataClient svc = \<lparr>ops_upload = S3_Upload svc, ops_download = S3_Download svc, ops_exists = S3_Exists svc\<rparr>"

section \<open>The contract of a store\<close>

text \<open>
  \<open>stored\<close> reads the objects of the world. A successful upload stores the body; a failed one may
  have stored it or not; a download and a check change nothing; a body that could be read is the
  stored one, and a check never finds an object that is not there (it may well miss one, since
  "forbidden" counts as missing).
\<close>

type_synonym objects = "string \<times> string \<Rightarrow> string option"

text \<open>The calls of a store do not cancel the context.\<close>

definition patient :: "'w ctx \<Rightarrow> 'w DataOps \<Rightarrow> bool" where
  "patient ctx ops \<longleftrightarrow> (\<forall>w. ctx w = None \<longrightarrow> (\<forall>b k v. ctx (snd (ops_upload ops b k v w)) = None) \<and>
     (\<forall>b k. ctx (snd (ops_download ops b k w)) = None \<and> ctx (snd (ops_exists ops b k w)) = None))"

lemma patient_never [simp]: "patient (\<lambda>_. None) ops"
  by (simp add: patient_def)

lemma attempts_patient:
  assumes "\<And>w. ctx w = None \<Longrightarrow> ctx (snd (op w)) = None" and "ctx w = None"
  shows "ctx (snd (attempts ctx give_up op n err w)) = None"
  using assms(2)
proof (induction n arbitrary: err w)
  case (Suc n)
  obtain r w' where op: "op w = (r, w')" by (rule prod.exhaust)
  from assms(1) [OF Suc.prems] op have "ctx w' = None" by simp
  with Suc op show ?case by (cases r) simp_all
qed simp

lemma client_patient:
  assumes "patient ctx ops" and "ctx w = None"
  shows "ctx (snd (Client_Upload ctx ops b k v w)) = None" "ctx (snd (Client_Download ctx ops b k w)) = None"
    "ctx (snd (Client_Exists ops b k w)) = None"
proof -
  show "ctx (snd (Client_Upload ctx ops b k v w)) = None"
    unfolding Client_Upload_def by (rule attempts_patient) (use assms in \<open>simp_all add: patient_def\<close>)
  show "ctx (snd (Client_Download ctx ops b k w)) = None"
    unfolding Client_Download_def by (rule attempts_patient) (use assms in \<open>simp_all add: patient_def\<close>)
  show "ctx (snd (Client_Exists ops b k w)) = None" using assms by (simp add: Client_Exists_def patient_def)
qed

locale object_store =
  fixes upload :: "string \<Rightarrow> string \<Rightarrow> string \<Rightarrow> 'w \<Rightarrow> (goerr + unit) \<times> 'w"
    and download :: "string \<Rightarrow> string \<Rightarrow> 'w \<Rightarrow> (goerr + goerr + string) \<times> 'w"
    and exists_key :: "string \<Rightarrow> string \<Rightarrow> 'w \<Rightarrow> (goerr + bool) \<times> 'w"
    and stored :: "'w \<Rightarrow> objects"
  assumes upload_ok: "upload b k v w = (Inr u, w') \<Longrightarrow> stored w' = (stored w)((b, k) := Some v)"
    and upload_failed: "upload b k v w = (Inl e, w') \<Longrightarrow>
      stored w' = stored w \<or> stored w' = (stored w)((b, k) := Some v)"
    and download_pure: "stored (snd (download b k w)) = stored w"
    and download_ok: "download b k w = (Inr (Inr v), w') \<Longrightarrow> stored w (b, k) = Some v"
    and exists_pure: "stored (snd (exists_key b k w)) = stored w"
    and exists_ok: "exists_key b k w = (Inr True, w') \<Longrightarrow> stored w (b, k) \<noteq> None"
begin

lemma upload_either:
  "stored (snd (upload b k v w)) = stored w \<or> stored (snd (upload b k v w)) = (stored w)((b, k) := Some v)"
  using upload_ok upload_failed by (cases "fst (upload b k v w)") (metis prod.collapse)+

text \<open>Retries keep the contract.\<close>

lemma attempts_upload_ok:
  "attempts ctx g (upload b k v) n err w = (Inr u, w') \<Longrightarrow> stored w' = (stored w)((b, k) := Some v)"
proof (induction n arbitrary: err w)
  case (Suc n)
  obtain r w1 where r: "upload b k v w = (r, w1)" by (rule prod.exhaust)
  have c: "ctx w = None" using Suc.prems by (cases "ctx w") simp_all
  show ?case
  proof (cases r)
    case (Inr x)
    with Suc.prems r c have "w' = w1" by simp
    with r Inr show ?thesis using upload_ok [of b k v w x w1] by simp
  next
    case (Inl e)
    with Suc.prems r c have "attempts ctx g (upload b k v) n (Some e) w1 = (Inr u, w')" by simp
    then have "stored w' = (stored w1)((b, k) := Some v)" by (rule Suc.IH)
    moreover have "stored w1 = stored w \<or> stored w1 = (stored w)((b, k) := Some v)"
      using upload_either [of b k v w] r by simp
    ultimately show ?thesis by auto
  qed
qed simp

lemma attempts_upload_failed:
  "attempts ctx g (upload b k v) n err w = (Inl e, w') \<Longrightarrow>
     stored w' = stored w \<or> stored w' = (stored w)((b, k) := Some v)"
proof (induction n arbitrary: err w)
  case (Suc n)
  obtain r w1 where r: "upload b k v w = (r, w1)" by (rule prod.exhaust)
  have 1: "stored w1 = stored w \<or> stored w1 = (stored w)((b, k) := Some v)"
    using upload_either [of b k v w] r by simp
  show ?case
  proof (cases "ctx w")
    case None
    with Suc.prems r show ?thesis
      using Suc.IH [of "Some (projl r)" w1] 1 by (cases r) auto
  qed (use Suc.prems in simp)
qed simp

lemma attempts_download_pure: "stored (snd (attempts ctx g (download b k) n err w)) = stored w"
proof (induction n arbitrary: err w)
  case (Suc n)
  have "stored (snd (download b k w)) = stored w" by (rule download_pure)
  with Suc show ?case by (auto split: option.splits prod.splits sum.splits)
qed simp

lemma attempts_download_ok:
  "attempts ctx g (download b k) n err w = (Inr (Inr v), w') \<Longrightarrow> stored w (b, k) = Some v"
proof (induction n arbitrary: err w)
  case (Suc n)
  obtain r w1 where r: "download b k w = (r, w1)" by (rule prod.exhaust)
  then have s: "stored w1 = stored w" using download_pure [of b k w] by simp
  have c: "ctx w = None" using Suc.prems by (cases "ctx w") simp_all
  show ?case
  proof (cases r)
    case (Inr x)
    with Suc.prems r c have "download b k w = (Inr (Inr v), w1)" by simp
    then show ?thesis by (rule download_ok)
  next
    case (Inl e)
    with Suc.prems r c have "attempts ctx g (download b k) n (Some e) w1 = (Inr (Inr v), w')" by simp
    with s show ?thesis using Suc.IH by metis
  qed
qed simp

end

text \<open>Any operations that keep the contract keep it behind the retries of the client.\<close>

lemma client_store:
  assumes "object_store (ops_upload ops) (ops_download ops) (ops_exists ops) stored"
  shows "object_store (Client_Upload ctx ops) (Client_Download ctx ops) (Client_Exists ops) stored"
proof (unfold_locales, goal_cases)
  case 1
  then show ?case unfolding Client_Upload_def by (rule object_store.attempts_upload_ok [OF assms])
next
  case 2
  then show ?case unfolding Client_Upload_def by (rule object_store.attempts_upload_failed [OF assms])
next
  case 3
  then show ?case unfolding Client_Download_def by (rule object_store.attempts_download_pure [OF assms])
next
  case 4
  then show ?case unfolding Client_Download_def by (rule object_store.attempts_download_ok [OF assms])
next
  case 5
  then show ?case unfolding Client_Exists_def by (rule object_store.exists_pure [OF assms])
next
  case 6
  then show ?case unfolding Client_Exists_def by (rule object_store.exists_ok [OF assms])
qed

text \<open>
  S3 as it is documented: a table of objects and a list of the outages to come, one entry per call.
  A missing object is reported with the code \<open>NotFound\<close>.
\<close>

record s3_world =
  objs :: objects
  outages :: "goerr option list"

definition s3_call :: "(s3_world \<Rightarrow> (goerr + 'r) \<times> s3_world) \<Rightarrow> s3_world \<Rightarrow> (goerr + 'r) \<times> s3_world" where
  "s3_call op w = (case outages w of
     Some e # es \<Rightarrow> (Inl e, w\<lparr>outages := es\<rparr>)
   | None # es \<Rightarrow> op (w\<lparr>outages := es\<rparr>)
   | [] \<Rightarrow> op w)"

definition not_found :: goerr where
  "not_found = Fundamental ErrCodeNotFoundException"

definition s3_put :: "string \<Rightarrow> string \<Rightarrow> string \<Rightarrow> s3_world \<Rightarrow> (goerr + unit) \<times> s3_world" where
  "s3_put b k v = s3_call (\<lambda>w. (Inr (), w\<lparr>objs := (objs w)((b, k) := Some v)\<rparr>))"

definition s3_get :: "string \<Rightarrow> string \<Rightarrow> s3_world \<Rightarrow> (goerr + goerr + string) \<times> s3_world" where
  "s3_get b k = s3_call (\<lambda>w. (case objs w (b, k) of None \<Rightarrow> Inl not_found | Some v \<Rightarrow> Inr (Inr v), w))"

definition s3_head :: "string \<Rightarrow> string \<Rightarrow> s3_world \<Rightarrow> (goerr + unit) \<times> s3_world" where
  "s3_head b k = s3_call (\<lambda>w. (case objs w (b, k) of None \<Rightarrow> Inl not_found | Some v \<Rightarrow> Inr (), w))"

definition s3_code :: "goerr \<Rightarrow> string option" where
  "s3_code e = (case e of Fundamental c \<Rightarrow> Some c | _ \<Rightarrow> None)"

definition s3_table :: "s3_world s3" where
  "s3_table = \<lparr>put_object = s3_put, get_object = s3_get, head_object = s3_head, aws_code = s3_code\<rparr>"

lemmas s3_call_defs = s3_put_def s3_get_def s3_head_def s3_call_def

lemma s3_put_effect:
  "s3_put b k v w = (r, w') \<Longrightarrow>
     (case r of Inl e \<Rightarrow> objs w' = objs w | Inr u \<Rightarrow> objs w' = (objs w)((b, k) := Some v))"
  by (auto simp: s3_call_defs split: list.splits option.splits)

lemma s3_get_effect:
  "s3_get b k w = (r, w') \<Longrightarrow> objs w' = objs w \<and> (\<forall>v. r = Inr (Inr v) \<longrightarrow> objs w (b, k) = Some v)"
  by (auto simp: s3_call_defs split: list.splits option.splits)

lemma s3_head_effect:
  "s3_head b k w = (r, w') \<Longrightarrow> objs w' = objs w \<and> (\<forall>u. r = Inr u \<longrightarrow> objs w (b, k) \<noteq> None)"
  by (auto simp: s3_call_defs split: list.splits option.splits)

lemma S3_Exists_effect:
  "S3_Exists s3_table b k w = (r, w') \<Longrightarrow> objs w' = objs w \<and> (r = Inr True \<longrightarrow> objs w (b, k) \<noteq> None)"
  by (cases "s3_head b k w")
    (auto simp: S3_Exists_def s3_table_def dest!: s3_head_effect split: sum.splits option.splits if_splits)

interpretation s3: object_store "S3_Upload s3_table" "S3_Download s3_table" "S3_Exists s3_table" objs
proof (unfold_locales, goal_cases)
  case (1 b k v w u w')
  then show ?case using s3_put_effect [of b k v w] by (simp add: S3_Upload_def s3_table_def)
next
  case (2 b k v w e w')
  then show ?case using s3_put_effect [of b k v w] by (simp add: S3_Upload_def s3_table_def)
next
  case (3 b k w)
  show ?case using s3_get_effect [of b k w] by (cases "s3_get b k w") (simp add: S3_Download_def s3_table_def)
next
  case (4 b k w v w')
  then show ?case using s3_get_effect [of b k w] by (simp add: S3_Download_def s3_table_def)
next
  case (5 b k w)
  show ?case using S3_Exists_effect [of b k w] by (cases "S3_Exists s3_table b k w") simp
next
  case (6 b k w w')
  then show ?case using S3_Exists_effect [of b k w] by simp
qed

lemma s3_ops: "object_store (ops_upload (DataClient s3_table)) (ops_download (DataClient s3_table))
    (ops_exists (DataClient s3_table)) objs"
  using s3.object_store_axioms by (simp add: DataClient_def)

interpretation retried: object_store "Client_Upload ctx (DataClient s3_table)"
    "Client_Download ctx (DataClient s3_table)" "Client_Exists (DataClient s3_table)" objs for ctx
  by (rule client_store [OF s3_ops])

end
