(* ===== verification/Data_Index.thy ===== *)
theory Data_Index
  imports Data_Client
begin

text \<open>
  The index and the metadata of a dataset (\<^verbatim>\<open>index.go\<close>, \<^verbatim>\<open>metadata.go\<close> of
  \<^verbatim>\<open>nerd/service/datatransfer/v1/client\<close>). A key is the list of its bytes. The reader is the text that
  is still to be scanned; \<^verbatim>\<open>bufio.Scanner\<close> splits it into lines, and gives up silently on a line that
  does not fit its buffer. The locales \<open>key_reader\<close> and \<open>key_writer\<close> are the interfaces
  \<^verbatim>\<open>KeyReader\<close> and \<^verbatim>\<open>KeyWriter\<close>, with what the transfers rely on.
\<close>

definition IndexObjectKey :: string where "IndexObjectKey = ''index''"
definition MetadataObjectKey :: string where "MetadataObjectKey = ''metadata''"

type_synonym Key = string

definition key_size :: nat where "key_size = 32"

definition is_key :: "Key \<Rightarrow> bool" where "is_key k \<longleftrightarrow> length k = key_size"

definition Key_ToString :: "Key \<Rightarrow> string" where "Key_ToString k = hex_encode k"

definition newline :: char where "newline = CHR 10"

section \<open>Reading\<close>

definition MaxScanTokenSize :: nat where "MaxScanTokenSize = 65536"

definition drop_cr :: "string \<Rightarrow> string" where
  "drop_cr l = (if l \<noteq> [] \<and> last l = CHR 13 then butlast l else l)"

text \<open>\<^verbatim>\<open>Scan\<close> and \<^verbatim>\<open>Text\<close>: the next line and the rest, or false.\<close>

definition Scan :: "string \<Rightarrow> (string \<times> string) option" where
  "Scan s =
     (let l = takeWhile (\<lambda>c. c \<noteq> newline) s in
      if s = [] \<or> MaxScanTokenSize \<le> length l then None
      else Some (drop_cr l, drop 1 (dropWhile (\<lambda>c. c \<noteq> newline) s)))"

definition ReadKey :: "string \<Rightarrow> (goerr + Key) \<times> string" where
  "ReadKey s = (case Scan s of
     None \<Rightarrow> (Inl (Sentinel EOF), s)
   | Some (line, rest) \<Rightarrow>
       (case hex_decode line of
          Inl err \<Rightarrow> (Inl (NewError (''could not decode key string '' @ quoted line) (Some err)), rest)
        | Inr bytes \<Rightarrow> (Inr (take key_size (bytes @ replicate key_size CHR 0x00)), rest)))"

section \<open>Writing\<close>

definition WriteKey :: "(string \<Rightarrow> 'w \<Rightarrow> (goerr + unit) \<times> 'w) \<Rightarrow> Key \<Rightarrow> 'w \<Rightarrow> (goerr + unit) \<times> 'w" where
  "WriteKey write_bytes k w = (case write_bytes (Key_ToString k @ [newline]) w of
     (Inl err, w) \<Rightarrow> (Inl (NewError (''failed to write key '' @ quoted (Key_ToString k) @ '' to writer'') (Some err)), w)
   | (Inr _, w) \<Rightarrow> (Inr (), w))"

text \<open>A pipe whose reader collects everything: a write appends.\<close>

definition append_bytes :: "string \<Rightarrow> string \<Rightarrow> (goerr + unit) \<times> string" where
  "append_bytes bs w = (Inr (), w @ bs)"

definition index_text :: "Key list \<Rightarrow> string" where
  "index_text ks = concat (map (\<lambda>k. Key_ToString k @ [newline]) ks)"

section \<open>The interfaces\<close>

text \<open>A reader \<open>r\<close> that holds the keys \<open>ks\<close> returns them in order and then \<^verbatim>\<open>io.EOF\<close>.\<close>

locale key_reader =
  fixes read_key :: "'r \<Rightarrow> (goerr + Key) \<times> 'r"
    and holds :: "'r \<Rightarrow> Key list \<Rightarrow> bool"
  assumes read_next: "holds r (k # ks) \<Longrightarrow> \<exists>r'. read_key r = (Inr k, r') \<and> holds r' ks"
    and read_end: "holds r [] \<Longrightarrow> \<exists>r'. read_key r = (Inl (Sentinel EOF), r')"

text \<open>A writer that has taken \<open>ks\<close> takes one more key at the end.\<close>

locale key_writer =
  fixes write_key :: "Key \<Rightarrow> 'w \<Rightarrow> (goerr + unit) \<times> 'w"
    and took :: "'w \<Rightarrow> Key list \<Rightarrow> bool"
  assumes write_next: "took w ks \<Longrightarrow> write_key k w = (Inr u, w') \<Longrightarrow> took w' (ks @ [k])"

text \<open>Reading until the first error, with fuel for the number of keys.\<close>

fun read_keys :: "nat \<Rightarrow> ('r \<Rightarrow> (goerr + Key) \<times> 'r) \<Rightarrow> 'r \<Rightarrow> Key list \<times> goerr option" where
  "read_keys 0 rk r = ([], None)"
| "read_keys (Suc n) rk r = (case rk r of
     (Inl e, r) \<Rightarrow> ([], Some e)
   | (Inr k, r) \<Rightarrow> (case read_keys n rk r of (ks, e) \<Rightarrow> (k # ks, e)))"

fun write_keys :: "(Key \<Rightarrow> 'w \<Rightarrow> (goerr + unit) \<times> 'w) \<Rightarrow> Key list \<Rightarrow> 'w \<Rightarrow> (goerr + unit) \<times> 'w" where
  "write_keys wk [] w = (Inr (), w)"
| "write_keys wk (k # ks) w = (case wk k w of (Inl e, w) \<Rightarrow> (Inl e, w) | (Inr _, w) \<Rightarrow> write_keys wk ks w)"

context key_reader
begin

lemma read_all: "holds r ks \<Longrightarrow> length ks < n \<Longrightarrow> read_keys n read_key r = (ks, Some (Sentinel EOF))"
proof (induction ks arbitrary: r n)
  case Nil
  then obtain m where "n = Suc m" by (cases n) auto
  with read_end [OF Nil.prems(1)] show ?case by auto
next
  case (Cons k ks)
  then obtain m where m: "n = Suc m" "length ks < m" by (cases n) auto
  from read_next [OF Cons.prems(1)] obtain r' where "read_key r = (Inr k, r')" "holds r' ks" by blast
  with Cons.IH m show ?case by simp
qed

end

context key_writer
begin

lemma write_all: "took w ks \<Longrightarrow> write_keys write_key ks' w = (Inr u, w') \<Longrightarrow> took w' (ks @ ks')"
proof (induction ks' arbitrary: w ks)
  case (Cons k ks')
  from Cons.prems(2) obtain w1 where "write_key k w = (Inr (), w1)" "write_keys write_key ks' w1 = (Inr u, w')"
    by (auto split: prod.splits sum.splits)
  with Cons.IH [OF write_next [OF Cons.prems(1)]] show ?case by fastforce
qed simp

end

section \<open>The index keeps the contracts\<close>

lemma newline_hex: "newline \<notin> set (hex_encode k)"
  by (simp add: newline_def hex_encode_no_newline)

lemma Scan_line:
  assumes "newline \<notin> set l" and "length l < MaxScanTokenSize"
  shows "Scan (l @ newline # s) = Some (drop_cr l, s)"
proof -
  have t: "takeWhile (\<lambda>c. c \<noteq> newline) (l @ newline # s) = l" "dropWhile (\<lambda>c. c \<noteq> newline) (l @ newline # s) = newline # s"
    using assms(1) by (induction l) auto
  show ?thesis using assms(2) by (simp add: Scan_def Let_def t)
qed

lemma drop_cr_hex: "drop_cr (hex_encode k) = hex_encode k"
proof -
  have "last (hex_encode k) \<noteq> CHR 13" if "hex_encode k \<noteq> []"
    using that hex_encode_no_newline(2) [of k] last_in_set [OF that] by metis
  then show ?thesis by (auto simp: drop_cr_def)
qed

lemma ReadKey_line:
  assumes "is_key k"
  shows "ReadKey (Key_ToString k @ newline # s) = (Inr k, s)"
proof -
  have "length (hex_encode k) < MaxScanTokenSize"
    using assms by (simp add: is_key_def key_size_def MaxScanTokenSize_def)
  then show ?thesis
    using assms Scan_line [OF newline_hex]
    by (simp add: ReadKey_def Key_ToString_def drop_cr_hex is_key_def)
qed

definition index_holds :: "string \<Rightarrow> Key list \<Rightarrow> bool" where
  "index_holds s ks \<longleftrightarrow> s = index_text ks \<and> list_all is_key ks"

lemma index_text_simps [simp]:
  "index_text [] = []" "index_text (k # ks) = Key_ToString k @ newline # index_text ks"
  "index_text (ks @ ks') = index_text ks @ index_text ks'"
  by (simp_all add: index_text_def)

interpretation index_reader: key_reader ReadKey index_holds
  by unfold_locales (auto simp: index_holds_def ReadKey_line, simp add: ReadKey_def Scan_def)

interpretation index_writer: key_writer "WriteKey append_bytes" "\<lambda>w ks. w = index_text ks"
  by unfold_locales (auto simp: WriteKey_def append_bytes_def)

lemma write_index: "write_keys (WriteKey append_bytes) ks w = (Inr (), w @ index_text ks)"
  by (induction ks arbitrary: w) (simp_all add: WriteKey_def append_bytes_def)

text \<open>
  The index round trips: reading what was written key by key gives the same keys in the same
  order and then the end of file, for any number of keys of 32 bytes.
\<close>
theorem index_roundtrip:
  assumes "list_all is_key ks" and "write_keys (WriteKey append_bytes) ks [] = (r, index)"
  shows "r = Inr () \<and> read_keys (Suc (length ks)) ReadKey index = (ks, Some (Sentinel EOF))"
proof -
  have "r = Inr ()" "index = index_text ks"
    using assms(2) write_index [of ks "[]"] by auto
  then show ?thesis
    using index_reader.read_all [of index ks "Suc (length ks)"] assms(1) by (simp add: index_holds_def)
qed

definition demo_key :: Key where
  "demo_key = replicate 31 CHR 0x00 @ ''A''"

theorem index_roundtrip_witness:
  "read_keys 3 ReadKey (index_text [demo_key, demo_key]) = ([demo_key, demo_key], Some (Sentinel EOF))"
  using index_roundtrip [of "[demo_key, demo_key]" "Inr ()" "index_text [demo_key, demo_key]"]
    write_index [of "[demo_key, demo_key]" "[]"]
  by (simp add: is_key_def key_size_def demo_key_def numeral_3_eq_3)

text \<open>
  The reader is lenient about a damaged index: a line that does not fit the scanner's
  buffer ends the index as if the file ended there, without an error, and a key of the wrong
  length is cut to 32 bytes or filled up with zeros.
\<close>
theorem damaged_index:
  assumes "list_all is_key ks" and "newline \<notin> set long" and "65536 \<le> length long"
    and "2 * length bytes < 65536"
  shows "read_keys (Suc (length ks)) ReadKey (index_text ks @ long @ rest) = (ks, Some (Sentinel EOF))
       \<and> ReadKey (hex_encode bytes @ newline # rest) = (Inr (take 32 (bytes @ replicate 32 CHR 0x00)), rest)"
proof -
  have "read_keys (Suc (length ks)) ReadKey (index_text ks @ s) = (ks, Some (Sentinel EOF))"
    if "Scan s = None" for s
    using assms(1)
  proof (induction ks)
    case Nil
    with that show ?case by (simp add: ReadKey_def)
  next
    case (Cons k ks)
    then show ?case using ReadKey_line [of k "index_text ks @ s"] by simp
  qed
  moreover have "length long \<le> length (takeWhile (\<lambda>c. c \<noteq> newline) (long @ rest))"
    using assms(2) by (subst takeWhile_append2) auto
  then have "Scan (long @ rest) = None"
    using assms(3) by (simp add: Scan_def MaxScanTokenSize_def)
  moreover have "ReadKey (hex_encode bytes @ newline # rest) = (Inr (take 32 (bytes @ replicate 32 CHR 0x00)), rest)"
    using Scan_line [OF newline_hex, of bytes rest] assms(4)
    by (simp add: ReadKey_def drop_cr_hex key_size_def MaxScanTokenSize_def)
  ultimately show ?thesis by blast
qed

theorem damaged_index_witness:
  "read_keys 2 ReadKey (index_text [demo_key] @ replicate 65536 CHR ''0'' @ index_text [demo_key])
     = ([demo_key], Some (Sentinel EOF))"
proof -
  have k: "list_all is_key [demo_key]" by (simp add: is_key_def key_size_def demo_key_def)
  have n: "newline \<notin> set (replicate 65536 CHR ''0'')" by (simp add: newline_def)
  have l: "65536 \<le> length (replicate 65536 CHR ''0'')" by simp
  have b: "2 * length ([] :: string) < 65536" by simp
  from damaged_index [OF k n l b, of "index_text [demo_key]"] show ?thesis
    by (simp only: length_Cons list.size Suc_1 [symmetric] One_nat_def [symmetric])
qed

section \<open>Metadata\<close>

text \<open>
  \<^verbatim>\<open>MetadataExists\<close>, \<^verbatim>\<open>MetadataUpload\<close>, \<^verbatim>\<open>MetadataDownload\<close>. The text of a JSON document is
  left to \<open>marshal\<close> and \<open>parse\<close>; \<open>exec_*\<close> are the operations of the client.
\<close>

record Metadata =
  Created :: int
  Updated :: int
  Size :: int

definition metadata_fields :: "Metadata fields" where
  "metadata_fields = [
     (''created_at'', set_time (\<lambda>t r. r\<lparr>Created := t\<rparr>)),
     (''updated_at'', set_time (\<lambda>t r. r\<lparr>Updated := t\<rparr>)),
     (''size'', set_int (\<lambda>n r. r\<lparr>Size := n\<rparr>))]"

definition empty_metadata :: Metadata where
  "empty_metadata = \<lparr>Created = -62135596800 * 1000000000, Updated = -62135596800 * 1000000000, Size = 0\<rparr>"

definition encode_metadata :: "Metadata \<Rightarrow> goerr + json" where
  "encode_metadata m = (case encode_time (Created m) of Inl e \<Rightarrow> Inl e
     | Inr c \<Rightarrow> (case encode_time (Updated m) of Inl e \<Rightarrow> Inl e
     | Inr u \<Rightarrow> Inr (JObj [(''created_at'', c), (''updated_at'', u), (''size'', JNum (Size m))])))"

definition MetadataExists :: "'w DataOps \<Rightarrow> string \<Rightarrow> string \<Rightarrow> 'w \<Rightarrow> (goerr + bool) \<times> 'w" where
  "MetadataExists ops bucket root = Client_Exists ops bucket (Join [root, MetadataObjectKey])"

definition MetadataUpload :: "(json \<Rightarrow> string) \<Rightarrow> 'w ctx \<Rightarrow> 'w DataOps \<Rightarrow> string \<Rightarrow> string \<Rightarrow> Metadata \<Rightarrow> 'w
    \<Rightarrow> (goerr + unit) \<times> 'w" where
  "MetadataUpload marshal ctx ops bucket root m =
     check (encode_metadata m) (\<lambda>err. NewError ''failed to encode metadata'' (Some err)) (\<lambda>dat.
     call (Client_Upload ctx ops bucket (Join [root, MetadataObjectKey]) (marshal dat))
       (\<lambda>err. NewError ''failed to upload index file'' (Some err)) (\<lambda>_ w. (Inr (), w)))"

definition MetadataDownload :: "(string \<Rightarrow> goerr + json) \<Rightarrow> 'w ctx \<Rightarrow> 'w DataOps \<Rightarrow> string \<Rightarrow> string \<Rightarrow> 'w
    \<Rightarrow> (goerr + Metadata) \<times> 'w" where
  "MetadataDownload parse ctx ops bucket root =
     call (Client_Download ctx ops bucket (Join [root, MetadataObjectKey]))
       (\<lambda>err. NewError ''failed to download metadata'' (Some err)) (\<lambda>body.
     check (case body of Inl err \<Rightarrow> Inl err
            | Inr content \<Rightarrow> (case parse content of Inl err \<Rightarrow> Inl err
                | Inr j \<Rightarrow> decode_struct metadata_fields j empty_metadata))
       (\<lambda>err. NewError ''failed to decode metadata'' (Some err)) (\<lambda>m w. (Inr m, w)))"

lemma decode_encode_metadata:
  assumes "encode_metadata m = Inr j" and "in_int64 (Size m)"
  shows "decode_struct metadata_fields j empty_metadata = Inr m"
  using assms
  by (auto simp: encode_metadata_def encode_time_def decode_struct_def metadata_fields_def find_field_def
      setter_defs empty_metadata_def split: if_splits)

text \<open>
  The metadata of a dataset round trips through the store: once its upload has succeeded,
  whatever outages and retries it took, every download that can read the object returns the same
  creation and update times and the same size, as long as nothing else overwrote the object.
\<close>
theorem metadata_roundtrip:
  assumes "object_store (ops_upload ops) (ops_download ops) (ops_exists ops) stored"
    and "MetadataUpload marshal ctx ops bucket root m w = (Inr u, w1)"
    and "stored w2 (bucket, Join [root, MetadataObjectKey]) = stored w1 (bucket, Join [root, MetadataObjectKey])"
    and "Client_Download ctx ops bucket (Join [root, MetadataObjectKey]) w2 = (Inr (Inr body), w3)"
    and "\<And>j. encode_metadata m = Inr j \<Longrightarrow> parse (marshal j) = Inr j" and "in_int64 (Size m)"
  shows "MetadataDownload parse ctx ops bucket root w2 = (Inr m, w3)"
proof -
  note store = client_store [OF assms(1), of ctx]
  from assms(2) obtain j where j: "encode_metadata m = Inr j"
    and up: "Client_Upload ctx ops bucket (Join [root, MetadataObjectKey]) (marshal j) w = (Inr (), w1)"
    by (auto simp: MetadataUpload_def check_Inr_iff call_Inr_iff)
  have "stored w1 (bucket, Join [root, MetadataObjectKey]) = Some (marshal j)"
    using object_store.upload_ok [OF store up] by simp
  with object_store.download_ok [OF store assms(4)] assms(3) have "body = marshal j" by simp
  with assms(4) assms(5) [OF j] decode_encode_metadata [OF j assms(6)] show ?thesis
    by (simp add: MetadataDownload_def)
qed

text \<open>An example store: two outages before the upload goes through, and one before the download.\<close>

definition outage :: goerr where
  "outage = Fundamental ''RequestTimeout''"

definition demo_s3 :: s3_world where
  "demo_s3 = \<lparr>objs = (\<lambda>_. None), outages = [Some outage, Some outage, None, Some outage]\<rparr>"

definition demo_metadata :: Metadata where
  "demo_metadata = \<lparr>Created = 5, Updated = 7, Size = 1536\<rparr>"

definition demo_document :: json where
  "demo_document = JObj [(''created_at'', JTime 5), (''updated_at'', JTime 7), (''size'', JNum 1536)]"

lemma demo_encode: "encode_metadata demo_metadata = Inr demo_document"
  by (simp add: encode_metadata_def demo_metadata_def demo_document_def encode_time_def time_min_def time_max_def)

lemma demo_attempts:
  "Client_Upload (\<lambda>_. None) (DataClient s3_table) ''b'' k v demo_s3 =
     (Inr (), \<lparr>objs = (\<lambda>_. None)((''b'', k) := Some v), outages = [Some outage]\<rparr>)"
  "Client_Download (\<lambda>_. None) (DataClient s3_table) ''b'' k
      \<lparr>objs = (\<lambda>_. None)((''b'', k) := Some v), outages = [Some outage]\<rparr> =
     (Inr (Inr v), \<lparr>objs = (\<lambda>_. None)((''b'', k) := Some v), outages = []\<rparr>)"
  by (simp_all add: Client_Upload_def Client_Download_def NoOfRetries_def numeral_2_eq_2 DataClient_def
      S3_Upload_def S3_Download_def s3_table_def s3_put_def s3_get_def s3_call_def demo_s3_def)

theorem metadata_roundtrip_witness:
  "\<exists>w1 w3. MetadataUpload (\<lambda>_. ''doc'') (\<lambda>_. None) (DataClient s3_table) ''b'' ''r'' demo_metadata demo_s3 = (Inr (), w1)
     \<and> MetadataDownload (\<lambda>_. Inr demo_document) (\<lambda>_. None) (DataClient s3_table) ''b'' ''r'' w1 = (Inr demo_metadata, w3)"
proof -
  let ?k = "Join [''r'', MetadataObjectKey]"
  let ?w1 = "\<lparr>objs = (\<lambda>_. None)((''b'', ?k) := Some ''doc''), outages = [Some outage]\<rparr>"
  let ?w3 = "\<lparr>objs = (\<lambda>_. None)((''b'', ?k) := Some ''doc''), outages = []\<rparr>"
  have up: "MetadataUpload (\<lambda>_. ''doc'') (\<lambda>_. None) (DataClient s3_table) ''b'' ''r'' demo_metadata demo_s3 = (Inr (), ?w1)"
    by (simp add: MetadataUpload_def demo_encode demo_attempts)
  have "MetadataDownload (\<lambda>_. Inr demo_document) (\<lambda>_. None) (DataClient s3_table) ''b'' ''r'' ?w1 = (Inr demo_metadata, ?w3)"
  proof (rule metadata_roundtrip [OF s3_ops up refl demo_attempts(2)])
    show "Inr demo_document = Inr j" if "encode_metadata demo_metadata = Inr j" for j :: json
      using that demo_encode by simp
    show "in_int64 (Size demo_metadata)"
      by (simp add: demo_metadata_def in_int64_def min_int64_def max_int64_def)
  qed
  with up show ?thesis by blast
qed

end
