(* ===== verification/Chunk_Upload.thy ===== *)
theory Chunk_Upload
  imports Data_Index
begin

text \<open>
  \<^verbatim>\<open>uploadChunks\<close>, \<^verbatim>\<open>uploadIndex\<close> and \<^verbatim>\<open>uploadMetadata\<close> of
  \<^verbatim>\<open>nerd/service/datatransfer/v1/upload_process.go\<close>. The chunker is the list of chunks it will cut
  the stream into and the error it may end with; SHA-256 is the argument \<open>sha\<close>. The goroutines are
  steps: the fan-out emits items, each item's worker checks for its chunk and stores it, the fan-in
  takes the results in the order of the items and writes the keys. The items between fan-out
  and fan-in are one list, in their order: those in the channel and the one the fan-in waits for, so
  at most \<open>concurrency + 1\<close>. The progress channel is a layer of its own, in \<open>Progress\<close>.
\<close>

section \<open>Workers\<close>

datatype work =
    Checking \<comment> \<open>before \<^verbatim>\<open>Exists\<close>\<close>
  | Putting \<comment> \<open>the object was not found\<close>
  | Announced Key \<comment> \<open>a result is offered\<close>
  | Broken goerr

text \<open>An item: its chunk and how far its worker is, or an error of the chunker.\<close>

datatype upload_item = UItem string work | UItemError goerr

text \<open>What an upload is given.\<close>

record 'w upload_env =
  uctx :: "'w ctx"
  uops :: "'w DataOps"
  usha :: "string \<Rightarrow> Key"
  ubucket :: string
  uroot :: string
  uconcurrency :: nat

definition chunk_key :: "(string \<Rightarrow> Key) \<Rightarrow> string \<Rightarrow> string \<Rightarrow> string" where
  "chunk_key h root chunk = Join [root, Key_ToString (h chunk)]"

definition upload_work :: "'w upload_env \<Rightarrow> string \<Rightarrow> work \<Rightarrow> 'w \<Rightarrow> work \<times> 'w" where
  "upload_work v chunk wk w = (case wk of
     Checking \<Rightarrow>
       (case Client_Exists (uops v) (ubucket v) (chunk_key (usha v) (uroot v) chunk) w of
          (Inl err, w) \<Rightarrow> (Broken (wrapped (''failed to check existence of '' @ quoted (Key_ToString (usha v chunk))) err), w)
        | (Inr True, w) \<Rightarrow> (Announced (usha v chunk), w)
        | (Inr False, w) \<Rightarrow> (Putting, w))
   | Putting \<Rightarrow>
       (case Client_Upload (uctx v) (uops v) (ubucket v) (chunk_key (usha v) (uroot v) chunk) chunk w of
          (Inl err, w) \<Rightarrow> (Broken (wrapped (''failed to put chunk '' @ quoted (Key_ToString (usha v chunk))) err), w)
        | (Inr _, w) \<Rightarrow> (Announced (usha v chunk), w))
   | _ \<Rightarrow> (wk, w))"

section \<open>The pipeline\<close>

record ('w, 'k) upload_state =
  utodo :: "string list"
  uend :: "goerr option"
  uclosed :: bool
  uitems :: "upload_item list"
  uworld :: 'w
  uwriter :: 'k
  uresult :: "(goerr + unit) option"

text \<open>
  The steps; nothing happens after the result. The context may be found cancelled at any time, in
  the inner \<^verbatim>\<open>select\<close> and in the outer one, which then returns its error. The fan-out that finds it cancelled
  skips the chunk and goes on with the next one.
\<close>

inductive upload_step :: "'w upload_env \<Rightarrow> (Key \<Rightarrow> 'k \<Rightarrow> (goerr + unit) \<times> 'k)
    \<Rightarrow> ('w, 'k) upload_state \<Rightarrow> ('w, 'k) upload_state \<Rightarrow> bool" for v wk where
  emit: "uresult s = None \<Longrightarrow> utodo s = c # cs \<Longrightarrow> length (uitems s) \<le> uconcurrency v \<Longrightarrow>
     upload_step v wk s (s\<lparr>utodo := cs, uitems := uitems s @ [UItem c Checking]\<rparr>)"
| skip: "uresult s = None \<Longrightarrow> utodo s = c # cs \<Longrightarrow> uctx v (uworld s) = Some e \<Longrightarrow>
     upload_step v wk s (s\<lparr>utodo := cs\<rparr>)"
| skip_error: "uresult s = None \<Longrightarrow> utodo s = [] \<Longrightarrow> \<not> uclosed s \<Longrightarrow> uend s = Some e \<Longrightarrow> uctx v (uworld s) = Some e' \<Longrightarrow>
     upload_step v wk s (s\<lparr>uclosed := True\<rparr>)"
| emit_error: "uresult s = None \<Longrightarrow> utodo s = [] \<Longrightarrow> \<not> uclosed s \<Longrightarrow> uend s = Some e \<Longrightarrow>
     length (uitems s) \<le> uconcurrency v \<Longrightarrow>
     upload_step v wk s (s\<lparr>uclosed := True, uitems := uitems s @ [UItemError e]\<rparr>)"
| close: "uresult s = None \<Longrightarrow> utodo s = [] \<Longrightarrow> \<not> uclosed s \<Longrightarrow> uend s = None \<Longrightarrow>
     upload_step v wk s (s\<lparr>uclosed := True\<rparr>)"
| work: "uresult s = None \<Longrightarrow> i < length (uitems s) \<Longrightarrow> uitems s ! i = UItem c p \<Longrightarrow>
     p = Checking \<or> p = Putting \<Longrightarrow> upload_work v c p (uworld s) = (p', w') \<Longrightarrow>
     upload_step v wk s (s\<lparr>uitems := (uitems s)[i := UItem c p'], uworld := w'\<rparr>)"
| collect: "uresult s = None \<Longrightarrow> uitems s = UItem c (Announced k) # its \<Longrightarrow> wk k (uwriter s) = (Inr u, x) \<Longrightarrow>
     upload_step v wk s (s\<lparr>uitems := its, uwriter := x\<rparr>)"
| write_failed: "uresult s = None \<Longrightarrow> uitems s = UItem c (Announced k) # its \<Longrightarrow> wk k (uwriter s) = (Inl e, x) \<Longrightarrow>
     upload_step v wk s (s\<lparr>uitems := its, uwriter := x, uresult := Some (Inl (wrapped ''failed to write key'' e))\<rparr>)"
| broken: "uresult s = None \<Longrightarrow> uitems s = UItem c (Broken e) # its \<Longrightarrow>
     upload_step v wk s (s\<lparr>uitems := its, uresult := Some (Inl e)\<rparr>)"
| iterate_failed: "uresult s = None \<Longrightarrow> uitems s = UItemError e # its \<Longrightarrow>
     upload_step v wk s (s\<lparr>uitems := its, uresult := Some (Inl (wrapped ''failed to iterate'' e))\<rparr>)"
| cancelled: "uresult s = None \<Longrightarrow> uctx v (uworld s) = Some e \<Longrightarrow>
     upload_step v wk s (s\<lparr>uresult := Some (Inl e)\<rparr>)"
| finished: "uresult s = None \<Longrightarrow> uclosed s \<Longrightarrow> uitems s = [] \<Longrightarrow>
     upload_step v wk s (s\<lparr>uresult := Some (Inr ())\<rparr>)"

definition upload_start :: "string list \<Rightarrow> goerr option \<Rightarrow> 'w \<Rightarrow> 'k \<Rightarrow> ('w, 'k) upload_state" where
  "upload_start chunks e w x = \<lparr>utodo = chunks, uend = e, uclosed = False, uitems = [], uworld = w,
     uwriter = x, uresult = None\<rparr>"

text \<open>The index object.\<close>

definition uploadIndex :: "'w ctx \<Rightarrow> 'w DataOps \<Rightarrow> goerr + string \<Rightarrow> string \<Rightarrow> string \<Rightarrow> 'w \<Rightarrow> (goerr + unit) \<times> 'w" where
  "uploadIndex ctx ops r bucket root =
     check r (wrapped ''failed to read keys'') (\<lambda>b. Client_Upload ctx ops bucket (Join [root, IndexObjectKey]) b)"

text \<open>The clock is read twice.\<close>

definition uploadMetadata :: "(json \<Rightarrow> string) \<Rightarrow> int \<times> int \<Rightarrow> 'w ctx \<Rightarrow> 'w DataOps \<Rightarrow> int \<Rightarrow> string \<Rightarrow> string \<Rightarrow> 'w
    \<Rightarrow> (goerr + unit) \<times> 'w" where
  "uploadMetadata marshal nows ctx ops count bucket root =
     call (MetadataUpload marshal ctx ops bucket root \<lparr>Created = fst nows, Updated = snd nows, Size = count\<rparr>)
       (wrapped ''failed to upload metadata'') (\<lambda>_ w. (Inr (), w))"

section \<open>What is written and what is stored\<close>

definition item_chunks :: "upload_item list \<Rightarrow> string list" where
  "item_chunks its = concat (map (\<lambda>it. case it of UItem c p \<Rightarrow> [c] | UItemError e \<Rightarrow> []) its)"

lemma item_chunks_simps [simp]:
  "item_chunks [] = []" "item_chunks (UItem c p # its) = c # item_chunks its"
  "item_chunks (UItemError e # its) = item_chunks its" "item_chunks (xs @ ys) = item_chunks xs @ item_chunks ys"
  by (simp_all add: item_chunks_def)

lemma item_chunks_update [simp]:
  assumes "i < length its" and "its ! i = UItem c p"
  shows "item_chunks (its[i := UItem c p']) = item_chunks its"
proof -
  have "its = take i its @ UItem c p # drop (Suc i) its" using assms id_take_nth_drop by metis
  moreover have "its[i := UItem c p'] = take i its @ UItem c p' # drop (Suc i) its"
    using assms(1) by (rule upd_conv_take_nth_drop)
  ultimately show ?thesis by (metis item_chunks_simps(2,4))
qed

lemma item_chunks_mem: "i < length its \<Longrightarrow> its ! i = UItem c p \<Longrightarrow> c \<in> set (item_chunks its)"
  by (force simp: item_chunks_def in_set_conv_nth intro: exI [of _ i])

text \<open>The object of a chunk: the chunk itself, if anything.\<close>

definition consistent :: "'w upload_env \<Rightarrow> objects \<Rightarrow> string list \<Rightarrow> bool" where
  "consistent v st chunks \<longleftrightarrow> (\<forall>c\<in>set chunks.
     st (ubucket v, chunk_key (usha v) (uroot v) c) \<in> {None, Some c})"

definition has_chunk :: "'w upload_env \<Rightarrow> objects \<Rightarrow> string \<Rightarrow> bool" where
  "has_chunk v st c \<longleftrightarrow> st (ubucket v, chunk_key (usha v) (uroot v) c) = Some c"

text \<open>A worker that announces a key has the right one, and its chunk is stored.\<close>

definition item_ok :: "'w upload_env \<Rightarrow> objects \<Rightarrow> upload_item \<Rightarrow> bool" where
  "item_ok v st it = (case it of UItem c (Announced k) \<Rightarrow> k = usha v c \<and> has_chunk v st c | _ \<Rightarrow> True)"

text \<open>While nobody cancels the context, the workers do not either.\<close>

lemma upload_step_live:
  assumes "upload_step v wk s t" and "patient (uctx v) (uops v)" and "uctx v (uworld s) = None"
  shows "uctx v (uworld t) = None"
  using assms(1)
proof cases
  case (work i c p p' w')
  with client_patient [OF assms(2,3)] show ?thesis
    by (auto simp: upload_work_def split: prod.splits sum.splits bool.splits) (metis snd_conv)+
qed (use assms(3) in simp_all)

lemma upload_steps_live:
  assumes "(upload_step v wk)\<^sup>*\<^sup>* s t" and "patient (uctx v) (uops v)" and "uctx v (uworld s) = None"
  shows "uctx v (uworld t) = None"
  using assms(1,3) by (induction rule: rtranclp_induct) (auto intro: upload_step_live [OF _ assms(2)])

locale chunk_upload =
  key_writer wk took +
  object_store "Client_Upload (uctx v) (uops v)" "Client_Download (uctx v) (uops v)" "Client_Exists (uops v)" stored
  for wk :: "Key \<Rightarrow> 'k \<Rightarrow> (goerr + unit) \<times> 'k" and took and v :: "'w upload_env" and stored
begin

text \<open>Storing a chunk disturbs no other one.\<close>

lemma put_keeps:
  assumes "inj_on (chunk_key (usha v) (uroot v)) (set chunks)" and "c \<in> set chunks"
    and "consistent v st chunks" and "st' = st \<or> st' = st((ubucket v, chunk_key (usha v) (uroot v) c) := Some c)"
  shows "consistent v st' chunks" and "d \<in> set chunks \<Longrightarrow> has_chunk v st d \<Longrightarrow> has_chunk v st' d"
proof -
  let ?key = "chunk_key (usha v) (uroot v)"
  have st': "st' (ubucket v, ?key d) = st (ubucket v, ?key d) \<or> st' (ubucket v, ?key d) = Some d" if "d \<in> set chunks" for d
    using assms(4) inj_on_eq_iff [OF assms(1) that assms(2)] by (cases "d = c") auto
  then show "consistent v st' chunks" using assms(3) by (force simp: consistent_def)
  show "d \<in> set chunks \<Longrightarrow> has_chunk v st d \<Longrightarrow> has_chunk v st' d" using st' [of d] by (auto simp: has_chunk_def)
qed

lemma work_keeps:
  assumes inj: "inj_on (chunk_key (usha v) (uroot v)) (set chunks)" and c: "c \<in> set chunks"
    and con: "consistent v (stored w) chunks" and p: "p = Checking \<or> p = Putting"
    and step: "upload_work v c p w = (p', w')"
  shows "consistent v (stored w') chunks" and "d \<in> set chunks \<Longrightarrow> has_chunk v (stored w) d \<Longrightarrow> has_chunk v (stored w') d"
    and "item_ok v (stored w') (UItem c p')"
proof -
  let ?k = "chunk_key (usha v) (uroot v) c"
  have "(stored w' = stored w \<or> stored w' = (stored w)((ubucket v, ?k) := Some c)) \<and> item_ok v (stored w') (UItem c p')"
  proof (cases "p = Checking")
    case True
    obtain r w1 where e: "Client_Exists (uops v) (ubucket v) ?k w = (r, w1)" by (rule prod.exhaust)
    then have "stored w1 = stored w" using exists_pure [of "ubucket v" ?k w] by simp
    moreover have "stored w (ubucket v, ?k) \<noteq> None" if "r = Inr True" using exists_ok e that by blast
    ultimately show ?thesis
      using step True e con c
      by (auto simp: upload_work_def item_ok_def has_chunk_def consistent_def split: sum.splits bool.splits)
  next
    case False
    with p have "p = Putting" by simp
    obtain r w1 where e: "Client_Upload (uctx v) (uops v) (ubucket v) ?k c w = (r, w1)" by (rule prod.exhaust)
    then have "stored w1 = stored w \<or> stored w1 = (stored w)((ubucket v, ?k) := Some c)"
      using upload_either [of "ubucket v" ?k c w] by simp
    moreover have "stored w1 = (stored w)((ubucket v, ?k) := Some c)" if "r = Inr u" for u
      using upload_ok e that by blast
    ultimately show ?thesis
      using step \<open>p = Putting\<close> e
      by (auto simp: upload_work_def item_ok_def has_chunk_def split: sum.splits)
  qed
  with put_keeps [OF inj c con] show "consistent v (stored w') chunks"
    and "d \<in> set chunks \<Longrightarrow> has_chunk v (stored w) d \<Longrightarrow> has_chunk v (stored w') d"
    and "item_ok v (stored w') (UItem c p')" by auto
qed

text \<open>
  The invariant: the chunks collected so far, in the writer; then those of the items; then those to
  come; and every chunk whose key was announced is stored.
\<close>

definition upload_inv :: "string list \<Rightarrow> ('w, 'k) upload_state \<Rightarrow> bool" where
  "upload_inv chunks s \<longleftrightarrow> (\<exists>done.
     took (uwriter s) (map (usha v) done) \<and> list_all (has_chunk v (stored (uworld s))) done \<and>
     list_all (item_ok v (stored (uworld s))) (uitems s) \<and> consistent v (stored (uworld s)) chunks \<and>
     done @ item_chunks (uitems s) @ utodo s = chunks \<and> (uclosed s \<longrightarrow> utodo s = []))"

definition upload_done :: "string list \<Rightarrow> ('w, 'k) upload_state \<Rightarrow> bool" where
  "upload_done chunks s \<longleftrightarrow> took (uwriter s) (map (usha v) chunks) \<and>
     list_all (has_chunk v (stored (uworld s))) chunks"

lemma upload_step_inv:
  assumes "upload_step v wk s t" and inj: "inj_on (chunk_key (usha v) (uroot v)) (set chunks)"
    and inv: "upload_inv chunks s" and live: "uctx v (uworld s) = None"
  shows "(uresult t = None \<longrightarrow> upload_inv chunks t) \<and> (uresult t = Some (Inr ()) \<longrightarrow> upload_done chunks t)"
proof -
  from inv obtain d where d: "took (uwriter s) (map (usha v) d)" "list_all (has_chunk v (stored (uworld s))) d"
    "list_all (item_ok v (stored (uworld s))) (uitems s)" "consistent v (stored (uworld s)) chunks"
    "d @ item_chunks (uitems s) @ utodo s = chunks" "uclosed s \<longrightarrow> utodo s = []"
    unfolding upload_inv_def by blast
  from assms(1) show ?thesis
  proof cases
    case (emit c cs)
    with d show ?thesis by (auto simp: upload_inv_def item_ok_def intro!: exI [of _ d])
  next
    case (emit_error e)
    with d show ?thesis by (auto simp: upload_inv_def item_ok_def intro!: exI [of _ d])
  next
    case close
    with d show ?thesis by (auto simp: upload_inv_def intro!: exI [of _ d])
  next
    case (work i c p p' w')
    have c: "c \<in> set chunks" using item_chunks_mem [OF work(3,4)] d(5) by auto
    have mem: "e \<in> set chunks" if "e \<in> set d \<union> set (item_chunks (uitems s))" for e using that d(5) by auto
    note keeps = work_keeps [OF inj c d(4) work(5,6)]
    have ok: "item_ok v (stored w') it" if "it \<in> set (uitems s)" for it
    proof (cases it)
      case (UItem e q)
      with that have "e \<in> set chunks" by (intro mem) (force simp: item_chunks_def)
      moreover have "item_ok v (stored (uworld s)) it" using d(3) that by (auto simp: list_all_iff)
      ultimately show ?thesis using UItem keeps(2) [of e] by (auto simp: item_ok_def split: work.splits)
    qed (simp add: item_ok_def)
    have "list_all (item_ok v (stored w')) ((uitems s)[i := UItem c p'])"
      using ok keeps(3) set_update_subset_insert [of "uitems s" i "UItem c p'"] by (auto simp: list_all_iff)
    moreover have "list_all (has_chunk v (stored w')) d"
      using d(2) keeps(2) mem by (auto simp: list_all_iff)
    ultimately show ?thesis
      using work d(1,5,6) keeps(1) item_chunks_update [OF work(3,4)]
      by (auto simp: upload_inv_def intro!: exI [of _ d])
  next
    case (collect c k its u x)
    then have "took x (map (usha v) (d @ [c]))"
      using write_next [OF d(1)] d(3) by (auto simp: item_ok_def)
    with collect d show ?thesis by (auto simp: upload_inv_def item_ok_def intro!: exI [of _ "d @ [c]"])
  next
    case finished
    with d show ?thesis by (auto simp: upload_done_def)
  qed (use live in auto)
qed

lemma upload_steps_inv:
  assumes "(upload_step v wk)\<^sup>*\<^sup>* (upload_start chunks e w x) s" and "took x []"
    and inj: "inj_on (chunk_key (usha v) (uroot v)) (set chunks)" and "consistent v (stored w) chunks"
    and "patient (uctx v) (uops v)" and "uctx v w = None"
  shows "(uresult s = None \<longrightarrow> upload_inv chunks s) \<and> (uresult s = Some (Inr ()) \<longrightarrow> upload_done chunks s)"
  using assms(1)
proof (induction rule: rtranclp_induct)
  case base
  show ?case using assms(2,4) by (simp add: upload_start_def upload_inv_def)
next
  case (step s t)
  have "uresult s = None" using step.hyps(2) by cases
  with step.IH have "upload_inv chunks s" by simp
  moreover have "uctx v (uworld s) = None"
    using upload_steps_live [OF step.hyps(1) assms(5)] assms(6) by (simp add: upload_start_def)
  ultimately show ?case by (rule upload_step_inv [OF step.hyps(2) inj])
qed

end

section \<open>The pipeline on S3 and the index\<close>

interpretation s3_upload: chunk_upload "WriteKey append_bytes" "\<lambda>w ks. w = index_text ks"
    "\<lparr>uctx = ctx, uops = DataClient s3_table, usha = h, ubucket = b, uroot = r, uconcurrency = n\<rparr>" objs
  for ctx h b r n
  by (intro chunk_upload.intro index_writer.key_writer_axioms)
    (simp only: upload_env.select_convs, rule retried.object_store_axioms)

text \<open>Chunk keys differ when the hashes do.\<close>

lemma hex_encode_alphabet: "set (hex_encode k) \<subseteq> set ''0123456789abcdef''"
proof (induction k)
  case (Cons c cs)
  have all: "list_all (\<lambda>n. hex_digit n \<in> set ''0123456789abcdef'') [0..<16]" by code_simp
  have d: "hex_digit n \<in> set ''0123456789abcdef''" if "n < 16" for n
    using all that unfolding list_all_iff by (metis atLeastLessThan_iff set_upt zero_le)
  have "byte_val c div 16 < 16" "byte_val c mod 16 < 16" by simp_all
  with Cons d show ?case by simp
qed simp

lemma hex_plain: "k \<noteq> [] \<Longrightarrow> plain (hex_encode k)"
proof -
  assume "k \<noteq> []"
  then have "hex_encode k \<noteq> []" by (cases k) simp_all
  moreover have "CHR ''.'' \<notin> set (hex_encode k)" "slash \<notin> set (hex_encode k)"
    using hex_encode_alphabet [of k] by auto
  ultimately show ?thesis by (auto simp: plain_def)
qed

lemma chunk_key_inj:
  assumes "rs \<noteq> []" and "list_all plain rs" and "\<And>c. is_key (h c)" and "inj_on h C"
  shows "inj_on (chunk_key h (join_slash rs)) C"
proof (rule inj_onI)
  fix c d assume cd: "c \<in> C" "d \<in> C" "chunk_key h (join_slash rs) c = chunk_key h (join_slash rs) d"
  have ne: "h e \<noteq> []" for e using assms(3) [of e] by (auto simp: is_key_def key_size_def)
  have key: "chunk_key h (join_slash rs) e = join_slash (rs @ [Key_ToString (h e)])" for e
    using Join_snoc [OF assms(1,2) hex_plain [OF ne]] by (simp add: chunk_key_def Key_ToString_def)
  have "list_all plain (rs @ [Key_ToString (h e)])" for e
    using assms(2) hex_plain [OF ne] by (simp add: Key_ToString_def)
  then have "rs @ [Key_ToString (h c)] = rs @ [Key_ToString (h d)]"
    using cd(3) join_slash_inj [of "rs @ [Key_ToString (h c)]" "rs @ [Key_ToString (h d)]"] by (simp add: key)
  then have "h c = h d" by (simp add: Key_ToString_def hex_encode_inj)
  with assms(4) cd(1,2) show "c = d" by (simp add: inj_on_eq_iff)
qed

lemma upload_chunks_complete_lemma:
  assumes "object_store (ops_upload (uops v)) (ops_download (uops v)) (ops_exists (uops v)) stored"
    and "uroot v = join_slash rs" and "rs \<noteq> []" and "list_all plain rs"
    and "\<And>c. is_key (usha v c)" and "inj_on (usha v) (set chunks)"
    and "consistent v (stored w) chunks" and "patient (uctx v) (uops v)" and "uctx v w = None"
    and "(upload_step v (WriteKey append_bytes))\<^sup>*\<^sup>* (upload_start chunks e w []) s"
    and "uresult s = Some (Inr ())"
  shows "uwriter s = index_text (map (usha v) chunks) \<and>
    (\<forall>c\<in>set chunks. stored (uworld s) (ubucket v, chunk_key (usha v) (uroot v) c) = Some c)"
proof -
  have loc: "chunk_upload (WriteKey append_bytes) (\<lambda>w ks. w = index_text ks) v stored"
    by (intro chunk_upload.intro index_writer.key_writer_axioms client_store assms(1))
  have "inj_on (chunk_key (usha v) (uroot v)) (set chunks)"
    unfolding assms(2) by (rule chunk_key_inj [OF assms(3,4,5,6)])
  from chunk_upload.upload_steps_inv [OF loc assms(10) _ this assms(7-9)] assms(11)
  have "chunk_upload.upload_done (\<lambda>w ks. w = index_text ks) v stored chunks s" by simp
  then show ?thesis
    by (simp add: chunk_upload.upload_done_def [OF loc] has_chunk_def list_all_iff)
qed

text \<open>
  When \<^verbatim>\<open>uploadChunks\<close> succeeds, in whatever order its workers ran and whatever they
  interleaved with, the key writer has taken the keys of all chunks in the order of the stream, and
  every chunk is in the store under its key: the chunks listed in the index are complete. This
  holds if no two of the chunks have the same hash, the store held, under their keys, nothing
  but these chunks, and nobody cancels the context.
\<close>
theorem upload_chunks_complete:
  assumes "object_store (ops_upload (uops v)) (ops_download (uops v)) (ops_exists (uops v)) stored"
    and "uroot v = join_slash rs" and "rs \<noteq> []" and "list_all plain rs"
    and "\<And>c. is_key (usha v c)" and "inj_on (usha v) (set chunks)"
    and "consistent v (stored w) chunks" and "patient (uctx v) (uops v)" and "uctx v w = None"
    and "(upload_step v (WriteKey append_bytes))\<^sup>*\<^sup>* (upload_start chunks e w []) s"
    and "uresult s = Some (Inr ())"
  shows "uwriter s = index_text (map (usha v) chunks) \<and>
    (\<forall>c\<in>set chunks. stored (uworld s) (ubucket v, chunk_key (usha v) (uroot v) c) = Some c)"
  using assms by (rule upload_chunks_complete_lemma)

section \<open>The pipeline ends\<close>

definition item_size :: "upload_item \<Rightarrow> nat" where
  "item_size it = (case it of UItem c Checking \<Rightarrow> 3 | UItem c Putting \<Rightarrow> 2 | _ \<Rightarrow> 1)"

definition upload_size :: "('w, 'k) upload_state \<Rightarrow> nat" where
  "upload_size s = 4 * length (utodo s) + sum_list (map item_size (uitems s)) + (if uclosed s then 0 else 2)
     + (if uresult s = None then 1 else 0)"

lemma sum_list_update_less:
  assumes "i < length xs" and "(f y :: nat) < f (xs ! i)"
  shows "sum_list (map f (xs[i := y])) < sum_list (map f xs)"
proof -
  have "xs = take i xs @ xs ! i # drop (Suc i) xs" using assms(1) by (rule id_take_nth_drop)
  then have "sum_list (map f xs) = sum_list (map f (take i xs)) + f (xs ! i) + sum_list (map f (drop (Suc i) xs))"
    by (metis (no_types, lifting) list.simps(9) map_append sum_list.Cons sum_list_append add.assoc)
  then show ?thesis using assms by (simp add: upd_conv_take_nth_drop)
qed

lemma upload_work_size:
  "p = Checking \<or> p = Putting \<Longrightarrow> upload_work v c p w = (p', w') \<Longrightarrow>
     item_size (UItem c p') < item_size (UItem c p)"
  by (auto simp: upload_work_def item_size_def split: prod.splits sum.splits bool.splits)

lemma upload_step_size: "upload_step v wk s t \<Longrightarrow> upload_size t < upload_size s"
proof (induction rule: upload_step.induct)
  case (work s i c p p' w')
  then have "sum_list (map item_size ((uitems s)[i := UItem c p'])) < sum_list (map item_size (uitems s))"
    using upload_work_size [OF work(4,5)] by (intro sum_list_update_less) simp_all
  then show ?case by (simp add: upload_size_def)
qed (simp_all add: upload_size_def item_size_def)

lemma upload_step_possible:
  assumes "uresult s = None"
  shows "\<exists>t. upload_step v wk s t"
proof (cases "uitems s")
  case Nil
  show ?thesis
  proof (cases "utodo s")
    case (Cons c cs)
    from upload_step.emit [OF assms this] Nil show ?thesis by auto
  next
    case todo: Nil
    show ?thesis
    proof (cases "uclosed s")
      case True
      from upload_step.finished [OF assms this Nil] show ?thesis by blast
    next
      case False
      then show ?thesis
        using upload_step.close [OF assms todo False] upload_step.emit_error [OF assms todo False] Nil
        by (cases "uend s") auto
    qed
  qed
next
  case (Cons it its)
  show ?thesis
  proof (cases it)
    case (UItem c p)
    show ?thesis
    proof (cases p)
      case (Announced k)
      obtain r x where "wk k (uwriter s) = (r, x)" by (rule prod.exhaust)
      then show ?thesis
        using upload_step.collect [OF assms, of c k its wk] upload_step.write_failed [OF assms, of c k its wk]
          Cons UItem Announced by (cases r) blast+
    next
      case (Broken e)
      with Cons UItem show ?thesis using upload_step.broken [OF assms, of c e its] by blast
    next
      case Checking
      obtain p' w' where "upload_work v c p (uworld s) = (p', w')" by (rule prod.exhaust)
      with Cons UItem Checking show ?thesis using upload_step.work [OF assms, of 0 c p v p' w'] by auto
    next
      case Putting
      obtain p' w' where "upload_work v c p (uworld s) = (p', w')" by (rule prod.exhaust)
      with Cons UItem Putting show ?thesis using upload_step.work [OF assms, of 0 c p v p' w'] by auto
    qed
  next
    case (UItemError e)
    with Cons show ?thesis using upload_step.iterate_failed [OF assms, of e its] by blast
  qed
qed

text \<open>
  \<^verbatim>\<open>uploadChunks\<close> always returns: no run of the pipeline has more steps than the size of its
  start (four per chunk and three more), and a run stops only with a result, never in a deadlock.
\<close>
theorem upload_chunks_return:
  assumes "(upload_step v wk ^^ n) (upload_start chunks e w x) s"
  shows "n \<le> 4 * length chunks + 3 \<and> (uresult s = None \<longrightarrow> (\<exists>t. upload_step v wk s t))"
proof -
  have "(upload_step v wk ^^ n) s0 s \<Longrightarrow> n + upload_size s \<le> upload_size s0" for s0
  proof (induction n arbitrary: s)
    case (Suc n)
    from Suc.prems obtain t where "(upload_step v wk ^^ n) s0 t" "upload_step v wk t s" by auto
    with Suc.IH upload_step_size [of v wk t s] show ?case by fastforce
  qed simp
  from this [OF assms] have "n \<le> upload_size (upload_start chunks e w x)" by simp
  then show ?thesis
    using upload_step_possible by (auto simp: upload_size_def upload_start_def)
qed

end
