(* ===== verification/Chunk_Download.thy ===== *)
theory Chunk_Download
  imports Chunk_Upload
begin

text \<open>
  \<^verbatim>\<open>downloadChunks\<close> and \<^verbatim>\<open>downloadIndex\<close> of
  \<^verbatim>\<open>nerd/service/datatransfer/v1/download_process.go\<close>, as steps in the manner of \<open>Chunk_Upload\<close>:
  the fan-out reads keys, a worker per key fetches its chunk, the fan-in writes the chunks in the
  order of the keys.
\<close>

datatype fetch = Fetching | Fetched string | FetchFailed goerr

datatype download_item = DItem Key fetch | DItemError goerr

record 'w download_env =
  dctx :: "'w ctx"
  dops :: "'w DataOps"
  dbucket :: string
  droot :: string
  dconcurrency :: nat

definition key_object :: "string \<Rightarrow> Key \<Rightarrow> string" where
  "key_object root k = Join [root, Key_ToString k]"

definition download_work :: "'w download_env \<Rightarrow> Key \<Rightarrow> 'w \<Rightarrow> fetch \<times> 'w" where
  "download_work v k w =
     (case Client_Download (dctx v) (dops v) (dbucket v) (key_object (droot v) k) w of
        (Inl err, w) \<Rightarrow> (FetchFailed (wrapped (''failed to get key '' @ quoted k) err), w)
      | (Inr (Inl err), w) \<Rightarrow> (FetchFailed (wrapped ''failed to copy chunk to byte buffer'' err), w)
      | (Inr (Inr chunk), w) \<Rightarrow> (Fetched chunk, w))"

record ('w, 'r) download_state =
  dreader :: 'r
  dclosed :: bool
  ditems :: "download_item list"
  dworld :: 'w
  dwritten :: string
  dresult :: "(goerr + unit) option"

text \<open>
  The output is the pipe into the archive reader: \<open>wr\<close> says whether a write fails, which happens
  when the reading end is closed. The fan-out that finds the context cancelled with a key in its hand, or an error,
  returns, which closes the channel of items.
\<close>

inductive download_step :: "'w download_env \<Rightarrow> ('r \<Rightarrow> (goerr + Key) \<times> 'r) \<Rightarrow> (string \<Rightarrow> string \<Rightarrow> goerr option)
    \<Rightarrow> ('w, 'r) download_state \<Rightarrow> ('w, 'r) download_state \<Rightarrow> bool" for v rk wr where
  emit: "dresult s = None \<Longrightarrow> \<not> dclosed s \<Longrightarrow> length (ditems s) \<le> dconcurrency v \<Longrightarrow> rk (dreader s) = (Inr k, r) \<Longrightarrow>
     download_step v rk wr s (s\<lparr>dreader := r, ditems := ditems s @ [DItem k Fetching]\<rparr>)"
| give_up: "dresult s = None \<Longrightarrow> \<not> dclosed s \<Longrightarrow> rk (dreader s) = (x, r) \<Longrightarrow> x \<noteq> Inl (Sentinel EOF) \<Longrightarrow>
     dctx v (dworld s) = Some e \<Longrightarrow> download_step v rk wr s (s\<lparr>dreader := r, dclosed := True\<rparr>)"
| close: "dresult s = None \<Longrightarrow> \<not> dclosed s \<Longrightarrow> rk (dreader s) = (Inl (Sentinel EOF), r) \<Longrightarrow>
     download_step v rk wr s (s\<lparr>dreader := r, dclosed := True\<rparr>)"
| emit_error: "dresult s = None \<Longrightarrow> \<not> dclosed s \<Longrightarrow> length (ditems s) \<le> dconcurrency v \<Longrightarrow>
     rk (dreader s) = (Inl e, r) \<Longrightarrow> e \<noteq> Sentinel EOF \<Longrightarrow>
     download_step v rk wr s (s\<lparr>dreader := r, dclosed := True, ditems := ditems s @ [DItemError e]\<rparr>)"
| fetch: "dresult s = None \<Longrightarrow> i < length (ditems s) \<Longrightarrow> ditems s ! i = DItem k Fetching \<Longrightarrow>
     download_work v k (dworld s) = (f, w') \<Longrightarrow>
     download_step v rk wr s (s\<lparr>ditems := (ditems s)[i := DItem k f], dworld := w'\<rparr>)"
| collect: "dresult s = None \<Longrightarrow> ditems s = DItem k (Fetched chunk) # its \<Longrightarrow> wr (dwritten s) chunk = None \<Longrightarrow>
     download_step v rk wr s (s\<lparr>ditems := its, dwritten := dwritten s @ chunk\<rparr>)"
| write_failed: "dresult s = None \<Longrightarrow> ditems s = DItem k (Fetched chunk) # its \<Longrightarrow> wr (dwritten s) chunk = Some e \<Longrightarrow>
     download_step v rk wr s (s\<lparr>ditems := its, dresult := Some (Inl (wrapped ''failed to write key'' e))\<rparr>)"
| fetch_failed: "dresult s = None \<Longrightarrow> ditems s = DItem k (FetchFailed e) # its \<Longrightarrow>
     download_step v rk wr s (s\<lparr>ditems := its, dresult := Some (Inl e)\<rparr>)"
| iterate_failed: "dresult s = None \<Longrightarrow> ditems s = DItemError e # its \<Longrightarrow>
     download_step v rk wr s (s\<lparr>ditems := its, dresult := Some (Inl (wrapped ''failed to iterate'' e))\<rparr>)"
| cancelled: "dresult s = None \<Longrightarrow> dctx v (dworld s) = Some e \<Longrightarrow>
     download_step v rk wr s (s\<lparr>dresult := Some (Inl e)\<rparr>)"
| finished: "dresult s = None \<Longrightarrow> dclosed s \<Longrightarrow> ditems s = [] \<Longrightarrow>
     download_step v rk wr s (s\<lparr>dresult := Some (Inr ())\<rparr>)"

definition download_start :: "'r \<Rightarrow> 'w \<Rightarrow> ('w, 'r) download_state" where
  "download_start r w = \<lparr>dreader = r, dclosed = False, ditems = [], dworld = w, dwritten = [], dresult = None\<rparr>"

text \<open>What is written to the pipe is the value here.\<close>

definition downloadIndex :: "'w ctx \<Rightarrow> 'w DataOps \<Rightarrow> string \<Rightarrow> string \<Rightarrow> 'w \<Rightarrow> (goerr + string) \<times> 'w" where
  "downloadIndex ctx ops bucket root =
     call (Client_Download ctx ops bucket (Join [root, IndexObjectKey])) (wrapped ''failed download index'') (\<lambda>body.
     check body (wrapped ''failed to read body'') (\<lambda>b w. (Inr b, w)))"

section \<open>What is written\<close>

definition item_of_keys :: "download_item list \<Rightarrow> Key list" where
  "item_of_keys its = concat (map (\<lambda>it. case it of DItem k f \<Rightarrow> [k] | DItemError e \<Rightarrow> []) its)"

lemma item_of_keys_simps [simp]:
  "item_of_keys [] = []" "item_of_keys (DItem k f # its) = k # item_of_keys its"
  "item_of_keys (DItemError e # its) = item_of_keys its" "item_of_keys (xs @ ys) = item_of_keys xs @ item_of_keys ys"
  by (simp_all add: item_of_keys_def)

lemma item_of_keys_update [simp]:
  assumes "i < length its" and "its ! i = DItem k f"
  shows "item_of_keys (its[i := DItem k f']) = item_of_keys its"
proof -
  have "its = take i its @ DItem k f # drop (Suc i) its" using assms id_take_nth_drop by metis
  moreover have "its[i := DItem k f'] = take i its @ DItem k f' # drop (Suc i) its"
    using assms(1) by (rule upd_conv_take_nth_drop)
  ultimately show ?thesis by (metis item_of_keys_simps(2,4))
qed

definition fetched_ok :: "'w download_env \<Rightarrow> objects \<Rightarrow> download_item \<Rightarrow> bool" where
  "fetched_ok v st it = (case it of DItem k (Fetched c) \<Rightarrow> st (dbucket v, key_object (droot v) k) = Some c | _ \<Rightarrow> True)"

text \<open>Reading stops early only with an error item, which never lets the pipeline succeed.\<close>

definition no_error :: "download_item \<Rightarrow> bool" where
  "no_error it = (case it of DItemError e \<Rightarrow> False | _ \<Rightarrow> True)"

lemma download_step_live:
  assumes "download_step v rk wr s t" and "patient (dctx v) (dops v)" and "dctx v (dworld s) = None"
  shows "dctx v (dworld t) = None"
  using assms(1)
proof cases
  case (fetch i k f w')
  with client_patient(2) [OF assms(2,3), of "dbucket v" "key_object (droot v) k"] show ?thesis
    by (auto simp: download_work_def split: prod.splits sum.splits)
qed (use assms(3) in simp_all)

lemma download_steps_live:
  assumes "(download_step v rk wr)\<^sup>*\<^sup>* s t" and "patient (dctx v) (dops v)" and "dctx v (dworld s) = None"
  shows "dctx v (dworld t) = None"
  using assms(1,3) by (induction rule: rtranclp_induct) (auto intro: download_step_live [OF _ assms(2)])

locale chunk_download =
  key_reader rk holds +
  object_store upload "Client_Download (dctx v) (dops v)" exists_key stored
  for rk :: "'r \<Rightarrow> (goerr + Key) \<times> 'r" and holds and v :: "'w download_env" and upload exists_key stored
begin

definition download_inv :: "objects \<Rightarrow> Key list \<Rightarrow> ('w, 'r) download_state \<Rightarrow> bool" where
  "download_inv st keys s \<longleftrightarrow> (\<exists>read chunks rest. stored (dworld s) = st \<and>
     map (\<lambda>k. st (dbucket v, key_object (droot v) k)) read = map Some chunks \<and> dwritten s = concat chunks \<and>
     list_all (fetched_ok v st) (ditems s) \<and> read @ item_of_keys (ditems s) @ rest = keys \<and>
     (if dclosed s then rest = [] else holds (dreader s) rest))"

lemma download_invI:
  assumes "stored (dworld s) = st" and "map (\<lambda>k. st (dbucket v, key_object (droot v) k)) rd = map Some ch"
    and "dwritten s = concat ch" and "list_all (fetched_ok v st) (ditems s)"
    and "rd @ item_of_keys (ditems s) @ rest = keys" and "if dclosed s then rest = [] else holds (dreader s) rest"
  shows "download_inv st keys s"
  using assms unfolding download_inv_def by blast

definition download_done :: "objects \<Rightarrow> Key list \<Rightarrow> ('w, 'r) download_state \<Rightarrow> bool" where
  "download_done st keys s \<longleftrightarrow> (\<exists>chunks.
     map (\<lambda>k. st (dbucket v, key_object (droot v) k)) keys = map Some chunks \<and> dwritten s = concat chunks)"

lemma download_work_ok:
  "download_work v k w = (f, w') \<Longrightarrow> stored w' = stored w \<and> fetched_ok v (stored w) (DItem k f)"
  using download_pure [of "dbucket v" "key_object (droot v) k" w]
    download_ok [of "dbucket v" "key_object (droot v) k" w]
  by (auto simp: download_work_def fetched_ok_def split: prod.splits sum.splits)

lemma download_step_inv:
  assumes "download_step v rk wr s t" and inv: "download_inv st keys s" and live: "dctx v (dworld s) = None"
  shows "(dresult t = None \<longrightarrow> download_inv st keys t) \<and> (dresult t = Some (Inr ()) \<longrightarrow> download_done st keys t)"
proof -
  from inv obtain rd ch rest where d: "stored (dworld s) = st"
    "map (\<lambda>k. st (dbucket v, key_object (droot v) k)) rd = map Some ch" "dwritten s = concat ch"
    "list_all (fetched_ok v st) (ditems s)" "rd @ item_of_keys (ditems s) @ rest = keys"
    "if dclosed s then rest = [] else holds (dreader s) rest"
    unfolding download_inv_def by blast
  from assms(1) show ?thesis
  proof cases
    case (emit k r)
    with d(6) have h: "holds (dreader s) rest" by simp
    obtain rest' where "rest = k # rest'" "holds r rest'"
      using h emit(5) read_end [of "dreader s"] read_next [of "dreader s"] by (cases rest) fastforce+
    with d emit have "download_inv st keys t"
      by (intro download_invI [where rd = rd and ch = ch and rest = rest']) (auto simp: fetched_ok_def)
    with emit show ?thesis by simp
  next
    case (close r)
    with d(6) have h: "holds (dreader s) rest" by simp
    have "rest = []"
      using h close(4) read_next [of "dreader s"] by (cases rest) fastforce+
    with d close have "download_inv st keys t"
      by (intro download_invI [where rd = rd and ch = ch and rest = rest]) auto
    with close show ?thesis by simp
  next
    case (emit_error e r)
    with d(6) have h: "holds (dreader s) rest" by simp
    have False
      using h emit_error(5,6) read_next [of "dreader s"] read_end [of "dreader s"] by (cases rest) fastforce+
    then show ?thesis ..
  next
    case (fetch i k f w')
    from download_work_ok [OF fetch(5)] d(1) have w: "stored w' = st" "fetched_ok v st (DItem k f)" by auto
    have "list_all (fetched_ok v st) ((ditems s)[i := DItem k f])"
      using d(4) w(2) set_update_subset_insert [of "ditems s" i "DItem k f"] by (auto simp: list_all_iff)
    then have "download_inv st keys t"
      using fetch d w item_of_keys_update [OF fetch(3,4)]
      by (intro download_invI [where rd = rd and ch = ch and rest = rest]) auto
    with fetch show ?thesis by simp
  next
    case (collect k chunk its)
    with d have "download_inv st keys t"
      by (intro download_invI [where rd = "rd @ [k]" and ch = "ch @ [chunk]" and rest = rest]) (auto simp: fetched_ok_def)
    with collect show ?thesis by simp
  next
    case finished
    with d show ?thesis by (auto simp: download_done_def)
  qed (use live in auto)
qed

lemma download_steps_inv:
  assumes "(download_step v rk wr)\<^sup>*\<^sup>* (download_start r w) s" and "holds r keys"
    and "patient (dctx v) (dops v)" and "dctx v w = None"
  shows "(dresult s = None \<longrightarrow> download_inv (stored w) keys s) \<and> (dresult s = Some (Inr ()) \<longrightarrow> download_done (stored w) keys s)"
  using assms(1)
proof (induction rule: rtranclp_induct)
  case base
  have "download_inv (stored w) keys (download_start r w)"
    by (rule download_invI [where rd = "[]" and ch = "[]" and rest = keys]) (use assms(2) in \<open>simp_all add: download_start_def\<close>)
  then show ?case by (simp add: download_start_def)
next
  case (step s t)
  have "dresult s = None" using step.hyps(2) by cases
  with step.IH have "download_inv (stored w) keys s" by simp
  moreover have "dctx v (dworld s) = None"
    using download_steps_live [OF step.hyps(1) assms(3)] assms(4) by (simp add: download_start_def)
  ultimately show ?case by (rule download_step_inv [OF step.hyps(2)])
qed

end

section \<open>The pipeline on S3 and the index\<close>

interpretation s3_download: chunk_download ReadKey index_holds
    "\<lparr>dctx = ctx, dops = DataClient s3_table, dbucket = b, droot = r, dconcurrency = n\<rparr>"
    "Client_Upload ctx (DataClient s3_table)" "Client_Exists (DataClient s3_table)" objs for ctx b r n
  by (intro chunk_download.intro index_reader.key_reader_axioms)
    (simp only: download_env.select_convs, rule retried.object_store_axioms)

lemma download_chunks_lemma:
  assumes "object_store (ops_upload (dops v)) (ops_download (dops v)) (ops_exists (dops v)) stored"
    and "list_all is_key keys" and "patient (dctx v) (dops v)" and "dctx v w = None"
    and "(download_step v ReadKey wr)\<^sup>*\<^sup>* (download_start (index_text keys) w) t"
    and "dresult t = Some (Inr ())"
  shows "\<exists>chunks. map (\<lambda>k. stored w (dbucket v, key_object (droot v) k)) keys = map Some chunks
           \<and> dwritten t = concat chunks"
proof -
  have loc: "chunk_download ReadKey index_holds v (Client_Upload (dctx v) (dops v)) (Client_Exists (dops v)) stored"
    by (intro chunk_download.intro index_reader.key_reader_axioms client_store assms(1))
  have "index_holds (index_text keys) keys" using assms(2) by (simp add: index_holds_def)
  from chunk_download.download_steps_inv [OF loc assms(5) this assms(3,4)] assms(6)
  show ?thesis by (simp add: chunk_download.download_done_def [OF loc])
qed

text \<open>
  When \<^verbatim>\<open>downloadChunks\<close> succeeds, in whatever order its workers ran, it has written the
  objects of all the keys of the index, each of them present in the store, one after the other in
  the order of the index, unless somebody cancels the context.
\<close>
theorem download_chunks_in_order:
  assumes "object_store (ops_upload (dops v)) (ops_download (dops v)) (ops_exists (dops v)) stored"
    and "list_all is_key keys" and "patient (dctx v) (dops v)" and "dctx v w = None"
    and "(download_step v ReadKey wr)\<^sup>*\<^sup>* (download_start (index_text keys) w) t"
    and "dresult t = Some (Inr ())"
  shows "\<exists>chunks. map (\<lambda>k. stored w (dbucket v, key_object (droot v) k)) keys = map Some chunks
           \<and> dwritten t = concat chunks"
  using assms by (rule download_chunks_lemma)

lemma named_object_apart:
  assumes "rs \<noteq> []" "list_all plain rs" "ds \<noteq> []" "list_all plain ds" "is_key k"
    and "plain name" and "\<not> set name \<subseteq> set ''0123456789abcdef''"
  shows "Join [join_slash ds, name] \<noteq> key_object (join_slash rs) k"
proof -
  have "k \<noteq> []" using assms(5) by (auto simp: is_key_def key_size_def)
  then have pk: "plain (hex_encode k)" by (rule hex_plain)
  have "name \<noteq> hex_encode k" using hex_encode_alphabet [of k] assms(7) by metis
  moreover have "list_all plain (ds @ [name])" "list_all plain (rs @ [hex_encode k])"
    using assms pk by simp_all
  ultimately have "join_slash (ds @ [name]) \<noteq> join_slash (rs @ [hex_encode k])"
    using join_slash_inj [of "ds @ [name]" "rs @ [hex_encode k]"] by auto
  then show ?thesis
    using Join_snoc [OF assms(3,4,6)] Join_snoc [OF assms(1,2) pk] by (simp add: key_object_def Key_ToString_def)
qed

lemma named_objects:
  "plain IndexObjectKey" "plain MetadataObjectKey" "IndexObjectKey \<noteq> MetadataObjectKey"
  "\<not> set IndexObjectKey \<subseteq> set ''0123456789abcdef''" "\<not> set MetadataObjectKey \<subseteq> set ''0123456789abcdef''"
  by (simp_all add: IndexObjectKey_def MetadataObjectKey_def plain_def)

lemmas index_key_apart = named_object_apart [OF _ _ _ _ _ named_objects(1,4)]
lemmas metadata_key_apart = named_object_apart [OF _ _ _ _ _ named_objects(2,5)]

text \<open>
  Transfers are lossless: if the chunks of a stream were uploaded and the index stored, and
  nobody changed those objects in between, then a download that succeeds writes the whole stream,
  byte for byte, whatever the interleavings, the retries and the number of workers on both sides.
\<close>
theorem upload_download_roundtrip:
  assumes "object_store (ops_upload ops) (ops_download ops) (ops_exists ops) stored"
    and "uops v = ops" and "uroot v = join_slash rs" and "rs \<noteq> []" and "list_all plain rs"
    and "\<And>c. is_key (usha v c)" and "inj_on (usha v) (set chunks)" and "consistent v (stored w) chunks"
    and "patient (uctx v) ops" and "uctx v w = None" and "patient (dctx d) ops" and "dctx d w4 = None"
    and "(upload_step v (WriteKey append_bytes))\<^sup>*\<^sup>* (upload_start chunks e w []) s" and "uresult s = Some (Inr ())"
    and "ds \<noteq> []" and "list_all plain ds"
    and "uploadIndex ctx ops (Inr (uwriter s)) (ubucket v) (join_slash ds) (uworld s) = (Inr u, w2)"
    and "stored w3 = stored w2"
    and "dops d = ops" and "dbucket d = ubucket v" and "droot d = join_slash rs"
    and "downloadIndex (dctx d) ops (ubucket v) (join_slash ds) w3 = (Inr index, w4)"
    and "(download_step d ReadKey wr)\<^sup>*\<^sup>* (download_start index w4) t" and "dresult t = Some (Inr ())"
  shows "dwritten t = concat chunks"
proof -
  let ?ik = "Join [join_slash ds, IndexObjectKey]" and ?ks = "map (usha v) chunks"
  have up: "uwriter s = index_text ?ks"
    "\<forall>c\<in>set chunks. stored (uworld s) (ubucket v, chunk_key (usha v) (uroot v) c) = Some c"
    using upload_chunks_complete_lemma [where stored = stored and w = w, OF _ assms(3-8) _ assms(10,13,14)] assms(1,2,9) by simp_all
  have st2: "stored w2 = (stored (uworld s))((ubucket v, ?ik) := Some (uwriter s))"
    using assms(17) object_store.upload_ok [OF client_store [OF assms(1), of ctx]] by (simp add: uploadIndex_def)
  from assms(22) obtain w5 where dl: "Client_Download (dctx d) ops (ubucket v) ?ik w3 = (Inr (Inr index), w5)" "w4 = w5"
    by (auto simp: downloadIndex_def call_Inr_iff check_Inr_iff)
  note store = client_store [OF assms(1), of "dctx d"]
  have idx: "index = uwriter s"
    using object_store.download_ok [OF store dl(1)] assms(18) st2 by simp
  have st4: "stored w4 = stored w2"
    using object_store.download_pure [OF store, of "ubucket v" ?ik w3] dl assms(18) by simp
  have keys: "list_all is_key ?ks" using assms(6) by (simp add: list_all_iff)
  have run: "(download_step d ReadKey wr)\<^sup>*\<^sup>* (download_start (index_text ?ks) w4) t"
    using assms(23) idx up(1) by simp
  obtain cs where cs: "map (\<lambda>k. stored w4 (dbucket d, key_object (droot d) k)) ?ks = map Some cs" "dwritten t = concat cs"
    using download_chunks_lemma [where stored = stored, OF _ keys _ assms(12) run assms(24)] assms(1,11,19) by auto
  have "stored w4 (dbucket d, key_object (droot d) (usha v c)) = Some c" if "c \<in> set chunks" for c
    using up(2) that index_key_apart [OF assms(4,5,15,16) assms(6), of c] assms(3,20,21)
    by (simp add: st4 st2 chunk_key_def key_object_def)
  then have "map (\<lambda>k. stored w4 (dbucket d, key_object (droot d) k)) ?ks = map Some chunks" by simp
  with cs(1) have "map Some cs = map Some chunks" by simp
  then have "cs = chunks" using map_injective [of Some cs chunks] by (simp add: inj_def)
  with cs(2) show ?thesis by simp
qed

section \<open>A transfer of one chunk\<close>

definition pad_key :: "string \<Rightarrow> Key" where
  "pad_key c = take 32 (c @ replicate 32 CHR 0x00)"

lemma pad_key_is_key: "is_key (pad_key c)"
  by (simp add: is_key_def key_size_def pad_key_def)

definition demo_up :: "s3_world upload_env" where
  "demo_up = \<lparr>uctx = (\<lambda>_. None), uops = DataClient s3_table, usha = pad_key, ubucket = ''b'', uroot = ''p'', uconcurrency = 1\<rparr>"

definition demo_down :: "s3_world download_env" where
  "demo_down = \<lparr>dctx = (\<lambda>_. None), dops = DataClient s3_table, dbucket = ''b'', droot = ''p'', dconcurrency = 1\<rparr>"

definition empty_s3 :: s3_world where
  "empty_s3 = \<lparr>objs = (\<lambda>_. None), outages = []\<rparr>"

definition full_s3 :: s3_world where
  "full_s3 = \<lparr>objs = (\<lambda>_. None)((''b'', chunk_key pad_key ''p'' ''hello'') := Some ''hello''), outages = []\<rparr>"

lemma demo_check: "upload_work demo_up ''hello'' Checking empty_s3 = (Putting, empty_s3)"
  by (simp add: upload_work_def demo_up_def Client_Exists_def DataClient_def S3_Exists_def s3_table_def s3_head_def
      s3_call_def empty_s3_def not_found_def s3_code_def)

lemma demo_put: "upload_work demo_up ''hello'' Putting empty_s3 = (Announced (pad_key ''hello''), full_s3)"
  by (simp add: upload_work_def demo_up_def Client_Upload_def NoOfRetries_def numeral_2_eq_2 DataClient_def
      S3_Upload_def s3_table_def s3_put_def s3_call_def empty_s3_def full_s3_def)

lemma demo_upload_run:
  "\<exists>s. (upload_step demo_up (WriteKey append_bytes))\<^sup>*\<^sup>* (upload_start [''hello''] None empty_s3 []) s
     \<and> uresult s = Some (Inr ()) \<and> uworld s = full_s3"
proof -
  let ?step = "upload_step demo_up (WriteKey append_bytes)"
  let ?s0 = "upload_start [''hello''] None empty_s3 [] :: (s3_world, string) upload_state"
  let ?s1 = "?s0\<lparr>utodo := [], uitems := [UItem ''hello'' Checking]\<rparr>"
  let ?s2 = "?s1\<lparr>uitems := [UItem ''hello'' Putting]\<rparr>"
  let ?s3 = "?s2\<lparr>uitems := [UItem ''hello'' (Announced (pad_key ''hello''))], uworld := full_s3\<rparr>"
  let ?s4 = "?s3\<lparr>uitems := [], uwriter := Key_ToString (pad_key ''hello'') @ [newline]\<rparr>"
  let ?s5 = "?s4\<lparr>uclosed := True\<rparr>"
  let ?s6 = "?s5\<lparr>uresult := Some (Inr ())\<rparr>"
  have "?step ?s0 ?s1" using upload_step.emit [of ?s0 "''hello''" "[]"] by (simp add: upload_start_def)
  moreover have "?step ?s1 ?s2"
    using upload_step.work [of ?s1 0 "''hello''" Checking demo_up Putting empty_s3] demo_check by (simp add: upload_start_def)
  moreover have "?step ?s2 ?s3"
    using upload_step.work [of ?s2 0 "''hello''" Putting demo_up _ full_s3] demo_put by (simp add: upload_start_def)
  moreover have "?step ?s3 ?s4"
    using upload_step.collect [of ?s3 "''hello''" "pad_key ''hello''" "[]" "WriteKey append_bytes" "()"]
    by (simp add: upload_start_def WriteKey_def append_bytes_def)
  moreover have "?step ?s4 ?s5" using upload_step.close [of ?s4] by (simp add: upload_start_def)
  moreover have "?step ?s5 ?s6" using upload_step.finished [of ?s5] by (simp add: upload_start_def)
  ultimately have "?step\<^sup>*\<^sup>* ?s0 ?s6" by (meson converse_rtranclp_into_rtranclp rtranclp.rtrancl_refl)
  then show ?thesis by (intro exI [of _ ?s6]) simp
qed

definition indexed_s3 :: s3_world where
  "indexed_s3 = full_s3\<lparr>objs := (objs full_s3)((''b'', Join [''d'', IndexObjectKey]) := Some (index_text [pad_key ''hello'']))\<rparr>"

lemma demo_indexed:
  "uploadIndex (\<lambda>_. None) (DataClient s3_table) (Inr (index_text [pad_key ''hello''])) ''b'' ''d'' full_s3 = (Inr (), indexed_s3)"
  "downloadIndex (\<lambda>_. None) (DataClient s3_table) ''b'' ''d'' indexed_s3 = (Inr (index_text [pad_key ''hello'']), indexed_s3)"
  by (simp_all add: uploadIndex_def downloadIndex_def Client_Upload_def Client_Download_def NoOfRetries_def numeral_2_eq_2
      DataClient_def S3_Upload_def S3_Download_def s3_table_def s3_put_def s3_get_def s3_call_def full_s3_def indexed_s3_def)

lemma demo_plain: "list_all plain [''p'']" "list_all plain [''d'']"
  by (simp_all add: plain_def)

lemma demo_fetch:
  assumes "outages w = []" and "objs w (''b'', key_object ''p'' (pad_key ''hello'')) = Some ''hello''"
  shows "download_work demo_down (pad_key ''hello'') w = (Fetched ''hello'', w)"
  using assms by (simp add: download_work_def demo_down_def Client_Download_def NoOfRetries_def numeral_2_eq_2 DataClient_def
      S3_Download_def s3_table_def s3_get_def s3_call_def)

lemma demo_download_from:
  assumes "outages w = []" and "objs w (''b'', key_object ''p'' (pad_key ''hello'')) = Some ''hello''"
  shows "\<exists>t. (download_step demo_down ReadKey (\<lambda>_ _. None))\<^sup>*\<^sup>* (download_start (index_text [pad_key ''hello'']) w) t
     \<and> dresult t = Some (Inr ()) \<and> dwritten t = ''hello''"
proof -
  let ?step = "download_step demo_down ReadKey (\<lambda>_ _. None)"
  let ?s0 = "download_start (index_text [pad_key ''hello'']) w :: (s3_world, string) download_state"
  let ?s1 = "?s0\<lparr>dreader := [], ditems := [DItem (pad_key ''hello'') Fetching]\<rparr>"
  let ?s2 = "?s1\<lparr>ditems := [DItem (pad_key ''hello'') (Fetched ''hello'')]\<rparr>"
  let ?s3 = "?s2\<lparr>ditems := [], dwritten := ''hello''\<rparr>"
  let ?s4 = "?s3\<lparr>dclosed := True\<rparr>"
  let ?s5 = "?s4\<lparr>dresult := Some (Inr ())\<rparr>"
  have "?step ?s0 ?s1"
    using download_step.emit [of ?s0 demo_down ReadKey "pad_key ''hello''" "[]"] ReadKey_line [OF pad_key_is_key, of "''hello''" "[]"]
    by (simp add: download_start_def)
  moreover have "?step ?s1 ?s2"
    using download_step.fetch [of ?s1 0 "pad_key ''hello''" demo_down _ w] demo_fetch [OF assms] by (simp add: download_start_def)
  moreover have "?step ?s2 ?s3"
    using download_step.collect [of ?s2 "pad_key ''hello''" "''hello''" "[]"] by (simp add: download_start_def)
  moreover have "?step ?s3 ?s4"
    using download_step.close [of ?s3 ReadKey "[]"] by (simp add: download_start_def ReadKey_def Scan_def)
  moreover have "?step ?s4 ?s5" using download_step.finished [of ?s4] by (simp add: download_start_def)
  ultimately have "?step\<^sup>*\<^sup>* ?s0 ?s5" by (meson converse_rtranclp_into_rtranclp rtranclp.rtrancl_refl)
  then show ?thesis by (intro exI [of _ ?s5]) simp
qed

lemma indexed_object:
  "objs indexed_s3 (''b'', key_object ''p'' (pad_key ''hello'')) = Some ''hello''" "outages indexed_s3 = []"
proof -
  have "Join [''d'', IndexObjectKey] \<noteq> key_object ''p'' (pad_key ''hello'')"
    using index_key_apart [OF _ demo_plain(1) _ demo_plain(2) pad_key_is_key, of "''hello''"] by simp
  then show "objs indexed_s3 (''b'', key_object ''p'' (pad_key ''hello'')) = Some ''hello''" "outages indexed_s3 = []"
    by (simp_all add: indexed_s3_def full_s3_def key_object_def chunk_key_def)
qed

lemmas demo_download_run = demo_download_from [OF indexed_object(2,1)]

lemma demo_values [simp]:
  "uops demo_up = DataClient s3_table" "uroot demo_up = ''p''" "usha demo_up = pad_key" "ubucket demo_up = ''b''"
  "dops demo_down = DataClient s3_table" "droot demo_down = ''p''" "dbucket demo_down = ''b''" "dctx demo_down = (\<lambda>_. None)" "uctx demo_up = (\<lambda>_. None)"
  by (simp_all add: demo_up_def demo_down_def)

lemma demo_consistent: "consistent demo_up (objs empty_s3) [''hello'']"
  by (simp add: consistent_def empty_s3_def)

theorem upload_chunks_complete_witness:
  "\<exists>s. (upload_step demo_up (WriteKey append_bytes))\<^sup>*\<^sup>* (upload_start [''hello''] None empty_s3 []) s
     \<and> uwriter s = index_text [pad_key ''hello'']
     \<and> objs (uworld s) (''b'', chunk_key pad_key ''p'' ''hello'') = Some ''hello''"
proof -
  obtain s where s: "(upload_step demo_up (WriteKey append_bytes))\<^sup>*\<^sup>* (upload_start [''hello''] None empty_s3 []) s"
    "uresult s = Some (Inr ())" using demo_upload_run by auto
  have "uwriter s = index_text (map (usha demo_up) [''hello'']) \<and>
    (\<forall>c\<in>set [''hello'']. objs (uworld s) (ubucket demo_up, chunk_key (usha demo_up) (uroot demo_up) c) = Some c)"
    by (rule upload_chunks_complete [where stored = objs and rs = "[''p'']", OF _ _ _ demo_plain(1) _ _ demo_consistent _ _ s])
      (simp_all add: s3_ops pad_key_is_key)
  with s(1) show ?thesis by (intro exI [of _ s]) simp
qed

theorem upload_chunks_return_witness:
  "\<exists>n s. (upload_step demo_up (WriteKey append_bytes) ^^ n) (upload_start [''hello''] None empty_s3 []) s
     \<and> uresult s = Some (Inr ()) \<and> n \<le> 7"
proof -
  obtain s n where s: "(upload_step demo_up (WriteKey append_bytes) ^^ n) (upload_start [''hello''] None empty_s3 []) s"
    "uresult s = Some (Inr ())" using demo_upload_run by (auto dest: rtranclp_imp_relpowp)
  with upload_chunks_return [OF s(1)] show ?thesis by (intro exI [of _ n] exI [of _ s]) simp
qed

theorem download_chunks_in_order_witness:
  "\<exists>t. (download_step demo_down ReadKey (\<lambda>_ _. None))\<^sup>*\<^sup>* (download_start (index_text [pad_key ''hello'']) indexed_s3) t
     \<and> dwritten t = ''hello''"
proof -
  obtain t where t: "(download_step demo_down ReadKey (\<lambda>_ _. None))\<^sup>*\<^sup>* (download_start (index_text [pad_key ''hello'']) indexed_s3) t"
    "dresult t = Some (Inr ())" using demo_download_run by auto
  have "\<exists>chunks. map (\<lambda>k. objs indexed_s3 (dbucket demo_down, key_object (droot demo_down) k)) [pad_key ''hello''] = map Some chunks
      \<and> dwritten t = concat chunks"
    by (rule download_chunks_in_order [where stored = objs, OF _ _ _ _ t]) (simp_all add: s3_ops pad_key_is_key)
  then have "dwritten t = ''hello''" by (auto simp: indexed_object)
  with t(1) show ?thesis by blast
qed

theorem upload_download_roundtrip_witness:
  "\<exists>s t. (upload_step demo_up (WriteKey append_bytes))\<^sup>*\<^sup>* (upload_start [''hello''] None empty_s3 []) s
     \<and> uploadIndex (\<lambda>_. None) (DataClient s3_table) (Inr (uwriter s)) ''b'' ''d'' (uworld s) = (Inr (), indexed_s3)
     \<and> (download_step demo_down ReadKey (\<lambda>_ _. None))\<^sup>*\<^sup>* (download_start (index_text [pad_key ''hello'']) indexed_s3) t
     \<and> dwritten t = concat [''hello'']"
proof -
  obtain s where s: "(upload_step demo_up (WriteKey append_bytes))\<^sup>*\<^sup>* (upload_start [''hello''] None empty_s3 []) s"
    "uresult s = Some (Inr ())" "uworld s = full_s3" using demo_upload_run by auto
  have ix: "uwriter s = index_text [pad_key ''hello'']"
    using upload_chunks_complete_lemma [where stored = objs and rs = "[''p'']", OF _ _ _ demo_plain(1) _ _ demo_consistent _ _ s(1,2)]
    by (simp add: s3_ops pad_key_is_key)
  obtain t where t: "(download_step demo_down ReadKey (\<lambda>_ _. None))\<^sup>*\<^sup>* (download_start (index_text [pad_key ''hello'']) indexed_s3) t"
    "dresult t = Some (Inr ())" using demo_download_run by auto
  have "dwritten t = concat [''hello'']"
    by (rule upload_download_roundtrip [where stored = objs and v = demo_up and d = demo_down and rs = "[''p'']" and ds = "[''d'']"
          and ops = "DataClient s3_table" and ctx = "\<lambda>_. None" and w = empty_s3 and ?w2.0 = indexed_s3 and ?w3.0 = indexed_s3
          and ?w4.0 = indexed_s3 and e = None and u = "()" and s = s and t = t and index = "index_text [pad_key ''hello'']" and wr = "\<lambda>_ _. None"])
      (use s t in \<open>simp_all add: s3_ops pad_key_is_key demo_plain [simplified] demo_consistent demo_indexed [simplified] ix\<close>)
  with s t show ?thesis by (intro exI [of _ s] exI [of _ t]) (simp add: ix demo_indexed [simplified])
qed

end
