(* ===== verification/Safe_Files.thy ===== *)
theory Safe_Files
  imports Go_Errors Go_Path
begin

text \<open>
  The local disk a dataset is unpacked to, and \<^verbatim>\<open>safeFilePath\<close> of
  \<^verbatim>\<open>nerd/service/datatransfer/v1/tar.go\<close>, which makes a new file beside the ones that are there:
  the search for the first free version of a name, that it ends, and that it never touches a
  file. A disk maps cleaned paths to nodes; permissions, links and the umask are left out, the free
  space and the free file handles are not.
\<close>

section \<open>The disk\<close>

datatype node = DirNode | FileNode int string int \<comment> \<open>mode, content, modification time\<close>

record disk =
  nodes :: "string \<Rightarrow> node option"
  space :: nat
  handles :: nat
  now :: int

text \<open>The root, the working directory and its ancestors are always there.\<close>

definition dots :: "string \<Rightarrow> bool" where
  "dots p \<longleftrightarrow> p = ''/'' \<or> list_all (\<lambda>c. c = ''.'' \<or> c = ''..'') (split_on slash p)"

definition node_at :: "disk \<Rightarrow> string \<Rightarrow> node option" where
  "node_at d p = (if dots p then Some DirNode else nodes d p)"

definition put_node :: "string \<Rightarrow> node \<Rightarrow> disk \<Rightarrow> disk" where
  "put_node p n d = d\<lparr>nodes := (nodes d)(p \<mapsto> n)\<rparr>"

definition new_file :: "string \<Rightarrow> int \<Rightarrow> disk \<Rightarrow> disk" where
  "new_file p perm d = put_node p (FileNode perm [] (now d)) (d\<lparr>handles := handles d - 1\<rparr>)"

definition os_text :: "errno \<Rightarrow> string" where
  "os_text e = (case e of EEXIST \<Rightarrow> ''file exists'' | ENOENT \<Rightarrow> ''no such file or directory''
     | EACCES \<Rightarrow> ''permission denied'' | ENOTDIR \<Rightarrow> ''not a directory'' | EISDIR \<Rightarrow> ''is a directory''
     | EINVAL \<Rightarrow> ''invalid argument'' | ENOSPC \<Rightarrow> ''no space left on device''
     | EMFILE \<Rightarrow> ''too many open files'')"

text \<open>\<^verbatim>\<open>os.PathError\<close>.\<close>

definition PathError :: "string \<Rightarrow> string \<Rightarrow> errno \<Rightarrow> goerr" where
  "PathError what p e = OSError e (what @ '' '' @ p @ '': '' @ os_text e)"

text \<open>\<^verbatim>\<open>os.OpenFile\<close> with \<^verbatim>\<open>O_CREATE\<close>, \<^verbatim>\<open>O_EXCL\<close> and \<^verbatim>\<open>O_WRONLY\<close>; the new file takes a handle.\<close>

definition create_exclusive :: "string \<Rightarrow> int \<Rightarrow> disk \<Rightarrow> (goerr + unit) \<times> disk" where
  "create_exclusive p perm d =
     (if handles d = 0 then (Inl (PathError ''open'' p EMFILE), d)
      else if node_at d p \<noteq> None then (Inl (PathError ''open'' p EEXIST), d)
      else case node_at d (Dir p) of
        Some DirNode \<Rightarrow> (Inr (), new_file p perm d)
      | Some _ \<Rightarrow> (Inl (PathError ''open'' p ENOTDIR), d)
      | None \<Rightarrow> (Inl (PathError ''open'' p ENOENT), d))"

definition IsExist :: "goerr \<Rightarrow> bool" where
  "IsExist e = (case e of OSError EEXIST _ \<Rightarrow> True | _ \<Rightarrow> False)"

section \<open>The next name\<close>

text \<open>\<^verbatim>\<open>_\(\d+\)$\<close>: the version at the end of a name.\<close>

definition version_suffix :: "string \<Rightarrow> string option" where
  "version_suffix s = (case rev s of
       c # t \<Rightarrow>
         let ds = takeWhile is_digit t; rest = dropWhile is_digit t in
         if c = CHR '')'' \<and> ds \<noteq> [] \<and> has_prefix rest ''(_'' then Some (''_('' @ rev ds @ '')'') else None
     | [] \<Rightarrow> None)"

text \<open>An error of \<^verbatim>\<open>Atoi\<close> is dropped, and its value, the largest \<^verbatim>\<open>int\<close>, is used.\<close>

definition next_path :: "string \<Rightarrow> string" where
  "next_path p =
     (let filename = Base p; ext = Ext filename; clean = trim_suffix filename ext;
          (clean, version) = (case version_suffix clean of
             None \<Rightarrow> (clean, 1)
           | Some versionMatch \<Rightarrow>
               let oldVersion = fst (Atoi (trim_chars versionMatch (set ''_()''))) in
               (trim_suffix clean (''_('' @ int_text oldVersion @ '')''), wrap64 (oldVersion + 1)));
          newFilename = clean @ ''_('' @ int_text version @ '')'' @ ext
      in Join [Dir p, newFilename])"

text \<open>The recursion may go through as many names as there are files: fuel, and the name made.\<close>

fun safeFilePath :: "nat \<Rightarrow> string \<Rightarrow> int \<Rightarrow> disk \<Rightarrow> ((goerr + string) \<times> disk) option" where
  "safeFilePath 0 p perm d = None"
| "safeFilePath (Suc n) p perm d =
     (case create_exclusive p perm d of
        (Inr _, d) \<Rightarrow> Some (Inr p, d)
      | (Inl err, d) \<Rightarrow>
          if \<not> IsExist err then Some (Inl err, d) else safeFilePath n (next_path p) perm d)"

section \<open>Versions of a name\<close>

definition version_of :: "string \<Rightarrow> string \<Rightarrow> string \<Rightarrow> nat \<Rightarrow> string" where
  "version_of dir stem ext k =
     dir @ ''/'' @ stem @ (if k = 0 then [] else ''_('' @ nat_text k @ '')'') @ ext"

definition clean_dir :: "string \<Rightarrow> bool" where
  "clean_dir dir \<longleftrightarrow> Clean dir = dir \<and> dir \<noteq> ''.'' \<and> dir \<noteq> ''/''"

text \<open>A stem without a version of its own, and an extension from the only dot on, if any.\<close>

definition stem_ext :: "string \<Rightarrow> string \<Rightarrow> bool" where
  "stem_ext stem ext \<longleftrightarrow> plain (stem @ ext) \<and> version_suffix stem = None \<and>
     (if ext = [] then CHR ''.'' \<notin> set stem else hd ext = CHR ''.'' \<and> CHR ''.'' \<notin> set (tl ext))"

lemma split_append_slash: "split_on slash (a @ slash # b) = split_on slash a @ split_on slash b"
proof (induction a)
  case (Cons c cs)
  then show ?case by (cases "split_on slash cs") auto
qed simp

lemma clean_elems_snoc: "plain x \<Longrightarrow> clean_elems r out (cs @ [x]) = clean_elems r out cs @ [x]"
  by (induction r out cs rule: clean_elems.induct) (auto simp: plain_def split: list.splits)

lemma clean_elems_snoc_empty: "clean_elems r out (cs @ [[]]) = clean_elems r out cs"
  by (induction r out cs rule: clean_elems.induct) (auto split: list.splits)

lemma Clean_slash_name:
  assumes "clean_dir dir" and "plain x"
  shows "Clean (dir @ ''/'' @ x) = dir @ ''/'' @ x" and "Clean (dir @ ''/'') = dir"
proof -
  have ne: "dir \<noteq> []" using assms(1) by (auto simp: clean_dir_def Clean_def)
  let ?r = "hd dir = slash" and ?cs = "clean_elems (hd dir = slash) [] (split_on slash dir)"
  have c: "Clean dir = (if ?r then slash # join_slash ?cs else if ?cs = [] then ''.'' else join_slash ?cs)"
    using ne by (simp add: Clean_def Let_def)
  have cs: "?cs \<noteq> []" using c assms(1) by (auto simp: clean_dir_def split: if_splits)
  have dir: "dir = (if ?r then [slash] else []) @ join_slash ?cs" using c cs assms(1) by (auto simp: clean_dir_def)
  have hd: "hd (dir @ ''/'' @ x) = hd dir" "hd (dir @ ''/'') = hd dir" using ne by simp_all
  have "split_on slash (dir @ ''/'' @ x) = split_on slash dir @ [x]"
    using split_append_slash [of dir x] assms(2) by (simp add: plain_def)
  then have "Clean (dir @ ''/'' @ x) = (if ?r then [slash] else []) @ join_slash (?cs @ [x])"
    using hd clean_elems_snoc [OF assms(2)] by (simp add: Clean_def Let_def)
  also have "\<dots> = dir @ ''/'' @ x" using dir join_slash_append [OF cs, of "[x]"] by simp
  finally show "Clean (dir @ ''/'' @ x) = dir @ ''/'' @ x" .
  have "split_on slash (dir @ ''/'') = split_on slash dir @ [[]]"
    using split_append_slash [of dir "[]"] by simp
  then have "Clean (dir @ ''/'') = (if ?r then [slash] else []) @ join_slash ?cs"
    using hd(2) cs by (cases "hd dir = slash") (simp_all add: Clean_def Let_def clean_elems_snoc_empty)
  with dir show "Clean (dir @ ''/'') = dir" by simp
qed

lemma Dir_slash_name: "clean_dir dir \<Longrightarrow> plain x \<Longrightarrow> Dir (dir @ ''/'' @ x) = dir"
proof -
  assume a: "clean_dir dir" "plain x"
  have "dropWhile (\<lambda>c. c \<noteq> slash) (rev x @ slash # rev dir) = slash # rev dir"
    using a(2) by (subst dropWhile_append2) (auto simp: plain_def)
  then show ?thesis using Clean_slash_name(2) [OF a] by (simp add: Dir_def)
qed

lemma Base_slash_name: "plain x \<Longrightarrow> Base (dir @ ''/'' @ x) = x"
proof -
  assume a: "plain x"
  then have "x \<noteq> []" "last x \<noteq> slash" "slash \<notin> set x" using last_in_set by (fastforce simp: plain_def)+
  then have "strip_trailing (dir @ ''/'' @ x) = dir @ ''/'' @ x"
    by (cases x rule: rev_cases) (auto simp: strip_trailing_def)
  with \<open>slash \<notin> set x\<close> \<open>x \<noteq> []\<close> show ?thesis
    using split_append_slash [of dir x] by (simp add: Base_def)
qed

lemma Ext_stem:
  assumes "stem_ext stem ext" and "CHR ''.'' \<notin> set v" and "slash \<notin> set v"
  shows "Ext (stem @ v @ ext) = ext"
proof -
  have "slash \<notin> set stem" "slash \<notin> set ext" using assms(1) by (auto simp: stem_ext_def plain_def)
  with assms(3) have s: "split_on slash (stem @ v @ ext) = [stem @ v @ ext]" by simp
  show ?thesis
  proof (cases ext)
    case Nil
    with assms s show ?thesis by (simp add: Ext_def Let_def stem_ext_def)
  next
    case (Cons c e)
    with assms(1) have "c = CHR ''.''" "CHR ''.'' \<notin> set e" by (auto simp: stem_ext_def)
    moreover from this have "last (split_on CHR ''.'' ((stem @ v) @ CHR ''.'' # e)) = e"
    proof -
      have "split_on d (a @ d # b) = split_on d a @ split_on d b" for d :: char and a b
      proof (induction a)
        case (Cons x xs)
        then show ?case by (cases "split_on d xs") auto
      qed simp
      from this [of "CHR ''.''" "stem @ v" e] \<open>CHR ''.'' \<notin> set e\<close> show ?thesis by simp
    qed
    ultimately show ?thesis using s Cons by (simp add: Ext_def Let_def)
  qed
qed

lemma version_suffix_version: "version_suffix (stem @ ''_('' @ nat_text k @ '')'') = Some (''_('' @ nat_text k @ '')'')"
proof -
  have d: "\<forall>c\<in>set (rev (nat_text k)). is_digit c" by (auto simp: nat_text_digits)
  have "takeWhile is_digit (rev (nat_text k) @ ''(_'' @ rev stem) = rev (nat_text k)"
    using d by (subst takeWhile_append2) auto
  moreover have "dropWhile is_digit (rev (nat_text k) @ ''(_'' @ rev stem) = ''(_'' @ rev stem"
    using d by (subst dropWhile_append2) auto
  ultimately show ?thesis by (simp add: version_suffix_def)
qed

lemma trim_version: "trim_chars (''_('' @ nat_text k @ '')'') (set ''_()'') = nat_text k"
proof -
  let ?P = "\<lambda>c. c \<in> set ''_()''"
  have p: "\<not> ?P c" if "c \<in> set (nat_text k)" for c
    using nat_text_digits [OF that] by (auto simp: is_digit_def)
  have stop: "dropWhile ?P (xs @ ys) = xs @ ys" if "set xs \<subseteq> set (nat_text k)" "xs \<noteq> []" for xs ys
    using p that by (cases xs) auto
  have "dropWhile ?P (''_('' @ nat_text k @ '')'') = nat_text k @ '')''"
    using stop [of "nat_text k" "'')''"] by simp
  moreover have "dropWhile ?P (rev (nat_text k @ '')'')) = rev (nat_text k)"
    using stop [of "rev (nat_text k)" "[]"] by simp
  ultimately show ?thesis unfolding trim_chars_def by (simp only: rev_rev_ident)
qed

lemma nat_text_int: "int_text (int k) = nat_text k"
  by (simp add: int_text_def)

lemma version_plain:
  assumes "stem_ext stem ext"
  shows "plain (stem @ (if k = 0 then [] else ''_('' @ nat_text k @ '')'') @ ext)"
    and "slash \<notin> set (nat_text k)" and "CHR ''.'' \<notin> set (nat_text k)"
proof -
  show s: "slash \<notin> set (nat_text k)" "CHR ''.'' \<notin> set (nat_text k)"
    using int_text_no_slash [of "int k"] int_text_no_dot [of "int k"] by (simp_all add: nat_text_int)
  show "plain (stem @ (if k = 0 then [] else ''_('' @ nat_text k @ '')'') @ ext)"
  proof (cases "k = 0")
    case False
    have "CHR ''_'' \<notin> set ''..''" by simp
    moreover have "CHR ''_'' \<in> set (stem @ ''_('' @ nat_text k @ '')'' @ ext)" by simp
    ultimately have "stem @ ''_('' @ nat_text k @ '')'' @ ext \<notin> {[], ''.'', ''..''}" by force
    with assms s False show ?thesis by (auto simp: stem_ext_def plain_def)
  qed (use assms in \<open>simp add: stem_ext_def\<close>)
qed

text \<open>One step of the recursion goes from a version to the next one.\<close>

lemma next_version:
  assumes "clean_dir dir" and "stem_ext stem ext" and "int k < max_int64"
  shows "next_path (version_of dir stem ext k) = version_of dir stem ext (Suc k)"
proof -
  let ?v = "if k = 0 then [] else ''_('' @ nat_text k @ '')''"
  let ?n = "stem @ ?v @ ext"
  have p: "plain ?n" by (rule version_plain [OF assms(2)])
  have b: "Base (version_of dir stem ext k) = ?n" "Dir (version_of dir stem ext k) = dir"
    using Base_slash_name [OF p] Dir_slash_name [OF assms(1) p] by (simp_all add: version_of_def)
  have e: "Ext ?n = ext" using version_plain [OF assms(2)] by (intro Ext_stem [OF assms(2)]) auto
  have c: "trim_suffix ?n ext = stem @ ?v" using trim_suffix_append [of "stem @ ?v" ext] by simp
  have q: "plain (stem @ ''_('' @ nat_text (Suc k) @ '')'' @ ext)"
    using version_plain(1) [OF assms(2), of "Suc k"] by simp
  have j: "Join [dir, stem @ ''_('' @ nat_text (Suc k) @ '')'' @ ext] = version_of dir stem ext (Suc k)"
    using Clean_slash_name(1) [OF assms(1) q] assms(1)
    by (auto simp: Join_def version_of_def clean_dir_def Clean_def)
  have i: "in_int64 (int k)" "in_int64 (int k + 1)" using assms(3) by (simp_all add: in_int64_def min_int64_def max_int64_def)
  have a: "Atoi (nat_text k) = (int k, None)" using Atoi_int_text [OF i(1)] by (simp add: nat_text_int)
  have s: "int_text (int k + 1) = nat_text (Suc k)" using nat_text_int [of "Suc k"] by (simp add: add.commute)
  show ?thesis
  proof (cases "k = 0")
    case True
    with assms(2) b e c j s show ?thesis by (simp add: next_path_def Let_def stem_ext_def)
  next
    case False
    have t: "trim_suffix (stem @ ''_('' @ nat_text k @ '')'') (''_('' @ nat_text k @ '')'') = stem"
      by (rule trim_suffix_append)
    from False show ?thesis
      using b e c j s version_suffix_version [of stem k] trim_version [of k] a i t
      by (simp add: next_path_def Let_def nat_text_int)
  qed
qed

lemma version_inj: "version_of dir stem ext i = version_of dir stem ext j \<Longrightarrow> i = j"
proof -
  have len: "length (nat_text k) > 0" for k by simp
  assume "version_of dir stem ext i = version_of dir stem ext j"
  then have "(if i = 0 then [] else ''_('' @ nat_text i @ '')'') = (if j = 0 then [] else ''_('' @ nat_text j @ '')'')"
    by (simp add: version_of_def)
  then show ?thesis by (auto simp: nat_text_inj split: if_splits)
qed

section \<open>The first free version\<close>

lemma version_not_dots: "stem_ext stem ext \<Longrightarrow> node_at d (version_of dir stem ext k) = nodes d (version_of dir stem ext k)"
proof -
  assume s: "stem_ext stem ext"
  let ?x = "stem @ (if k = 0 then [] else ''_('' @ nat_text k @ '')'') @ ext"
  have x: "plain ?x" by (rule version_plain [OF s])
  then have "?x \<in> set (split_on slash (version_of dir stem ext k))"
    using split_append_slash [of dir ?x] by (simp add: version_of_def plain_def)
  with x have "\<not> list_all (\<lambda>c. c = ''.'' \<or> c = ''..'') (split_on slash (version_of dir stem ext k))"
    by (auto simp: list_all_iff plain_def)
  moreover have "version_of dir stem ext k \<noteq> ''/''"
  proof
    assume "version_of dir stem ext k = ''/''"
    then have "length (version_of dir stem ext k) = 1" by simp
    with x show False by (simp add: version_of_def plain_def split: if_splits)
  qed
  ultimately show ?thesis by (simp add: node_at_def dots_def)
qed

lemma safeFilePath_search:
  assumes "clean_dir dir" and "stem_ext stem ext" and "node_at d dir = Some DirNode"
    and "0 < handles d" and "int (j + m) < max_int64" and "nodes d (version_of dir stem ext (j + m)) = None"
    and "\<forall>i. j \<le> i \<and> i < j + m \<longrightarrow> nodes d (version_of dir stem ext i) \<noteq> None" and "m < n"
  shows "safeFilePath n (version_of dir stem ext j) perm d =
    Some (Inr (version_of dir stem ext (j + m)), new_file (version_of dir stem ext (j + m)) perm d)"
  using assms(5-)
proof (induction m arbitrary: j n)
  case 0
  have "Dir (version_of dir stem ext j) = dir"
    using Dir_slash_name [OF assms(1) version_plain(1) [OF assms(2)]] by (simp add: version_of_def)
  with 0 assms(3,4) show ?case
    by (cases n) (simp_all add: create_exclusive_def version_not_dots [OF assms(2)])
next
  case (Suc m)
  from Suc.prems obtain n' where n: "n = Suc n'" "m < n'" by (cases n) auto
  have "nodes d (version_of dir stem ext j) \<noteq> None" using Suc.prems(3) by auto
  then have "create_exclusive (version_of dir stem ext j) perm d = (Inl (PathError ''open'' (version_of dir stem ext j) EEXIST), d)"
    using assms(4) by (auto simp: create_exclusive_def version_not_dots [OF assms(2)])
  moreover have "next_path (version_of dir stem ext j) = version_of dir stem ext (Suc j)"
    using Suc.prems(1) by (intro next_version [OF assms(1,2)]) simp
  ultimately show ?case
    using n Suc.IH [of "Suc j" n'] Suc.prems by (simp add: PathError_def IsExist_def)
qed


definition demo_disk :: disk where
  "demo_disk = \<lparr>nodes = [''d'' \<mapsto> DirNode, ''d/a.txt'' \<mapsto> FileNode 420 ''one'' 0, ''d/a_(1).txt'' \<mapsto> FileNode 420 ''two'' 0],
     space = 1000, handles = 8, now = 0\<rparr>"

lemma demo_versions:
  "version_of ''d'' ''a'' ''.txt'' 0 = ''d/a.txt''" "version_of ''d'' ''a'' ''.txt'' 1 = ''d/a_(1).txt''"
  "version_of ''d'' ''a'' ''.txt'' 2 = ''d/a_(2).txt''"
  by code_simp+

lemma demo_nodes:
  "nodes demo_disk (version_of ''d'' ''a'' ''.txt'' 0) \<noteq> None" "nodes demo_disk (version_of ''d'' ''a'' ''.txt'' 1) \<noteq> None"
  "nodes demo_disk (version_of ''d'' ''a'' ''.txt'' 2) = None"
  by (simp_all only: demo_versions) (simp_all add: demo_disk_def)


end
