(* ===== verification/Dataset_Archive.thy ===== *)
theory Dataset_Archive
  imports Safe_Files
begin

text \<open>
  \<^verbatim>\<open>nerd/service/datatransfer/v1/tar.go\<close>: a directory becomes an archive (\<^verbatim>\<open>tardir\<close>), an archive
  becomes files (\<^verbatim>\<open>untardir\<close>), and the bytes of an archive are counted (\<^verbatim>\<open>countBytes\<close>). An archive is
  the sequence of its headers with their contents; how \<^verbatim>\<open>archive/tar\<close> writes them as bytes is
  left out, so a reader is the entries it finds and the error it ends with. The context is asked
  once per entry, so it is a function of the number of entries seen so far.
\<close>

section \<open>Names\<close>

definition tarSeparator :: char where
  "tarSeparator = CHR ''/''"

definition normalizeName :: "string \<Rightarrow> string" where
  "normalizeName path = join_with [tarSeparator] (split_on slash path)"

definition denormalizeName :: "string \<Rightarrow> string" where
  "denormalizeName name = Join (split_on tarSeparator name)"

section \<open>Archiving a directory\<close>

record header =
  hName :: string
  hMode :: int
  hModTime :: int
  hSize :: int

text \<open>
  A directory as \<^verbatim>\<open>filepath.Walk\<close> meets it, the children in the order of their names. A file has the size
  that \<^verbatim>\<open>Lstat\<close> gave, and what opening and reading it leads to; a folder that cannot be listed
  has an error; an entry may be gone when \<^verbatim>\<open>Lstat\<close> gets to it.
\<close>

record file_info =
  fMode :: int
  fModTime :: int
  fSize :: int
  fOpen :: "goerr + string \<times> goerr option"

datatype tree = Leaf file_info | Folder "goerr option" "(string \<times> tree) list" | Gone goerr

record tar_env =
  tctx :: "nat \<Rightarrow> goerr option"
  refused :: "header \<Rightarrow> goerr option"
  flush :: "goerr option"

record tar_state =
  visits :: nat
  entries :: "(header \<times> string) list"

text \<open>A callback may panic: it takes the mode of a file information that is nil.\<close>

datatype tar_stop = Failed goerr | Panicked

definition ErrWriteTooLong :: goerr where
  "ErrWriteTooLong = Fundamental ''archive/tar: write too long''"

text \<open>\<^verbatim>\<open>io.Copy\<close> into the entry: the bytes that fit, and the error.\<close>

definition copy_entry :: "int \<Rightarrow> string \<times> goerr option \<Rightarrow> string \<times> goerr option" where
  "copy_entry sz r = (if int (length (fst r)) > sz then (take (nat sz) (fst r), Some ErrWriteTooLong) else r)"

definition add_file :: "tar_env \<Rightarrow> string \<Rightarrow> string \<Rightarrow> file_info \<Rightarrow> tar_state \<Rightarrow> goerr option \<times> tar_state" where
  "add_file env dir rel f s =
     (case fOpen f of
        Inl err \<Rightarrow> (Some (wrapped (''failed to open file '' @ in_quotes rel) err), s)
      | Inr content \<Rightarrow>
         let hdr = \<lparr>hName = normalizeName rel, hMode = fMode f, hModTime = fModTime f, hSize = fSize f\<rparr> in
         (case refused env hdr of
            Some err \<Rightarrow> (Some (wrapped (''failed to write tar header for '' @ in_quotes rel) err), s)
          | None \<Rightarrow>
             let (data, err) = copy_entry (fSize f) content; s = s\<lparr>entries := entries s @ [(hdr, data)]\<rparr> in
             (case err of
                Some err \<Rightarrow> (Some (wrapped (''failed to write tar file for '' @ in_quotes rel) err), s)
              | None \<Rightarrow>
                  if int (length data) \<noteq> fSize f then
                    (Some (Fundamental (''unexpected nr of bytes written to tar, saw '' @ in_quotes (int_text (fSize f))
                       @ '' on-disk but only wrote '' @ in_quotes (int_text (int (length data)))
                       @ '', is directory '' @ in_quotes dir @ '' in use?'')), s)
                  else (None, s))))"

definition tar_tick :: "tar_env \<Rightarrow> tar_state \<Rightarrow> goerr option \<times> tar_state" where
  "tar_tick env s = (tctx env (visits s), s\<lparr>visits := Suc (visits s)\<rparr>)"

text \<open>
  The walk, with the names from the root down to the node. The callback looks at the context, takes no
  notice of the error it is given, and does nothing for a folder, so a folder that cannot be listed is
  passed over; for an entry that is gone the information is nil.
\<close>

fun walk :: "tar_env \<Rightarrow> string \<Rightarrow> string list \<Rightarrow> tree \<Rightarrow> tar_state \<Rightarrow> tar_stop option \<times> tar_state"
  and walk_all :: "tar_env \<Rightarrow> string \<Rightarrow> string list \<Rightarrow> (string \<times> tree) list \<Rightarrow> tar_state \<Rightarrow> tar_stop option \<times> tar_state" where
  "walk env dir names (Leaf f) s =
     (case tar_tick env s of
        (Some err, s) \<Rightarrow> (Some (Failed err), s)
      | (None, s) \<Rightarrow> (case add_file env dir (if names = [] then ''.'' else join_slash names) f s of
          (err, s) \<Rightarrow> (map_option Failed err, s)))"
| "walk env dir names (Gone e) s =
     (case tar_tick env s of (Some err, s) \<Rightarrow> (Some (Failed err), s) | (None, s) \<Rightarrow> (Some Panicked, s))"
| "walk env dir names (Folder unlisted ts) s =
     (case tar_tick env s of
        (Some err, s) \<Rightarrow> (Some (Failed err), s)
      | (None, s) \<Rightarrow>
         (case unlisted of
            Some _ \<Rightarrow> (case tar_tick env s of (err, s) \<Rightarrow> (map_option Failed err, s))
          | None \<Rightarrow> walk_all env dir names ts s))"
| "walk_all env dir names [] s = (None, s)"
| "walk_all env dir names ((name, t) # ts) s =
     (case walk env dir (names @ [name]) t s of
        (Some stop, s) \<Rightarrow> (Some stop, s)
      | (None, s) \<Rightarrow> walk_all env dir names ts s)"

text \<open>The result, and the entries that reached the writer before it.\<close>

definition tardir :: "tar_env \<Rightarrow> string \<Rightarrow> tree \<Rightarrow> tar_stop option \<times> (header \<times> string) list" where
  "tardir env dir t =
     (case walk env dir [] t \<lparr>visits = 0, entries = []\<rparr> of
        (Some Panicked, s) \<Rightarrow> (Some Panicked, entries s)
      | (Some (Failed err), s) \<Rightarrow> (Some (Failed (wrapped (''failed to walk dir '' @ in_quotes dir) err)), entries s)
      | (None, s) \<Rightarrow> (case flush env of
            Some err \<Rightarrow> (Some (Failed (wrapped ''failed to write remaining data'' err)), entries s)
          | None \<Rightarrow> (None, entries s)))"

section \<open>Unpacking an archive\<close>

text \<open>\<^verbatim>\<open>os.MkdirAll\<close>: the path and what is above it, from the top.\<close>

definition ancestors :: "string \<Rightarrow> string list" where
  "ancestors p =
     (let rooted = (p \<noteq> [] \<and> hd p = slash); cs = (if rooted then tl (split_on slash p) else split_on slash p) in
      map (\<lambda>k. (if rooted then [slash] else []) @ join_slash (take k cs)) [1..<Suc (length cs)])"

fun mkdir_all :: "string list \<Rightarrow> disk \<Rightarrow> (goerr + unit) \<times> disk" where
  "mkdir_all [] d = (Inr (), d)"
| "mkdir_all (q # qs) d =
     (case node_at d q of
        Some DirNode \<Rightarrow> mkdir_all qs d
      | Some _ \<Rightarrow> (Inl (PathError ''mkdir'' q ENOTDIR), d)
      | None \<Rightarrow> mkdir_all qs (put_node q DirNode d))"

definition MkdirAll :: "string \<Rightarrow> disk \<Rightarrow> (goerr + unit) \<times> disk" where
  "MkdirAll p = mkdir_all (ancestors p)"

text \<open>\<^verbatim>\<open>io.Copy\<close> into a new file: the number of bytes and the error; the disk may fill up.\<close>

definition write_file :: "string \<Rightarrow> string \<Rightarrow> goerr option \<Rightarrow> disk \<Rightarrow> (nat \<times> goerr option) \<times> disk" where
  "write_file p data rerr d =
     (let n = min (length data) (space d);
          mode = (case node_at d p of Some (FileNode m _ _) \<Rightarrow> m | _ \<Rightarrow> 0);
          mtime = (case node_at d p of Some (FileNode _ _ t) \<Rightarrow> t | _ \<Rightarrow> 0) in
      ((n, if n < length data then Some (PathError ''write'' p ENOSPC) else rerr),
       put_node p (FileNode mode (take n data) mtime) (d\<lparr>space := space d - n\<rparr>)))"

text \<open>\<^verbatim>\<open>os.Chtimes\<close>; access times are left out.\<close>

definition Chtimes :: "string \<Rightarrow> int \<Rightarrow> disk \<Rightarrow> (goerr + unit) \<times> disk" where
  "Chtimes p mtime d =
     (case node_at d p of
        None \<Rightarrow> (Inl (PathError ''chtimes'' p ENOENT), d)
      | Some DirNode \<Rightarrow> (Inr (), d)
      | Some (FileNode m c _) \<Rightarrow> (Inr (), put_node p (FileNode m c mtime) d))"

text \<open>One entry: its header, its content, and the error of reading it. The times are those of \<open>path\<close>.\<close>

definition untar_entry :: "nat \<Rightarrow> string \<Rightarrow> header \<times> string \<times> goerr option \<Rightarrow> disk \<Rightarrow> ((goerr + unit) \<times> disk) option" where
  "untar_entry n dir e d =
     (case e of (hdr, data, rerr) \<Rightarrow>
        let path = Join [dir, denormalizeName (hName hdr)] in
        (case MkdirAll (Dir path) d of
           (Inl err, d) \<Rightarrow> Some (Inl (wrapped ''failed to create dirs'' err), d)
         | (Inr _, d) \<Rightarrow>
            (case safeFilePath n path (hMode hdr mod 2 ^ 32) d of
               None \<Rightarrow> None
             | Some (Inl err, d) \<Rightarrow> Some (Inl (wrapped ''failed to create tmp safe file'' err), d)
             | Some (Inr f, d) \<Rightarrow>
                (case write_file f data rerr d of
                   ((k, Some err), d) \<Rightarrow> Some (Inl (wrapped ''failed to write file content to tmp file'' err), d)
                 | ((k, None), d) \<Rightarrow>
                    if int k \<noteq> hSize hdr then
                      Some (Inl (Fundamental (''unexpected nr of bytes written, wrote '' @ in_quotes (int_text (int k))
                        @ '' saw '' @ in_quotes (int_text (hSize hdr)) @ '' in tar hdr'')), d)
                    else
                      (case Chtimes path (hModTime hdr) d of
                         (Inl err, d) \<Rightarrow> Some (Inl (wrapped ''failed to change times of tmp file'' err), d)
                       | (Inr _, d) \<Rightarrow> Some (Inr (), d))))))"

fun untar_loop :: "nat \<Rightarrow> (nat \<Rightarrow> goerr option) \<Rightarrow> nat \<Rightarrow> string \<Rightarrow> (header \<times> string \<times> goerr option) list \<Rightarrow> goerr
    \<Rightarrow> disk \<Rightarrow> ((goerr + unit) \<times> disk) option" where
  "untar_loop n ctx i dir [] fin d =
     (case ctx i of
        Some err \<Rightarrow> Some (Inl err, d)
      | None \<Rightarrow> if fin = Sentinel EOF then Some (Inr (), d)
                else Some (Inl (wrapped ''failed to read next tar header'' fin), d))"
| "untar_loop n ctx i dir (e # es) fin d =
     (case ctx i of
        Some err \<Rightarrow> Some (Inl err, d)
      | None \<Rightarrow>
         (case untar_entry n dir e d of
            None \<Rightarrow> None
          | Some (Inl err, d) \<Rightarrow> Some (Inl err, d)
          | Some (Inr _, d) \<Rightarrow> untar_loop n ctx (Suc i) dir es fin d))"

text \<open>The files are closed by \<^verbatim>\<open>defer\<close>, all of them when the function returns.\<close>

definition untardir :: "nat \<Rightarrow> (nat \<Rightarrow> goerr option) \<Rightarrow> string \<Rightarrow> (header \<times> string \<times> goerr option) list \<Rightarrow> goerr
    \<Rightarrow> disk \<Rightarrow> ((goerr + unit) \<times> disk) option" where
  "untardir n ctx dir es fin d =
     map_option (\<lambda>(r, d'). (r, d'\<lparr>handles := handles d\<rparr>)) (untar_loop n ctx 0 dir es fin d)"

section \<open>Counting\<close>

definition count_buffer :: nat where
  "count_buffer = 512 * 1024"

text \<open>\<^verbatim>\<open>countBytes\<close> over the bytes a reader has left and the error after them (\<open>None\<close> is the end of file).\<close>

function countBytes :: "(nat \<Rightarrow> goerr option) \<Rightarrow> nat \<Rightarrow> string \<Rightarrow> goerr option \<Rightarrow> int \<Rightarrow> int \<times> goerr option" where
  "countBytes ctx i bytes rerr n =
     (case ctx i of
        Some err \<Rightarrow> (0, Some err)
      | None \<Rightarrow>
          if count_buffer \<le> length bytes
          then countBytes ctx (Suc i) (drop count_buffer bytes) rerr (wrap64 (n + int count_buffer))
          else (wrap64 (n + int (length bytes)), map_option (wrapped ''failed to read part of tar'') rerr))"
  by pat_completeness auto

termination
  by (relation "measure (\<lambda>(ctx, i, bytes, rerr, n). length bytes)") (auto simp: count_buffer_def)

declare countBytes.simps [simp del]

lemma wrap64_wrap64_add [simp]: "wrap64 (wrap64 a + b) = wrap64 (a + b)"
proof -
  have "((a + 2 ^ 63) mod 2 ^ 64 + b) mod 2 ^ 64 = (a + b + 2 ^ 63) mod (2 ^ 64 :: int)"
    by (simp only: mod_add_left_eq) (simp only: ac_simps)
  then show ?thesis by (simp add: wrap64_def)
qed

lemma countBytes_all: "ctx = (\<lambda>_. None) \<Longrightarrow> countBytes ctx i bytes rerr n =
    (wrap64 (n + int (length bytes)), map_option (wrapped ''failed to read part of tar'') rerr)"
proof (induction ctx i bytes rerr n rule: countBytes.induct)
  case (1 ctx i bytes rerr n)
  show ?case
  proof (cases "count_buffer \<le> length bytes")
    case True
    with 1 show ?thesis by (subst countBytes.simps) (simp add: of_nat_diff)
  qed (use 1 in \<open>subst countBytes.simps, simp\<close>)
qed

section \<open>More fuel changes nothing\<close>

lemma safeFilePath_fuel: "safeFilePath n p perm d = Some x \<Longrightarrow> safeFilePath (Suc n) p perm d = Some x"
proof (induction n arbitrary: p d)
  case (Suc n)
  obtain r d' where c: "create_exclusive p perm d = (r, d')" by fastforce
  show ?case
  proof (cases r)
    case (Inl err)
    show ?thesis
    proof (cases "IsExist err")
      case True
      with Suc.prems c Inl have "safeFilePath n (next_path p) perm d' = Some x" by simp
      from Suc.IH [OF this] c Inl True show ?thesis by (subst safeFilePath.simps) simp
    qed (use Suc.prems c Inl in simp)
  qed (use Suc.prems c in simp)
qed simp

lemma untar_entry_fuel: "untar_entry n dir e d = Some x \<Longrightarrow> untar_entry (Suc n) dir e d = Some x"
proof -
  assume a: "untar_entry n dir e d = Some x"
  obtain hdr data rerr where e: "e = (hdr, data, rerr)" by (rule prod_cases3)
  let ?p = "Join [dir, denormalizeName (hName hdr)]"
  obtain r d1 where m: "MkdirAll (Dir ?p) d = (r, d1)" by fastforce
  show ?thesis
  proof (cases r)
    case (Inl err)
    with a m show ?thesis by (simp add: untar_entry_def e)
  next
    case (Inr v)
    show ?thesis
    proof (cases "safeFilePath n ?p (hMode hdr mod 2 ^ 32) d1")
      case (Some y)
      from safeFilePath_fuel [OF this] Some a m Inr show ?thesis by (simp add: untar_entry_def e del: safeFilePath.simps)
    qed (use a m Inr in \<open>simp add: untar_entry_def e\<close>)
  qed
qed

lemma untar_loop_fuel: "untar_loop n ctx i dir es fin d = Some x \<Longrightarrow> untar_loop (Suc n) ctx i dir es fin d = Some x"
proof (induction es arbitrary: i d)
  case (Cons e es)
  show ?case
  proof (cases "ctx i")
    case None
    with Cons.prems obtain y where y: "untar_entry n dir e d = Some y" by (cases "untar_entry n dir e d") auto
    from Cons None y untar_entry_fuel [OF y] show ?thesis by (auto split: prod.splits sum.splits)
  qed (use Cons.prems in simp)
qed simp

lemma untardir_fuel: "untardir n ctx dir es fin d = Some x \<Longrightarrow> untardir (n + k) ctx dir es fin d = Some x"
proof (induction k)
  case (Suc k)
  then obtain y where "untar_loop (n + k) ctx 0 dir es fin d = Some y" "x = (fst y, (snd y)\<lparr>handles := handles d\<rparr>)"
    by (auto simp: untardir_def)
  with untar_loop_fuel [OF this(1)] show ?case by (simp add: untardir_def split: prod.splits)
qed simp

lemma untardir_unique:
  "untardir n ctx dir es fin d = Some x \<Longrightarrow> untardir m ctx dir es fin d = Some y \<Longrightarrow> x = y"
  using untardir_fuel [of n ctx dir es fin d x m] untardir_fuel [of m ctx dir es fin d y n]
  by (simp add: add.commute)

end
