(* ===== verification/Archive_Files.thy ===== *)
theory Archive_Files
  imports Dataset_Archive "HOL-Library.Sublist"
begin

text \<open>
  What archiving and unpacking do to the files: paths below a directory, the effect of \<^verbatim>\<open>MkdirAll\<close>,
  of one entry and of a whole archive, and that a directory comes back as it was.
\<close>

section \<open>Paths below a directory\<close>

definition sub :: "string \<Rightarrow> string list \<Rightarrow> string" where
  "sub dir ns = (if ns = [] then dir else dir @ ''/'' @ join_slash ns)"

lemma sub_Nil [simp]: "sub dir [] = dir"
  by (simp add: sub_def)

lemma sub_snoc: "sub dir (ns @ [x]) = sub dir ns @ ''/'' @ x"
  using join_slash_append [of ns "[x]"] by (simp add: sub_def)

lemma clean_dir_nonempty: "clean_dir dir \<Longrightarrow> dir \<noteq> []"
  by (auto simp: clean_dir_def Clean_def)

lemma clean_dir_sub: "clean_dir dir \<Longrightarrow> list_all plain ns \<Longrightarrow> clean_dir (sub dir ns)"
proof (induction ns rule: rev_induct)
  case (snoc x ns)
  then have c: "clean_dir (sub dir ns)" and x: "plain x" by simp_all
  from clean_dir_nonempty [OF c] x have "length (sub dir (ns @ [x])) \<ge> 3"
    by (cases "sub dir ns"; cases x) (auto simp: sub_snoc plain_def)
  then have "sub dir (ns @ [x]) \<noteq> ''.''" "sub dir (ns @ [x]) \<noteq> ''/''" by auto
  with Clean_slash_name(1) [OF c x] show ?case by (simp add: clean_dir_def sub_snoc)
qed simp

lemma Dir_sub: "clean_dir dir \<Longrightarrow> list_all plain (ns @ [x]) \<Longrightarrow> Dir (sub dir (ns @ [x])) = sub dir ns"
  using Dir_slash_name [of "sub dir ns" x] clean_dir_sub [of dir ns] by (simp add: sub_snoc)

lemma split_sub: "list_all plain ns \<Longrightarrow> split_on slash (sub dir ns) = split_on slash dir @ ns"
proof (induction ns rule: rev_induct)
  case (snoc x ns)
  then show ?case by (simp add: sub_snoc split_append_slash plain_def del: split_on_append)
qed simp

lemma sub_inj: "list_all plain ns \<Longrightarrow> list_all plain ms \<Longrightarrow> sub dir ns = sub dir ms \<longleftrightarrow> ns = ms"
  by (metis split_sub same_append_eq)

lemma node_at_sub [simp]:
  assumes "list_all plain ns" and "ns \<noteq> []"
  shows "node_at d (sub dir ns) = nodes d (sub dir ns)"
proof -
  have "last ns \<in> set (split_on slash (sub dir ns))" "plain (last ns)"
    using assms by (auto simp: split_sub list_all_iff)
  then have "\<not> list_all (\<lambda>c. c = ''.'' \<or> c = ''..'') (split_on slash (sub dir ns))"
    by (auto simp: list_all_iff plain_def)
  moreover have "sub dir ns \<noteq> ''/''"
  proof
    assume "sub dir ns = ''/''"
    with split_sub [OF assms(1), of dir] have "split_on slash dir @ ns = [[], []]" by simp
    then have "last ns = []" using assms(2) by (metis last_appendR last.simps list.distinct(1))
    with \<open>plain (last ns)\<close> show False by (simp add: plain_def)
  qed
  ultimately show ?thesis by (simp add: node_at_def dots_def)
qed

lemma Join_sub:
  assumes "clean_dir dir" and "list_all plain ns" and "ns \<noteq> []"
  shows "Join [dir, denormalizeName (normalizeName (join_slash ns))] = sub dir ns"
proof -
  have "denormalizeName (normalizeName (join_slash ns)) = join_slash ns"
    using assms(2,3) by (simp add: denormalizeName_def normalizeName_def tarSeparator_def plain_split Join_plain)
  moreover have "Clean (dir @ ''/'' @ join_slash ns) = dir @ ''/'' @ join_slash ns"
    using clean_dir_sub [OF assms(1,2)] assms(3) by (simp add: clean_dir_def sub_def)
  ultimately show ?thesis
    using clean_dir_nonempty [OF assms(1)] assms(3) by (simp add: Join_def sub_def)
qed

lemma ancestors_sub:
  assumes "clean_dir dir" and "list_all plain ns"
  shows "set (ancestors (sub dir ns)) = set (ancestors dir) \<union> (\<lambda>k. sub dir (take k ns)) ` {0<..length ns}"
proof -
  let ?r = "hd dir = slash"
  define cs where "cs = (if ?r then tl (split_on slash dir) else split_on slash dir)"
  let ?pre = "if ?r then [slash] else []"
  have ne: "dir \<noteq> []" by (rule clean_dir_nonempty [OF assms(1)])
  have hd: "hd (sub dir ns) = hd dir" "sub dir ns \<noteq> []" using ne by (simp_all add: sub_def)
  have dir: "?pre @ join_slash cs = dir" and "cs \<noteq> []"
  proof -
    have j: "join_slash (split_on slash dir) = dir" by simp
    show "cs \<noteq> []" and "?pre @ join_slash cs = dir"
    proof (atomize (full), cases ?r)
      case True
      with ne obtain rest where "dir = slash # rest" by (cases dir) auto
      then show "cs \<noteq> [] \<and> ?pre @ join_slash cs = dir" using True by (simp add: cs_def)
    qed (use j in \<open>simp add: cs_def\<close>)
  qed
  have cs': "(if ?r then tl (split_on slash (sub dir ns)) else split_on slash (sub dir ns)) = cs @ ns"
    using split_sub [OF assms(2), of dir] by (simp add: cs_def)
  have j: "?pre @ join_slash (cs @ take k ns) = sub dir (take k ns)" for k
    using dir \<open>cs \<noteq> []\<close> by (cases "take k ns = []") (auto simp: join_slash_append sub_def)
  have "ancestors (sub dir ns) = map (\<lambda>k. ?pre @ join_slash (take k (cs @ ns))) [1..<Suc (length (cs @ ns))]"
    unfolding ancestors_def Let_def using hd cs' by (simp del: upt_Suc take_append)
  then have "set (ancestors (sub dir ns)) = (\<lambda>k. ?pre @ join_slash (take k (cs @ ns))) ` {1..<Suc (length cs + length ns)}"
    by (simp only: set_map set_upt length_append)
  also have "{1..<Suc (length cs + length ns)} = {1..<Suc (length cs)} \<union> (+) (length cs) ` {0<..length ns}"
    by auto
  finally have "set (ancestors (sub dir ns)) = (\<lambda>k. ?pre @ join_slash (take k cs)) ` {1..<Suc (length cs)}
      \<union> (\<lambda>k. ?pre @ join_slash (cs @ take k ns)) ` {0<..length ns}"
    unfolding image_Un image_image by (auto intro!: arg_cong2 [of _ _ _ _ "(\<union>)"] image_cong)
  moreover have "ancestors dir = map (\<lambda>k. ?pre @ join_slash (take k cs)) [1..<Suc (length cs)]"
    unfolding ancestors_def Let_def cs_def using ne by simp
  ultimately show ?thesis unfolding j by (simp only: set_map set_upt)
qed

section \<open>One entry\<close>

definition with_dirs :: "string set \<Rightarrow> disk \<Rightarrow> disk" where
  "with_dirs qs d = d\<lparr>nodes := (\<lambda>q. if q \<in> qs \<and> node_at d q = None then Some DirNode else nodes d q)\<rparr>"

lemma node_at_with_dirs:
  "node_at (with_dirs qs d) q = (if q \<in> qs \<and> node_at d q = None then Some DirNode else node_at d q)"
  by (auto simp: with_dirs_def node_at_def)

lemma mkdir_all_ok:
  "\<forall>q\<in>set qs. node_at d q \<in> {None, Some DirNode} \<Longrightarrow> mkdir_all qs d = (Inr (), with_dirs (set qs) d)"
proof (induction qs arbitrary: d)
  case Nil
  then show ?case by (simp add: with_dirs_def)
next
  case (Cons q qs)
  show ?case
  proof (cases "node_at d q")
    case None
    then have n: "node_at (put_node q DirNode d) p = (if p = q then Some DirNode else node_at d p)" for p
      by (auto simp: put_node_def node_at_def split: if_splits)
    with Cons.prems have "mkdir_all qs (put_node q DirNode d) = (Inr (), with_dirs (set qs) (put_node q DirNode d))"
      by (intro Cons.IH) auto
    moreover have "with_dirs (set qs) (put_node q DirNode d) = with_dirs (set (q # qs)) d"
      using None n by (auto simp: with_dirs_def put_node_def fun_eq_iff intro!: disk.equality)
    ultimately show ?thesis using None by simp
  next
    case (Some x)
    with Cons.prems have "x = DirNode" by simp
    moreover have "with_dirs (set qs) d = with_dirs (set (q # qs)) d"
      using Some by (auto simp: with_dirs_def fun_eq_iff intro!: disk.equality)
    ultimately show ?thesis using Some Cons by simp
  qed
qed

text \<open>A file: the names of its path, its mode, its time, and its content.\<close>

type_synonym packed = "string list \<times> int \<times> int \<times> string"

definition packed_entry :: "packed \<Rightarrow> header \<times> string" where
  "packed_entry = (\<lambda>(ns, mode, mtime, content).
     (\<lparr>hName = normalizeName (join_slash ns), hMode = mode, hModTime = mtime, hSize = int (length content)\<rparr>, content))"

definition as_read :: "header \<times> string \<Rightarrow> header \<times> string \<times> goerr option" where
  "as_read e = (fst e, snd e, None)"

definition folders :: "string \<Rightarrow> string list \<Rightarrow> string set" where
  "folders dir ns = (\<lambda>k. sub dir (take k ns)) ` {0<..<length ns}"

lemma folders_snoc: "folders dir (ns @ [x]) = (\<lambda>k. sub dir (take k ns)) ` {0<..length ns}"
  unfolding folders_def by (rule image_cong) auto

definition unpack :: "string \<Rightarrow> packed \<Rightarrow> disk \<Rightarrow> disk" where
  "unpack dir f d = (case f of (ns, mode, mtime, content) \<Rightarrow>
     d\<lparr>nodes := (\<lambda>q. if q = sub dir ns then Some (FileNode (mode mod 2 ^ 32) content mtime)
                     else if q \<in> folders dir ns \<and> nodes d q = None then Some DirNode else nodes d q),
       space := space d - length content, handles := handles d - 1\<rparr>)"

definition room_for :: "string \<Rightarrow> string list \<Rightarrow> disk \<Rightarrow> bool" where
  "room_for dir ns d \<longleftrightarrow> ns \<noteq> [] \<and> list_all plain ns \<and> nodes d (sub dir ns) = None \<and>
     (\<forall>q\<in>folders dir ns. nodes d q \<in> {None, Some DirNode})"

lemma plain_take: "list_all plain ns \<Longrightarrow> list_all plain (take k ns)"
  by (auto simp: list_all_iff dest: in_set_takeD)

lemma folders_plain: "list_all plain ns \<Longrightarrow> q \<in> folders dir ns \<Longrightarrow> node_at d q = nodes d q"
proof -
  assume "list_all plain ns" "q \<in> folders dir ns"
  then obtain k where k: "q = sub dir (take k ns)" "0 < k" "k < length ns" by (auto simp: folders_def)
  then have "take k ns \<noteq> []" by auto
  with k(1) plain_take [OF \<open>list_all plain ns\<close>, of k] show ?thesis by simp
qed

lemma untar_entry_unpack:
  assumes "clean_dir dir" and "\<forall>q\<in>set (ancestors dir). node_at d q = Some DirNode"
    and "node_at d dir = Some DirNode" and room: "room_for dir ns d"
    and "length content \<le> space d" and "0 < handles d"
  shows "untar_entry (Suc n) dir (as_read (packed_entry (ns, mode, mtime, content))) d =
    Some (Inr (), unpack dir (ns, mode, mtime, content) d)"
proof -
  from room obtain ns' x where ns: "ns = ns' @ [x]" by (cases ns rule: rev_cases) (auto simp: room_for_def)
  from room have pl: "list_all plain ns" by (simp add: room_for_def)
  then have pl': "list_all plain ns'" by (simp add: ns)
  let ?p = "sub dir ns"
  have path: "Join [dir, denormalizeName (normalizeName (join_slash ns))] = ?p"
    by (rule Join_sub [OF assms(1) pl]) (simp add: ns)
  have dirp: "Dir ?p = sub dir ns'" using Dir_sub [OF assms(1), of ns' x] pl by (simp add: ns)
  have anc: "set (ancestors (sub dir ns')) = set (ancestors dir) \<union> folders dir ns"
    using ancestors_sub [OF assms(1) pl'] by (simp add: folders_snoc ns)
  let ?d1 = "with_dirs (set (ancestors (sub dir ns'))) d"
  have mk: "MkdirAll (Dir ?p) d = (Inr (), ?d1)"
    unfolding MkdirAll_def dirp using assms(2) room folders_plain [OF pl]
    by (intro mkdir_all_ok) (auto simp: anc room_for_def)
  have par: "node_at ?d1 (Dir ?p) = Some DirNode"
  proof (cases "ns' = []")
    case True
    then show ?thesis using assms(3) dirp by (simp add: node_at_with_dirs)
  next
    case False
    then have "sub dir ns' \<in> folders dir ns"
      by (auto simp: folders_snoc ns intro!: image_eqI [of _ _ "length ns'"])
    moreover from this have "node_at d (sub dir ns') \<in> {None, Some DirNode}"
      using room folders_plain [OF pl] by (auto simp: room_for_def)
    ultimately show ?thesis using dirp anc by (auto simp: node_at_with_dirs)
  qed
  have notin: "?p \<notin> folders dir ns"
  proof
    assume "?p \<in> folders dir ns"
    then obtain k where k: "?p = sub dir (take k ns)" "k < length ns" by (auto simp: folders_def)
    moreover have "list_all plain (take k ns)" using pl by (auto simp: list_all_iff dest: in_set_takeD)
    ultimately have "ns = take k ns" using sub_inj [OF pl, of "take k ns" dir] by simp
    with k(2) show False by (metis length_take min.strict_order_iff min.commute)
  qed
  have free: "node_at ?d1 ?p = None"
  proof -
    have "node_at d ?p = None" using room pl by (simp add: room_for_def ns)
    moreover have "?p \<notin> set (ancestors dir)" using calculation assms(2) by force
    ultimately show ?thesis using notin anc by (simp add: node_at_with_dirs)
  qed
  have create: "safeFilePath (Suc n) ?p (mode mod 2 ^ 32) ?d1 = Some (Inr ?p, new_file ?p (mode mod 2 ^ 32) ?d1)"
    using free par assms(6) by (simp add: create_exclusive_def with_dirs_def)
  have at: "node_at (put_node ?p nd e) ?p = Some nd" for nd e
    using pl by (simp add: ns put_node_def del: sub_def)
  let ?d2 = "new_file ?p (mode mod 2 ^ 32) ?d1"
  have sp: "length content \<le> space ?d2" using assms(5) by (simp add: new_file_def put_node_def with_dirs_def)
  have at2: "node_at ?d2 ?p = Some (FileNode (mode mod 2 ^ 32) [] (now ?d1))" unfolding new_file_def by (rule at)
  have result: "put_node ?p (FileNode (mode mod 2 ^ 32) content mtime)
      (put_node ?p (FileNode (mode mod 2 ^ 32) content (now ?d1)) (?d2\<lparr>space := space ?d2 - length content\<rparr>))
      = unpack dir (ns, mode, mtime, content) d"
    using assms(2) folders_plain [OF pl] anc
    by (auto simp: unpack_def put_node_def new_file_def with_dirs_def fun_eq_iff intro!: disk.equality)
  show ?thesis
    using path mk create at2 at sp result
    by (simp add: untar_entry_def as_read_def packed_entry_def write_file_def Chtimes_def Let_def del: safeFilePath.simps)
qed

section \<open>A whole archive\<close>

text \<open>No file is another one, or in a folder that another one is.\<close>

definition apart :: "string list \<Rightarrow> string list \<Rightarrow> bool" where
  "apart ns ms \<longleftrightarrow> \<not> prefix ns ms \<and> \<not> prefix ms ns"

definition base_ready :: "string \<Rightarrow> disk \<Rightarrow> bool" where
  "base_ready dir d \<longleftrightarrow> clean_dir dir \<and> (\<forall>q\<in>set (dir # ancestors dir). node_at d q = Some DirNode)"

lemma unpack_nodes:
  "nodes (unpack dir (ns, mode, mtime, content) d) q =
     (if q = sub dir ns then Some (FileNode (mode mod 2 ^ 32) content mtime)
      else if q \<in> folders dir ns \<and> nodes d q = None then Some DirNode else nodes d q)"
  by (simp add: unpack_def)

lemma sub_in_folders:
  assumes "list_all plain ns" and "list_all plain ms"
  shows "sub dir ms \<in> folders dir ns \<longleftrightarrow> (\<exists>k. 0 < k \<and> k < length ns \<and> ms = take k ns)"
  using assms by (auto simp: folders_def sub_inj plain_take)

lemma room_for_unpack:
  assumes "room_for dir ms d" and "list_all plain ns" and "apart ns ms"
  shows "room_for dir ms (unpack dir (ns, mode, mtime, content) d)"
proof -
  from assms have ms: "list_all plain ms" and ne: "ns \<noteq> ms" by (auto simp: room_for_def apart_def)
  have 1: "sub dir ms \<noteq> sub dir ns" using sub_inj [OF ms assms(2)] ne by simp
  have 2: "sub dir ms \<notin> folders dir ns"
    using assms(3) sub_in_folders [OF assms(2) ms] take_is_prefix by (auto simp: apart_def)
  have 3: "sub dir ns \<notin> folders dir ms"
    using assms(3) sub_in_folders [OF ms assms(2)] take_is_prefix by (auto simp: apart_def)
  then have "q \<noteq> sub dir ns" if "q \<in> folders dir ms" for q using that by auto
  with assms(1) 1 2 show ?thesis by (auto simp: room_for_def unpack_nodes)
qed

lemma base_ready_unpack:
  assumes "base_ready dir d" and "room_for dir ns d"
  shows "base_ready dir (unpack dir (ns, mode, mtime, content) d)"
proof -
  have keep: "node_at (unpack dir (ns, mode, mtime, content) d) q = Some DirNode" if q: "node_at d q = Some DirNode" for q
  proof (cases "dots q")
    case False
    with q have "nodes d q = Some DirNode" by (simp add: node_at_def)
    with False assms(2) show ?thesis by (auto simp: node_at_def unpack_nodes room_for_def)
  qed (simp add: node_at_def)
  with assms(1) show ?thesis by (simp add: base_ready_def)
qed

definition fits :: "packed list \<Rightarrow> disk \<Rightarrow> bool" where
  "fits fs d \<longleftrightarrow> sum_list (map (\<lambda>(ns, mode, mtime, content). length content) fs) \<le> space d \<and> length fs \<le> handles d"

lemma untar_loop_unpack:
  assumes "base_ready dir d" and "sorted_wrt (\<lambda>f g. apart (fst f) (fst g)) fs"
    and "\<forall>f\<in>set fs. room_for dir (fst f) d" and "fits fs d"
  shows "untar_loop (Suc n) (\<lambda>_. None) i dir (map (as_read \<circ> packed_entry) fs) (Sentinel EOF) d =
    Some (Inr (), fold (unpack dir) fs d)"
  using assms
proof (induction fs arbitrary: d i)
  case (Cons f fs)
  obtain ns mode mtime content where f: "f = (ns, mode, mtime, content)" by (rule prod_cases4)
  let ?d = "unpack dir f d"
  have room: "room_for dir ns d" using Cons.prems(3) f by simp
  then have pl: "list_all plain ns" by (simp add: room_for_def)
  have one: "untar_entry (Suc n) dir (as_read (packed_entry f)) d = Some (Inr (), ?d)"
    unfolding f using Cons.prems room f by (intro untar_entry_unpack) (auto simp: base_ready_def fits_def)
  have "untar_loop (Suc n) (\<lambda>_. None) (Suc i) dir (map (as_read \<circ> packed_entry) fs) (Sentinel EOF) ?d
      = Some (Inr (), fold (unpack dir) fs ?d)"
  proof (rule Cons.IH)
    show "base_ready dir ?d" unfolding f by (rule base_ready_unpack [OF Cons.prems(1) room])
    show "\<forall>g\<in>set fs. room_for dir (fst g) ?d"
      using Cons.prems(2,3) f by (auto intro!: room_for_unpack [OF _ pl])
    show "fits fs ?d" using Cons.prems(4) f by (auto simp: fits_def unpack_def)
  qed (use Cons.prems(2) in simp)
  with one show ?case by (simp add: comp_def)
qed simp

lemma fold_unpack_keeps:
  assumes "nodes d q = Some x" and "\<forall>f\<in>set fs. q \<noteq> sub dir (fst f)"
  shows "nodes (fold (unpack dir) fs d) q = Some x"
  using assms
proof (induction fs arbitrary: d)
  case (Cons f fs)
  obtain ns mode mtime content where f: "f = (ns, mode, mtime, content)" by (rule prod_cases4)
  with Cons.prems have "nodes (unpack dir f d) q = Some x" by (simp add: unpack_nodes)
  with Cons show ?case by simp
qed simp

lemma fold_unpack_file:
  assumes "sorted_wrt (\<lambda>f g. apart (fst f) (fst g)) fs" and "\<forall>f\<in>set fs. list_all plain (fst f)"
    and "(ns, mode, mtime, content) \<in> set fs"
  shows "nodes (fold (unpack dir) fs d) (sub dir ns) = Some (FileNode (mode mod 2 ^ 32) content mtime)"
  using assms
proof (induction fs arbitrary: d)
  case (Cons f fs)
  show ?case
  proof (cases "f = (ns, mode, mtime, content)")
    case True
    have "sub dir ns \<noteq> sub dir (fst g)" if "g \<in> set fs" for g
      using that Cons.prems True sub_inj [of ns "fst g" dir] by (auto simp: apart_def)
    then show ?thesis using True by (simp add: fold_unpack_keeps unpack_nodes)
  qed (use Cons in auto)
qed simp

lemma fold_unpack_only:
  "nodes (fold (unpack dir) fs d) q \<noteq> nodes d q \<Longrightarrow> \<exists>f\<in>set fs. q = sub dir (fst f) \<or> q \<in> folders dir (fst f)"
proof (induction fs arbitrary: d)
  case (Cons f fs)
  obtain ns mode mtime content where f: "f = (ns, mode, mtime, content)" by (rule prod_cases4)
  show ?case
  proof (cases "nodes (unpack dir f d) q = nodes d q")
    case True
    with Cons show ?thesis by fastforce
  next
    case False
    then have "q = sub dir ns \<or> q \<in> folders dir ns" unfolding f unpack_nodes by presburger
    with f show ?thesis by auto
  qed
qed simp

section \<open>The files of a directory\<close>

fun packed_files :: "string list \<Rightarrow> tree \<Rightarrow> packed list"
  and packed_below :: "string list \<Rightarrow> (string \<times> tree) list \<Rightarrow> packed list" where
  "packed_files names (Leaf f) = (case fOpen f of Inl _ \<Rightarrow> [] | Inr c \<Rightarrow> [(names, fMode f, fModTime f, fst c)])"
| "packed_files names (Gone e) = []"
| "packed_files names (Folder unlisted ts) = packed_below names ts"
| "packed_below names [] = []"
| "packed_below names ((name, t) # ts) = packed_files (names @ [name]) t @ packed_below names ts"

text \<open>Every folder can be listed, and every file can be read and has the size it is listed with.\<close>

fun sound :: "tree \<Rightarrow> bool" and sound_below :: "(string \<times> tree) list \<Rightarrow> bool" where
  "sound (Leaf f) = (case fOpen f of Inl _ \<Rightarrow> False | Inr c \<Rightarrow> snd c = None \<and> fSize f = int (length (fst c)))"
| "sound (Gone e) = False"
| "sound (Folder unlisted ts) = (unlisted = None \<and> sound_below ts)"
| "sound_below [] = True"
| "sound_below ((name, t) # ts) = (plain name \<and> name \<notin> fst ` set ts \<and> sound t \<and> sound_below ts)"

definition undisturbed :: "tar_env \<Rightarrow> bool" where
  "undisturbed env \<longleftrightarrow> tctx env = (\<lambda>_. None) \<and> refused env = (\<lambda>_. None) \<and> flush env = None"

lemma walk_sound:
  "undisturbed env \<Longrightarrow> sound t \<Longrightarrow> (names = [] \<longrightarrow> (\<exists>u ts. t = Folder u ts)) \<Longrightarrow>
      \<exists>v. walk env dir names t s = (None, s\<lparr>visits := v, entries := entries s @ map packed_entry (packed_files names t)\<rparr>)"
  "undisturbed env \<Longrightarrow> sound_below ts \<Longrightarrow>
      \<exists>v. walk_all env dir names ts s = (None, s\<lparr>visits := v, entries := entries s @ map packed_entry (packed_below names ts)\<rparr>)"
proof (induction env dir names t s and env dir names ts s rule: walk_walk_all.induct)
  case (1 env dir names f s)
  then obtain c where "fOpen f = Inr (c, None)" "fSize f = int (length c)" "names \<noteq> []"
    by (auto split: sum.splits)
  with 1 show ?case
    by (intro exI [of _ "Suc (visits s)"])
      (simp add: tar_tick_def undisturbed_def add_file_def copy_entry_def Let_def packed_entry_def)
next
  case (3 env dir names unlisted ts s)
  then obtain v where "walk_all env dir names ts (s\<lparr>visits := Suc (visits s)\<rparr>) =
      (None, s\<lparr>visits := v, entries := entries s @ map packed_entry (packed_below names ts)\<rparr>)"
    by (fastforce simp: tar_tick_def undisturbed_def)
  with 3 show ?case by (intro exI [of _ v]) (simp add: tar_tick_def undisturbed_def)
next
  case (4 env dir names s)
  show ?case by (intro exI [of _ "visits s"]) simp
next
  case (5 env dir names name t ts s)
  then obtain v where v: "walk env dir (names @ [name]) t s =
      (None, s\<lparr>visits := v, entries := entries s @ map packed_entry (packed_files (names @ [name]) t)\<rparr>)" by fastforce
  from 5(2) [OF v [symmetric] refl 5(3)] 5(4)
  obtain v' where "walk_all env dir names ts (s\<lparr>visits := v, entries := entries s @ map packed_entry (packed_files (names @ [name]) t)\<rparr>) =
      (None, s\<lparr>visits := v', entries := entries s @ map packed_entry (packed_files (names @ [name]) t @ packed_below names ts)\<rparr>)"
    by auto
  with v show ?case by (intro exI [of _ v']) simp
qed auto

lemma packed_names:
  "sound t \<Longrightarrow> f \<in> set (packed_files names t) \<Longrightarrow> \<exists>ms. fst f = names @ ms \<and> list_all plain ms \<and> ((\<exists>u ts. t = Folder u ts) \<longrightarrow> ms \<noteq> [])"
  "sound_below ts \<Longrightarrow> f \<in> set (packed_below names ts) \<Longrightarrow>
     \<exists>name ms. fst f = names @ name # ms \<and> name \<in> fst ` set ts \<and> list_all plain (name # ms)"
proof (induction names t and names ts rule: packed_files_packed_below.induct)
  case (3 names unlisted ts)
  then show ?case by fastforce
next
  case (5 names name t ts)
  from 5(4) consider "f \<in> set (packed_files (names @ [name]) t)" | "f \<in> set (packed_below names ts)" by auto
  then show ?case
  proof cases
    case 1
    with 5 obtain ms where "fst f = (names @ [name]) @ ms" "list_all plain ms" by auto
    with 5(3) show ?thesis by (intro exI [of _ name] exI [of _ ms]) simp
  next
    case 2
    with 5(2,3) obtain other ms where "fst f = names @ other # ms" "other \<in> fst ` set ts" "list_all plain (other # ms)"
      by auto
    then show ?thesis by (intro exI [of _ other] exI [of _ ms]) simp
  qed
qed (auto split: sum.splits)

lemma packed_apart:
  "sound t \<Longrightarrow> sorted_wrt (\<lambda>f g. apart (fst f) (fst g)) (packed_files names t)"
  "sound_below ts \<Longrightarrow> sorted_wrt (\<lambda>f g. apart (fst f) (fst g)) (packed_below names ts)"
proof (induction names t and names ts rule: packed_files_packed_below.induct)
  case (5 names name t ts)
  have "apart (fst f) (fst g)" if f: "f \<in> set (packed_files (names @ [name]) t)" and g: "g \<in> set (packed_below names ts)" for f g
  proof -
    from packed_names(1) [OF _ f] 5(3) obtain ms where 1: "fst f = names @ name # ms" by auto
    from packed_names(2) [OF _ g] 5(3) obtain other ms' where 2: "fst g = names @ other # ms'" "other \<in> fst ` set ts" by auto
    from 5(3) 2(2) have "name \<noteq> other" by auto
    with 1 2(1) show ?thesis by (simp add: apart_def)
  qed
  with 5 show ?case by (simp add: sorted_wrt_append)
qed (auto split: sum.splits)

lemma tardir_sound:
  assumes "undisturbed env" and "sound (Folder None ts)"
  shows "tardir env src (Folder None ts) = (None, map packed_entry (packed_files [] (Folder None ts)))"
proof -
  obtain v where "walk env src [] (Folder None ts) \<lparr>visits = 0, entries = []\<rparr> =
      (None, \<lparr>visits = v, entries = map packed_entry (packed_files [] (Folder None ts))\<rparr>)"
    using walk_sound(1) [OF assms, of "[]" src "\<lparr>visits = 0, entries = []\<rparr>"] by fastforce
  then show ?thesis using assms(1) by (simp add: tardir_def undisturbed_def)
qed

lemma archive_unpacks:
  assumes "sound (Folder None ts)" and "undisturbed env" and "base_ready dir d"
    and "\<And>ns. ns \<noteq> [] \<Longrightarrow> list_all plain ns \<Longrightarrow> nodes d (sub dir ns) = None"
    and "fits (packed_files [] (Folder None ts)) d"
  shows "\<exists>es d'. tardir env src (Folder None ts) = (None, es)
     \<and> untardir (Suc n) (\<lambda>_. None) dir (map as_read es) (Sentinel EOF) d = Some (Inr (), d')
     \<and> (\<forall>(ns, mode, mtime, content)\<in>set (packed_files [] (Folder None ts)).
           nodes d' (sub dir ns) = Some (FileNode (mode mod 2 ^ 32) content mtime))
     \<and> (\<forall>q. nodes d' q \<noteq> nodes d q \<longrightarrow> nodes d q = None \<and>
           (\<exists>f\<in>set (packed_files [] (Folder None ts)). q = sub dir (fst f) \<or> q \<in> folders dir (fst f)))"
proof -
  let ?fs = "packed_files [] (Folder None ts)" and ?d' = "fold (unpack dir) (packed_files [] (Folder None ts)) d"
  have names: "fst f \<noteq> [] \<and> list_all plain (fst f)" if "f \<in> set ?fs" for f
    using packed_names(1) [OF assms(1) that] by auto
  have room: "\<forall>f\<in>set ?fs. room_for dir (fst f) d"
    using names assms(4) by (auto simp: room_for_def folders_def plain_take)
  note apart = packed_apart(1) [OF assms(1), of "[]"]
  have "tardir env src (Folder None ts) = (None, map packed_entry ?fs)" by (rule tardir_sound [OF assms(2,1)])
  moreover have "untardir (Suc n) (\<lambda>_. None) dir (map as_read (map packed_entry ?fs)) (Sentinel EOF) d
      = Some (Inr (), ?d'\<lparr>handles := handles d\<rparr>)"
    using untar_loop_unpack [OF assms(3) apart room assms(5), of n 0] by (simp add: untardir_def)
  moreover have "\<forall>(ns, mode, mtime, content)\<in>set ?fs. nodes ?d' (sub dir ns) = Some (FileNode (mode mod 2 ^ 32) content mtime)"
    using fold_unpack_file [OF apart] names by blast
  moreover have "nodes d q = None \<and> (\<exists>f\<in>set ?fs. q = sub dir (fst f) \<or> q \<in> folders dir (fst f))"
    if "nodes ?d' q \<noteq> nodes d q" for q
  proof -
    have ex: "\<exists>f\<in>set ?fs. q = sub dir (fst f) \<or> q \<in> folders dir (fst f)" by (rule fold_unpack_only [OF that])
    then obtain ns where "q = sub dir ns" "ns \<noteq> []" "list_all plain ns"
      using names by (fastforce simp: folders_def plain_take)
    with assms(4) ex show ?thesis by simp
  qed
  ultimately show ?thesis by (intro exI [of _ "map packed_entry ?fs"] exI [of _ "?d'\<lparr>handles := handles d\<rparr>"]) simp
qed

text \<open>
  C5: Archives are lossless: when every folder of a directory can be listed and every file can be read
  and keeps its size, the archive of the directory unpacks, under an empty directory with enough
  space and file handles, to exactly its files, each with its content, mode and time; what was on
  the disk before stays as it was, and nothing but these files and their folders is new.
\<close>
theorem archive_roundtrip:
  assumes "sound (Folder None ts)" and "undisturbed env" and "base_ready dir d"
    and "\<And>ns. ns \<noteq> [] \<Longrightarrow> list_all plain ns \<Longrightarrow> nodes d (sub dir ns) = None"
    and "fits (packed_files [] (Folder None ts)) d"
  shows "\<exists>es d'. tardir env src (Folder None ts) = (None, es)
     \<and> untardir (Suc n) (\<lambda>_. None) dir (map as_read es) (Sentinel EOF) d = Some (Inr (), d')
     \<and> (\<forall>(ns, mode, mtime, content)\<in>set (packed_files [] (Folder None ts)).
           nodes d' (sub dir ns) = Some (FileNode (mode mod 2 ^ 32) content mtime))
     \<and> (\<forall>q. nodes d' q \<noteq> nodes d q \<longrightarrow> nodes d q = None \<and>
           (\<exists>f\<in>set (packed_files [] (Folder None ts)). q = sub dir (fst f) \<or> q \<in> folders dir (fst f)))"
  using assms by (rule archive_unpacks)

section \<open>What the names and the disk can do to the result\<close>

lemma clean_elems_back: "plain w \<Longrightarrow> clean_elems r out (cs @ w # ''..'' # ds) = clean_elems r out (cs @ ds)"
  by (induction r out cs rule: clean_elems.induct) (auto simp: plain_def split: list.splits)

lemma Join_escapes:
  assumes "clean_dir base" and "plain w" and "plain x"
  shows "Join [sub base [w], denormalizeName (''../'' @ x)] = sub base [x]"
proof -
  have "split_on slash (''../'' @ x) = [''..'', x]" using assms(3) by (simp add: plain_def)
  then have "denormalizeName (''../'' @ x) = ''../'' @ x"
    using assms(3) by (simp add: denormalizeName_def tarSeparator_def Join_def Clean_def plain_def)
  moreover have ne: "base \<noteq> []" by (rule clean_dir_nonempty [OF assms(1)])
  have "split_on slash (sub base [w] @ ''/../'' @ x) = split_on slash base @ [w, ''..'', x]"
    using assms(2,3) split_sub [of "[w]" base] split_append_slash [of "sub base [w]" "''../'' @ x"]
    by (simp add: plain_def)
  moreover have "split_on slash (sub base [x]) = split_on slash base @ [x]"
    using split_sub [of "[x]" base] assms(3) by simp
  ultimately have "Clean (sub base [w] @ ''/../'' @ x) = Clean (sub base [x])"
    using ne clean_elems_back [OF assms(2), of _ "[]" "split_on slash base" "[x]"]
    by (simp add: Clean_def Let_def sub_def)
  also have "\<dots> = sub base [x]" using clean_dir_sub [OF assms(1), of "[x]"] assms(3) by (simp add: clean_dir_def)
  finally show ?thesis
    using ne \<open>denormalizeName (''../'' @ x) = ''../'' @ x\<close> by (simp add: Join_def sub_def)
qed

text \<open>
  An archive can write outside the directory it is unpacked to: names are joined to it as they are,
  so an entry \<open>../x\<close> makes the file \<open>x\<close> beside the directory.
\<close>
theorem archive_escapes:
  assumes "base_ready base d" and "plain w" and "plain x" and "nodes d (sub base [x]) = None"
    and "length content \<le> space d" and "0 < handles d"
  shows "untar_entry (Suc n) (sub base [w])
     (\<lparr>hName = ''../'' @ x, hMode = mode, hModTime = mtime, hSize = int (length content)\<rparr>, content, None) d =
     Some (Inr (), unpack base ([x], mode, mtime, content) d)"
proof -
  have c: "clean_dir base" using assms(1) by (simp add: base_ready_def)
  have J: "Join [base, denormalizeName (normalizeName (join_slash [x]))] = sub base [x]"
    using Join_sub [OF c, of "[x]"] assms(3) by simp
  have "untar_entry (Suc n) (sub base [w])
     (\<lparr>hName = ''../'' @ x, hMode = mode, hModTime = mtime, hSize = int (length content)\<rparr>, content, None) d =
     untar_entry (Suc n) base (as_read (packed_entry ([x], mode, mtime, content))) d"
    unfolding untar_entry_def as_read_def packed_entry_def Let_def prod.case header.select_convs fst_conv snd_conv
      J Join_escapes [OF c assms(2,3)] by (rule refl)
  moreover have "room_for base [x] d" using assms(3,4) by (simp add: room_for_def folders_def)
  ultimately show ?thesis
    using untar_entry_unpack [of base d "[x]" content n mode mtime] assms by (simp add: base_ready_def)
qed

text \<open>
  Unpacking over an existing file keeps its content, and puts the new content under the next free
  name; but the times of the entry go to the existing file, and the new one keeps the current time.
\<close>
theorem collision_touches_existing:
  assumes "base_ready dir d" and "stem_ext stem ext"
    and "nodes d (version_of dir stem ext 0) = Some (FileNode m c t)" and "nodes d (version_of dir stem ext 1) = None"
    and "length content \<le> space d" and "0 < handles d"
  shows "\<exists>d'. untar_entry (Suc (Suc n)) dir (as_read (packed_entry ([stem @ ext], mode, mtime, content))) d = Some (Inr (), d')
     \<and> nodes d' (version_of dir stem ext 0) = Some (FileNode m c mtime)
     \<and> nodes d' (version_of dir stem ext 1) = Some (FileNode (mode mod 2 ^ 32) content (now d))"
proof -
  let ?v = "version_of dir stem ext"
  have c: "clean_dir dir" and base: "node_at d dir = Some DirNode" using assms(1) by (simp_all add: base_ready_def)
  have pl: "list_all plain [stem @ ext]" using assms(2) by (simp add: stem_ext_def)
  have path: "Join [dir, denormalizeName (normalizeName (join_slash [stem @ ext]))] = ?v 0"
    using Join_sub [OF c pl] by (simp add: sub_def version_of_def)
  have dirp: "Dir (?v 0) = dir" using Dir_sub [OF c, of "[]" "stem @ ext"] pl by (simp add: sub_def version_of_def)
  have w: "with_dirs (set (ancestors dir)) d = d"
    using assms(1) by (auto simp: with_dirs_def base_ready_def fun_eq_iff intro!: disk.equality)
  have mk: "MkdirAll (Dir (?v 0)) d = (Inr (), d)"
    unfolding MkdirAll_def dirp using assms(1) w mkdir_all_ok [of "ancestors dir" d] by (simp add: base_ready_def)
  let ?p = "mode mod 2 ^ 32"
  have create: "safeFilePath (Suc (Suc n)) (?v 0) ?p d = Some (Inr (?v 1), new_file (?v 1) ?p d)"
    using safeFilePath_search [OF c assms(2) base assms(6), of 0 1 "Suc (Suc n)" ?p] assms(3,4)
    by (simp add: max_int64_def)
  have ne: "?v 0 \<noteq> ?v 1" using version_inj [of dir stem ext 0 1] by auto
  have at: "node_at e (?v k) = nodes e (?v k)" for e k by (rule version_not_dots [OF assms(2)])
  show ?thesis
    using path mk create assms(3-5) ne ne [symmetric]
    by (simp add: untar_entry_def as_read_def packed_entry_def write_file_def Chtimes_def Let_def at new_file_def
        put_node_def del: safeFilePath.simps One_nat_def)
qed

lemma too_many_files:
  assumes "base_ready dir d" and "handles d = 0" and "room_for dir ns d"
  shows "\<exists>d'. untar_entry (Suc n) dir (as_read (packed_entry (ns, mode, mtime, content))) d =
    Some (Inl (wrapped ''failed to create tmp safe file'' (PathError ''open'' (sub dir ns) EMFILE)), d')"
proof -
  from assms(3) obtain ns' x where ns: "ns = ns' @ [x]" by (cases ns rule: rev_cases) (auto simp: room_for_def)
  have pl: "list_all plain ns" and c: "clean_dir dir" using assms(1,3) by (simp_all add: room_for_def base_ready_def)
  have path: "Join [dir, denormalizeName (normalizeName (join_slash ns))] = sub dir ns"
    by (rule Join_sub [OF c pl]) (simp add: ns)
  have dirp: "Dir (sub dir ns) = sub dir ns'" using Dir_sub [OF c, of ns' x] pl by (simp add: ns)
  have anc: "set (ancestors (sub dir ns')) = set (ancestors dir) \<union> folders dir ns"
    using ancestors_sub [OF c, of ns'] pl by (simp add: folders_snoc ns)
  have "MkdirAll (Dir (sub dir ns)) d = (Inr (), with_dirs (set (ancestors (sub dir ns'))) d)"
    unfolding MkdirAll_def dirp using assms(1,3) folders_plain [OF pl]
    by (intro mkdir_all_ok) (auto simp: anc room_for_def base_ready_def)
  moreover have "handles (with_dirs (set (ancestors (sub dir ns'))) d) = 0" using assms(2) by (simp add: with_dirs_def)
  ultimately show ?thesis
    using path by (simp add: untar_entry_def as_read_def packed_entry_def Let_def create_exclusive_def IsExist_def PathError_def)
qed

lemma unlisted_folder_skipped:
  "undisturbed env \<Longrightarrow> tardir env src (Folder None [(name, Folder (Some e) ts)]) = (None, [])"
  by (simp add: tardir_def tar_tick_def undisturbed_def)

lemma vanished_entry_panics:
  "undisturbed env \<Longrightarrow> fst (tardir env src (Gone e)) = Some Panicked"
  by (simp add: tardir_def tar_tick_def undisturbed_def)

section \<open>A small directory\<close>

definition demo_leaf :: "string \<Rightarrow> int \<Rightarrow> tree" where
  "demo_leaf content mtime = Leaf \<lparr>fMode = 420, fModTime = mtime, fSize = int (length content), fOpen = Inr (content, None)\<rparr>"

definition demo_children :: "(string \<times> tree) list" where
  "demo_children = [(''a.txt'', demo_leaf ''one'' 7), (''s'', Folder None [(''b'', demo_leaf ''two'' 8)])]"

definition demo_env :: tar_env where
  "demo_env = \<lparr>tctx = (\<lambda>_. None), refused = (\<lambda>_. None), flush = None\<rparr>"

definition out_disk :: disk where
  "out_disk = \<lparr>nodes = [''out'' \<mapsto> DirNode], space = 1000, handles = 8, now = 9\<rparr>"

lemma out_ready: "nodes d ''out'' = Some DirNode \<Longrightarrow> base_ready ''out'' d"
  by (simp add: base_ready_def clean_dir_def Clean_def ancestors_def node_at_def)

lemma demo_plain_names: "plain ''a.txt''" "plain ''s''" "plain ''b''" "plain ''ds''" "plain ''x''"
  by (simp_all add: plain_def)

lemma demo_sound: "sound (Folder None demo_children)"
  by (simp add: demo_children_def demo_leaf_def demo_plain_names)

lemma demo_packed:
  "packed_below [] demo_children = [([''a.txt''], 420, 7, ''one''), ([''s'', ''b''], 420, 8, ''two'')]"
  by (simp add: demo_children_def demo_leaf_def)

theorem archive_roundtrip_witness:
  "\<exists>es d'. tardir demo_env ''src'' (Folder None demo_children) = (None, es)
     \<and> untardir 1 (\<lambda>_. None) ''out'' (map as_read es) (Sentinel EOF) out_disk = Some (Inr (), d')
     \<and> nodes d' ''out/a.txt'' = Some (FileNode 420 ''one'' 7) \<and> nodes d' ''out/s/b'' = Some (FileNode 420 ''two'' 8)"
proof -
  have 1: "undisturbed demo_env" "base_ready ''out'' out_disk"
    by (simp_all add: undisturbed_def demo_env_def out_ready out_disk_def)
  have 2: "nodes out_disk (sub ''out'' ns) = None" if "ns \<noteq> []" "list_all plain ns" for ns
    using that by (simp add: out_disk_def sub_def)
  have 3: "fits (packed_files [] (Folder None demo_children)) out_disk"
    by (simp add: demo_packed fits_def out_disk_def)
  from archive_roundtrip [OF demo_sound 1 2 3, of "''src''" 0] obtain es d' where
    r: "tardir demo_env ''src'' (Folder None demo_children) = (None, es)"
    "untardir 1 (\<lambda>_. None) ''out'' (map as_read es) (Sentinel EOF) out_disk = Some (Inr (), d')"
    "\<forall>(ns, mode, mtime, content)\<in>set (packed_files [] (Folder None demo_children)).
       nodes d' (sub ''out'' ns) = Some (FileNode (mode mod 2 ^ 32) content mtime)" by auto
  from r(3) have "nodes d' ''out/a.txt'' = Some (FileNode 420 ''one'' 7)" "nodes d' ''out/s/b'' = Some (FileNode 420 ''two'' 8)"
    by (simp_all add: demo_packed sub_def)
  with r show ?thesis by blast
qed

theorem archive_escapes_witness:
  "untar_entry 1 ''out/ds'' (\<lparr>hName = ''../x'', hMode = 420, hModTime = 7, hSize = 3\<rparr>, ''bad'', None) out_disk =
     Some (Inr (), unpack ''out'' ([''x''], 420, 7, ''bad'') out_disk)"
proof -
  have "base_ready ''out'' out_disk" by (simp add: out_ready out_disk_def)
  moreover have "nodes out_disk (sub ''out'' [''x'']) = None" "length ''bad'' \<le> space out_disk" "0 < handles out_disk"
    by (simp_all add: out_disk_def sub_def)
  ultimately show ?thesis
    using archive_escapes [OF _ demo_plain_names(4,5), of "''out''" out_disk "''bad''" 0 420 7] by (simp add: sub_def)
qed

theorem collision_touches_existing_witness:
  "\<exists>d'. untar_entry 2 ''out'' (as_read (packed_entry ([''a.txt''], 420, 7, ''new'')))
       (put_node ''out/a.txt'' (FileNode 384 ''old'' 5) out_disk) = Some (Inr (), d')
     \<and> nodes d' (version_of ''out'' ''a'' ''.txt'' 0) = Some (FileNode 384 ''old'' 7)
     \<and> nodes d' (version_of ''out'' ''a'' ''.txt'' 1) = Some (FileNode 420 ''new'' 9)"
proof -
  let ?d = "put_node ''out/a.txt'' (FileNode 384 ''old'' 5) out_disk"
  have v: "version_of ''out'' ''a'' ''.txt'' 0 = ''out/a.txt''" "version_of ''out'' ''a'' ''.txt'' 1 = ''out/a_(1).txt''"
    by code_simp+
  have "base_ready ''out'' ?d" by (simp add: out_ready out_disk_def put_node_def)
  moreover have "stem_ext ''a'' ''.txt''" by (simp add: stem_ext_def version_suffix_def plain_def Let_def)
  moreover have "nodes ?d (version_of ''out'' ''a'' ''.txt'' 0) = Some (FileNode 384 ''old'' 5)"
    "nodes ?d (version_of ''out'' ''a'' ''.txt'' 1) = None"
    unfolding v by (simp_all add: put_node_def out_disk_def)
  moreover have "length ''new'' \<le> space ?d" "0 < handles ?d" "now ?d = 9" by (simp_all add: out_disk_def put_node_def)
  ultimately show ?thesis
    using collision_touches_existing [of "''out''" ?d "''a''" "''.txt''" 384 "''old''" 5 "''new''" 0 420 7]
    by (simp add: numeral_2_eq_2)
qed

end
