(* ===== verification/Upload_Process.thy ===== *)
theory Upload_Process
  imports Chunk_Download Archive_Files
begin

text \<open>
  \<^verbatim>\<open>uploadProcess.start\<close> and \<^verbatim>\<open>sendHeartbeat\<close> of
  \<^verbatim>\<open>nerd/service/datatransfer/v1/upload_process.go\<close>: the goroutines \<open>tar | count | chunks | index\<close> with the
  pipes between them, the heartbeat, the channel of their errors, and the main goroutine. What a
  stage does is the function or the pipeline of the other theories, taken as one step at its end;
  what stages have in common are the pipes, the channel \<^verbatim>\<open>doneCh\<close> and the world. The bytes of a closed
  archive and the cutting of a stream into chunks are arguments.
\<close>

section \<open>The model\<close>

text \<open>\<^verbatim>\<open>ClientUploadInterface\<close>.\<close>

record 'w uploadClient =
  USendUploadHeartbeat :: "string \<Rightarrow> string \<Rightarrow> 'w \<Rightarrow> (goerr + bool) \<times> 'w"
  USendUploadSuccess :: "string \<Rightarrow> string \<Rightarrow> 'w \<Rightarrow> (goerr + unit) \<times> 'w"

record 'w uploadProcess =
  pclient :: "'w uploadClient"
  pdata :: "'w upload_env"
  pproject :: string
  pdataset :: string
  proot :: string
  plocal :: string
  ptar :: tar_env
  pencode :: "(header \<times> string) list \<Rightarrow> string"
  psplit :: "string \<Rightarrow> string list"
  pmarshal :: "json \<Rightarrow> string"
  pclock :: "'w \<Rightarrow> int"
  pcancel :: "'w \<Rightarrow> 'w"

datatype up_main = Awaiting | Counting | Returned "goerr + unit"

text \<open>
  The state: what the tar, count and chunks stages have left in their pipes once these are closed, the
  result of counting, whether the index stage has ended, the heartbeat, \<^verbatim>\<open>doneCh\<close>, and the main
  goroutine.
\<close>

record 'w up_state =
  tarred :: "string option"
  counted :: "(int \<times> goerr option) option"
  forwarded :: "string option"
  listed :: "string option"
  indexed :: bool
  beating_up :: bool
  doneCh :: "goerr option list"
  up_world :: 'w
  up_main :: up_main

definition up_start :: "'w \<Rightarrow> 'w up_state" where
  "up_start w = \<lparr>tarred = None, counted = None, forwarded = None, listed = None, indexed = False,
     beating_up = True, doneCh = [], up_world = w, up_main = Awaiting\<rparr>"

definition expired_upload :: goerr where
  "expired_upload = Fundamental ''upload failed because the server could not be reached for too long''"

text \<open>
  What \<^verbatim>\<open>start\<close> does once the index is there. An error of counting is wrapped from the wrong variable, which
  is nil, and so is the result.
\<close>

definition conclude :: "'w uploadProcess \<Rightarrow> int \<times> goerr option \<Rightarrow> 'w \<Rightarrow> (goerr + unit) \<times> 'w" where
  "conclude p cres w =
     (case snd cres of
        Some err \<Rightarrow> (Inr (), w)
      | None \<Rightarrow>
          call (uploadMetadata (pmarshal p) (pclock p w, pclock p w) (uctx (pdata p)) (uops (pdata p)) (fst cres)
                 (ubucket (pdata p)) (proot p)) (\<lambda>err. err) (\<lambda>_.
          call (USendUploadSuccess (pclient p) (pproject p) (pdataset p)) (wrapped ''failed to send dataset success message'') (\<lambda>_ w.
            (Inr (), w))) w)"

definition index_key :: "'w uploadProcess \<Rightarrow> string" where
  "index_key p = Join [proot p, IndexObjectKey]"

abbreviation pipeline :: "'w uploadProcess \<Rightarrow> ('w, string) upload_state \<Rightarrow> ('w, string) upload_state \<Rightarrow> bool" where
  "pipeline p \<equiv> (upload_step (pdata p) (WriteKey append_bytes))\<^sup>*\<^sup>*"

text \<open>
  The steps. A failed \<^verbatim>\<open>tardir\<close> leaves some bytes in its pipe and its error goes to the channel before the pipe
  is closed, and so it is with \<^verbatim>\<open>uploadChunks\<close>. A cancelled count leaves a part of the stream. The chunks
  stage may fail early, on the chunks of a part of the stream, before that is closed. The channel holds four errors.
\<close>

inductive up_step :: "'w uploadProcess \<Rightarrow> tree \<Rightarrow> 'w up_state \<Rightarrow> 'w up_state \<Rightarrow> bool" for p t where
  tar: "tarred s = None \<Longrightarrow> tardir (ptar p) (plocal p) t = (None, es) \<Longrightarrow>
     up_step p t s (s\<lparr>tarred := Some (pencode p es)\<rparr>)"
| tar_failed: "tarred s = None \<Longrightarrow> tardir (ptar p) (plocal p) t = (Some (Failed err), es) \<Longrightarrow> length (doneCh s) < 4 \<Longrightarrow>
     up_step p t s (s\<lparr>tarred := Some b, doneCh := doneCh s @ [Some err]\<rparr>)"
| count: "counted s = None \<Longrightarrow> tarred s = Some b \<Longrightarrow> countBytes (\<lambda>_. None) 0 b None 0 = cres \<Longrightarrow>
     up_step p t s (s\<lparr>counted := Some cres, forwarded := Some b\<rparr>)"
| count_cancelled: "counted s = None \<Longrightarrow> uctx (pdata p) (up_world s) = Some err \<Longrightarrow>
     up_step p t s (s\<lparr>counted := Some (0, Some err), forwarded := Some b\<rparr>)"
| chunks: "listed s = None \<Longrightarrow> forwarded s = Some b \<Longrightarrow> pipeline p (upload_start (psplit p b) None (up_world s) []) u \<Longrightarrow>
     uresult u = Some (Inr ()) \<Longrightarrow> up_step p t s (s\<lparr>listed := Some (uwriter u), up_world := uworld u\<rparr>)"
| chunks_failed: "listed s = None \<Longrightarrow> (case forwarded s of Some b \<Rightarrow> cs = psplit p b | None \<Rightarrow> \<exists>b. prefix cs (psplit p b)) \<Longrightarrow>
     pipeline p (upload_start cs None (up_world s) []) u \<Longrightarrow>
     uresult u = Some (Inl err) \<Longrightarrow> length (doneCh s) < 4 \<Longrightarrow>
     up_step p t s (s\<lparr>listed := Some (uwriter u), up_world := uworld u, doneCh := doneCh s @ [Some err]\<rparr>)"
| index: "\<not> indexed s \<Longrightarrow> listed s = Some x \<Longrightarrow> length (doneCh s) < 4 \<Longrightarrow>
     uploadIndex (uctx (pdata p)) (uops (pdata p)) (Inr x) (ubucket (pdata p)) (proot p) (up_world s) = (r, w) \<Longrightarrow>
     up_step p t s (s\<lparr>indexed := True, up_world := w,
       doneCh := doneCh s @ [case r of Inl err \<Rightarrow> Some err | Inr _ \<Rightarrow> None]\<rparr>)"
| beat: "beating_up s \<Longrightarrow> USendUploadHeartbeat (pclient p) (pproject p) (pdataset p) (up_world s) = (r, w) \<Longrightarrow>
     r \<noteq> Inr True \<Longrightarrow> up_step p t s (s\<lparr>up_world := w\<rparr>)"
| expire: "beating_up s \<Longrightarrow> USendUploadHeartbeat (pclient p) (pproject p) (pdataset p) (up_world s) = (Inr True, w) \<Longrightarrow>
     length (doneCh s) < 4 \<Longrightarrow>
     up_step p t s (s\<lparr>up_world := pcancel p w, doneCh := doneCh s @ [Some expired_upload]\<rparr>)"
| stop_beat: "beating_up s \<Longrightarrow> uctx (pdata p) (up_world s) \<noteq> None \<Longrightarrow> up_step p t s (s\<lparr>beating_up := False\<rparr>)"
| fail: "up_main s = Awaiting \<Longrightarrow> doneCh s = Some err # q \<Longrightarrow>
     up_step p t s (s\<lparr>doneCh := q, up_main := Returned (Inl err), up_world := pcancel p (up_world s)\<rparr>)"
| pass: "up_main s = Awaiting \<Longrightarrow> doneCh s = None # q \<Longrightarrow> up_step p t s (s\<lparr>doneCh := q, up_main := Counting\<rparr>)"
| finish: "up_main s = Counting \<Longrightarrow> counted s = Some cres \<Longrightarrow> conclude p cres (up_world s) = (r, w) \<Longrightarrow>
     up_step p t s (s\<lparr>up_main := Returned r, up_world := pcancel p w\<rparr>)"

section \<open>A success is the whole truth\<close>

text \<open>
  What is asked of the outside: the object store keeps its contract, the batch API and the cancelling of
  the context leave the objects alone, nobody but the process itself cancels the context, the hashes of the chunks are keys that tell them apart, the
  roots are plain paths, and the store holds nothing else under the keys of the chunks.
\<close>

definition upload_ready :: "'w uploadProcess \<Rightarrow> tree \<Rightarrow> ('w \<Rightarrow> objects) \<Rightarrow> 'w \<Rightarrow> bool" where
  "upload_ready p t stored w \<longleftrightarrow>
     object_store (ops_upload (uops (pdata p))) (ops_download (uops (pdata p))) (ops_exists (uops (pdata p))) stored \<and>
     (\<forall>a b w. stored (snd (USendUploadHeartbeat (pclient p) a b w)) = stored w) \<and>
     (\<forall>a b w. stored (snd (USendUploadSuccess (pclient p) a b w)) = stored w) \<and>
     (\<forall>w. stored (pcancel p w) = stored w) \<and>
     uctx (pdata p) w = None \<and> patient (uctx (pdata p)) (uops (pdata p)) \<and>
     (\<forall>a b w. uctx (pdata p) w = None \<longrightarrow> uctx (pdata p) (snd (USendUploadHeartbeat (pclient p) a b w)) = None) \<and>
     (\<exists>rs. uroot (pdata p) = join_slash rs \<and> rs \<noteq> [] \<and> list_all plain rs) \<and>
     (\<exists>ds. proot p = join_slash ds \<and> ds \<noteq> [] \<and> list_all plain ds) \<and>
     (\<forall>c. is_key (usha (pdata p) c)) \<and>
     (\<forall>es. tardir (ptar p) (plocal p) t = (None, es) \<longrightarrow>
        inj_on (usha (pdata p)) (set (psplit p (pencode p es))) \<and> consistent (pdata p) (stored w) (psplit p (pencode p es)))"

text \<open>The chunks of a stream and the index are in the store.\<close>

definition chunks_stored :: "'w uploadProcess \<Rightarrow> objects \<Rightarrow> string \<Rightarrow> bool" where
  "chunks_stored p st b \<longleftrightarrow> (\<forall>c\<in>set (psplit p b).
     st (ubucket (pdata p), chunk_key (usha (pdata p)) (uroot (pdata p)) c) = Some c)"

definition index_stored :: "'w uploadProcess \<Rightarrow> objects \<Rightarrow> string \<Rightarrow> bool" where
  "index_stored p st b \<longleftrightarrow>
     st (ubucket (pdata p), index_key p) = Some (index_text (map (usha (pdata p)) (psplit p b)))"

text \<open>The first thing the main goroutine hears is an error.\<close>

definition poisoned :: "'w up_state \<Rightarrow> bool" where
  "poisoned s \<longleftrightarrow> (up_main s = Awaiting \<and> (\<exists>e q. doneCh s = Some e # q)) \<or> (\<exists>e. up_main s = Returned (Inl e))"

definition counted_ok :: "'w up_state \<Rightarrow> bool" where
  "counted_ok s \<longleftrightarrow> (\<exists>n. counted s = Some (n, None))"

text \<open>The metadata object says the size that was counted.\<close>

definition metadata_stored :: "'w uploadProcess \<Rightarrow> objects \<Rightarrow> int \<Rightarrow> bool" where
  "metadata_stored p st n \<longleftrightarrow> (\<exists>m j. Size m = n \<and> encode_metadata m = Inr j \<and>
     st (ubucket (pdata p), Join [proot p, MetadataObjectKey]) = Some (pmarshal p j))"

definition clean :: "'w up_state \<Rightarrow> bool" where
  "clean s \<longleftrightarrow> \<not> poisoned s \<and> (counted s = None \<or> counted_ok s)"

definition archive_of :: "'w uploadProcess \<Rightarrow> tree \<Rightarrow> string \<Rightarrow> bool" where
  "archive_of p t b \<longleftrightarrow> (\<exists>es. tardir (ptar p) (plocal p) t = (None, es) \<and> b = pencode p es)"

text \<open>
  The invariant. Before the index stage ends, the channel holds errors only; before the chunks stage does, the
  store is as it was. In a clean run what is tarred is the archive, what is listed are its chunks, and
  they are stored; once the index stage has ended its object is stored too, and so is the
  metadata when the whole succeeds.
\<close>

definition up_inv :: "'w uploadProcess \<Rightarrow> tree \<Rightarrow> ('w \<Rightarrow> objects) \<Rightarrow> 'w \<Rightarrow> 'w up_state \<Rightarrow> bool" where
  "up_inv p t stored w0 s \<longleftrightarrow>
     (\<not> indexed s \<longrightarrow> None \<notin> set (doneCh s) \<and> (up_main s = Awaiting \<or> (\<exists>e. up_main s = Returned (Inl e)))) \<and>
     (indexed s \<longrightarrow> listed s \<noteq> None) \<and>
     (listed s = None \<longrightarrow> stored (up_world s) = stored w0) \<and>
     (counted_ok s \<longrightarrow> (\<exists>b. tarred s = Some b \<and> forwarded s = Some b \<and> counted s = Some (wrap64 (int (length b)), None))) \<and>
     (listed s \<noteq> None \<longrightarrow> poisoned s \<or> counted s \<noteq> None) \<and>
     (forwarded s \<noteq> None \<longrightarrow> counted s \<noteq> None) \<and>
     (\<forall>b. clean s \<longrightarrow> tarred s = Some b \<longrightarrow> archive_of p t b) \<and>
     (\<forall>b. clean s \<longrightarrow> tarred s = Some b \<longrightarrow> listed s \<noteq> None \<longrightarrow>
        listed s = Some (index_text (map (usha (pdata p)) (psplit p b))) \<and> chunks_stored p (stored (up_world s)) b) \<and>
     (\<forall>b. clean s \<longrightarrow> tarred s = Some b \<longrightarrow> indexed s \<longrightarrow> index_stored p (stored (up_world s)) b) \<and>
     (\<forall>n. up_main s = Returned (Inr ()) \<longrightarrow> counted s = Some (n, None) \<longrightarrow> metadata_stored p (stored (up_world s)) n)"

lemma poisoned_stable: "up_step p t s s' \<Longrightarrow> poisoned s \<Longrightarrow> poisoned s'"
  by (erule up_step.cases) (auto simp: poisoned_def)

lemma counted_stable: "up_step p t s s' \<Longrightarrow> counted s \<noteq> None \<Longrightarrow> counted s' = counted s"
  by (erule up_step.cases) auto

lemma clean_before: "up_step p t s s' \<Longrightarrow> clean s' \<Longrightarrow> clean s"
  using poisoned_stable [of p t s s'] counted_stable [of p t s s'] by (auto simp: clean_def counted_ok_def)

lemma poisoned_by_error:
  assumes "None \<notin> set (doneCh s)" and "up_main s = Awaiting \<or> (\<exists>e. up_main s = Returned (Inl e))"
    and "doneCh s' = doneCh s @ [Some e]" and "up_main s' = up_main s"
  shows "poisoned s'"
  using assms by (cases "doneCh s") (auto simp: poisoned_def)

text \<open>What the last steps write.\<close>

lemma uploadIndex_stored:
  assumes "object_store (ops_upload ops) (ops_download ops) (ops_exists ops) stored"
    and "uploadIndex ctx ops (Inr x) b r w = (res, w')"
  shows "stored w' = stored w \<or> stored w' = (stored w)((b, Join [r, IndexObjectKey]) := Some x)"
    and "res = Inr u \<Longrightarrow> stored w' = (stored w)((b, Join [r, IndexObjectKey]) := Some x)"
proof -
  note store = client_store [OF assms(1), of ctx]
  have up: "Client_Upload ctx ops b (Join [r, IndexObjectKey]) x w = (res, w')"
    using assms(2) by (simp add: uploadIndex_def)
  show "stored w' = stored w \<or> stored w' = (stored w)((b, Join [r, IndexObjectKey]) := Some x)"
    using object_store.upload_either [OF store, of b "Join [r, IndexObjectKey]" x w] up by simp
  show "res = Inr u \<Longrightarrow> stored w' = (stored w)((b, Join [r, IndexObjectKey]) := Some x)"
    using object_store.upload_ok [OF store] up by simp
qed

lemma conclude_stored:
  assumes "upload_ready p t stored w0" and "conclude p cres w = (r, w')"
    and "k \<noteq> (ubucket (pdata p), Join [proot p, MetadataObjectKey])"
  shows "stored w' k = stored w k"
proof -
  have st: "object_store (ops_upload (uops (pdata p))) (ops_download (uops (pdata p))) (ops_exists (uops (pdata p))) stored"
    and quiet: "\<And>a b w. stored (snd (USendUploadSuccess (pclient p) a b w)) = stored w"
    using assms(1) by (simp_all add: upload_ready_def)
  note store = client_store [OF st, of "uctx (pdata p)"]
  have up: "stored (snd (Client_Upload (uctx (pdata p)) (uops (pdata p)) (ubucket (pdata p)) (Join [proot p, MetadataObjectKey]) x w)) k
      = stored w k" for x w
    using object_store.upload_either [OF store, of "ubucket (pdata p)" "Join [proot p, MetadataObjectKey]" x w] assms(3)
    by auto
  show ?thesis
  proof (cases "snd cres")
    case None
    then show ?thesis
      using assms(2) up quiet
      by (auto simp: conclude_def uploadMetadata_def MetadataUpload_def call_def check_def
          split: prod.splits sum.splits) (metis snd_conv)+
  qed (use assms(2) in \<open>simp add: conclude_def\<close>)
qed

lemma conclude_metadata:
  assumes "upload_ready p t stored w0" and "conclude p (n, None) w = (Inr u, w')"
  shows "metadata_stored p (stored w') n"
proof -
  have st: "object_store (ops_upload (uops (pdata p))) (ops_download (uops (pdata p))) (ops_exists (uops (pdata p))) stored"
    and quiet: "\<And>a b w. stored (snd (USendUploadSuccess (pclient p) a b w)) = stored w"
    using assms(1) by (simp_all add: upload_ready_def)
  note store = client_store [OF st, of "uctx (pdata p)"]
  let ?m = "\<lparr>Created = pclock p w, Updated = pclock p w, Size = n\<rparr>"
  from assms(2) obtain j w1 where j: "encode_metadata ?m = Inr j"
    "Client_Upload (uctx (pdata p)) (uops (pdata p)) (ubucket (pdata p)) (Join [proot p, MetadataObjectKey]) (pmarshal p j) w = (Inr (), w1)"
    "USendUploadSuccess (pclient p) (pproject p) (pdataset p) w1 = (Inr (), w')"
    by (auto simp: conclude_def uploadMetadata_def MetadataUpload_def call_Inr_iff check_Inr_iff)
  have "stored w' = stored w1" using quiet [of "pproject p" "pdataset p" w1] j(3) by simp
  also have "\<dots> = (stored w)((ubucket (pdata p), Join [proot p, MetadataObjectKey]) := Some (pmarshal p j))"
    using object_store.upload_ok [OF store j(2)] .
  finally show ?thesis using j(1) by (auto simp: metadata_stored_def intro!: exI [of _ ?m])
qed

lemma chunk_apart:
  assumes "upload_ready p t stored w0"
  shows "(ubucket (pdata p), chunk_key (usha (pdata p)) (uroot (pdata p)) c) \<noteq> (ubucket (pdata p), Join [proot p, IndexObjectKey])"
    and "(ubucket (pdata p), chunk_key (usha (pdata p)) (uroot (pdata p)) c) \<noteq> (ubucket (pdata p), Join [proot p, MetadataObjectKey])"
    and "(ubucket (pdata p), Join [proot p, IndexObjectKey]) \<noteq> (ubucket (pdata p), Join [proot p, MetadataObjectKey])"
proof -
  from assms obtain rs ds where r: "uroot (pdata p) = join_slash rs" "rs \<noteq> []" "list_all plain rs"
    and d: "proot p = join_slash ds" "ds \<noteq> []" "list_all plain ds"
    and k: "is_key (usha (pdata p) c)" unfolding upload_ready_def by metis
  show "(ubucket (pdata p), chunk_key (usha (pdata p)) (uroot (pdata p)) c) \<noteq> (ubucket (pdata p), Join [proot p, IndexObjectKey])"
    using index_key_apart [OF r(2,3) d(2,3) k] by (auto simp: r d chunk_key_def key_object_def)
  show "(ubucket (pdata p), chunk_key (usha (pdata p)) (uroot (pdata p)) c) \<noteq> (ubucket (pdata p), Join [proot p, MetadataObjectKey])"
    using metadata_key_apart [OF r(2,3) d(2,3) k] by (auto simp: r d chunk_key_def key_object_def)
  have "join_slash (ds @ [IndexObjectKey]) \<noteq> join_slash (ds @ [MetadataObjectKey])"
    using join_slash_inj [of "ds @ [IndexObjectKey]" "ds @ [MetadataObjectKey]"] d named_objects by simp
  then show "(ubucket (pdata p), Join [proot p, IndexObjectKey]) \<noteq> (ubucket (pdata p), Join [proot p, MetadataObjectKey])"
    using Join_snoc [OF d(2,3) named_objects(1)] Join_snoc [OF d(2,3) named_objects(2)] by (simp add: d)
qed

lemma chunks_stage:
  assumes "upload_ready p t stored w0" and "archive_of p t b" and "stored w = stored w0" and "uctx (pdata p) w = None"
    and "pipeline p (upload_start (psplit p b) None w []) u" and "uresult u = Some (Inr ())"
  shows "uwriter u = index_text (map (usha (pdata p)) (psplit p b)) \<and> chunks_stored p (stored (uworld u)) b"
proof -
  from assms(1) obtain rs where r: "uroot (pdata p) = join_slash rs" "rs \<noteq> []" "list_all plain rs"
    unfolding upload_ready_def by metis
  from assms(1,2) have "object_store (ops_upload (uops (pdata p))) (ops_download (uops (pdata p))) (ops_exists (uops (pdata p))) stored"
    and "\<And>c. is_key (usha (pdata p) c)" and "inj_on (usha (pdata p)) (set (psplit p b))"
    and "consistent (pdata p) (stored w) (psplit p b)" and "patient (uctx (pdata p)) (uops (pdata p))"
    using assms(3) by (auto simp: upload_ready_def archive_of_def)
  from upload_chunks_complete_lemma [OF this(1) r this(2-5) assms(4-6)] show ?thesis
    by (simp add: chunks_stored_def)
qed

lemma pipeline_live:
  assumes "upload_ready p t stored w0" and "pipeline p (upload_start cs e w x) u" and "uctx (pdata p) w = None"
  shows "uctx (pdata p) (uworld u) = None"
  using upload_steps_live [OF assms(2)] assms(1,3) by (simp add: upload_ready_def upload_start_def)

lemma stored_facts_cong:
  assumes "\<And>k. k \<noteq> (ubucket (pdata p), Join [proot p, MetadataObjectKey]) \<Longrightarrow> st' k = st k"
    and "upload_ready p t stored w0"
  shows "chunks_stored p st' b = chunks_stored p st b" and "index_stored p st' b = index_stored p st b"
  using assms(1) chunk_apart(2,3) [OF assms(2)] by (simp_all add: chunks_stored_def index_stored_def index_key_def)

text \<open>
  Before the index stage ends, whoever finds the context cancelled comes too late: the error of the heartbeat is the
  first in the channel. So it is with a count that fails.
\<close>

definition calm :: "'w uploadProcess \<Rightarrow> 'w up_state \<Rightarrow> bool" where
  "calm p s \<longleftrightarrow> (indexed s \<or> poisoned s \<or> uctx (pdata p) (up_world s) = None) \<and> (counted s = None \<or> counted_ok s \<or> poisoned s)"

lemma up_step_calm:
  assumes ready: "upload_ready p t stored w0" and st: "up_step p t s s'" and inv: "up_inv p t stored w0 s" and calm: "calm p s"
  shows "calm p s'"
proof (cases "poisoned s")
  case True
  with poisoned_stable [OF st] show ?thesis by (simp add: calm_def)
next
  case False
  have late: "counted s \<noteq> None" if "indexed s" using inv that False by (auto simp: up_inv_def)
  have early: "None \<notin> set (doneCh s)" "up_main s = Awaiting \<or> (\<exists>e. up_main s = Returned (Inl e))" if "\<not> indexed s"
    using inv that by (simp_all add: up_inv_def)
  have live: "indexed s \<or> uctx (pdata p) (up_world s) = None" and count: "counted s = None \<or> counted_ok s"
    using calm False by (auto simp: calm_def)
  from st show ?thesis
  proof cases
    case (count b cres)
    then have "counted_ok s'" by (auto simp: countBytes_all counted_ok_def)
    with count live show ?thesis by (auto simp: calm_def)
  next
    case (count_cancelled err b)
    with live late show ?thesis by auto
  next
    case (chunks b u)
    have "\<not> indexed s" using chunks(2) inv by (auto simp: up_inv_def)
    with pipeline_live [OF ready chunks(4)] live chunks(1) count show ?thesis by (auto simp: calm_def counted_ok_def)
  next
    case (chunks_failed cs u err)
    then have "\<not> indexed s" using inv by (auto simp: up_inv_def)
    with early poisoned_by_error [of s s' err] chunks_failed(1) have "poisoned s'" by simp
    then show ?thesis by (simp add: calm_def)
  next
    case (index x r w)
    with count show ?thesis by (auto simp: calm_def counted_ok_def)
  next
    case (beat r w)
    then have "uctx (pdata p) (up_world s) = None \<Longrightarrow> uctx (pdata p) w = None"
      using ready unfolding upload_ready_def by (metis snd_conv)
    with beat live count show ?thesis by (auto simp: calm_def counted_ok_def)
  next
    case (expire w)
    show ?thesis
    proof (cases "indexed s")
      case True
      with expire(1) count show ?thesis by (auto simp: calm_def counted_ok_def)
    next
      case not_indexed: False
      with early poisoned_by_error [of s s' expired_upload] expire(1) have "poisoned s'" by simp
      then show ?thesis by (simp add: calm_def)
    qed
  next
    case (fail err q)
    then show ?thesis by (simp add: calm_def poisoned_def)
  next
    case (pass q)
    then have "indexed s" using early(1) by auto
    with pass(1) count show ?thesis by (auto simp: calm_def counted_ok_def)
  next
    case (finish cres r w)
    then have "indexed s" using early(2) by auto
    with finish(1) count show ?thesis by (auto simp: calm_def counted_ok_def)
  qed (use live count in \<open>auto simp: calm_def counted_ok_def\<close>)
qed

lemma up_step_inv:
  assumes ready: "upload_ready p t stored w0" and st: "up_step p t s s'" and inv: "up_inv p t stored w0 s" and calm: "calm p s"
  shows "up_inv p t stored w0 s'"
proof -
  note cb = clean_before [OF st]
  from ready have quiet: "\<And>a b w. stored (snd (USendUploadHeartbeat (pclient p) a b w)) = stored w"
    "\<And>w. stored (pcancel p w) = stored w" by (simp_all add: upload_ready_def)
  from st show ?thesis
  proof cases
    case (tar es)
    have u: "up_main s' = up_main s" "counted s' = counted s" "tarred s' = Some (pencode p es)" "forwarded s' = forwarded s"
      "listed s' = listed s" "indexed s' = indexed s" "up_world s' = up_world s" "doneCh s' = doneCh s"
      using tar(1) by simp_all
    have "\<not> counted_ok s" using inv tar(2) by (auto simp: up_inv_def)
    moreover have "counted s = None" if "clean s" using that calculation by (simp add: clean_def)
    moreover have "poisoned s' = poisoned s" by (simp add: poisoned_def u)
    moreover have "archive_of p t (pencode p es)" using tar(3) by (auto simp: archive_of_def)
    moreover have "poisoned s \<or> counted s \<noteq> None" if "listed s \<noteq> None" using inv that by (simp add: up_inv_def)
    ultimately show ?thesis using inv cb
      unfolding up_inv_def u counted_ok_def clean_def by (intro conjI) auto
  next
    case (tar_failed err es b)
    have "\<not> clean s'"
    proof (cases "indexed s")
      case False
      then have "poisoned s'"
        using inv tar_failed by (intro poisoned_by_error [of s _ err]) (auto simp: up_inv_def)
      then show ?thesis by (simp add: clean_def)
    next
      case True
      then have "poisoned s \<or> counted s \<noteq> None" using inv by (auto simp: up_inv_def)
      moreover have "\<not> counted_ok s" using inv tar_failed by (auto simp: up_inv_def)
      ultimately have "\<not> clean s" by (auto simp: clean_def)
      with cb show ?thesis by blast
    qed
    moreover have "poisoned s \<Longrightarrow> poisoned s'" by (rule poisoned_stable [OF st])
    ultimately show ?thesis using inv tar_failed by (auto simp: up_inv_def counted_ok_def)
  next
    case (count b cres)
    then have "cres = (wrap64 (int (length b)), None)" by (simp add: countBytes_all)
    then have u: "counted s' = Some (wrap64 (int (length b)), None)" "tarred s' = Some b" "forwarded s' = Some b"
      "up_main s' = up_main s" "listed s' = listed s" "indexed s' = indexed s" "up_world s' = up_world s" "doneCh s' = doneCh s"
      using count(1,3) by simp_all
    have "clean s' = clean s" using count(2) by (simp add: clean_def counted_ok_def poisoned_def u)
    moreover have "poisoned s' = poisoned s" by (simp add: poisoned_def u)
    moreover have "up_main s \<noteq> Returned (Inr ())"
      using count(2) inv by (auto simp: up_inv_def poisoned_def)
    ultimately show ?thesis using inv count(2,3)
      unfolding up_inv_def u counted_ok_def by simp
  next
    case (count_cancelled err b)
    then have "\<not> clean s'" by (simp add: clean_def counted_ok_def)
    with count_cancelled inv show ?thesis by (auto simp: up_inv_def counted_ok_def)
  next
    case (chunks b u)
    have "uwriter u = index_text (map (usha (pdata p)) (psplit p b')) \<and> chunks_stored p (stored (uworld u)) b'"
      if c: "clean s'" and b': "tarred s' = Some b'" for b'
    proof -
      from c cb have "clean s" by blast
      moreover have "counted s \<noteq> None" using inv chunks by (auto simp: up_inv_def)
      ultimately have "b' = b" "archive_of p t b" using inv chunks b' by (auto simp: up_inv_def clean_def)
      moreover have "stored (up_world s) = stored w0" using inv chunks by (simp add: up_inv_def)
      moreover have "uctx (pdata p) (up_world s) = None"
        using calm \<open>clean s\<close> inv chunks(2) by (auto simp: calm_def clean_def up_inv_def)
      ultimately show ?thesis using chunks_stage [OF ready _ _ _ chunks(4,5)] by simp
    qed
    with chunks inv cb show ?thesis by (auto simp: up_inv_def poisoned_def counted_ok_def)
  next
    case (chunks_failed cs u err)
    then have "\<not> indexed s" using inv by (auto simp: up_inv_def)
    then have "poisoned s'"
      using inv chunks_failed by (intro poisoned_by_error [of s _ err]) (auto simp: up_inv_def)
    with chunks_failed inv \<open>\<not> indexed s\<close> show ?thesis
      by (auto simp: up_inv_def clean_def counted_ok_def)
  next
    case (index x r w)
    from ready have store: "object_store (ops_upload (uops (pdata p))) (ops_download (uops (pdata p))) (ops_exists (uops (pdata p))) stored"
      by (simp add: upload_ready_def)
    from index inv have early: "None \<notin> set (doneCh s)" "up_main s = Awaiting \<or> (\<exists>e. up_main s = Returned (Inl e))"
      by (simp_all add: up_inv_def)
    show ?thesis
    proof (cases r)
      case (Inl err)
      with index early have "poisoned s'" by (intro poisoned_by_error [of s _ err]) simp_all
      with index inv early(2) show ?thesis by (auto simp: up_inv_def clean_def counted_ok_def)
    next
      case (Inr u)
      then have w: "stored w = (stored (up_world s))((ubucket (pdata p), Join [proot p, IndexObjectKey]) := Some x)"
        using uploadIndex_stored(2) [OF store index(5)] by simp
      then have "chunks_stored p (stored w) b = chunks_stored p (stored (up_world s)) b" for b
        using chunk_apart(1) [OF ready] by (simp add: chunks_stored_def)
      moreover have "index_stored p (stored w) b" if "x = index_text (map (usha (pdata p)) (psplit p b))" for b
        using w that by (simp add: index_stored_def index_key_def)
      moreover have u: "counted s' = counted s" "tarred s' = tarred s" "forwarded s' = forwarded s" "up_main s' = up_main s"
        "listed s' = listed s" "indexed s'" "up_world s' = w" using index(1) by simp_all
      ultimately show ?thesis using cb inv early(2) index(3) poisoned_stable [OF st]
        unfolding up_inv_def u counted_ok_def by (intro conjI) auto
    qed
  next
    case (beat r w)
    then have "stored w = stored (up_world s)" using quiet(1) by (metis snd_conv)
    with beat inv cb show ?thesis by (simp add: up_inv_def poisoned_def counted_ok_def clean_def)
  next
    case (expire w)
    then have "stored (pcancel p w) = stored (up_world s)" using quiet by (metis snd_conv)
    moreover have u: "counted s' = counted s" "tarred s' = tarred s" "forwarded s' = forwarded s" "up_main s' = up_main s"
      "listed s' = listed s" "indexed s' = indexed s" "up_world s' = pcancel p w" "set (doneCh s') = insert (Some expired_upload) (set (doneCh s))"
      using expire(1) by simp_all
    ultimately show ?thesis using cb inv poisoned_stable [OF st]
      unfolding up_inv_def u counted_ok_def by (intro conjI) auto
  next
    case stop_beat
    with inv show ?thesis by (simp add: up_inv_def poisoned_def counted_ok_def clean_def)
  next
    case (fail err q)
    then have "poisoned s'" by (simp add: poisoned_def)
    with fail inv quiet(2) show ?thesis by (auto simp: up_inv_def clean_def counted_ok_def)
  next
    case (pass q)
    then have "indexed s" "\<not> poisoned s" using inv by (auto simp: up_inv_def poisoned_def)
    with pass inv cb show ?thesis by (auto simp: up_inv_def counted_ok_def poisoned_def)
  next
    case (finish cres r w)
    then have i: "indexed s" "\<not> poisoned s" using inv by (auto simp: up_inv_def poisoned_def)
    have k: "stored (pcancel p w) k = stored (up_world s) k" if "k \<noteq> (ubucket (pdata p), Join [proot p, MetadataObjectKey])" for k
      using conclude_stored [OF ready finish(4) that] quiet(2) by simp
    note same = stored_facts_cong [OF k ready, simplified]
    show ?thesis
    proof (cases r)
      case (Inl err)
      with finish Inl have "poisoned s'" by (simp add: poisoned_def)
      with finish Inl i inv show ?thesis by (auto simp: up_inv_def clean_def counted_ok_def)
    next
      case (Inr u)
      have meta: "metadata_stored p (stored (pcancel p w)) n" if "counted s = Some (n, None)" for n
        using conclude_metadata [OF ready, of n "up_world s" u w] finish(3,4) that Inr quiet(2) by simp
      have np: "\<not> poisoned s'" using Inr finish(1) by (simp add: poisoned_def)
      have u: "up_main s' = Returned (Inr ())" "counted s' = counted s" "tarred s' = tarred s" "forwarded s' = forwarded s"
        "listed s' = listed s" "indexed s' = indexed s" "up_world s' = pcancel p w" using Inr finish(1) by simp_all
      from i np cb finish(3) inv meta same show ?thesis
        unfolding up_inv_def u counted_ok_def clean_def by (intro conjI) auto
    qed
  qed
qed

lemma up_steps_inv:
  assumes "upload_ready p t stored w" and "(up_step p t)\<^sup>*\<^sup>* (up_start w) s"
  shows "up_inv p t stored w s \<and> calm p s"
  using assms(2)
proof (induction rule: rtranclp_induct)
  case base
  show ?case using assms(1) by (simp add: up_inv_def calm_def up_start_def counted_ok_def upload_ready_def)
next
  case (step s s')
  then show ?case using up_step_inv [OF assms(1)] up_step_calm [OF assms(1)] by blast
qed

lemma upload_complete:
  assumes "upload_ready p t stored w" and "(up_step p t)\<^sup>*\<^sup>* (up_start w) s" and "up_main s = Returned (Inr ())"
  shows "\<exists>es. tardir (ptar p) (plocal p) t = (None, es) \<and> counted s = Some (wrap64 (int (length (pencode p es))), None)
     \<and> chunks_stored p (stored (up_world s)) (pencode p es) \<and> index_stored p (stored (up_world s)) (pencode p es)
     \<and> metadata_stored p (stored (up_world s)) (wrap64 (int (length (pencode p es))))"
proof -
  have inv: "up_inv p t stored w s" and calm: "calm p s" using up_steps_inv [OF assms(1,2)] by simp_all
  have np: "\<not> poisoned s" using assms(3) by (simp add: poisoned_def)
  have i: "indexed s" "listed s \<noteq> None" using inv assms(3) by (auto simp: up_inv_def)
  have "counted s \<noteq> None" using inv np i(2) by (simp add: up_inv_def)
  with calm np have ok: "counted_ok s" by (simp add: calm_def)
  then have clean: "clean s" using np by (simp add: clean_def)
  from inv ok obtain b where b: "tarred s = Some b" "counted s = Some (wrap64 (int (length b)), None)"
    by (auto simp: up_inv_def)
  from inv clean b(1) obtain es where "tardir (ptar p) (plocal p) t = (None, es)" "b = pencode p es"
    by (auto simp: up_inv_def archive_of_def)
  with inv clean b i assms(3) show ?thesis unfolding up_inv_def by (intro exI [of _ es]) simp
qed

text \<open>
  C3: A dataset is only reported as uploaded when all of it is there: if \<^verbatim>\<open>start\<close> returns without an error, in
  whatever order its goroutines ran and whatever the heartbeats said, then the whole directory was archived, the size of
  the archive was counted without an error, and its chunks, the index
  that lists them in order and the metadata with that size are in the object store. This is for a context that nobody
  cancels but the process itself, as the commands have it. (Of one that is cancelled from outside it is not true: the
  fan-out skips chunks, and a count that fails is taken for a success.)
\<close>
theorem upload_success_is_complete:
  assumes "upload_ready p t stored w" and "(up_step p t)\<^sup>*\<^sup>* (up_start w) s" and "up_main s = Returned (Inr ())"
  shows "\<exists>es. tardir (ptar p) (plocal p) t = (None, es) \<and> counted s = Some (wrap64 (int (length (pencode p es))), None)
     \<and> chunks_stored p (stored (up_world s)) (pencode p es) \<and> index_stored p (stored (up_world s)) (pencode p es)
     \<and> metadata_stored p (stored (up_world s)) (wrap64 (int (length (pencode p es))))"
  using assms by (rule upload_complete)

section \<open>A small upload\<close>

definition demo_process :: "s3_world uploadProcess" where
  "demo_process = \<lparr>pclient = \<lparr>USendUploadHeartbeat = (\<lambda>_ _ w. (Inr False, w)), USendUploadSuccess = (\<lambda>_ _ w. (Inr (), w))\<rparr>,
     pdata = demo_up, pproject = ''pr'', pdataset = ''ds'', proot = ''d'', plocal = ''src'', ptar = demo_env,
     pencode = (\<lambda>_. ''hello''), psplit = (\<lambda>b. [b]), pmarshal = (\<lambda>_. ''{}''), pclock = (\<lambda>_. 0), pcancel = (\<lambda>w. w)\<rparr>"

lemma demo_ready: "upload_ready demo_process (Folder None demo_children) objs empty_s3"
  using s3_ops pad_key_is_key demo_plain demo_consistent
  by (auto simp: upload_ready_def demo_process_def intro: exI [of _ "[''p'']"] exI [of _ "[''d'']"])

lemma demo_concluded: "\<exists>w. conclude demo_process (5, None) indexed_s3 = (Inr (), w)"
  by (simp add: conclude_def demo_process_def uploadMetadata_def MetadataUpload_def encode_metadata_def encode_time_def
      Client_Upload_def NoOfRetries_def numeral_2_eq_2 DataClient_def S3_Upload_def s3_table_def s3_put_def s3_call_def
      full_s3_def indexed_s3_def demo_up_def time_min_def time_max_def)

lemma demo_tar: "\<exists>es. tardir demo_env ''src'' (Folder None demo_children) = (None, es)"
  by (simp add: tardir_def demo_env_def demo_children_def demo_leaf_def tar_tick_def add_file_def copy_entry_def Let_def)

lemma up_run_through:
  assumes "tardir (ptar p) (plocal p) t = (None, es)"
    and "pipeline p (upload_start (psplit p (pencode p es)) None w []) u" and "uresult u = Some (Inr ())"
    and "uploadIndex (uctx (pdata p)) (uops (pdata p)) (Inr (uwriter u)) (ubucket (pdata p)) (proot p) (uworld u) = (Inr (), w2)"
    and "conclude p (wrap64 (int (length (pencode p es))), None) w2 = (Inr (), w3)"
    and run: "\<And>s. (up_step p t)\<^sup>*\<^sup>* (up_start w) s \<Longrightarrow> up_main s = Returned (Inr ()) \<Longrightarrow>
        counted s = Some (wrap64 (int (length (pencode p es))), None) \<Longrightarrow> up_world s = pcancel p w3 \<Longrightarrow> thesis"
  shows thesis
proof -
  let ?b = "pencode p es" and ?step = "up_step p t" and ?n = "(wrap64 (int (length (pencode p es))), None) :: int \<times> goerr option"
  let ?s0 = "up_start w"
  let ?s1 = "?s0\<lparr>tarred := Some ?b\<rparr>"
  let ?s2 = "?s1\<lparr>counted := Some ?n, forwarded := Some ?b\<rparr>"
  let ?s3 = "?s2\<lparr>listed := Some (uwriter u), up_world := uworld u\<rparr>"
  let ?s4 = "?s3\<lparr>indexed := True, up_world := w2, doneCh := [None]\<rparr>"
  let ?s5 = "?s4\<lparr>doneCh := [], up_main := Counting\<rparr>"
  let ?s6 = "?s5\<lparr>up_main := Returned (Inr ()), up_world := pcancel p w3\<rparr>"
  have "?step ?s0 ?s1" using up_step.tar [of ?s0 p t es] assms(1) by (simp add: up_start_def)
  moreover have "?step ?s1 ?s2"
    using up_step.count [of ?s1 ?b ?n p t] by (simp add: up_start_def countBytes_all)
  moreover have "?step ?s2 ?s3"
    using up_step.chunks [of ?s2 ?b p u t] assms(2,3) by (simp add: up_start_def)
  moreover have "?step ?s3 ?s4"
    using up_step.index [of ?s3 "uwriter u" p "Inr ()" w2 t] assms(4) by (simp add: up_start_def)
  moreover have "?step ?s4 ?s5" using up_step.pass [of ?s4 "[]" p t] by (simp add: up_start_def)
  moreover have "?step ?s5 ?s6"
    using up_step.finish [of ?s5 ?n p "Inr ()" w3 t] assms(5) by (simp add: up_start_def)
  ultimately have "?step\<^sup>*\<^sup>* ?s0 ?s6" by (meson converse_rtranclp_into_rtranclp rtranclp.rtrancl_refl)
  then show thesis by (rule run) simp_all
qed

lemma demo_process_values:
  "pdata demo_process = demo_up" "psplit demo_process = (\<lambda>b. [b])" "pencode demo_process = (\<lambda>_. ''hello'')"
  "ptar demo_process = demo_env" "plocal demo_process = ''src''" "proot demo_process = ''d''"
  by (simp_all add: demo_process_def)

lemma demo_upload_returns:
  obtains s where "(up_step demo_process (Folder None demo_children))\<^sup>*\<^sup>* (up_start empty_s3) s"
    and "up_main s = Returned (Inr ())" and "counted s = Some (5, None)"
proof -
  note proc = demo_process_values
  obtain u where u: "pipeline demo_process (upload_start [''hello''] None empty_s3 []) u"
    "uresult u = Some (Inr ())" "uworld u = full_s3" using demo_upload_run by (auto simp: proc)
  have uw: "uwriter u = index_text [pad_key ''hello'']"
    using upload_chunks_complete_lemma [where stored = objs and rs = "[''p'']" and v = demo_up, OF _ _ _ demo_plain(1) _ _ demo_consistent _ _]
      u by (simp add: s3_ops pad_key_is_key proc)
  obtain es where es: "tardir (ptar demo_process) (plocal demo_process) (Folder None demo_children) = (None, es)"
    using demo_tar by (auto simp: proc)
  obtain w where w: "conclude demo_process (5, None) indexed_s3 = (Inr (), w)" using demo_concluded by blast
  have n: "(wrap64 (int (length (pencode demo_process es))), None) = (5, None :: goerr option)"
    by (simp add: proc in_int64_def max_int64_def min_int64_def)
  show thesis
  proof (rule up_run_through [OF es])
    show "pipeline demo_process (upload_start (psplit demo_process (pencode demo_process es)) None empty_s3 []) u"
      using u(1) by (simp add: proc)
    show "uploadIndex (uctx (pdata demo_process)) (uops (pdata demo_process)) (Inr (uwriter u)) (ubucket (pdata demo_process))
        (proot demo_process) (uworld u) = (Inr (), indexed_s3)"
      using demo_indexed(1) uw u(3) by (simp add: proc)
    show "conclude demo_process (wrap64 (int (length (pencode demo_process es))), None) indexed_s3 = (Inr (), w)"
      using w n by simp
  qed (use u(2) n that in auto)
qed

theorem upload_success_is_complete_witness:
  "\<exists>s. (up_step demo_process (Folder None demo_children))\<^sup>*\<^sup>* (up_start empty_s3) s
     \<and> up_main s = Returned (Inr ())
     \<and> chunks_stored demo_process (objs (up_world s)) ''hello'' \<and> index_stored demo_process (objs (up_world s)) ''hello''
     \<and> metadata_stored demo_process (objs (up_world s)) (wrap64 5)"
proof -
  obtain s where s: "(up_step demo_process (Folder None demo_children))\<^sup>*\<^sup>* (up_start empty_s3) s"
    "up_main s = Returned (Inr ())" by (rule demo_upload_returns)
  from upload_success_is_complete [OF demo_ready s] s show ?thesis by (intro exI [of _ s]) (simp add: demo_process_values)
qed

end
