(* ===== verification/Download_Process.thy ===== *)
theory Download_Process
  imports Chunk_Download Archive_Files
begin

text \<open>
  \<^verbatim>\<open>downloadProcess.start\<close> of \<^verbatim>\<open>nerd/service/datatransfer/v1/download_process.go\<close>: the goroutines
  \<open>index | chunks | untar\<close>, the pipes between them, the channel of their results, and the main
  goroutine, which returns what it hears first. The chunks stage takes its own steps, those of
  \<open>Chunk_Download\<close>; the other stages are one step each. What \<^verbatim>\<open>archive/tar\<close> makes of a stream is an argument.
\<close>

section \<open>The model\<close>

record 'w downloadProcess =
  qdata :: "'w download_env"
  qroot :: string
  qlocal :: string
  qparse :: "string \<Rightarrow> (header \<times> string \<times> goerr option) list \<times> goerr"
  qends :: "string \<Rightarrow> bool"
  qcancel :: "'w \<Rightarrow> 'w"

datatype down_main = Hearing | Ended "goerr + unit"

text \<open>
  The state: the world until the index stage is through, then the chunks stage with the world it
  shares; whether that stage has closed its pipe, whether the archive has been read, the disk,
  \<^verbatim>\<open>doneCh\<close>, and the main goroutine.
\<close>

record 'w down_state =
  down_world :: 'w
  fetchers :: "('w, string) download_state option"
  joined :: bool
  unpacked :: bool
  down_disk :: disk
  heard :: "goerr option list"
  down_main :: down_main

definition down_start :: "disk \<Rightarrow> 'w \<Rightarrow> 'w down_state" where
  "down_start d w = \<lparr>down_world = w, fetchers = None, joined = False, unpacked = False, down_disk = d,
     heard = [], down_main = Hearing\<rparr>"

definition down_channel :: nat where
  "down_channel = 3"

text \<open>What is in the pipe into the archive reader.\<close>

definition stream :: "'w down_state \<Rightarrow> string" where
  "stream s = (case fetchers s of None \<Rightarrow> [] | Some u \<Rightarrow> dwritten u)"

text \<open>The world the program goes on in, once the main goroutine has its result.\<close>

definition world_after :: "'w down_state \<Rightarrow> 'w" where
  "world_after s = (case fetchers s of None \<Rightarrow> down_world s | Some u \<Rightarrow> dworld u)"

text \<open>The error of a result, for the channel.\<close>

definition err_of :: "goerr + unit \<Rightarrow> goerr option" where
  "err_of r = (case r of Inl e \<Rightarrow> Some e | Inr _ \<Rightarrow> None)"

definition result_of :: "goerr option \<Rightarrow> goerr + unit" where
  "result_of e = (case e of None \<Rightarrow> Inr () | Some e \<Rightarrow> Inl e)"

text \<open>
  The steps. A stage sends its error before it closes its pipe. The archive reader may be done before the
  pipe is closed, when it has seen the end of the archive, or when it fails on a part of it; nobody
  empties the pipe after that, so a further write blocks. It may also fail early, at one of the entries that are in the
  pipe. The reader of \<^verbatim>\<open>untardir\<close> may find
  the context cancelled at any entry, and its fuel is the number of names it tries for a file.
\<close>

inductive down_step :: "'w downloadProcess \<Rightarrow> 'w down_state \<Rightarrow> 'w down_state \<Rightarrow> bool" for p where
  index: "fetchers s = None \<Longrightarrow>
     downloadIndex (dctx (qdata p)) (dops (qdata p)) (dbucket (qdata p)) (qroot p) (down_world s) = (Inr idx, w) \<Longrightarrow>
     down_step p s (s\<lparr>fetchers := Some (download_start idx w)\<rparr>)"
| index_failed: "fetchers s = None \<Longrightarrow> length (heard s) < down_channel \<Longrightarrow>
     downloadIndex (dctx (qdata p)) (dops (qdata p)) (dbucket (qdata p)) (qroot p) (down_world s) = (Inl err, w) \<Longrightarrow>
     down_step p s (s\<lparr>fetchers := Some (download_start [] w), heard := heard s @ [Some err]\<rparr>)"
| chunk: "fetchers s = Some u \<Longrightarrow> \<not> joined s \<Longrightarrow> download_step (qdata p) ReadKey (\<lambda>_ _. None) u u' \<Longrightarrow>
     unpacked s \<longrightarrow> dwritten u' = dwritten u \<Longrightarrow> down_step p s (s\<lparr>fetchers := Some u'\<rparr>)"
| chunks: "fetchers s = Some u \<Longrightarrow> \<not> joined s \<Longrightarrow> dresult u = Some (Inr ()) \<Longrightarrow> down_step p s (s\<lparr>joined := True\<rparr>)"
| chunks_failed: "fetchers s = Some u \<Longrightarrow> \<not> joined s \<Longrightarrow> dresult u = Some (Inl err) \<Longrightarrow>
     length (heard s) < down_channel \<Longrightarrow> down_step p s (s\<lparr>joined := True, heard := heard s @ [Some err]\<rparr>)"
| chunks_cancelled: "fetchers s = None \<Longrightarrow> \<not> joined s \<Longrightarrow> dctx (qdata p) (down_world s) = Some err \<Longrightarrow>
     length (heard s) < down_channel \<Longrightarrow> down_step p s (s\<lparr>joined := True, heard := heard s @ [Some err]\<rparr>)"
| untar: "\<not> unpacked s \<Longrightarrow> joined s \<or> qends p (stream s) \<Longrightarrow> length (heard s) < down_channel \<Longrightarrow>
     qparse p (stream s) = (es, fin) \<Longrightarrow> untardir n ctx (qlocal p) es fin (down_disk s) = Some (r, d) \<Longrightarrow>
     down_step p s (s\<lparr>unpacked := True, down_disk := d, heard := heard s @ [err_of r]\<rparr>)"
| untar_failed: "\<not> unpacked s \<Longrightarrow> length (heard s) < down_channel \<Longrightarrow> qparse p (stream s) = (es, fin) \<Longrightarrow>
     untardir n ctx (qlocal p) (map (\<lambda>(h, c, _). (h, c, None)) (take k es)) (Sentinel EOF) (down_disk s) = Some (Inl err, d) \<Longrightarrow>
     down_step p s (s\<lparr>unpacked := True, down_disk := d, heard := heard s @ [Some err]\<rparr>)"
| hear: "down_main s = Hearing \<Longrightarrow> heard s = e # q \<Longrightarrow>
     down_step p s (s\<lparr>heard := q, down_main := Ended (result_of e), down_world := qcancel p (down_world s),
       fetchers := map_option (\<lambda>u. u\<lparr>dworld := qcancel p (dworld u)\<rparr>) (fetchers s)\<rparr>)"

section \<open>What has been written is the beginning of the stream\<close>

lemma download_done_or_running:
  "download_step v rk wr s t \<Longrightarrow> dresult s = None \<and> (dresult t \<noteq> None \<longrightarrow> dwritten t = dwritten s)"
  by (erule download_step.cases) simp_all

context chunk_download
begin

lemma download_inv_prefix:
  assumes "download_inv st keys s" and "map (\<lambda>k. st (dbucket v, key_object (droot v) k)) keys = map Some cs"
  shows "prefix (dwritten s) (concat cs)"
proof -
  let ?f = "\<lambda>k. st (dbucket v, key_object (droot v) k)"
  from assms(1) obtain rd chunks rest where d: "map ?f rd = map Some chunks" "dwritten s = concat chunks"
    "rd @ item_of_keys (ditems s) @ rest = keys" unfolding download_inv_def by blast
  have "take (length rd) (map ?f keys) = map ?f rd" using d(3) by auto
  then have "map Some chunks = map Some (take (length rd) cs)" using assms(2) d(1) by (simp add: take_map)
  then have "chunks = take (length rd) cs" by (simp add: inj_map_eq_map)
  with d(2) show ?thesis using append_take_drop_id [of "length rd" cs] concat_append prefixI by metis
qed

lemma download_prefix:
  assumes "(download_step v rk wr)\<^sup>*\<^sup>* (download_start r w) s" and "holds r keys"
    and "map (\<lambda>k. stored w (dbucket v, key_object (droot v) k)) keys = map Some cs"
    and "patient (dctx v) (dops v)" and "dctx v w = None"
  shows "prefix (dwritten s) (concat cs)"
proof (cases "dresult s = None")
  case True
  with download_steps_inv [OF assms(1,2,4,5)] download_inv_prefix [OF _ assms(3)] show ?thesis by simp
next
  case False
  from assms(1) show ?thesis
  proof (cases rule: rtranclp.cases)
    case rtrancl_refl
    then show ?thesis by (simp add: download_start_def)
  next
    case (rtrancl_into_rtrancl u)
    from download_done_or_running [OF this(2)] False have u: "dresult u = None" "dwritten s = dwritten u" by simp_all
    with download_steps_inv [OF rtrancl_into_rtrancl(1) assms(2,4,5)] download_inv_prefix [OF _ assms(3)] show ?thesis by simp
  qed
qed

end

text \<open>What a pipeline over a good index has written, on the way and at its end.\<close>

lemma download_written:
  assumes "object_store (ops_upload (dops v)) (ops_download (dops v)) (ops_exists (dops v)) stored"
    and "list_all is_key keys"
    and "map (\<lambda>k. stored w (dbucket v, key_object (droot v) k)) keys = map Some cs"
    and "(download_step v ReadKey wr)\<^sup>*\<^sup>* (download_start (index_text keys) w) u"
    and "patient (dctx v) (dops v)" and "dctx v w = None"
  shows "prefix (dwritten u) (concat cs)" and "dresult u = Some (Inr ()) \<Longrightarrow> dwritten u = concat cs"
proof -
  have loc: "chunk_download ReadKey index_holds v (Client_Upload (dctx v) (dops v)) (Client_Exists (dops v)) stored"
    by (intro chunk_download.intro index_reader.key_reader_axioms client_store assms(1))
  have holds: "index_holds (index_text keys) keys" using assms(2) by (simp add: index_holds_def)
  from chunk_download.download_prefix [OF loc assms(4) holds assms(3,5,6)] show "prefix (dwritten u) (concat cs)" .
  assume "dresult u = Some (Inr ())"
  with chunk_download.download_steps_inv [OF loc assms(4) holds assms(5,6)] assms(3)
  show "dwritten u = concat cs"
    by (auto simp: chunk_download.download_done_def [OF loc] inj_map_eq_map)
qed

section \<open>A success is the whole dataset\<close>

lemma untar_loop_no_ctx:
  "untar_loop n ctx i dir es fin d = Some (Inr u, d') \<Longrightarrow> untar_loop n (\<lambda>_. None) i dir es fin d = Some (Inr u, d')"
proof (induction es arbitrary: i d)
  case Nil
  then show ?case by (cases "ctx i") (simp_all split: if_splits)
next
  case (Cons e es)
  then have c: "ctx i = None" by (cases "ctx i") simp_all
  with Cons.prems obtain v d1 where "untar_entry n dir e d = Some (Inr v, d1)" "untar_loop n ctx (Suc i) dir es fin d1 = Some (Inr u, d')"
    by (cases "untar_entry n dir e d") (auto split: prod.splits sum.splits)
  with Cons.IH show ?case by simp
qed

lemma untardir_no_ctx:
  "untardir n ctx dir es fin d = Some (Inr u, d') \<Longrightarrow> untardir n (\<lambda>_. None) dir es fin d = Some (Inr u, d')"
proof -
  assume "untardir n ctx dir es fin d = Some (Inr u, d')"
  then obtain d1 where "untar_loop n ctx 0 dir es fin d = Some (Inr u, d1)" "d' = d1\<lparr>handles := handles d\<rparr>"
    by (cases "untar_loop n ctx 0 dir es fin d") (auto simp: untardir_def)
  then show ?thesis using untar_loop_no_ctx by (simp add: untardir_def)
qed

text \<open>The dataset \<open>cs\<close> is in the store: an index of keys, and an object for each.\<close>

definition dataset_stored :: "'w downloadProcess \<Rightarrow> objects \<Rightarrow> string list \<Rightarrow> bool" where
  "dataset_stored p st cs \<longleftrightarrow> (\<exists>keys. list_all is_key keys \<and>
     st (dbucket (qdata p), Join [qroot p, IndexObjectKey]) = Some (index_text keys) \<and>
     map (\<lambda>k. st (dbucket (qdata p), key_object (droot (qdata p)) k)) keys = map Some cs)"

text \<open>
  The store keeps its contract and does not cancel the context, and the archive reader asks for nothing behind the end of
  an archive.
\<close>

definition download_ready :: "'w downloadProcess \<Rightarrow> ('w \<Rightarrow> objects) \<Rightarrow> bool" where
  "download_ready p stored \<longleftrightarrow>
     object_store (ops_upload (dops (qdata p))) (ops_download (dops (qdata p))) (ops_exists (dops (qdata p))) stored \<and>
     patient (dctx (qdata p)) (dops (qdata p)) \<and> (\<forall>a b. qends p a \<longrightarrow> qparse p (a @ b) = qparse p a)"

definition unpacked_as :: "'w downloadProcess \<Rightarrow> string list \<Rightarrow> disk \<Rightarrow> disk \<Rightarrow> bool" where
  "unpacked_as p cs d d' \<longleftrightarrow> (case qparse p (concat cs) of (es, fin) \<Rightarrow>
     \<exists>n. untardir n (\<lambda>_. None) (qlocal p) es fin d = Some (Inr (), d'))"

text \<open>The first thing the main goroutine hears is an error.\<close>

definition spoiled :: "'w down_state \<Rightarrow> bool" where
  "spoiled s \<longleftrightarrow> (down_main s = Hearing \<and> (\<exists>e q. heard s = Some e # q)) \<or> (\<exists>e. down_main s = Ended (Inl e))"

text \<open>The chunks stage on the way, over the index that is stored.\<close>

definition fetching :: "'w downloadProcess \<Rightarrow> ('w \<Rightarrow> objects) \<Rightarrow> objects \<Rightarrow> ('w, string) download_state \<Rightarrow> bool" where
  "fetching p stored st u \<longleftrightarrow> (\<exists>keys w. list_all is_key keys \<and>
     st (dbucket (qdata p), Join [qroot p, IndexObjectKey]) = Some (index_text keys) \<and> stored w = st \<and> dctx (qdata p) w = None \<and>
     (download_step (qdata p) ReadKey (\<lambda>_ _. None))\<^sup>*\<^sup>* (download_start (index_text keys) w) u)"

definition down_inv :: "'w downloadProcess \<Rightarrow> ('w \<Rightarrow> objects) \<Rightarrow> objects \<Rightarrow> string list \<Rightarrow> disk \<Rightarrow> 'w down_state \<Rightarrow> bool" where
  "down_inv p stored st cs d s \<longleftrightarrow> spoiled s \<or>
     (if unpacked s then unpacked_as p cs d (down_disk s)
      else down_main s = Hearing \<and> heard s = [] \<and> down_disk s = d \<and>
        (case fetchers s of None \<Rightarrow> stored (down_world s) = st \<and> dctx (qdata p) (down_world s) = None \<and> \<not> joined s
         | Some u \<Rightarrow> fetching p stored st u \<and> (joined s \<longrightarrow> dresult u = Some (Inr ()))))"

lemma spoiled_stable: "down_step p s s' \<Longrightarrow> spoiled s \<Longrightarrow> spoiled s'"
  by (erule down_step.cases) (auto simp: spoiled_def result_of_def)

lemma fetching_stream:
  assumes "download_ready p stored" and "dataset_stored p st cs" and "fetching p stored st u"
  shows "prefix (dwritten u) (concat cs)" and "dresult u = Some (Inr ()) \<Longrightarrow> dwritten u = concat cs"
proof -
  from assms(2) obtain ks where ks: "list_all is_key ks"
    "st (dbucket (qdata p), Join [qroot p, IndexObjectKey]) = Some (index_text ks)"
    "map (\<lambda>k. st (dbucket (qdata p), key_object (droot (qdata p)) k)) ks = map Some cs" by (auto simp: dataset_stored_def)
  from assms(3) obtain keys w where r: "list_all is_key keys"
    "st (dbucket (qdata p), Join [qroot p, IndexObjectKey]) = Some (index_text keys)" "stored w = st" "dctx (qdata p) w = None"
    "(download_step (qdata p) ReadKey (\<lambda>_ _. None))\<^sup>*\<^sup>* (download_start (index_text keys) w) u"
    by (auto simp: fetching_def)
  from ks(2) r(2) have "index_text keys = index_text ks" by simp
  with r(5) have run: "(download_step (qdata p) ReadKey (\<lambda>_ _. None))\<^sup>*\<^sup>* (download_start (index_text ks) w) u" by simp
  have store: "object_store (ops_upload (dops (qdata p))) (ops_download (dops (qdata p))) (ops_exists (dops (qdata p))) stored"
    and pat: "patient (dctx (qdata p)) (dops (qdata p))" using assms(1) by (simp_all add: download_ready_def)
  from ks(3) r(3) have "map (\<lambda>k. stored w (dbucket (qdata p), key_object (droot (qdata p)) k)) ks = map Some cs" by simp
  from download_written [OF store ks(1) this run pat r(4)]
  show "prefix (dwritten u) (concat cs)" and "dresult u = Some (Inr ()) \<Longrightarrow> dwritten u = concat cs" .
qed

lemma down_step_inv:
  assumes ready: "download_ready p stored" and data: "dataset_stored p st cs"
    and st: "down_step p s s'" and inv: "down_inv p stored st cs d s"
  shows "down_inv p stored st cs d s'"
proof (cases "spoiled s")
  case True
  with st show ?thesis by (simp add: down_inv_def spoiled_stable)
next
  case False
  have still: "unpacked_as p cs d (down_disk s')" if "unpacked s" "down_disk s' = down_disk s"
    using inv False that by (simp add: down_inv_def)
  have run: "down_main s = Hearing" "heard s = []" "down_disk s = d"
    "case fetchers s of None \<Rightarrow> stored (down_world s) = st \<and> dctx (qdata p) (down_world s) = None \<and> \<not> joined s
      | Some u \<Rightarrow> fetching p stored st u \<and> (joined s \<longrightarrow> dresult u = Some (Inr ()))" if "\<not> unpacked s"
    using inv False that by (simp_all add: down_inv_def)
  have store: "object_store (ops_upload (dops (qdata p))) (ops_download (dops (qdata p))) (ops_exists (dops (qdata p))) stored"
    and pat: "patient (dctx (qdata p)) (dops (qdata p))" using ready by (simp_all add: download_ready_def)
  show ?thesis
  proof (cases "unpacked s")
    case True
    from st show ?thesis by cases (use True still in \<open>auto simp: down_inv_def\<close>)
  next
    case False
    note run = run [OF this]
    from st show ?thesis
    proof cases
      case (index idx w)
      from index(3) obtain w1 where dl: "Client_Download (dctx (qdata p)) (dops (qdata p)) (dbucket (qdata p))
          (Join [qroot p, IndexObjectKey]) (down_world s) = (Inr (Inr idx), w1)" "w = w1"
        by (auto simp: downloadIndex_def call_Inr_iff check_Inr_iff)
      note cs = client_store [OF store, of "dctx (qdata p)"]
      from run(4) index(2) have w: "stored (down_world s) = st" "\<not> joined s" "dctx (qdata p) (down_world s) = None" by simp_all
      have "dctx (qdata p) w = None"
        using client_patient(2) [OF pat w(3), of "dbucket (qdata p)" "Join [qroot p, IndexObjectKey]"] dl by simp
      have "st (dbucket (qdata p), Join [qroot p, IndexObjectKey]) = Some idx"
        using object_store.download_ok [OF cs dl(1)] w by simp
      moreover note \<open>dctx (qdata p) w = None\<close>
      moreover have "stored w = st"
        using object_store.download_pure [OF cs, of "dbucket (qdata p)" "Join [qroot p, IndexObjectKey]" "down_world s"] dl w by simp
      ultimately have "fetching p stored st (download_start idx w)"
        using data by (auto simp: fetching_def dataset_stored_def)
      with index run w False show ?thesis by (simp add: down_inv_def)
    next
      case (chunk u u')
      from chunk(2) run(4) have "fetching p stored st u" by simp
      then have "fetching p stored st u'"
        using chunk(4) unfolding fetching_def using rtranclp.rtrancl_into_rtrancl [of "download_step (qdata p) ReadKey (\<lambda>_ _. None)"] by metis
      with chunk run False show ?thesis by (simp add: down_inv_def)
    next
      case (chunks u)
      with run False show ?thesis by (simp add: down_inv_def)
    next
      case (untar es fin n ctx r d')
      show ?thesis
      proof (cases r)
        case (Inl e)
        with untar run show ?thesis by (simp add: down_inv_def spoiled_def err_of_def)
      next
        case (Inr v)
        have "qparse p (concat cs) = (es, fin)"
        proof (cases "fetchers s")
          case None
          with run(4) untar(3) have "qends p []" by (simp add: stream_def)
          then have "qparse p ([] @ concat cs) = qparse p []" using ready unfolding download_ready_def by blast
          with None untar(5) show ?thesis by (simp add: stream_def)
        next
          case (Some u)
          with run(4) have u: "fetching p stored st u" "joined s \<longrightarrow> dresult u = Some (Inr ())" by simp_all
          show ?thesis
          proof (cases "joined s")
            case True
            with fetching_stream(2) [OF ready data u(1)] u(2) Some untar(5) show ?thesis by (simp add: stream_def)
          next
            case False
            with untar(3) Some have e: "qends p (dwritten u)" by (simp add: stream_def)
            from fetching_stream(1) [OF ready data u(1)] obtain b where b: "concat cs = dwritten u @ b"
              by (auto elim: prefixE)
            from e have "qparse p (dwritten u @ b) = qparse p (dwritten u)" using ready by (simp add: download_ready_def)
            with b Some untar(5) show ?thesis by (simp add: stream_def)
          qed
        qed
        with untar Inr run(3) untardir_no_ctx [of n ctx "qlocal p" es fin d v d'] show ?thesis
          by (auto simp: down_inv_def unpacked_as_def)
      qed
    qed (use run in \<open>auto simp: down_inv_def spoiled_def\<close>)
  qed
qed

lemma down_steps_inv:
  assumes "download_ready p stored" and "dataset_stored p (stored w) cs" and "dctx (qdata p) w = None"
    and "(down_step p)\<^sup>*\<^sup>* (down_start d w) s"
  shows "down_inv p stored (stored w) cs d s"
  using assms(4)
proof (induction rule: rtranclp_induct)
  case base
  show ?case using assms(3) by (simp add: down_inv_def down_start_def)
next
  case (step s s')
  then show ?case using down_step_inv [OF assms(1,2)] by blast
qed

lemma download_complete:
  assumes "download_ready p stored" and "dataset_stored p (stored w) cs" and "dctx (qdata p) w = None"
    and "(down_step p)\<^sup>*\<^sup>* (down_start d w) s" and "down_main s = Ended (Inr ())"
    and "qparse p (concat cs) = (es, fin)"
  shows "\<exists>n. untardir n (\<lambda>_. None) (qlocal p) es fin d = Some (Inr (), down_disk s)"
proof -
  have "\<not> spoiled s" using assms(5) by (simp add: spoiled_def)
  with down_steps_inv [OF assms(1-4)] assms(5) have "unpacked_as p cs d (down_disk s)"
    by (auto simp: down_inv_def split: if_splits)
  with assms(6) show ?thesis by (simp add: unpacked_as_def)
qed


section \<open>A download ends\<close>

lemma Scan_shorter: "Scan s = Some (l, r) \<Longrightarrow> length r < length s"
proof -
  assume "Scan s = Some (l, r)"
  then have "s \<noteq> []" and r: "r = drop 1 (dropWhile (\<lambda>c. c \<noteq> newline) s)" by (auto simp: Scan_def Let_def split: if_splits)
  moreover have "length (dropWhile (\<lambda>c. c \<noteq> newline) s) \<le> length s" by (rule length_dropWhile_le)
  ultimately show ?thesis by (cases s) (auto simp: r)
qed

lemma ReadKey_shorter:
  "ReadKey s = (Inr k, r) \<Longrightarrow> length r < length s" "ReadKey s = (Inl e, r) \<Longrightarrow> length r \<le> length s"
  by (auto simp: ReadKey_def dest!: Scan_shorter split: option.splits sum.splits)

fun item_work :: "download_item \<Rightarrow> nat" where
  "item_work (DItem k Fetching) = 2"
| "item_work it = 1"

definition fetch_size :: "('w, string) download_state \<Rightarrow> nat" where
  "fetch_size u = 3 * length (dreader u)
     + sum_list (map item_work (ditems u))
     + (if dclosed u then 0 else 2) + (if dresult u = None then 1 else 0)"

lemma sum_list_replace:
  assumes "i < length xs" and "f y < f (xs ! i)"
  shows "sum_list (map f (xs[i := y])) < (sum_list (map f xs) :: nat)"
  using assms by (induction xs arbitrary: i) (auto split: nat.splits)

lemma download_step_size: "download_step v ReadKey wr u u' \<Longrightarrow> fetch_size u' < fetch_size u"
proof (induction rule: download_step.induct)
  case (emit s k r)
  then show ?case using ReadKey_shorter(1) [of "dreader s" k r] by (simp add: fetch_size_def)
next
  case (close s r)
  then show ?case using ReadKey_shorter(2) [of "dreader s" "Sentinel EOF" r] by (simp add: fetch_size_def)
next
  case (emit_error s e r)
  then show ?case using ReadKey_shorter(2) [of "dreader s" e r] by (simp add: fetch_size_def)
next
  case (fetch s i k f w')
  have "f \<noteq> Fetching" using fetch(4) by (auto simp: download_work_def split: prod.splits sum.splits)
  then have "item_work (DItem k f) < item_work (ditems s ! i)" using fetch(3) by (cases f) simp_all
  from sum_list_replace [of i "ditems s" item_work, OF fetch(2) this] show ?case by (simp add: fetch_size_def)
next
  case (give_up s x r e)
  then show ?case using ReadKey_shorter [of "dreader s"] by (cases x) (fastforce simp: fetch_size_def)+
qed (auto simp: fetch_size_def)

lemma download_not_stuck:
  assumes "dresult u = None"
  shows "\<exists>u'. download_step v ReadKey (\<lambda>_ _. None) u u'"
proof (cases "ditems u")
  case Nil
  show ?thesis
  proof (cases "dclosed u")
    case True
    with Nil assms download_step.finished show ?thesis by blast
  next
    case False
    obtain x r where x: "ReadKey (dreader u) = (x, r)" by fastforce
    then show ?thesis
      using assms False Nil download_step.emit [of u v ReadKey] download_step.close [of u ReadKey] download_step.emit_error [of u v ReadKey]
      by (cases x) fastforce+
  qed
next
  case (Cons it its)
  show ?thesis
  proof (cases it)
    case (DItem k f)
    show ?thesis
    proof (cases f)
      case Fetching
      obtain g w where "download_work v k (dworld u) = (g, w)" by fastforce
      then show ?thesis using download_step.fetch [of u 0 k v g w ReadKey] assms Cons DItem Fetching by auto
    next
      case (Fetched c)
      then show ?thesis using download_step.collect [of u k c its "\<lambda>_ _. None" v ReadKey] assms Cons DItem by auto
    next
      case (FetchFailed e)
      then show ?thesis using download_step.fetch_failed [of u k e its v ReadKey] assms Cons DItem by blast
    qed
  next
    case (DItemError e)
    then show ?thesis using download_step.iterate_failed [of u e its v ReadKey] assms Cons by blast
  qed
qed

definition down_size :: "'w down_state \<Rightarrow> nat" where
  "down_size s = (case fetchers s of None \<Rightarrow> 0 | Some u \<Rightarrow> fetch_size u) + (if joined s then 0 else 1)
     + (if unpacked s then 0 else 1) + (if down_main s = Hearing then 1 else 0)"

definition down_order :: "('w down_state \<times> 'w down_state) set" where
  "down_order = measures [\<lambda>s. if fetchers s = None then 1 else 0, down_size]"

lemma fetch_size_cancel [simp]: "fetch_size (u\<lparr>dworld := w\<rparr>) = fetch_size u"
  by (simp add: fetch_size_def)

lemma down_step_order: "down_step p s s' \<Longrightarrow> (s', s) \<in> down_order"
proof (induction rule: down_step.induct)
  case (chunk s u u')
  then show ?case using download_step_size by (simp add: down_order_def down_size_def)
next
  case (hear s e q)
  then show ?case by (cases "fetchers s") (simp_all add: down_order_def down_size_def)
qed (auto simp: down_order_def down_size_def split: option.splits)

text \<open>
  C25: A download ends: its stages and its main goroutine cannot go on forever, whatever the index, the
  objects and the archive are.
\<close>
theorem download_terminates: "\<nexists>r. \<forall>i. down_step p (r i) (r (Suc i))"
proof -
  have "wf (down_order :: ('a down_state \<times> 'a down_state) set)" by (simp add: down_order_def)
  then have "\<nexists>r. \<forall>i. (r (Suc i), r i) \<in> (down_order :: ('a down_state \<times> 'a down_state) set)"
    by (simp add: wf_iff_no_infinite_down_chain)
  then show ?thesis using down_step_order by metis
qed

lemma unpacked_heard:
  "(down_step p)\<^sup>*\<^sup>* (down_start d w) s \<Longrightarrow> unpacked s \<Longrightarrow> down_main s = Hearing \<Longrightarrow> heard s \<noteq> []"
proof (induction rule: rtranclp_induct)
  case (step s s')
  from step(2) show ?case by cases (use step in auto)
qed (simp add: down_start_def)

text \<open>A step in its turn: the archive reader does not fail early, before the stream or the archive has ended.\<close>

definition down_turn :: "'w downloadProcess \<Rightarrow> 'w down_state \<Rightarrow> 'w down_state \<Rightarrow> bool" where
  "down_turn p s s' \<longleftrightarrow> down_step p s s' \<and> (unpacked s' \<longrightarrow> unpacked s \<or> joined s \<or> qends p (stream s))"

lemma wf_down_order: "wf down_order"
  by (simp add: down_order_def)

lemma down_turn_possible:
  assumes "download_ready p stored" and "dataset_stored p (stored w) cs" and "dctx (qdata p) w = None"
    and "qparse p (concat cs) = (es, fin)" and "untardir n (\<lambda>_. None) (qlocal p) es fin d \<noteq> None"
    and "(down_step p)\<^sup>*\<^sup>* (down_start d w) s" and "down_main s = Hearing"
  shows "\<exists>s'. down_turn p s s'"
proof (cases "heard s")
  case (Cons e q)
  from down_step.hear [OF assms(7) this, of p] show ?thesis by (fastforce simp: down_turn_def)
next
  case Nil
  have cap: "length (heard s) < down_channel" using Nil by (simp add: down_channel_def)
  have up: "\<not> unpacked s" using unpacked_heard [OF assms(6)] assms(7) Nil by blast
  have "\<not> spoiled s" using assms(7) Nil by (simp add: spoiled_def)
  with down_steps_inv [OF assms(1-3,6)] up have inv: "down_disk s = d"
    "case fetchers s of None \<Rightarrow> \<not> joined s
      | Some u \<Rightarrow> fetching p stored (stored w) u \<and> (joined s \<longrightarrow> dresult u = Some (Inr ()))"
    by (auto simp: down_inv_def split: option.splits)
  have turn: "\<exists>s'. down_turn p s s'" if "down_step p s s'" "\<not> unpacked s'" for s' using that by (auto simp: down_turn_def)
  show ?thesis
  proof (cases "fetchers s")
    case None
    obtain x v where x: "downloadIndex (dctx (qdata p)) (dops (qdata p)) (dbucket (qdata p)) (qroot p) (down_world s) = (x, v)"
      by fastforce
    then show ?thesis
      using turn [OF down_step.index [OF None, of p]] turn [OF down_step.index_failed [OF None cap, of p]] up by (cases x) simp_all
  next
    case (Some u)
    show ?thesis
    proof (cases "joined s")
      case True
      with Some inv(2) have "fetching p stored (stored w) u" "dresult u = Some (Inr ())" by simp_all
      then have "stream s = concat cs" using fetching_stream(2) [OF assms(1,2)] Some by (simp add: stream_def)
      with assms(4,5) inv(1) True obtain r d' where "qparse p (stream s) = (es, fin)"
        "untardir n (\<lambda>_. None) (qlocal p) es fin (down_disk s) = Some (r, d')" by auto
      from down_step.untar [OF up _ cap this] True show ?thesis by (auto simp: down_turn_def)
    next
      case False
      show ?thesis
      proof (cases "dresult u")
        case None
        then obtain u' where "download_step (qdata p) ReadKey (\<lambda>_ _. None) u u'" using download_not_stuck by blast
        from turn [OF down_step.chunk [OF Some False this]] up show ?thesis by simp
      next
        case (Some r)
        then show ?thesis
          using turn [OF down_step.chunks [OF \<open>fetchers s = Some u\<close> False]]
            turn [OF down_step.chunks_failed [OF \<open>fetchers s = Some u\<close> False _ cap]] up
          by (cases r) simp_all
      qed
    qed
  qed
qed

text \<open>
  C24: A download never hangs: wherever the goroutines of a download have got to, if its dataset is stored and unpacking
  the archive on that disk returns at all, they can go on to a result, and nobody has to fail early for that: each can
  wait for the other one to do its part.
\<close>
theorem download_never_stuck:
  assumes "download_ready p stored" and "dataset_stored p (stored w) cs" and "dctx (qdata p) w = None"
    and "qparse p (concat cs) = (es, fin)" and "untardir n (\<lambda>_. None) (qlocal p) es fin d \<noteq> None"
    and "(down_step p)\<^sup>*\<^sup>* (down_start d w) s"
  shows "\<exists>s' r. (down_turn p)\<^sup>*\<^sup>* s s' \<and> down_main s' = Ended r"
  using assms(6)
proof (induction s rule: wf_induct_rule [OF wf_down_order])
  case (1 s)
  show ?case
  proof (cases "down_main s")
    case Hearing
    from down_turn_possible [OF assms(1-5) 1(2) this] obtain s1 where s1: "down_turn p s s1" by blast
    then have "down_step p s s1" by (simp add: down_turn_def)
    with 1(1) [OF down_step_order [OF this]] 1(2) obtain s' r where "(down_turn p)\<^sup>*\<^sup>* s1 s'" "down_main s' = Ended r"
      by (meson rtranclp.rtrancl_into_rtrancl)
    with s1 show ?thesis by (meson converse_rtranclp_into_rtranclp)
  qed blast
qed

section \<open>A small download\<close>

definition demo_entries :: "(header \<times> string \<times> goerr option) list" where
  "demo_entries = map (\<lambda>f. as_read (packed_entry f)) (packed_files [] (Folder None demo_children))"

definition demo_download :: "s3_world downloadProcess" where
  "demo_download = \<lparr>qdata = demo_down, qroot = ''d'', qlocal = ''out'',
     qparse = (\<lambda>b. if b = ''hello'' then (demo_entries, Sentinel EOF) else ([], Sentinel ErrUnexpectedEOF)),
     qends = (\<lambda>_. False), qcancel = (\<lambda>w. w)\<rparr>"

lemma demo_download_values [simp]:
  "qdata demo_download = demo_down" "qroot demo_download = ''d''" "qlocal demo_download = ''out''"
  "qparse demo_download ''hello'' = (demo_entries, Sentinel EOF)" "qends demo_download = (\<lambda>_. False)"
  by (simp_all add: demo_download_def)

lemma demo_download_ready: "download_ready demo_download objs"
  by (simp add: download_ready_def s3_ops)

lemma demo_dataset_stored: "dataset_stored demo_download (objs indexed_s3) [''hello'']"
proof -
  have "objs indexed_s3 (''b'', Join [''d'', IndexObjectKey]) = Some (index_text [pad_key ''hello''])"
    by (simp add: indexed_s3_def)
  then show ?thesis
    using indexed_object by (auto simp: dataset_stored_def pad_key_is_key intro!: exI [of _ "[pad_key ''hello'']"])
qed

lemma demo_archive:
  "\<exists>d'. untardir 1 (\<lambda>_. None) ''out'' demo_entries (Sentinel EOF) out_disk = Some (Inr (), d')
     \<and> nodes d' ''out/a.txt'' = Some (FileNode 420 ''one'' 7) \<and> nodes d' ''out/s/b'' = Some (FileNode 420 ''two'' 8)"
proof -
  have 1: "undisturbed demo_env" "base_ready ''out'' out_disk"
    by (simp_all add: undisturbed_def demo_env_def out_ready out_disk_def)
  have 2: "nodes out_disk (sub ''out'' ns) = None" if "ns \<noteq> []" "list_all plain ns" for ns
    using that by (simp add: out_disk_def sub_def)
  have 3: "fits (packed_files [] (Folder None demo_children)) out_disk"
    by (simp add: demo_packed fits_def out_disk_def)
  have "map as_read es = demo_entries" if "tardir demo_env ''src'' (Folder None demo_children) = (None, es)" for es
    using tardir_sound [OF 1(1) demo_sound, of "''src''"] that by (auto simp: demo_entries_def)
  with archive_unpacks [OF demo_sound 1 2 3, of "''src''" 0] obtain d' where
    r: "untardir 1 (\<lambda>_. None) ''out'' demo_entries (Sentinel EOF) out_disk = Some (Inr (), d')"
    "\<forall>(ns, mode, mtime, content)\<in>set (packed_files [] (Folder None demo_children)).
       nodes d' (sub ''out'' ns) = Some (FileNode (mode mod 2 ^ 32) content mtime)" by auto
  from r(2) have "nodes d' ''out/a.txt'' = Some (FileNode 420 ''one'' 7)" "nodes d' ''out/s/b'' = Some (FileNode 420 ''two'' 8)"
    by (simp_all add: demo_packed sub_def)
  with r show ?thesis by blast
qed

theorem download_never_stuck_witness:
  "\<exists>s' r. (down_turn demo_download)\<^sup>*\<^sup>* (down_start out_disk indexed_s3) s' \<and> down_main s' = Ended r"
proof -
  have "untardir 1 (\<lambda>_. None) (qlocal demo_download) demo_entries (Sentinel EOF) out_disk \<noteq> None"
    using demo_archive by auto
  from download_never_stuck [where cs = "[''hello'']", OF demo_download_ready demo_dataset_stored _ _ this]
  show ?thesis by simp
qed

lemma down_run_through:
  assumes "downloadIndex (dctx (qdata p)) (dops (qdata p)) (dbucket (qdata p)) (qroot p) w = (Inr idx, w1)"
    and "(download_step (qdata p) ReadKey (\<lambda>_ _. None))\<^sup>*\<^sup>* (download_start idx w1) u" and "dresult u = Some (Inr ())"
    and "qparse p (dwritten u) = (es, fin)" and "untardir n (\<lambda>_. None) (qlocal p) es fin d = Some (Inr (), d')"
    and run: "\<And>s. (down_step p)\<^sup>*\<^sup>* (down_start d w) s \<Longrightarrow> down_main s = Ended (Inr ()) \<Longrightarrow> down_disk s = d' \<Longrightarrow> thesis"
  shows thesis
proof -
  let ?step = "down_step p"
  let ?s0 = "down_start d w"
  let ?at = "\<lambda>u. ?s0\<lparr>fetchers := Some u\<rparr>"
  let ?s2 = "(?at u)\<lparr>joined := True\<rparr>"
  let ?s3 = "?s2\<lparr>unpacked := True, down_disk := d', heard := [None]\<rparr>"
  let ?s4 = "?s3\<lparr>heard := [], down_main := Ended (Inr ()), down_world := qcancel p w,
    fetchers := Some (u\<lparr>dworld := qcancel p (dworld u)\<rparr>)\<rparr>"
  have "?step ?s0 (?at (download_start idx w1))"
    using down_step.index [of ?s0 p idx w1] assms(1) by (simp add: down_start_def)
  moreover have "?step\<^sup>*\<^sup>* (?at (download_start idx w1)) (?at u)"
    using assms(2)
  proof (induction rule: rtranclp_induct)
    case (step a b)
    have "?step (?at a) (?at b)"
      using down_step.chunk [of "?at a" a p b] step.hyps(2) by (simp add: down_start_def)
    with step.IH show ?case by simp
  qed simp
  moreover have "?step (?at u) ?s2" using down_step.chunks [of "?at u" u p] assms(3) by (simp add: down_start_def)
  moreover have "?step ?s2 ?s3"
    using down_step.untar [of ?s2 p es fin n "\<lambda>_. None" "Inr ()" d'] assms(4,5)
    by (simp add: down_start_def stream_def down_channel_def err_of_def)
  moreover have "?step ?s3 ?s4"
    using down_step.hear [of ?s3 None "[]" p] by (simp add: down_start_def result_of_def)
  ultimately have "?step\<^sup>*\<^sup>* ?s0 ?s4" by (meson converse_rtranclp_into_rtranclp rtranclp_trans rtranclp.rtrancl_refl)
  then show thesis by (rule run) simp_all
qed


end
