(* ===== verification/Dataset_Transfer.thy ===== *)
theory Dataset_Transfer
  imports Upload_Process Download_Process Batch_Client
begin

text \<open>
  \<^verbatim>\<open>Upload\<close> and \<^verbatim>\<open>GetLocalDatasetSize\<close> (\<^verbatim>\<open>nerd/service/datatransfer/v1/upload.go\<close>), \<^verbatim>\<open>Download\<close> and
  \<^verbatim>\<open>GetRemoteDatasetSize\<close> (\<^verbatim>\<open>download.go\<close>): the two processes around the batch API, and what a whole
  transfer does to the files of a directory. The world is the credential cached by the batch
  client with the world \<open>'v\<close> outside.
\<close>

section \<open>The configurations\<close>

text \<open>
  What is not under the repository: the context, SHA-256, the file system that is read, the bytes of an
  archive, the chunker, JSON texts, the clock, waiting.
\<close>

record 'v transfer_env =
  xctx :: "(string \<times> 'v) ctx"
  xsha :: "string \<Rightarrow> Key"
  xtar :: tar_env
  xencode :: "(header \<times> string) list \<Rightarrow> string"
  xparse :: "string \<Rightarrow> (header \<times> string \<times> goerr option) list \<times> goerr"
  xends :: "string \<Rightarrow> bool"
  xsplit :: "string \<Rightarrow> string list"
  xmarshal :: "json \<Rightarrow> string"
  xunmarshal :: "string \<Rightarrow> goerr + json"
  xclock :: "string \<times> 'v \<Rightarrow> int"
  xwait :: "int \<Rightarrow> string \<times> 'v \<Rightarrow> goerr option \<times> (string \<times> 'v)"
  xcancel :: "string \<times> 'v \<Rightarrow> string \<times> 'v"

record 'v UploadConfig =
  uBatchClient :: "'v ClientConfig"
  uDataOps :: "(string \<times> 'v) DataOps"
  uLocalDir :: string
  uProjectID :: string
  uConcurrency :: nat

record 'v DownloadConfig =
  dBatchClient :: "'v ClientConfig"
  dDataOps :: "(string \<times> 'v) DataOps"
  dLocalDir :: string
  dProjectID :: string
  dDatasetID :: string
  dConcurrency :: nat

section \<open>Uploading\<close>

definition batch_uploads :: "'v ClientConfig \<Rightarrow> (string \<times> 'v) uploadClient" where
  "batch_uploads c = \<lparr>USendUploadHeartbeat = SendUploadHeartbeat c, USendUploadSuccess = SendUploadSuccess c\<rparr>"

definition upload_process :: "'v transfer_env \<Rightarrow> 'v UploadConfig \<Rightarrow> 'a DatasetSummary_scheme \<Rightarrow> (string \<times> 'v) uploadProcess" where
  "upload_process x conf ds =
     \<lparr>pclient = batch_uploads (uBatchClient conf),
      pdata = \<lparr>uctx = xctx x, uops = uDataOps conf, usha = xsha x, ubucket = Bucket ds, uroot = ProjectRoot ds,
        uconcurrency = uConcurrency conf\<rparr>,
      pproject = dsProjectID ds, pdataset = DatasetID ds, proot = DatasetRoot ds, plocal = uLocalDir conf,
      ptar = xtar x, pencode = xencode x, psplit = xsplit x, pmarshal = xmarshal x, pclock = xclock x, pcancel = xcancel x\<rparr>"

text \<open>The dataset and the error that are returned; the dataset is there once it has been created, also with an error.\<close>

inductive Upload :: "'v transfer_env \<Rightarrow> 'v UploadConfig \<Rightarrow> tree \<Rightarrow> string \<times> 'v
    \<Rightarrow> DatasetSummary option \<times> goerr option \<Rightarrow> string \<times> 'v \<Rightarrow> bool" for x conf t where
  not_created: "CreateDataset (uBatchClient conf) (uProjectID conf) w = (Inl err, w') \<Longrightarrow>
     Upload x conf t w (None, Some (wrapped ''failed to create dataset'' err)) w'"
| started: "CreateDataset (uBatchClient conf) (uProjectID conf) w = (Inr ds, w1) \<Longrightarrow>
     (up_step (upload_process x conf ds) t)\<^sup>*\<^sup>* (up_start w1) s \<Longrightarrow> up_main s = Returned r \<Longrightarrow>
     Upload x conf t w (Some (DatasetSummary.truncate ds), err_of r) (up_world s)"

text \<open>
  The size of the archive of a directory. A count that is cancelled stops reading, so that \<^verbatim>\<open>tardir\<close> waits
  for good unless everything had been read (no value, as for a panic); the error of a cancelled
  count is wrapped from the wrong variable, which is nil.
\<close>

definition GetLocalDatasetSize :: "tar_env \<Rightarrow> ((header \<times> string) list \<Rightarrow> string) \<Rightarrow> (nat \<Rightarrow> goerr option) \<Rightarrow> string \<Rightarrow> tree
    \<Rightarrow> (goerr + int) option" where
  "GetLocalDatasetSize env encode ctx dataPath t =
     (case tardir env dataPath t of
        (Some Panicked, _) \<Rightarrow> None
      | (Some (Failed err), _) \<Rightarrow> Some (Inl (wrapped (''failed to tar '' @ in_quotes dataPath) err))
      | (None, es) \<Rightarrow>
          let b = encode es; (n, err) = countBytes ctx 0 b None 0;
              all_read = (length b mod count_buffer = 0 \<and> list_all (\<lambda>i. ctx i = None) [0..<length b div count_buffer]) in
          (case err of None \<Rightarrow> Some (Inr n) | Some _ \<Rightarrow> if all_read then Some (Inr 0) else None))"

section \<open>Downloading\<close>

definition second_ns :: int where
  "second_ns = 1000000000"

text \<open>The loop that waits for the upload, with fuel for its turns.\<close>

fun await_dataset :: "nat \<Rightarrow> 'v transfer_env \<Rightarrow> 'v DownloadConfig \<Rightarrow> string \<times> 'v
    \<Rightarrow> ((goerr + DatasetSummary) \<times> (string \<times> 'v)) option" where
  "await_dataset 0 x conf w = None"
| "await_dataset (Suc n) x conf w =
     (case DescribeDataset (dBatchClient conf) (dProjectID conf) (dDatasetID conf) w of
        (Inl err, w) \<Rightarrow> Some (Inl (wrapped ''failed to get dataset'' err), w)
      | (Inr ds, w) \<Rightarrow>
          if UploadStatus ds = DatasetUploadStatusSuccess then Some (Inr ds, w)
          else if UploadStatus ds = DatasetUploadStatusUploading \<and> UploadExpire ds < xclock x w then
            Some (Inl (Fundamental ''cannot start download, because the upload timed out''), w)
          else
            let wait = wrap64 (UploadExpire ds - xclock x w) in
            (case xwait x (wrap64 (second_ns * wait)) w of
               (Some err, w) \<Rightarrow> Some (Inl err, w)
             | (None, w) \<Rightarrow> await_dataset n x conf w))"

definition download_process :: "'v transfer_env \<Rightarrow> 'v DownloadConfig \<Rightarrow> DatasetSummary \<Rightarrow> (string \<times> 'v) downloadProcess" where
  "download_process x conf ds =
     \<lparr>qdata = \<lparr>dctx = xctx x, dops = dDataOps conf, dbucket = Bucket ds, droot = ProjectRoot ds, dconcurrency = dConcurrency conf\<rparr>,
      qroot = DatasetRoot ds, qlocal = dLocalDir conf, qparse = xparse x, qends = xends x, qcancel = xcancel x\<rparr>"

inductive Download :: "'v transfer_env \<Rightarrow> 'v DownloadConfig \<Rightarrow> disk \<Rightarrow> string \<times> 'v \<Rightarrow> goerr + unit \<Rightarrow> disk
    \<Rightarrow> string \<times> 'v \<Rightarrow> bool" for x conf d where
  unavailable: "await_dataset n x conf w = Some (Inl err, w') \<Longrightarrow> Download x conf d w (Inl err) d w'"
| started: "await_dataset n x conf w = Some (Inr ds, w1) \<Longrightarrow>
     (down_step (download_process x conf ds))\<^sup>*\<^sup>* (down_start d w1) s \<Longrightarrow> down_main s = Ended r \<Longrightarrow>
     Download x conf d w r (down_disk s) (world_after s)"

definition GetRemoteDatasetSize :: "'v transfer_env \<Rightarrow> 'v DownloadConfig \<Rightarrow> string \<times> 'v \<Rightarrow> (goerr + int) \<times> (string \<times> 'v)" where
  "GetRemoteDatasetSize x conf =
     call (DescribeDataset (dBatchClient conf) (dProjectID conf) (dDatasetID conf)) (wrapped ''failed to get dataset'') (\<lambda>ds.
     call (MetadataDownload (xunmarshal x) (xctx x) (dDataOps conf) (Bucket ds) (DatasetRoot ds))
       (wrapped ''failed to download metadata'') (\<lambda>metadata w. (Inr (Size metadata), w)))"

section \<open>Calls of the batch API leave the objects alone\<close>

definition quiet :: "'v ClientConfig \<Rightarrow> ('v \<Rightarrow> objects) \<Rightarrow> bool" where
  "quiet c stored \<longleftrightarrow> (\<forall>req v. stored (snd (Doer c req v)) = stored v) \<and>
     (case TokenProvider c of None \<Rightarrow> True
      | Some p \<Rightarrow> \<forall>v. stored (snd (IsExpired p v)) = stored v \<and> stored (snd (Retrieve p v)) = stored v)"

lemma getJWT_quiet:
  assumes "quiet c stored"
  shows "stored (snd (snd (getJWT c (cred, v)))) = stored v"
proof (cases "TokenProvider c")
  case None
  then show ?thesis by (simp add: getJWT_def get_credential_def)
next
  case (Some p)
  with assms have e: "stored (snd (IsExpired p u)) = stored u" and r: "stored (snd (Retrieve p u)) = stored u" for u
    by (simp_all add: quiet_def)
  define st where "st = (if cred = [] then (True, v) else IsExpired p v)"
  have "stored (snd st) = stored v" using e by (simp add: st_def)
  moreover obtain b u where "st = (b, u)" by (cases st)
  moreover obtain x u' where "Retrieve p u = (x, u')" by (cases "Retrieve p u")
  ultimately show ?thesis
    using Some r [of u] by (cases x) (simp_all add: getJWT_def get_credential_def Let_def st_def [symmetric])
qed

lemma send_quiet:
  assumes "quiet c stored"
  shows "stored (snd (send (Doer c) h out req v)) = stored v"
proof -
  obtain x u where x: "Doer c req v = (x, u)" by (cases "Doer c req v")
  moreover have "stored (snd (Doer c req v)) = stored v" using assms by (simp add: quiet_def)
  ultimately show ?thesis by (cases x) (simp_all add: send_def)
qed

lemma doRequest_quiet:
  assumes "quiet c stored"
  shows "stored (snd (snd (doRequest c m p i out s))) = stored (snd s)"
proof -
  obtain cred v where s: "s = (cred, v)" by (cases s)
  obtain r c1 v1 where j: "getJWT c s = (r, c1, v1)" by (cases "getJWT c s") auto
  with getJWT_quiet [OF assms, of cred v] s have v1: "stored v1 = stored (snd s)" by simp
  show ?thesis
  proof (cases r)
    case (Inl e)
    with j v1 show ?thesis by (simp add: doRequest_def)
  next
    case (Inr cred)
    show ?thesis
    proof (cases "url_Parse p")
      case (Inl e)
      with j v1 Inr show ?thesis by (simp add: doRequest_def)
    next
      case u: (Inr u)
      let ?req = "bearer_request m (ResolveReference (BaseURL c) u) i cred"
      obtain x v2 where "send (Doer c) batch_http_error out ?req v1 = (x, v2)" by (cases "send (Doer c) batch_http_error out ?req v1")
      with j Inr u v1 send_quiet [OF assms, of batch_http_error out ?req v1] show ?thesis by (simp add: doRequest_def)
    qed
  qed
qed

lemma batch_calls_quiet:
  assumes "quiet c stored"
  shows "stored (snd (snd (SendUploadHeartbeat c a b s))) = stored (snd s)"
    and "stored (snd (snd (SendUploadSuccess c a b s))) = stored (snd s)"
    and "stored (snd (snd (CreateDataset c a s))) = stored (snd s)"
    and "stored (snd (snd (DescribeDataset c a b s))) = stored (snd s)"
  by (simp_all add: SendUploadHeartbeat_def SendUploadSuccess_def CreateDataset_def DescribeDataset_def doRequest_quiet [OF assms])

section \<open>A transfer of a directory\<close>

text \<open>
  What a transfer relies on: a context that is never found cancelled, stores that keep their contract, a
  batch API whose calls leave the objects alone, a chunker that cuts without losing a byte, and an archive reader that asks for nothing behind
  the end of an archive.
\<close>

definition transfer_ready :: "'v transfer_env \<Rightarrow> 'v UploadConfig \<Rightarrow> 'v DownloadConfig \<Rightarrow> ('v \<Rightarrow> objects) \<Rightarrow> bool" where
  "transfer_ready x uc dc stored \<longleftrightarrow>
     object_store (ops_upload (uDataOps uc)) (ops_download (uDataOps uc)) (ops_exists (uDataOps uc)) (stored \<circ> snd) \<and>
     object_store (ops_upload (dDataOps dc)) (ops_download (dDataOps dc)) (ops_exists (dDataOps dc)) (stored \<circ> snd) \<and>
     quiet (uBatchClient uc) stored \<and> quiet (dBatchClient dc) stored \<and>
     (\<forall>w. xctx x w = None) \<and> (\<forall>w. stored (snd (xcancel x w)) = stored (snd w)) \<and>
     (\<forall>n w. stored (snd (snd (xwait x n w))) = stored (snd w)) \<and>
     (\<forall>c. is_key (xsha x c)) \<and> (\<forall>b. concat (xsplit x b) = b) \<and>
     (\<forall>a b. xends x a \<longrightarrow> xparse x (a @ b) = xparse x a)"

definition plain_roots :: "'a DatasetSummary_scheme \<Rightarrow> bool" where
  "plain_roots ds \<longleftrightarrow> (\<exists>rs. ProjectRoot ds = join_slash rs \<and> rs \<noteq> [] \<and> list_all plain rs) \<and>
     (\<exists>ds'. DatasetRoot ds = join_slash ds' \<and> ds' \<noteq> [] \<and> list_all plain ds')"

text \<open>The same places in the store.\<close>

definition same_places :: "'a DatasetSummary_scheme \<Rightarrow> 'b DatasetSummary_scheme \<Rightarrow> bool" where
  "same_places a b \<longleftrightarrow> Bucket a = Bucket b \<and> ProjectRoot a = ProjectRoot b \<and> DatasetRoot a = DatasetRoot b"

text \<open>
  The archive of the directory reads back, and no chunk of it has the hash of another one or of another
  object of the project.
\<close>

definition stream_ready :: "'v transfer_env \<Rightarrow> objects \<Rightarrow> 'a DatasetSummary_scheme \<Rightarrow> tree \<Rightarrow> string \<Rightarrow> bool" where
  "stream_ready x st ds t dir \<longleftrightarrow> (\<forall>es. tardir (xtar x) dir t = (None, es) \<longrightarrow>
     inj_on (xsha x) (set (xsplit x (xencode x es))) \<and>
     (\<forall>c\<in>set (xsplit x (xencode x es)). st (Bucket ds, chunk_key (xsha x) (ProjectRoot ds) c) \<in> {None, Some c}) \<and>
     xparse x (xencode x es) = (map as_read es, Sentinel EOF))"

lemma upload_process_ready:
  assumes "transfer_ready x uc dc stored" and "plain_roots ds" and "stream_ready x (stored (snd w)) ds t (uLocalDir uc)"
  shows "upload_ready (upload_process x uc ds) t (stored \<circ> snd) w"
proof -
  have "xctx x = (\<lambda>_. None)" using assms(1) by (simp add: transfer_ready_def fun_eq_iff)
  then show ?thesis
    using assms batch_calls_quiet(1,2) [of "uBatchClient uc" stored]
    unfolding transfer_ready_def plain_roots_def stream_ready_def upload_ready_def upload_process_def batch_uploads_def consistent_def
    by simp
qed

lemma upload_dataset_stored:
  assumes "transfer_ready x uc dc stored" and "plain_roots ds" and "stream_ready x (stored (snd w)) ds t (uLocalDir uc)"
    and "(up_step (upload_process x uc ds) t)\<^sup>*\<^sup>* (up_start w) s" and "up_main s = Returned (Inr ())"
  shows "\<exists>es. tardir (xtar x) (uLocalDir uc) t = (None, es) \<and>
     (same_places ds' ds \<longrightarrow>
        dataset_stored (download_process x dc ds') (stored (snd (up_world s))) (xsplit x (xencode x es))) \<and>
     metadata_stored (upload_process x uc ds) (stored (snd (up_world s))) (wrap64 (int (length (xencode x es))))"
proof -
  let ?p = "upload_process x uc ds"
  have p: "pdata ?p = \<lparr>uctx = xctx x, uops = uDataOps uc, usha = xsha x, ubucket = Bucket ds, uroot = ProjectRoot ds,
      uconcurrency = uConcurrency uc\<rparr>" "proot ?p = DatasetRoot ds" "ptar ?p = xtar x" "plocal ?p = uLocalDir uc"
    "pencode ?p = xencode x" "psplit ?p = xsplit x"
    by (simp_all add: upload_process_def)
  from upload_complete [OF upload_process_ready [OF assms(1-3)] assms(4,5)] obtain es where
    es: "tardir (xtar x) (uLocalDir uc) t = (None, es)"
    and ch: "chunks_stored ?p (stored (snd (up_world s))) (xencode x es)"
    and ix: "index_stored ?p (stored (snd (up_world s))) (xencode x es)"
    and md: "metadata_stored ?p (stored (snd (up_world s))) (wrap64 (int (length (xencode x es))))"
    by (auto simp: p)
  have "dataset_stored (download_process x dc ds') (stored (snd (up_world s))) (xsplit x (xencode x es))" if "same_places ds' ds"
    unfolding dataset_stored_def
  proof (intro exI conjI)
    show "list_all is_key (map (xsha x) (xsplit x (xencode x es)))"
      using assms(1) by (simp add: transfer_ready_def list_all_iff)
    show "stored (snd (up_world s)) (dbucket (qdata (download_process x dc ds')), Join [qroot (download_process x dc ds'), IndexObjectKey])
        = Some (index_text (map (xsha x) (xsplit x (xencode x es))))"
      using ix that by (simp add: index_stored_def index_key_def p download_process_def same_places_def)
    show "map (\<lambda>k. stored (snd (up_world s)) (dbucket (qdata (download_process x dc ds')), key_object (droot (qdata (download_process x dc ds'))) k))
        (map (xsha x) (xsplit x (xencode x es))) = map Some (xsplit x (xencode x es))"
      using ch that by (simp add: chunks_stored_def p download_process_def same_places_def chunk_key_def key_object_def)
  qed
  with es md show ?thesis by blast
qed

lemma truncate_simps [simp]:
  "Bucket (DatasetSummary.truncate ds) = Bucket ds" "ProjectRoot (DatasetSummary.truncate ds) = ProjectRoot ds"
  "DatasetRoot (DatasetSummary.truncate ds) = DatasetRoot ds" "dsProjectID (DatasetSummary.truncate ds) = dsProjectID ds"
  "DatasetID (DatasetSummary.truncate ds) = DatasetID ds"
  by (simp_all add: DatasetSummary.truncate_def)

lemma upload_process_truncate [simp]: "upload_process x conf (DatasetSummary.truncate ds) = upload_process x conf ds"
  by (simp add: upload_process_def)

lemma err_of_None [simp]: "err_of r = None \<longleftrightarrow> r = Inr ()" "None = err_of r \<longleftrightarrow> r = Inr ()"
  by (cases r; simp add: err_of_def)+

text \<open>A successful upload, as the caller sees it.\<close>

lemma Upload_stored:
  assumes "transfer_ready x uc dc stored" and "Upload x uc t w (Some ds, None) w1" and "plain_roots ds"
    and "stream_ready x (stored (snd w)) ds t (uLocalDir uc)"
  shows "\<exists>es. tardir (xtar x) (uLocalDir uc) t = (None, es) \<and>
     (same_places ds' ds \<longrightarrow> dataset_stored (download_process x dc ds') (stored (snd w1)) (xsplit x (xencode x es))) \<and>
     metadata_stored (upload_process x uc ds) (stored (snd w1)) (wrap64 (int (length (xencode x es))))"
  using assms(2)
proof cases
  case (started ds0 v s r)
  have q: "quiet (uBatchClient uc) stored" using assms(1) by (simp add: transfer_ready_def)
  have "stored (snd v) = stored (snd w)" using batch_calls_quiet(3) [OF q, of "uProjectID uc" w] started(4) by simp
  with assms(4) started(1) have nc: "stream_ready x (stored (snd v)) ds0 t (uLocalDir uc)" by (simp add: stream_ready_def)
  have pr: "plain_roots ds0" using assms(3) started(1) by (simp add: plain_roots_def)
  have "up_main s = Returned (Inr ())" using started(2,6) by simp
  from upload_dataset_stored [OF assms(1) pr nc started(5) this, of ds'] show ?thesis
    using started(1,3) by (simp add: same_places_def)
qed

lemma await_described:
  assumes "await_dataset n x conf w = Some (Inr ds, w')" and "quiet (dBatchClient conf) stored"
    and "\<And>k v. stored (snd (snd (xwait x k v))) = stored (snd v)"
  shows "UploadStatus ds = DatasetUploadStatusSuccess \<and> stored (snd w') = stored (snd w) \<and>
     (\<exists>v v'. DescribeDataset (dBatchClient conf) (dProjectID conf) (dDatasetID conf) v = (Inr ds, v'))"
  using assms(1)
proof (induction n arbitrary: w)
  case (Suc n)
  let ?c = "dBatchClient conf"
  obtain r u where d: "DescribeDataset ?c (dProjectID conf) (dDatasetID conf) w = (r, u)" by (rule prod.exhaust)
  with batch_calls_quiet(4) [OF assms(2), of "dProjectID conf" "dDatasetID conf" w] have u: "stored (snd u) = stored (snd w)" by simp
  obtain out where r: "r = Inr out" using Suc.prems d by (cases r) auto
  show ?case
  proof (cases "UploadStatus out = DatasetUploadStatusSuccess")
    case True
    with Suc.prems d r have "out = ds" "u = w'" by simp_all
    with True d r u show ?thesis by blast
  next
    case False
    obtain e v where v: "xwait x (wrap64 (second_ns * wrap64 (UploadExpire out - xclock x u))) u = (e, v)" by (rule prod.exhaust)
    with assms(3) [of "wrap64 (second_ns * wrap64 (UploadExpire out - xclock x u))" u] u have sv: "stored (snd v) = stored (snd w)" by simp
    have "await_dataset n x conf v = Some (Inr ds, w')"
      using Suc.prems d r False v by (auto simp: Let_def split: if_splits option.splits)
    from Suc.IH [OF this] sv show ?thesis by simp
  qed
qed simp

text \<open>The folder has the files of the directory, and nothing else on the disk is different.\<close>

definition brought_back :: "tree \<Rightarrow> string \<Rightarrow> disk \<Rightarrow> disk \<Rightarrow> bool" where
  "brought_back t out d d' \<longleftrightarrow>
     (\<forall>(ns, mode, mtime, content)\<in>set (packed_files [] t). nodes d' (sub out ns) = Some (FileNode (mode mod 2 ^ 32) content mtime)) \<and>
     (\<forall>q. nodes d' q \<noteq> nodes d q \<longrightarrow> nodes d q = None \<and>
        (\<exists>f\<in>set (packed_files [] t). q = sub out (fst f) \<or> q \<in> folders out (fst f)))"

text \<open>An empty folder with room for the directory.\<close>

definition room_in :: "tree \<Rightarrow> string \<Rightarrow> disk \<Rightarrow> bool" where
  "room_in t out d \<longleftrightarrow> base_ready out d \<and> (\<forall>ns. ns \<noteq> [] \<longrightarrow> list_all plain ns \<longrightarrow> nodes d (sub out ns) = None)
     \<and> fits (packed_files [] t) d"

text \<open>What is uploaded comes back, into a folder with room for it.\<close>

lemma dataset_journey:
  assumes "transfer_ready x uc dc stored" and "Upload x uc (Folder None ts) w (Some ds, None) w1" and "plain_roots ds"
    and "stream_ready x (stored (snd w)) ds (Folder None ts) (uLocalDir uc)" and "stored (snd w2) = stored (snd w1)"
    and "\<And>v ds' v'. DescribeDataset (dBatchClient dc) (dProjectID dc) (dDatasetID dc) v = (Inr ds', v') \<Longrightarrow> same_places ds' ds"
    and "sound (Folder None ts)" and "undisturbed (xtar x)" and "room_in (Folder None ts) (dLocalDir dc) d"
    and "Download x dc d w2 (Inr ()) d' w3"
  shows "brought_back (Folder None ts) (dLocalDir dc) d d'"
  using assms(10)
proof cases
  case (started n ds' v s)
  have tr: "object_store (ops_upload (dDataOps dc)) (ops_download (dDataOps dc)) (ops_exists (dDataOps dc)) (stored \<circ> snd)"
    "quiet (dBatchClient dc) stored" "\<And>b. concat (xsplit x b) = b"
    "\<And>a b. xends x a \<Longrightarrow> xparse x (a @ b) = xparse x a"
    using assms(1) by (simp_all add: transfer_ready_def)
  have wait: "stored (snd (snd (xwait x k v))) = stored (snd v)" for k v
    using assms(1) by (cases v) (simp add: transfer_ready_def)
  from await_described [OF started(3) tr(2) wait] assms(5,6) have sv: "stored (snd v) = stored (snd w1)" and sp: "same_places ds' ds"
    by auto
  from Upload_stored [OF assms(1-4), of ds'] sp obtain es where
    es: "tardir (xtar x) (uLocalDir uc) (Folder None ts) = (None, es)"
    and data: "dataset_stored (download_process x dc ds') (stored (snd w1)) (xsplit x (xencode x es))" by blast
  let ?q = "download_process x dc ds'"
  have q: "qparse ?q (concat (xsplit x (xencode x es))) = (map as_read es, Sentinel EOF)" "qlocal ?q = dLocalDir dc"
    using tr(3) assms(4) es by (simp_all add: download_process_def stream_ready_def)
  have live: "dctx (qdata ?q) v = None" for v using assms(1) by (cases v) (simp add: transfer_ready_def download_process_def)
  then have "patient (dctx (qdata ?q)) (dops (qdata ?q))" by (simp add: patient_def)
  with tr(1,4) have ready: "download_ready ?q (stored \<circ> snd)" by (simp add: download_ready_def download_process_def)
  have data': "dataset_stored ?q ((stored \<circ> snd) v) (xsplit x (xencode x es))" using data sv by simp
  have "down_main s = Ended (Inr ())" using started(5) by simp
  from download_complete [OF ready data' live started(4) this q(1)] obtain k where
    k: "untardir k (\<lambda>_. None) (dLocalDir dc) (map as_read es) (Sentinel EOF) d = Some (Inr (), d')"
    using started(1) q(2) by auto
  have room: "base_ready (dLocalDir dc) d" "\<And>ns. ns \<noteq> [] \<Longrightarrow> list_all plain ns \<Longrightarrow> nodes d (sub (dLocalDir dc) ns) = None"
    "fits (packed_files [] (Folder None ts)) d"
    using assms(9) by (simp_all add: room_in_def)
  from archive_unpacks [OF assms(7,8) room, of "uLocalDir uc" 0] es obtain d2 where
    d2: "untardir 1 (\<lambda>_. None) (dLocalDir dc) (map as_read es) (Sentinel EOF) d = Some (Inr (), d2)"
    "\<forall>(ns, mode, mtime, content)\<in>set (packed_files [] (Folder None ts)).
       nodes d2 (sub (dLocalDir dc) ns) = Some (FileNode (mode mod 2 ^ 32) content mtime)"
    "\<forall>q. nodes d2 q \<noteq> nodes d q \<longrightarrow> nodes d q = None \<and>
       (\<exists>f\<in>set (packed_files [] (Folder None ts)). q = sub (dLocalDir dc) (fst f) \<or> q \<in> folders (dLocalDir dc) (fst f))"
    by auto
  from untardir_unique [OF k d2(1)] have "d' = d2" by simp
  with d2(2,3) show ?thesis unfolding brought_back_def by blast
qed

text \<open>
  C2: A dataset makes the whole journey: if \<^verbatim>\<open>Upload\<close> of a readable directory returns without an error, nobody
  touches the objects, and \<^verbatim>\<open>Download\<close> of that dataset into an empty directory with enough room
  returns without an error, then that directory holds exactly the files that were uploaded, with their
  contents, modes and times, and the rest of the disk is as it was; for every interleaving of the
  goroutines on both sides, every number of workers, every retry, and every time the download waits.
\<close>
theorem dataset_roundtrip:
  assumes "transfer_ready x uc dc stored" and "Upload x uc (Folder None ts) w (Some ds, None) w1" and "plain_roots ds"
    and "stream_ready x (stored (snd w)) ds (Folder None ts) (uLocalDir uc)" and "stored (snd w2) = stored (snd w1)"
    and "\<And>v ds' v'. DescribeDataset (dBatchClient dc) (dProjectID dc) (dDatasetID dc) v = (Inr ds', v') \<Longrightarrow> same_places ds' ds"
    and "sound (Folder None ts)" and "undisturbed (xtar x)" and "base_ready (dLocalDir dc) d"
    and "\<And>ns. ns \<noteq> [] \<Longrightarrow> list_all plain ns \<Longrightarrow> nodes d (sub (dLocalDir dc) ns) = None"
    and "fits (packed_files [] (Folder None ts)) d"
    and "Download x dc d w2 (Inr ()) d' w3"
  shows "(\<forall>(ns, mode, mtime, content)\<in>set (packed_files [] (Folder None ts)).
           nodes d' (sub (dLocalDir dc) ns) = Some (FileNode (mode mod 2 ^ 32) content mtime))
     \<and> (\<forall>q. nodes d' q \<noteq> nodes d q \<longrightarrow> nodes d q = None \<and>
           (\<exists>f\<in>set (packed_files [] (Folder None ts)). q = sub (dLocalDir dc) (fst f) \<or> q \<in> folders (dLocalDir dc) (fst f)))"
proof -
  have "room_in (Folder None ts) (dLocalDir dc) d" unfolding room_in_def using assms(9-11) by (intro conjI allI impI) auto
  from dataset_journey [OF assms(1-8) this assms(12)] show ?thesis unfolding brought_back_def .
qed

section \<open>Sizes\<close>

lemma metadata_read:
  assumes "object_store (ops_upload ops) (ops_download ops) (ops_exists ops) st"
    and "st w (b, Join [root, MetadataObjectKey]) = Some dat" and "encode_metadata m = Inr j" and "in_int64 (Size m)"
    and "parse dat = Inr j" and "MetadataDownload parse ctx ops b root w = (Inr m', w')"
  shows "m' = m"
proof -
  from assms(6) obtain body where dl: "Client_Download ctx ops b (Join [root, MetadataObjectKey]) w = (Inr body, w')"
    and r: "(case body of Inl err \<Rightarrow> Inl err | Inr content \<Rightarrow> (case parse content of Inl err \<Rightarrow> Inl err
       | Inr j \<Rightarrow> decode_struct metadata_fields j empty_metadata)) = Inr m'"
    unfolding MetadataDownload_def call_Inr_iff check_Inr_iff by blast
  from r obtain c where c: "body = Inr c" by (cases body) simp_all
  from object_store.download_ok [OF client_store [OF assms(1)] dl [unfolded c]] assms(2) have "c = dat" by simp
  with r c assms(5) decode_encode_metadata [OF assms(3,4)] show ?thesis by simp
qed

text \<open>
  C33: The three sizes of a dataset agree: after a successful upload, the size that is read from the object
  store is the one the client computes from the local directory, that is the length of its archive.
\<close>
theorem sizes_agree:
  assumes "transfer_ready x uc dc stored" and "Upload x uc t w (Some ds, None) w1" and "plain_roots ds"
    and "stream_ready x (stored (snd w)) ds t (uLocalDir uc)" and "stored (snd w2) = stored (snd w1)"
    and "\<And>v ds' v'. DescribeDataset (dBatchClient dc) (dProjectID dc) (dDatasetID dc) v = (Inr ds', v') \<Longrightarrow> same_places ds' ds"
    and "\<And>m j. encode_metadata m = Inr j \<Longrightarrow> in_int64 (Size m) \<Longrightarrow> xunmarshal x (xmarshal x j) = Inr j"
    and "GetRemoteDatasetSize x dc w2 = (Inr n, w3)"
  shows "GetLocalDatasetSize (xtar x) (xencode x) (\<lambda>_. None) (uLocalDir uc) t = Some (Inr n)"
proof -
  from Upload_stored [OF assms(1-4)] obtain es where es: "tardir (xtar x) (uLocalDir uc) t = (None, es)"
    and md: "metadata_stored (upload_process x uc ds) (stored (snd w1)) (wrap64 (int (length (xencode x es))))" by blast
  from md obtain m j where m: "Size m = wrap64 (int (length (xencode x es)))" "encode_metadata m = Inr j"
    "stored (snd w1) (Bucket ds, Join [DatasetRoot ds, MetadataObjectKey]) = Some (xmarshal x j)"
    by (auto simp: metadata_stored_def upload_process_def)
  from assms(8) obtain ds' v m' where d: "DescribeDataset (dBatchClient dc) (dProjectID dc) (dDatasetID dc) w2 = (Inr ds', v)"
    "MetadataDownload (xunmarshal x) (xctx x) (dDataOps dc) (Bucket ds') (DatasetRoot ds') v = (Inr m', w3)" "n = Size m'"
    by (auto simp: GetRemoteDatasetSize_def call_Inr_iff)
  have tr: "object_store (ops_upload (dDataOps dc)) (ops_download (dDataOps dc)) (ops_exists (dDataOps dc)) (stored \<circ> snd)"
    "quiet (dBatchClient dc) stored"
    using assms(1) by (simp_all add: transfer_ready_def)
  have "stored (snd v) = stored (snd w1)"
    using batch_calls_quiet(4) [OF tr(2), of "dProjectID dc" "dDatasetID dc" w2] d(1) assms(5) by simp
  moreover have "same_places ds' ds" by (rule assms(6) [OF d(1)])
  ultimately have st: "(stored \<circ> snd) v (Bucket ds', Join [DatasetRoot ds', MetadataObjectKey]) = Some (xmarshal x j)"
    using m(3) by (simp add: same_places_def)
  have i: "in_int64 (Size m)" by (simp add: m(1))
  have "m' = m" by (rule metadata_read [where st = "stored \<circ> snd" and w = v, OF tr(1) st m(2) i assms(7) [OF m(2) i] d(2)])
  with d(3) m(1) es show ?thesis by (simp add: GetLocalDatasetSize_def countBytes_all)
qed

section \<open>Waiting\<close>

text \<open>What the calls of one turn are.\<close>

abbreviation described :: "'v DownloadConfig \<Rightarrow> string \<times> 'v \<Rightarrow> (goerr + DatasetSummary) \<times> (string \<times> 'v)" where
  "described conf \<equiv> DescribeDataset (dBatchClient conf) (dProjectID conf) (dDatasetID conf)"

text \<open>
  C34: An upload that died before its first heartbeat keeps every download of its dataset busy for good: its
  status stays "CREATED", only "UPLOADING" is checked for the time, and the time to wait is not
  positive, so the loop asks the server again at once and never returns.
\<close>
theorem dead_upload_spins:
  assumes "\<And>v. live v \<Longrightarrow> \<exists>ds v'. described conf v = (Inr ds, v') \<and> live v' \<and> UploadStatus ds = DatasetUploadStatusCreated
      \<and> 0 \<le> UploadExpire ds \<and> UploadExpire ds < xclock x v' \<and> xclock x v' < 2 ^ 33"
    and "\<And>d v. d \<le> 0 \<Longrightarrow> xwait x d v = (None, v)" and "live w"
  shows "await_dataset n x conf w = None"
  using assms(3)
proof (induction n arbitrary: w)
  case (Suc n)
  from assms(1) [OF Suc.prems] obtain ds v where d: "described conf w = (Inr ds, v)" "live v"
    "UploadStatus ds = DatasetUploadStatusCreated"
    "0 \<le> UploadExpire ds" "UploadExpire ds < xclock x v" "xclock x v < 2 ^ 33" by blast
  let ?k = "UploadExpire ds - xclock x v"
  have "in_int64 ?k" "in_int64 (second_ns * ?k)" "second_ns * ?k \<le> 0"
    using d(4-6) by (simp_all add: in_int64_def min_int64_def max_int64_def second_ns_def)
  then have "xwait x (wrap64 (second_ns * wrap64 ?k)) v = (None, v)" using assms(2) by simp
  with d Suc.IH show ?case
    by (simp add: Let_def DatasetUploadStatusCreated_def DatasetUploadStatusSuccess_def DatasetUploadStatusUploading_def)
qed simp

end
