(* ===== verification/Upload_Liveness.thy ===== *)
theory Upload_Liveness
  imports Dataset_Transfer
begin

text \<open>
  \<^verbatim>\<open>uploadProcess.start\<close> of \<^verbatim>\<open>nerd/service/datatransfer/v1/upload_process.go\<close> returns: apart from heartbeats, which go on as long
  as the context does, its goroutines take a bounded number of steps, and from wherever they have got to they can
  go on until the main goroutine returns, each waiting for the one before it: no heartbeat and no early failure has
  to come to their help. No channel, pipe or error blocks it.
\<close>

section \<open>Steps that are not heartbeats\<close>

text \<open>A heartbeat the server takes note of changes the world only; every other step moves a goroutine on.\<close>

definition only_world :: "'w up_state \<Rightarrow> 'w up_state \<Rightarrow> bool" where
  "only_world s s' \<longleftrightarrow> (\<exists>w. s' = s\<lparr>up_world := w\<rparr>)"

lemma only_worldE: "only_world s s' \<Longrightarrow> (\<And>w. s' = s\<lparr>up_world := w\<rparr> \<Longrightarrow> thesis) \<Longrightarrow> thesis"
  unfolding only_world_def by blast

lemma only_worldD:
  "only_world s s' \<Longrightarrow> tarred s' = tarred s \<and> counted s' = counted s \<and> listed s' = listed s \<and> indexed s' = indexed s \<and> up_main s' = up_main s"
  by (elim only_worldE) simp

inductive works :: "'w uploadProcess \<Rightarrow> tree \<Rightarrow> nat \<Rightarrow> 'w up_state \<Rightarrow> 'w up_state \<Rightarrow> bool" for p t where
  begin_work: "works p t 0 s s"
| heartbeat: "works p t k s s1 \<Longrightarrow> up_step p t s1 s2 \<Longrightarrow> only_world s1 s2 \<Longrightarrow> works p t k s s2"
| goroutine: "works p t k s s1 \<Longrightarrow> up_step p t s1 s2 \<Longrightarrow> \<not> only_world s1 s2 \<Longrightarrow> works p t (Suc k) s s2"

lemma works_run: "works p t k s s' \<Longrightarrow> (up_step p t)\<^sup>*\<^sup>* s s'"
  by (induction rule: works.induct) (auto intro: rtranclp.rtrancl_into_rtrancl)

lemma run_works: "(up_step p t)\<^sup>*\<^sup>* s s' \<Longrightarrow> \<exists>k. works p t k s s'"
  by (induction rule: rtranclp_induct) (blast intro: works.intros)+

definition main_left :: "up_main \<Rightarrow> nat" where
  "main_left m = (case m of Awaiting \<Rightarrow> 4 | Counting \<Rightarrow> 2 | Returned _ \<Rightarrow> 0)"

definition up_size :: "'w up_state \<Rightarrow> nat" where
  "up_size s = (if tarred s = None then 1 else 0) + (if counted s = None then 1 else 0) + (if listed s = None then 1 else 0)
     + (if indexed s then 0 else 1) + (if beating_up s then 1 else 0) + main_left (up_main s) + (4 - length (doneCh s))"

lemma up_step_size:
  assumes "up_step p t s s'"
  shows "only_world s s' \<or> up_size s' < up_size s"
  using assms
proof cases
  case (beat r w)
  then show ?thesis unfolding only_world_def by blast
qed (rule disjI2; auto simp: up_size_def main_left_def)+

lemma only_world_size: "only_world s s' \<Longrightarrow> up_size s' = up_size s"
  by (elim only_worldE) (simp add: up_size_def)

lemma works_size: "works p t k s s' \<Longrightarrow> k + up_size s' \<le> up_size s"
proof (induction rule: works.induct)
  case (heartbeat k s s1 s2)
  then show ?case by (simp add: only_world_size)
next
  case (goroutine k s s1 s2)
  then show ?case using up_step_size [OF goroutine(2)] by simp
qed simp

section \<open>Somebody can go on\<close>

text \<open>
  A step in its turn: the walk, the count or the index stage, the chunks stage once its stream has ended, or the main
  goroutine does its part. The heartbeat does not count, and the chunks stage may not fail on a stream that is still open.
\<close>

definition up_turn :: "'w uploadProcess \<Rightarrow> tree \<Rightarrow> 'w up_state \<Rightarrow> 'w up_state \<Rightarrow> bool" where
  "up_turn p t s s' \<longleftrightarrow> up_step p t s s' \<and>
     (tarred s' \<noteq> tarred s \<or> counted s' \<noteq> counted s \<or> (listed s' \<noteq> listed s \<and> forwarded s \<noteq> None) \<or> indexed s' \<noteq> indexed s \<or>
      up_main s' \<noteq> up_main s)"

lemma up_turnI:
  assumes "up_step p t s s'"
    and "tarred s' \<noteq> tarred s \<or> counted s' \<noteq> counted s \<or> (listed s' \<noteq> listed s \<and> forwarded s \<noteq> None) \<or> indexed s' \<noteq> indexed s \<or>
      up_main s' \<noteq> up_main s"
  shows "\<exists>s'. up_turn p t s s'"
  using assms unfolding up_turn_def by blast

lemma up_turn_moves: "up_turn p t s s' \<Longrightarrow> up_step p t s s' \<and> up_size s' < up_size s"
  using up_step_size [of p t s s'] only_worldD [of s s'] unfolding up_turn_def by blast

definition up_live :: "'w up_state \<Rightarrow> bool" where
  "up_live s \<longleftrightarrow> (counted s \<noteq> None \<longrightarrow> forwarded s \<noteq> None) \<and>
     (listed s \<noteq> None \<longrightarrow> poisoned s \<or> counted s \<noteq> None) \<and> (forwarded s \<noteq> None \<longrightarrow> counted s \<noteq> None) \<and>
     (\<not> indexed s \<longrightarrow> None \<notin> set (doneCh s) \<and> (up_main s = Awaiting \<or> (\<exists>e. up_main s = Returned (Inl e)))) \<and>
     (indexed s \<longrightarrow> listed s \<noteq> None \<and> (up_main s = Awaiting \<longrightarrow> doneCh s \<noteq> []))"

lemma up_live_start: "up_live (up_start w)"
  by (simp add: up_live_def up_start_def)

lemma up_live_step:
  assumes "up_step p t s s'" and "up_live s"
  shows "up_live s'"
  using assms(1)
proof cases
  case (chunks_failed cs u err)
  with assms(2) have "\<not> indexed s" "None \<notin> set (doneCh s)" "up_main s = Awaiting \<or> (\<exists>e. up_main s = Returned (Inl e))"
    by (auto simp: up_live_def)
  moreover from this poisoned_by_error [of s s' err] chunks_failed(1) have "poisoned s'" by simp
  ultimately show ?thesis using assms(2) chunks_failed by (auto simp: up_live_def)
next
  case (tar_failed err es b)
  with assms(2) poisoned_stable [OF assms(1)] show ?thesis by (auto simp: up_live_def)
next
  case (expire w)
  with assms(2) poisoned_stable [OF assms(1)] show ?thesis by (auto simp: up_live_def)
next
  case (index x r w)
  with assms(2) poisoned_stable [OF assms(1)] show ?thesis by (auto simp: up_live_def)
next
  case (pass q)
  with assms(2) show ?thesis by (auto simp: up_live_def poisoned_def)
next
  case (finish cres r w)
  with assms(2) show ?thesis by (auto simp: up_live_def)
qed (use assms(2) in \<open>auto simp: up_live_def poisoned_def\<close>)

lemma works_live: "works p t k s s' \<Longrightarrow> up_live s \<Longrightarrow> up_live s'"
  by (induction rule: works.induct) (auto intro: up_live_step)

text \<open>The chunks stage comes to a result.\<close>

lemma pipeline_result: "\<exists>u. pipeline p s u \<and> uresult u \<noteq> None"
proof (induction s rule: measure_induct_rule [where f = upload_size])
  case (less s)
  show ?case
  proof (cases "uresult s")
    case None
    from upload_step_possible [OF None] obtain s1 where s1: "upload_step (pdata p) (WriteKey append_bytes) s s1" by blast
    from less.IH [OF upload_step_size [OF s1]] obtain u where "pipeline p s1 u" "uresult u \<noteq> None" by blast
    with s1 show ?thesis by (blast intro: converse_rtranclp_into_rtranclp)
  qed auto
qed

definition returned :: "'w up_state \<Rightarrow> bool" where
  "returned s \<longleftrightarrow> (\<exists>r. up_main s = Returned r)"

lemma stage_possible:
  assumes "up_live s" and "up_main s = Awaiting" and "doneCh s = []" and "fst (tardir (ptar p) (plocal p) t) \<noteq> Some Panicked"
  shows "\<exists>s'. up_turn p t s s'"
proof (cases "tarred s")
  case None
  obtain r es where tar: "tardir (ptar p) (plocal p) t = (r, es)" by (rule prod.exhaust)
  show ?thesis
  proof (cases r)
    case r: None
    from tar r None have "up_step p t s (s\<lparr>tarred := Some (pencode p es)\<rparr>)" by (intro up_step.tar) simp_all
    then show ?thesis by (rule up_turnI) (simp add: None)
  next
    case (Some x)
    with assms(4) tar obtain err where "x = Failed err" by (cases x) auto
    with tar Some None assms(3) have "up_step p t s (s\<lparr>tarred := Some [], doneCh := doneCh s @ [Some err]\<rparr>)"
      by (intro up_step.tar_failed) simp_all
    then show ?thesis by (rule up_turnI) (simp add: None)
  qed
next
  case tarred: (Some b)
  show ?thesis
  proof (cases "counted s")
    case None
    from up_step.count [OF None tarred refl, of p t] show ?thesis by (rule up_turnI) (simp add: None)
  next
    case counted: (Some c)
    with assms(1) obtain b' where f: "forwarded s = Some b'" by (auto simp: up_live_def)
    show ?thesis
    proof (cases "listed s")
      case None
      obtain u where u: "pipeline p (upload_start (psplit p b') None (up_world s) []) u" "uresult u \<noteq> None"
        using pipeline_result by blast
      then obtain r where r: "uresult u = Some r" by blast
      show ?thesis
      proof (cases r)
        case (Inl err)
        from assms(3) have "length (doneCh s) < 4" by simp
        from up_step.chunks_failed [OF None _ u(1) r [unfolded Inl] this, of t] f
        have "up_step p t s (s\<lparr>listed := Some (uwriter u), up_world := uworld u, doneCh := doneCh s @ [Some err]\<rparr>)" by simp
        then show ?thesis by (rule up_turnI) (simp add: None f)
      next
        case (Inr x)
        then have "uresult u = Some (Inr ())" using r by simp
        from up_step.chunks [OF None f u(1) this, of t] show ?thesis by (rule up_turnI) (simp add: None f)
      qed
    next
      case (Some x)
      have i: "\<not> indexed s" and c: "length (doneCh s) < 4" using assms(1-3) by (auto simp: up_live_def)
      obtain r w where "uploadIndex (uctx (pdata p)) (uops (pdata p)) (Inr x) (ubucket (pdata p)) (proot p) (up_world s) = (r, w)"
        by (rule prod.exhaust)
      from up_step.index [OF i Some c this, of t] show ?thesis by (rule up_turnI) (simp add: i)
    qed
  qed
qed

lemma somebody_works:
  assumes "up_live s" and "\<not> returned s" and "fst (tardir (ptar p) (plocal p) t) \<noteq> Some Panicked"
  shows "\<exists>s'. up_turn p t s s'"
proof (cases "up_main s")
  case Awaiting
  show ?thesis
  proof (cases "doneCh s")
    case Nil
    with stage_possible [OF assms(1) Awaiting _ assms(3)] show ?thesis by blast
  next
    case (Cons e q)
    show ?thesis
    proof (cases e)
      case None
      from up_step.pass [OF Awaiting Cons [unfolded None], of p t] show ?thesis by (rule up_turnI) (simp add: Awaiting)
    next
      case (Some err)
      from up_step.fail [OF Awaiting Cons [unfolded Some], of p t] show ?thesis by (rule up_turnI) (simp add: Awaiting)
    qed
  qed
next
  case Counting
  with assms(1) obtain c where c: "counted s = Some c" by (auto simp: up_live_def poisoned_def)
  obtain r w where "conclude p c (up_world s) = (r, w)" by (rule prod.exhaust)
  from up_step.finish [OF Counting c this, of t] show ?thesis by (rule up_turnI) (simp add: Counting)
qed (use assms(2) in \<open>simp add: returned_def\<close>)

lemma upload_runs:
  assumes "fst (tardir (ptar p) (plocal p) t) \<noteq> Some Panicked" and "up_live s"
  shows "\<exists>s'. (up_turn p t)\<^sup>*\<^sup>* s s' \<and> returned s'"
  using assms(2)
proof (induction s rule: measure_induct_rule [where f = up_size])
  case (less s)
  show ?case
  proof (cases "returned s")
    case False
    from somebody_works [OF less.prems False assms(1)] obtain s1 where s1: "up_turn p t s s1" by blast
    from up_turn_moves [OF this] have "up_step p t s s1" "up_size s1 < up_size s" by simp_all
    from less.IH [OF this(2) up_live_step [OF this(1) less.prems]] s1 show ?thesis
      by (blast intro: converse_rtranclp_into_rtranclp)
  qed blast
qed

lemma up_turns_run: "(up_turn p t)\<^sup>*\<^sup>* s s' \<Longrightarrow> (up_step p t)\<^sup>*\<^sup>* s s'"
  by (induction rule: rtranclp_induct) (auto simp: up_turn_def intro: rtranclp.rtrancl_into_rtrancl)

text \<open>
  C23: An upload returns: whatever the interleaving, its goroutines take at most thirteen steps besides the heartbeats that
  change nothing for it, and wherever they have got to, they can go on until \<^verbatim>\<open>start\<close> has returned, each stage
  when the one before it has closed its pipe: no failure of
  a stage, no error nobody hears, no full channel and no expired heartbeat makes it hang, if walking the directory does not panic.
\<close>

theorem upload_returns:
  assumes "fst (tardir (ptar p) (plocal p) t) \<noteq> Some Panicked" and "works p t k (up_start w) s"
  shows "k \<le> 13 \<and> (\<exists>s'. (up_turn p t)\<^sup>*\<^sup>* s s' \<and> returned s')"
proof
  have "up_size (up_start w) = 13" by (simp add: up_size_def up_start_def main_left_def)
  with works_size [OF assms(2)] show "k \<le> 13" by simp
  show "\<exists>s'. (up_turn p t)\<^sup>*\<^sup>* s s' \<and> returned s'"
    by (rule upload_runs [OF assms(1) works_live [OF assms(2) up_live_start]])
qed

text \<open>So an upload has an outcome, whatever the server, the store and the directory do.\<close>

lemma Upload_total:
  assumes "fst (tardir (xtar x) (uLocalDir conf) t) \<noteq> Some Panicked"
  shows "\<exists>res w'. Upload x conf t w res w'"
proof -
  obtain r w1 where c: "CreateDataset (uBatchClient conf) (uProjectID conf) w = (r, w1)" by (rule prod.exhaust)
  show ?thesis
  proof (cases r)
    case (Inl err)
    with c Upload.not_created show ?thesis by metis
  next
    case (Inr ds)
    let ?p = "upload_process x conf ds"
    have "fst (tardir (ptar ?p) (plocal ?p) t) \<noteq> Some Panicked" using assms by (simp add: upload_process_def)
    from upload_runs [OF this up_live_start] obtain s res where "(up_step ?p t)\<^sup>*\<^sup>* (up_start w1) s" "up_main s = Returned res"
      unfolding returned_def by (blast intro: up_turns_run)
    with Upload.started c Inr show ?thesis by metis
  qed
qed

theorem upload_returns_witness:
  "\<exists>k s. works demo_process (Folder None demo_children) k (up_start empty_s3) s \<and> k \<le> 13 \<and> up_main s = Returned (Inr ())"
proof -
  obtain s where run: "(up_step demo_process (Folder None demo_children))\<^sup>*\<^sup>* (up_start empty_s3) s" and s: "up_main s = Returned (Inr ())"
    by (rule demo_upload_returns)
  from run_works [OF run] obtain k where k: "works demo_process (Folder None demo_children) k (up_start empty_s3) s" by blast
  have "fst (tardir (ptar demo_process) (plocal demo_process) (Folder None demo_children)) \<noteq> Some Panicked"
    using demo_tar by (auto simp: demo_process_def)
  from upload_returns [OF this k] s k show ?thesis by blast
qed

end
