(* ===== verification/Store_Part.thy ===== *)
theory Store_Part
  imports Dataset_Transfer
begin

text \<open>
  A store inside a larger world. What runs on the store alone runs on the world as well, with the rest of it as it
  was: operations, stores with their contract, and whole runs of the two pipelines, also with more workers.
  The interface \<open>world_part\<close> is the usual one of a part: what is put is got, putting back what is there changes
  nothing, and only the last put counts.
\<close>

section \<open>Operations on a part\<close>

definition within :: "('w \<Rightarrow> 'v) \<Rightarrow> ('v \<Rightarrow> 'w \<Rightarrow> 'w) \<Rightarrow> ('v \<Rightarrow> 'r \<times> 'v) \<Rightarrow> 'w \<Rightarrow> 'r \<times> 'w" where
  "within part put f w = (case f (part w) of (r, v) \<Rightarrow> (r, put v w))"

definition ops_within :: "('w \<Rightarrow> 'v) \<Rightarrow> ('v \<Rightarrow> 'w \<Rightarrow> 'w) \<Rightarrow> 'v DataOps \<Rightarrow> 'w DataOps" where
  "ops_within part put ops = \<lparr>ops_upload = (\<lambda>b k x. within part put (ops_upload ops b k x)),
     ops_download = (\<lambda>b k. within part put (ops_download ops b k)), ops_exists = (\<lambda>b k. within part put (ops_exists ops b k))\<rparr>"

lemma ops_within_sel [simp]:
  "ops_upload (ops_within part put ops) b k x = within part put (ops_upload ops b k x)"
  "ops_download (ops_within part put ops) b k = within part put (ops_download ops b k)"
  "ops_exists (ops_within part put ops) b k = within part put (ops_exists ops b k)"
  by (simp_all add: ops_within_def)

text \<open>The surroundings and states of the pipelines, with \<open>n\<close> workers; the rest of the world is that of \<open>c\<close>.\<close>

definition up_within :: "('w \<Rightarrow> 'v) \<Rightarrow> ('v \<Rightarrow> 'w \<Rightarrow> 'w) \<Rightarrow> nat \<Rightarrow> 'v upload_env \<Rightarrow> 'w upload_env" where
  "up_within part put n v = \<lparr>uctx = (\<lambda>_. None), uops = ops_within part put (uops v), usha = usha v, ubucket = ubucket v,
     uroot = uroot v, uconcurrency = n\<rparr>"

definition up_state_within :: "('v \<Rightarrow> 'w \<Rightarrow> 'w) \<Rightarrow> 'w \<Rightarrow> ('v, 'k) upload_state \<Rightarrow> ('w, 'k) upload_state" where
  "up_state_within put c s = \<lparr>utodo = utodo s, uend = uend s, uclosed = uclosed s, uitems = uitems s, uworld = put (uworld s) c,
     uwriter = uwriter s, uresult = uresult s\<rparr>"

definition down_within :: "('w \<Rightarrow> 'v) \<Rightarrow> ('v \<Rightarrow> 'w \<Rightarrow> 'w) \<Rightarrow> nat \<Rightarrow> 'v download_env \<Rightarrow> 'w download_env" where
  "down_within part put n v = \<lparr>dctx = (\<lambda>_. None), dops = ops_within part put (dops v), dbucket = dbucket v, droot = droot v,
     dconcurrency = n\<rparr>"

definition down_state_within :: "('v \<Rightarrow> 'w \<Rightarrow> 'w) \<Rightarrow> 'w \<Rightarrow> ('v, 'r) download_state \<Rightarrow> ('w, 'r) download_state" where
  "down_state_within put c s = \<lparr>dreader = dreader s, dclosed = dclosed s, ditems = ditems s, dworld = put (dworld s) c,
     dwritten = dwritten s, dresult = dresult s\<rparr>"

section \<open>Parts\<close>

locale world_part =
  fixes part :: "'w \<Rightarrow> 'v" and put :: "'v \<Rightarrow> 'w \<Rightarrow> 'w"
  assumes put_part: "part (put v w) = v"
    and part_put: "put (part w) w = w"
    and put_put: "put v (put u w) = put v w"
begin

lemma within_put: "f v = (r, v') \<Longrightarrow> within part put f (put v c) = (r, put v' c)"
  by (simp add: within_def put_part put_put)

lemma within_back: "within part put f w = (r, w') \<longleftrightarrow> f (part w) = (r, part w') \<and> w' = put (part w') w"
  by (cases "f (part w)") (auto simp: within_def put_part)

lemma object_store_within:
  assumes "object_store (ops_upload ops) (ops_download ops) (ops_exists ops) stored"
  shows "object_store (ops_upload (ops_within part put ops)) (ops_download (ops_within part put ops)) (ops_exists (ops_within part put ops)) (stored \<circ> part)"
proof (unfold_locales, goal_cases)
  case (1 b k x s u s')
  then show ?case using object_store.upload_ok [OF assms] by (simp add: within_back)
next
  case (2 b k x s e s')
  then show ?case using object_store.upload_failed [OF assms] by (simp add: within_back)
next
  case (3 b k s)
  obtain r v where "ops_download ops b k (part s) = (r, v)" by (rule prod.exhaust)
  then show ?case using object_store.download_pure [OF assms, of b k "part s"] by (simp add: within_def put_part)
next
  case (4 b k s x s')
  then show ?case using object_store.download_ok [OF assms] by (simp add: within_back)
next
  case (5 b k s)
  obtain r v where "ops_exists ops b k (part s) = (r, v)" by (rule prod.exhaust)
  then show ?case using object_store.exists_pure [OF assms, of b k "part s"] by (simp add: within_def put_part)
next
  case (6 b k s s')
  then show ?case using object_store.exists_ok [OF assms] by (simp add: within_back)
qed

lemma attempts_within:
  "attempts (\<lambda>_. None) g op n err v = (r, v') \<Longrightarrow> attempts (\<lambda>_. None) g (within part put op) n err (put v c) = (r, put v' c)"
proof (induction n arbitrary: err v)
  case (Suc n)
  obtain x u where x: "op v = (x, u)" by (rule prod.exhaust)
  then have "within part put op (put v c) = (x, put u c)" by (rule within_put)
  with Suc x show ?case by (cases x) auto
qed simp

lemma client_within:
  "Client_Upload (\<lambda>_. None) ops b k x v = (r, v') \<Longrightarrow> Client_Upload (\<lambda>_. None) (ops_within part put ops) b k x (put v c) = (r, put v' c)"
  "Client_Download (\<lambda>_. None) ops b k v = (r', v') \<Longrightarrow> Client_Download (\<lambda>_. None) (ops_within part put ops) b k (put v c) = (r', put v' c)"
  "Client_Exists ops b k v = (r'', v') \<Longrightarrow> Client_Exists (ops_within part put ops) b k (put v c) = (r'', put v' c)"
  unfolding Client_Upload_def Client_Download_def Client_Exists_def ops_within_sel
  by (rule attempts_within within_put; assumption)+

lemma upload_work_within:
  assumes "uctx v = (\<lambda>_. None)" and "upload_work v ch wk w = (wk', w')"
  shows "upload_work (up_within part put n v) ch wk (put w c) = (wk', put w' c)"
proof (cases wk)
  case Checking
  obtain r u where e: "Client_Exists (uops v) (ubucket v) (chunk_key (usha v) (uroot v) ch) w = (r, u)" by (rule prod.exhaust)
  from client_within(3) [OF this, of c] e assms(2) Checking show ?thesis
    by (cases r) (simp_all add: upload_work_def up_within_def split: bool.splits)
next
  case Putting
  obtain r u where e: "Client_Upload (uctx v) (uops v) (ubucket v) (chunk_key (usha v) (uroot v) ch) ch w = (r, u)" by (rule prod.exhaust)
  then have "Client_Upload (\<lambda>_. None) (ops_within part put (uops v)) (ubucket v) (chunk_key (usha v) (uroot v) ch) ch (put w c) = (r, put u c)"
    using client_within(1) assms(1) by metis
  with e assms(2) Putting show ?thesis by (cases r) (simp_all add: upload_work_def up_within_def)
qed (use assms(2) in \<open>auto simp: upload_work_def\<close>)

lemma upload_step_within:
  assumes "uctx v = (\<lambda>_. None)" and "uconcurrency v \<le> n" and "upload_step v wk s t"
  shows "upload_step (up_within part put n v) wk (up_state_within put c s) (up_state_within put c t)"
  using assms(3)
proof cases
  case (emit ch cs)
  with assms(2) show ?thesis using upload_step.emit [of "up_state_within put c s" ch cs "up_within part put n v" wk]
    by (simp add: up_state_within_def up_within_def)
next
  case (emit_error e)
  with assms(2) show ?thesis using upload_step.emit_error [of "up_state_within put c s" e "up_within part put n v" wk]
    by (simp add: up_state_within_def up_within_def)
next
  case close
  then show ?thesis using upload_step.close [of "up_state_within put c s" "up_within part put n v" wk] by (simp add: up_state_within_def)
next
  case (work i ch p p' w')
  from upload_work_within [OF assms(1) work(6)] work show ?thesis
    using upload_step.work [of "up_state_within put c s" i ch p "up_within part put n v" p' "put w' c" wk] by (simp add: up_state_within_def)
next
  case (collect ch k its u x)
  then show ?thesis using upload_step.collect [of "up_state_within put c s" ch k its wk u x "up_within part put n v"] by (simp add: up_state_within_def)
next
  case (write_failed ch k its e x)
  then show ?thesis using upload_step.write_failed [of "up_state_within put c s" ch k its wk e x "up_within part put n v"] by (simp add: up_state_within_def)
next
  case (broken ch e its)
  then show ?thesis using upload_step.broken [of "up_state_within put c s" ch e its "up_within part put n v" wk] by (simp add: up_state_within_def)
next
  case (iterate_failed e its)
  then show ?thesis using upload_step.iterate_failed [of "up_state_within put c s" e its "up_within part put n v" wk] by (simp add: up_state_within_def)
next
  case (cancelled e)
  with assms(1) show ?thesis by simp
next
  case (skip ch cs e)
  with assms(1) show ?thesis by simp
next
  case (skip_error e e')
  with assms(1) show ?thesis by simp
next
  case finished
  then show ?thesis using upload_step.finished [of "up_state_within put c s" "up_within part put n v" wk] by (simp add: up_state_within_def)
qed

lemma upload_steps_within:
  assumes "uctx v = (\<lambda>_. None)" and "uconcurrency v \<le> n" and "(upload_step v wk)\<^sup>*\<^sup>* s t"
  shows "(upload_step (up_within part put n v) wk)\<^sup>*\<^sup>* (up_state_within put c s) (up_state_within put c t)"
  using assms(3) by (induction rule: rtranclp_induct) (auto intro: rtranclp.rtrancl_into_rtrancl upload_step_within [OF assms(1,2)])

lemma download_work_within:
  assumes "dctx v = (\<lambda>_. None)" and "download_work v k w = (f, w')"
  shows "download_work (down_within part put n v) k (put w c) = (f, put w' c)"
proof -
  obtain r u where e: "Client_Download (dctx v) (dops v) (dbucket v) (key_object (droot v) k) w = (r, u)" by (rule prod.exhaust)
  then have "Client_Download (\<lambda>_. None) (ops_within part put (dops v)) (dbucket v) (key_object (droot v) k) (put w c) = (r, put u c)"
    using client_within(2) assms(1) by metis
  with e assms(2) show ?thesis by (cases r) (auto simp: download_work_def down_within_def split: sum.splits)
qed

lemma download_step_within:
  assumes "dctx v = (\<lambda>_. None)" and "dconcurrency v \<le> n" and "download_step v rk wr s t"
  shows "download_step (down_within part put n v) rk wr (down_state_within put c s) (down_state_within put c t)"
  using assms(3)
proof cases
  case (emit k r)
  with assms(2) show ?thesis using download_step.emit [of "down_state_within put c s" "down_within part put n v" rk k r wr]
    by (simp add: down_state_within_def down_within_def)
next
  case (close r)
  then show ?thesis using download_step.close [of "down_state_within put c s" rk r "down_within part put n v" wr] by (simp add: down_state_within_def)
next
  case (emit_error e r)
  with assms(2) show ?thesis using download_step.emit_error [of "down_state_within put c s" "down_within part put n v" rk e r wr]
    by (simp add: down_state_within_def down_within_def)
next
  case (fetch i k f w')
  from download_work_within [OF assms(1) fetch(5)] fetch show ?thesis
    using download_step.fetch [of "down_state_within put c s" i k "down_within part put n v" f "put w' c" rk wr] by (simp add: down_state_within_def)
next
  case (collect k chunk its)
  then show ?thesis using download_step.collect [of "down_state_within put c s" k chunk its wr "down_within part put n v" rk] by (simp add: down_state_within_def)
next
  case (write_failed k chunk its e)
  then show ?thesis using download_step.write_failed [of "down_state_within put c s" k chunk its wr e "down_within part put n v" rk]
    by (simp add: down_state_within_def)
next
  case (fetch_failed k e its)
  then show ?thesis using download_step.fetch_failed [of "down_state_within put c s" k e its "down_within part put n v" rk wr] by (simp add: down_state_within_def)
next
  case (iterate_failed e its)
  then show ?thesis using download_step.iterate_failed [of "down_state_within put c s" e its "down_within part put n v" rk wr] by (simp add: down_state_within_def)
next
  case (cancelled e)
  with assms(1) show ?thesis by simp
next
  case (give_up x r e)
  with assms(1) show ?thesis by simp
next
  case finished
  then show ?thesis using download_step.finished [of "down_state_within put c s" "down_within part put n v" rk wr] by (simp add: down_state_within_def)
qed

lemma download_steps_within:
  assumes "dctx v = (\<lambda>_. None)" and "dconcurrency v \<le> n" and "(download_step v rk wr)\<^sup>*\<^sup>* s t"
  shows "(download_step (down_within part put n v) rk wr)\<^sup>*\<^sup>* (down_state_within put c s) (down_state_within put c t)"
  using assms(3) by (induction rule: rtranclp_induct) (auto intro: rtranclp.rtrancl_into_rtrancl download_step_within [OF assms(1,2)])

end

end
