(* ===== verification/Transfer_Example.thy ===== *)
theory Transfer_Example
  imports Store_Part
begin

text \<open>
  A whole transfer of the small directory of \<open>Archive_Files\<close>, through the object store of
  \<open>Data_Client\<close> and a batch API that answers every call with the same dataset: the
  hypotheses of the properties of \<open>Dataset_Transfer\<close> hold together.
\<close>

section \<open>A store beside a credential\<close>

definition put_snd :: "'v \<Rightarrow> 'c \<times> 'v \<Rightarrow> 'c \<times> 'v" where
  "put_snd v s = (fst s, v)"

lemma put_snd_pair [simp]: "put_snd v (c, w) = (c, v)"
  by (simp add: put_snd_def)

interpretation pair: world_part snd put_snd
  by unfold_locales (simp_all add: put_snd_def)

abbreviation ops_beside :: "'v DataOps \<Rightarrow> ('c \<times> 'v) DataOps" where
  "ops_beside \<equiv> ops_within snd put_snd"

section \<open>The batch API of the example\<close>

definition demo_dataset :: DatasetSummary where
  "demo_dataset = empty_dataset\<lparr>dsProjectID := ''pr'', DatasetID := ''ds'', Bucket := ''b'', DatasetRoot := ''d'', ProjectRoot := ''p'',
     UploadStatus := ''SUCCESS''\<rparr>"

definition demo_answer :: json where
  "demo_answer = JObj [(''project_id'', JStr ''pr''), (''dataset_id'', JStr ''ds''), (''bucket'', JStr ''b''),
     (''dataset_root'', JStr ''d''), (''project_root'', JStr ''p''), (''upload_status'', JStr ''SUCCESS'')]"

definition demo_batch :: "s3_world ClientConfig" where
  "demo_batch = \<lparr>Doer = (\<lambda>req v. (Inr \<lparr>StatusCode = 200, Status = ''200 OK'', RespBody = Inr demo_answer\<rparr>, v)),
     TokenProvider = Some demo_provider, BaseURL = demo_url\<rparr>"

lemma demo_quiet: "quiet demo_batch stored"
  by (simp add: quiet_def demo_batch_def demo_provider_def)

lemma demo_call:
  assumes "url_Parse path = Inr u" and "decode_struct fs demo_answer z = Inr r"
  shows "doRequest demo_batch m path i (into fs z) (c, v) = (Inr r, if c = [] then ''tok'' else c, v)"
proof -
  have "getJWT demo_batch (c, v) = (Inr (if c = [] then ''tok'' else c), if c = [] then ''tok'' else c, v)"
    by (simp add: getJWT_def get_credential_def demo_batch_def demo_provider_def)
  moreover have "send (Doer demo_batch) batch_http_error (into fs z) req w = (Inr r, w)" for req w
    by (simp add: send_def demo_batch_def finish_response_def into_def Decode_def assms(2))
  ultimately show ?thesis by (simp add: doRequest_def assms(1))
qed

lemma demo_elems: "list_all safe_elem [''pr'', datasetEndpoint]" "list_all safe_elem [''pr'', datasetEndpoint, ''ds'']"
    "list_all safe_elem [''pr'', datasetEndpoint, ''ds'', ''success'']"
  by code_simp+

lemmas demo_paths = createPath_parses [OF demo_elems(1)] createPath_parses [OF demo_elems(2)] createPath_parses [OF demo_elems(3)]

lemma demo_decoded:
  "decode_struct create_dataset_fields demo_answer empty_create_dataset = Inr (DatasetSummary.extend demo_dataset \<lparr>HeartbeatInterval = 0\<rparr>)"
  "decode_struct dataset_fields demo_answer empty_dataset = Inr demo_dataset"
  "decode_struct no_fields demo_answer () = Inr ()"
  by code_simp+

lemma demo_calls:
  "CreateDataset demo_batch ''pr'' (''tok'', v) = (Inr (DatasetSummary.extend demo_dataset \<lparr>HeartbeatInterval = 0\<rparr>), ''tok'', v)"
  "DescribeDataset demo_batch ''pr'' ''ds'' (c, v) = (Inr demo_dataset, if c = [] then ''tok'' else c, v)"
  "SendUploadSuccess demo_batch ''pr'' ''ds'' (''tok'', v) = (Inr (), ''tok'', v)"
  using demo_call [OF demo_paths(1) demo_decoded(1)] demo_call [OF demo_paths(2) demo_decoded(2)]
    demo_call [OF demo_paths(3) demo_decoded(3)]
  by (simp_all add: CreateDataset_def DescribeDataset_def SendUploadSuccess_def)

section \<open>The transfer\<close>

text \<open>A text for documents that hold two times and a number, in unary.\<close>

definition unary :: "int \<Rightarrow> string" where
  "unary i = (if i < 0 then CHR ''-'' else CHR ''+'') # replicate (nat \<bar>i\<bar>) CHR ''1''"

definition of_unary :: "string \<Rightarrow> int" where
  "of_unary s = (if hd s = CHR ''-'' then - 1 else 1) * int (length (tl s))"

lemma of_unary [simp]: "of_unary (unary i) = i"
  by (simp add: of_unary_def unary_def)

lemma unary_no_sep: "CHR '';'' \<notin> set (unary i)"
  by (auto simp: unary_def)

definition demo_marshal :: "json \<Rightarrow> string" where
  "demo_marshal j = (case j of
     JObj [(_, JTime a), (_, JTime b), (_, JNum n)] \<Rightarrow> join_with '';'' [unary a, unary b, unary n] | _ \<Rightarrow> [])"

definition demo_unmarshal :: "string \<Rightarrow> goerr + json" where
  "demo_unmarshal s = (case split_on CHR '';'' s of
     [a, b, n] \<Rightarrow> Inr (JObj [(''created_at'', JTime (of_unary a)), (''updated_at'', JTime (of_unary b)), (''size'', JNum (of_unary n))])
   | _ \<Rightarrow> Inl (Sentinel EOF))"

lemma demo_marshal_back: "encode_metadata m = Inr j \<Longrightarrow> demo_unmarshal (demo_marshal j) = Inr j"
proof -
  assume "encode_metadata m = Inr j"
  then have j: "j = JObj [(''created_at'', JTime (Created m)), (''updated_at'', JTime (Updated m)), (''size'', JNum (Size m))]"
    by (auto simp: encode_metadata_def encode_time_def split: if_splits)
  have "split_on CHR '';'' (join_with '';'' [unary (Created m), unary (Updated m), unary (Size m)]) =
      [unary (Created m), unary (Updated m), unary (Size m)]"
    by (rule split_on_join) (auto simp: unary_no_sep)
  then show ?thesis by (simp add: j demo_marshal_def demo_unmarshal_def del: join_with.simps)
qed

definition demo_transfer :: "'v transfer_env" where
  "demo_transfer = \<lparr>xctx = (\<lambda>_. None), xsha = pad_key, xtar = demo_env, xencode = (\<lambda>_. ''hello''),
     xparse = (\<lambda>b. if b = ''hello'' then (demo_entries, Sentinel EOF) else ([], Sentinel ErrUnexpectedEOF)),
     xends = (\<lambda>_. False), xsplit = (\<lambda>b. [b]), xmarshal = demo_marshal, xunmarshal = demo_unmarshal, xclock = (\<lambda>_. 0),
     xwait = (\<lambda>_ w. (None, w)), xcancel = (\<lambda>w. w)\<rparr>"

text \<open>A machine whose store is a part of its world, with \<open>n\<close> workers.\<close>

definition upload_at :: "'u ClientConfig \<Rightarrow> (string \<times> 'u) DataOps \<Rightarrow> string \<Rightarrow> nat \<Rightarrow> 'u UploadConfig" where
  "upload_at c ops project n = \<lparr>uBatchClient = c, uDataOps = ops, uLocalDir = ''src'', uProjectID = project, uConcurrency = n\<rparr>"

definition download_at :: "'u ClientConfig \<Rightarrow> (string \<times> 'u) DataOps \<Rightarrow> string \<Rightarrow> nat \<Rightarrow> 'u DownloadConfig" where
  "download_at c ops project n = \<lparr>dBatchClient = c, dDataOps = ops, dLocalDir = ''out'', dProjectID = project,
     dDatasetID = ''ds'', dConcurrency = n\<rparr>"

lemma at_dirs [simp]: "uLocalDir (upload_at c ops project n) = ''src''" "dLocalDir (download_at c ops project n) = ''out''"
  by (simp_all add: upload_at_def download_at_def)

definition demo_created :: CreateDatasetOutput where
  "demo_created = DatasetSummary.extend demo_dataset \<lparr>HeartbeatInterval = 0\<rparr>"

lemma demo_created_sel [simp]: "Bucket demo_created = ''b''" "ProjectRoot demo_created = ''p''" "DatasetRoot demo_created = ''d''"
  "DatasetID demo_created = ''ds''" "dsProjectID demo_created = ''pr''" "DatasetSummary.truncate demo_created = demo_dataset"
  by (simp_all add: demo_created_def demo_dataset_def DatasetSummary.extend_def DatasetSummary.truncate_def empty_dataset_def)

lemma demo_tardir:
  "tardir demo_env ''src'' (Folder None demo_children) = (None, map packed_entry (packed_files [] (Folder None demo_children)))"
  by (rule tardir_sound [OF _ demo_sound]) (simp add: undisturbed_def demo_env_def)

lemma demo_stream:
  "Bucket ds = ''b'' \<Longrightarrow> stream_ready demo_transfer (objs empty_s3) ds (Folder None demo_children) ''src''"
  using demo_tardir by (simp add: stream_ready_def demo_transfer_def demo_entries_def empty_s3_def del: packed_files.simps)

lemma demo_store:
  "outages v = [] \<Longrightarrow> Client_Upload (\<lambda>_. None) (DataClient s3_table) b k x v = (Inr (), v\<lparr>objs := (objs v)((b, k) := Some x)\<rparr>)"
  "outages v = [] \<Longrightarrow> objs v (b, k) = Some x \<Longrightarrow> Client_Download (\<lambda>_. None) (DataClient s3_table) b k v = (Inr (Inr x), v)"
  by (simp_all add: Client_Upload_def Client_Download_def NoOfRetries_def numeral_2_eq_2 DataClient_def S3_Upload_def S3_Download_def
      s3_table_def s3_put_def s3_get_def s3_call_def)

definition demo_size_document :: json where
  "demo_size_document = JObj [(''created_at'', JTime 0), (''updated_at'', JTime 0), (''size'', JNum 5)]"

definition sized_s3 :: s3_world where
  "sized_s3 = indexed_s3\<lparr>objs := (objs indexed_s3)((''b'', Join [''d'', MetadataObjectKey]) := Some (demo_marshal demo_size_document))\<rparr>"

lemma sized_objects:
  "objs sized_s3 (''b'', Join [''d'', IndexObjectKey]) = Some (index_text [pad_key ''hello''])"
  "objs sized_s3 (''b'', key_object ''p'' (pad_key ''hello'')) = Some ''hello''"
  "objs sized_s3 (''b'', Join [''d'', MetadataObjectKey]) = Some (demo_marshal demo_size_document)"
  "outages sized_s3 = []"
proof -
  have "Join [''d'', IndexObjectKey] \<noteq> Join [''d'', MetadataObjectKey]" by code_simp
  moreover have "Join [''d'', MetadataObjectKey] \<noteq> key_object ''p'' (pad_key ''hello'')"
    using metadata_key_apart [OF _ demo_plain(1) _ demo_plain(2) pad_key_is_key, of "''hello''"] by simp
  ultimately show "objs sized_s3 (''b'', Join [''d'', IndexObjectKey]) = Some (index_text [pad_key ''hello''])"
    "objs sized_s3 (''b'', key_object ''p'' (pad_key ''hello'')) = Some ''hello''"
    "objs sized_s3 (''b'', Join [''d'', MetadataObjectKey]) = Some (demo_marshal demo_size_document)" "outages sized_s3 = []"
    using indexed_object by (simp_all add: sized_s3_def) (simp_all add: indexed_s3_def)
qed

lemma demo_size_read:
  "demo_unmarshal (demo_marshal demo_size_document) = Inr demo_size_document"
  "decode_struct metadata_fields demo_size_document empty_metadata = Inr \<lparr>Created = 0, Updated = 0, Size = 5\<rparr>"
proof -
  have d: "encode_metadata \<lparr>Created = 0, Updated = 0, Size = 5\<rparr> = Inr demo_size_document"
    by (simp add: encode_metadata_def encode_time_def time_min_def time_max_def demo_size_document_def)
  then show "demo_unmarshal (demo_marshal demo_size_document) = Inr demo_size_document" by (rule demo_marshal_back)
  show "decode_struct metadata_fields demo_size_document empty_metadata = Inr \<lparr>Created = 0, Updated = 0, Size = 5\<rparr>"
    by (rule decode_encode_metadata [OF d]) (simp add: in_int64_def max_int64_def min_int64_def)
qed

text \<open>
  What the clients of such a machine do: \<open>fresh\<close> is the world before the first call, and after every call the world is
  \<open>rest\<close> but for the store.
\<close>

locale demo_machine = world_part part put
  for part :: "string \<times> 'u \<Rightarrow> s3_world" and put :: "s3_world \<Rightarrow> string \<times> 'u \<Rightarrow> string \<times> 'u" +
  fixes c :: "'u ClientConfig" and project :: string and fresh :: "s3_world \<Rightarrow> string \<times> 'u" and rest :: "string \<times> 'u"
  assumes created: "CreateDataset c project (fresh v) = (Inr demo_created, put v rest)"
    and described: "DescribeDataset c project ''ds'' (fresh v) = (Inr demo_dataset, put v rest)"
    and described_again: "DescribeDataset c project ''ds'' (put v rest) = (Inr demo_dataset, put v rest)"
    and succeeded: "SendUploadSuccess c ''pr'' ''ds'' (put v rest) = (Inr (), put v rest)"
begin

lemma stored_away:
  "outages v = [] \<Longrightarrow> Client_Upload (\<lambda>_. None) (ops_within part put (DataClient s3_table)) b k x (put v rest) =
     (Inr (), put (v\<lparr>objs := (objs v)((b, k) := Some x)\<rparr>) rest)"
  "outages v = [] \<Longrightarrow> objs v (b, k) = Some x \<Longrightarrow>
     Client_Download (\<lambda>_. None) (ops_within part put (DataClient s3_table)) b k (put v rest) = (Inr (Inr x), put v rest)"
  using client_within(1) [OF demo_store(1)] client_within(2) [OF demo_store(2)] by blast+

lemma conclude_at:
  "conclude (upload_process demo_transfer (upload_at c (ops_within part put (DataClient s3_table)) project n) demo_created) (5, None) (put indexed_s3 rest) =
     (Inr (), put sized_s3 rest)"
proof -
  let ?p = "upload_process demo_transfer (upload_at c (ops_within part put (DataClient s3_table)) project n) demo_created"
  have p: "pmarshal ?p = demo_marshal" "pclock ?p = (\<lambda>_. 0)" "uctx (pdata ?p) = (\<lambda>_. None)"
    "uops (pdata ?p) = ops_within part put (DataClient s3_table)"
    "ubucket (pdata ?p) = ''b''" "proot ?p = ''d''" "USendUploadSuccess (pclient ?p) = SendUploadSuccess c" "pproject ?p = ''pr''"
    "pdataset ?p = ''ds''"
    by (simp_all add: upload_process_def demo_transfer_def upload_at_def batch_uploads_def)
  from stored_away(1) [OF indexed_object(2), of "''b''" "Join [''d'', MetadataObjectKey]" "demo_marshal demo_size_document"]
  have "Client_Upload (\<lambda>_. None) (ops_within part put (DataClient s3_table)) ''b'' (Join [''d'', MetadataObjectKey])
      (demo_marshal demo_size_document) (put indexed_s3 rest) = (Inr (), put sized_s3 rest)" unfolding sized_s3_def .
  then show ?thesis
    by (simp add: conclude_def p uploadMetadata_def MetadataUpload_def encode_metadata_def encode_time_def time_min_def time_max_def
        succeeded demo_size_document_def)
qed

lemma upload_succeeds:
  assumes "1 \<le> n"
  shows "Upload demo_transfer (upload_at c (ops_within part put (DataClient s3_table)) project n) (Folder None demo_children)
    (fresh empty_s3) (Some demo_dataset, None) (put sized_s3 rest)"
proof -
  let ?conf = "upload_at c (ops_within part put (DataClient s3_table)) project n"
  let ?p = "upload_process demo_transfer ?conf demo_created"
  have p: "pdata ?p = up_within part put n demo_up" "ptar ?p = demo_env" "plocal ?p = ''src''" "pencode ?p = (\<lambda>_. ''hello'')"
    "psplit ?p = (\<lambda>b. [b])" "proot ?p = ''d''"
    by (simp_all add: upload_process_def demo_transfer_def upload_at_def up_within_def demo_up_def)
  obtain u where u: "(upload_step demo_up (WriteKey append_bytes))\<^sup>*\<^sup>* (upload_start [''hello''] None empty_s3 []) u"
    "uresult u = Some (Inr ())" "uworld u = full_s3" using demo_upload_run by auto
  let ?u = "up_state_within put rest u"
  have run: "pipeline ?p (upload_start [''hello''] None (put empty_s3 rest) []) ?u"
    using upload_steps_within [OF _ _ u(1), of n rest] assms by (simp add: p demo_up_def up_state_within_def upload_start_def)
  have uw: "uwriter u = index_text [pad_key ''hello'']"
    using upload_chunks_complete_lemma [where stored = objs and rs = "[''p'']" and v = demo_up, OF _ _ _ demo_plain(1) _ _ demo_consistent _ _]
      u by (simp add: s3_ops pad_key_is_key)
  obtain s where s: "(up_step ?p (Folder None demo_children))\<^sup>*\<^sup>* (up_start (put empty_s3 rest)) s"
    "up_main s = Returned (Inr ())" "up_world s = put sized_s3 rest"
  proof (rule up_run_through)
    show "tardir (ptar ?p) (plocal ?p) (Folder None demo_children) = (None, map packed_entry (packed_files [] (Folder None demo_children)))"
      unfolding p by (rule demo_tardir)
    show "pipeline ?p (upload_start (psplit ?p (pencode ?p (map packed_entry (packed_files [] (Folder None demo_children))))) None (put empty_s3 rest) []) ?u"
      using run by (simp add: p)
    show "uploadIndex (uctx (pdata ?p)) (uops (pdata ?p)) (Inr (uwriter ?u)) (ubucket (pdata ?p)) (proot ?p) (uworld ?u) = (Inr (), put indexed_s3 rest)"
      using demo_indexed(1) client_within(1) [of "DataClient s3_table" "''b''" "Join [''d'', IndexObjectKey]" _ full_s3]
      by (simp add: p up_within_def demo_up_def up_state_within_def uw u(3) uploadIndex_def)
    show "conclude ?p (wrap64 (int (length (pencode ?p (map packed_entry (packed_files [] (Folder None demo_children)))))), None) (put indexed_s3 rest) =
        (Inr (), put sized_s3 rest)"
      using conclude_at by (simp add: p in_int64_def max_int64_def min_int64_def)
  qed (use u(2) in \<open>simp_all add: up_state_within_def upload_process_def demo_transfer_def\<close>)
  have "Upload demo_transfer ?conf (Folder None demo_children) (fresh empty_s3) (Some (DatasetSummary.truncate demo_created), err_of (Inr ())) (up_world s)"
    using created [of empty_s3] s by (intro Upload.started) (simp_all add: upload_at_def)
  then show ?thesis using s(3) by (simp add: err_of_def)
qed

lemma remote_size:
  "GetRemoteDatasetSize demo_transfer (download_at c (ops_within part put (DataClient s3_table)) project n) (fresh sized_s3) = (Inr 5, put sized_s3 rest)"
  using described [of sized_s3] stored_away(2) [OF sized_objects(4,3)] demo_size_read
  by (simp add: GetRemoteDatasetSize_def MetadataDownload_def demo_transfer_def download_at_def demo_dataset_def)

lemma download_succeeds:
  assumes "1 \<le> n"
  shows "\<exists>d' w'. Download demo_transfer (download_at c (ops_within part put (DataClient s3_table)) project n) out_disk (put sized_s3 rest) (Inr ()) d' w'"
proof -
  let ?conf = "download_at c (ops_within part put (DataClient s3_table)) project n"
  let ?q = "download_process demo_transfer ?conf demo_dataset"
  have q: "qdata ?q = down_within part put n demo_down" "qroot ?q = ''d''" "qlocal ?q = ''out''" "qparse ?q ''hello'' = (demo_entries, Sentinel EOF)"
    by (simp_all add: download_process_def demo_transfer_def download_at_def demo_dataset_def down_within_def demo_down_def)
  obtain u where u: "(download_step demo_down ReadKey (\<lambda>_ _. None))\<^sup>*\<^sup>* (download_start (index_text [pad_key ''hello'']) sized_s3) u"
    "dresult u = Some (Inr ())" "dwritten u = ''hello''" using demo_download_from [OF sized_objects(4,2)] by blast
  obtain d2 where d2: "untardir 1 (\<lambda>_. None) ''out'' demo_entries (Sentinel EOF) out_disk = Some (Inr (), d2)" using demo_archive by blast
  have index: "downloadIndex (\<lambda>_. None) (ops_within part put (DataClient s3_table)) ''b'' ''d'' (put sized_s3 rest) =
      (Inr (index_text [pad_key ''hello'']), put sized_s3 rest)"
    using stored_away(2) [OF sized_objects(4,1)] by (simp add: downloadIndex_def)
  obtain s where s: "(down_step ?q)\<^sup>*\<^sup>* (down_start out_disk (put sized_s3 rest)) s" "down_main s = Ended (Inr ())"
  proof (rule down_run_through [where p = ?q and u = "down_state_within put rest u"])
    show "downloadIndex (dctx (qdata ?q)) (dops (qdata ?q)) (dbucket (qdata ?q)) (qroot ?q) (put sized_s3 rest) =
        (Inr (index_text [pad_key ''hello'']), put sized_s3 rest)"
      using index by (simp add: q down_within_def demo_down_def)
    show "(download_step (qdata ?q) ReadKey (\<lambda>_ _. None))\<^sup>*\<^sup>* (download_start (index_text [pad_key ''hello'']) (put sized_s3 rest)) (down_state_within put rest u)"
      using download_steps_within [OF _ _ u(1), of n rest] assms by (simp add: q demo_down_def down_state_within_def download_start_def)
    show "qparse ?q (dwritten (down_state_within put rest u)) = (demo_entries, Sentinel EOF)"
      using u(3) q(4) by (simp add: down_state_within_def)
    show "untardir 1 (\<lambda>_. None) (qlocal ?q) demo_entries (Sentinel EOF) out_disk = Some (Inr (), d2)" using d2 q(3) by simp
  qed (use u(2) in \<open>simp_all add: down_state_within_def\<close>)
  have "await_dataset 1 demo_transfer ?conf (put sized_s3 rest) = Some (Inr demo_dataset, put sized_s3 rest)"
    using described_again [of sized_s3] by (simp add: download_at_def demo_dataset_def DatasetUploadStatusSuccess_def)
  from Download.started [OF this s] show ?thesis by blast
qed

end

section \<open>The smallest machine\<close>

interpretation tok: demo_machine snd put_snd demo_batch "''pr''" "\<lambda>v. (''tok'', v)" "(''tok'', empty_s3)"
  by unfold_locales (simp_all add: demo_calls demo_created_def)

abbreviation demo_upload :: "s3_world UploadConfig" where
  "demo_upload \<equiv> upload_at demo_batch (ops_beside (DataClient s3_table)) ''pr'' 1"

abbreviation demo_download_conf :: "s3_world DownloadConfig" where
  "demo_download_conf \<equiv> download_at demo_batch (ops_beside (DataClient s3_table)) ''pr'' 1"

lemma demo_transfer_ready: "transfer_ready demo_transfer demo_upload demo_download_conf objs"
  using pair.object_store_within [OF s3_ops]
  by (simp add: transfer_ready_def demo_transfer_def upload_at_def download_at_def demo_quiet pad_key_is_key)

lemma demo_roots: "plain_roots demo_dataset"
  using demo_plain by (auto simp: plain_roots_def demo_dataset_def intro: exI [of _ "[''p'']"] exI [of _ "[''d'']"])

lemma demo_described: "DescribeDataset (dBatchClient demo_download_conf) (dProjectID demo_download_conf) (dDatasetID demo_download_conf) v = (Inr ds, v')
    \<Longrightarrow> same_places ds demo_dataset"
  using demo_calls(2) [of "fst v" "snd v"] by (simp add: download_at_def same_places_def)

lemma demo_stream_ready:
  "stream_ready demo_transfer (objs (snd (''tok'', empty_s3))) demo_dataset (Folder None demo_children) (uLocalDir demo_upload)"
  using demo_stream [of demo_dataset] by (simp add: upload_at_def demo_dataset_def)

theorem sizes_agree_witness:
  "GetRemoteDatasetSize demo_transfer demo_download_conf (''tok'', sized_s3) = (Inr 5, ''tok'', sized_s3)
     \<and> GetLocalDatasetSize demo_env (\<lambda>_. ''hello'') (\<lambda>_. None) ''src'' (Folder None demo_children) = Some (Inr 5)"
proof -
  have up: "Upload demo_transfer demo_upload (Folder None demo_children) (''tok'', empty_s3) (Some demo_dataset, None) (''tok'', sized_s3)"
    using tok.upload_succeeds [of 1] by simp
  have remote: "GetRemoteDatasetSize demo_transfer demo_download_conf (''tok'', sized_s3) = (Inr 5, ''tok'', sized_s3)"
    using tok.remote_size [of 1] by simp
  have "GetLocalDatasetSize (xtar (demo_transfer :: s3_world transfer_env)) (xencode (demo_transfer :: s3_world transfer_env))
      (\<lambda>_. None) (uLocalDir demo_upload) (Folder None demo_children) = Some (Inr 5)"
  proof (rule sizes_agree [OF demo_transfer_ready up demo_roots demo_stream_ready refl demo_described _ remote])
    show "xunmarshal demo_transfer (xmarshal demo_transfer j) = Inr j" if "encode_metadata m = Inr j" for m j
      using demo_marshal_back [OF that] by (simp add: demo_transfer_def)
  qed
  with remote show ?thesis by (simp add: demo_transfer_def upload_at_def)
qed

lemma out_disk_free: "ns \<noteq> [] \<Longrightarrow> list_all plain ns \<Longrightarrow> nodes out_disk (sub ''out'' ns) = None"
  by (simp add: out_disk_def sub_def)

lemma out_disk_fits: "fits (packed_files [] (Folder None demo_children)) out_disk"
  by (simp add: demo_packed fits_def out_disk_def)

theorem dataset_roundtrip_witness:
  "\<exists>d' w'. Download demo_transfer demo_download_conf out_disk (''tok'', sized_s3) (Inr ()) d' w'
     \<and> nodes d' ''out/a.txt'' = Some (FileNode 420 ''one'' 7) \<and> nodes d' ''out/s/b'' = Some (FileNode 420 ''two'' 8)"
proof -
  have up: "Upload demo_transfer demo_upload (Folder None demo_children) (''tok'', empty_s3) (Some demo_dataset, None) (''tok'', sized_s3)"
    using tok.upload_succeeds [of 1] by simp
  obtain d' w' where dl: "Download demo_transfer demo_download_conf out_disk (''tok'', sized_s3) (Inr ()) d' w'"
    using tok.download_succeeds [of 1] by auto
  have env: "undisturbed (xtar (demo_transfer :: s3_world transfer_env))" "base_ready (dLocalDir demo_download_conf) out_disk"
    by (simp_all add: undisturbed_def demo_env_def demo_transfer_def download_at_def out_ready out_disk_def)
  have free: "nodes out_disk (sub (dLocalDir demo_download_conf) ns) = None" if "ns \<noteq> []" "list_all plain ns" for ns
    using that by (simp add: out_disk_free)
  have "(\<forall>(ns, mode, mtime, content)\<in>set (packed_files [] (Folder None demo_children)).
        nodes d' (sub (dLocalDir demo_download_conf) ns) = Some (FileNode (mode mod 2 ^ 32) content mtime))
      \<and> (\<forall>q. nodes d' q \<noteq> nodes out_disk q \<longrightarrow> nodes out_disk q = None \<and>
        (\<exists>f\<in>set (packed_files [] (Folder None demo_children)). q = sub (dLocalDir demo_download_conf) (fst f)
          \<or> q \<in> folders (dLocalDir demo_download_conf) (fst f)))"
    by (rule dataset_roundtrip [OF demo_transfer_ready up demo_roots demo_stream_ready refl _ demo_sound env free out_disk_fits dl])
      (rule demo_described)
  then have "nodes d' ''out/a.txt'' = Some (FileNode 420 ''one'' 7)" "nodes d' ''out/s/b'' = Some (FileNode 420 ''two'' 8)"
    by (simp_all add: demo_packed sub_def)
  with dl show ?thesis by blast
qed

section \<open>An upload that died\<close>

definition dead_answer :: json where
  "dead_answer = JObj [(''upload_status'', JStr ''CREATED''), (''upload_expire'', JNum 100)]"

definition dead_batch :: "unit ClientConfig" where
  "dead_batch = \<lparr>Doer = (\<lambda>req v. (Inr \<lparr>StatusCode = 200, Status = ''200 OK'', RespBody = Inr dead_answer\<rparr>, v)),
     TokenProvider = Some demo_provider, BaseURL = demo_url\<rparr>"

definition dead_conf :: "unit DownloadConfig" where
  "dead_conf = \<lparr>dBatchClient = dead_batch, dDataOps = ops_beside \<lparr>ops_upload = (\<lambda>_ _ _ v. (Inr (), v)),
     ops_download = (\<lambda>_ _ v. (Inl (Sentinel EOF), v)), ops_exists = (\<lambda>_ _ v. (Inr False, v))\<rparr>, dLocalDir = ''out'',
     dProjectID = ''pr'', dDatasetID = ''ds'', dConcurrency = 1\<rparr>"

definition dead_env :: "unit transfer_env" where
  "dead_env = \<lparr>xctx = (\<lambda>_. None), xsha = pad_key, xtar = demo_env, xencode = (\<lambda>_. []), xparse = (\<lambda>_. ([], Sentinel EOF)),
     xends = (\<lambda>_. False), xsplit = (\<lambda>b. [b]), xmarshal = demo_marshal, xunmarshal = demo_unmarshal, xclock = (\<lambda>_. 200),
     xwait = (\<lambda>_ w. (None, w)), xcancel = (\<lambda>w. w)\<rparr>"

theorem dead_upload_spins_witness: "await_dataset 1000 dead_env dead_conf (''tok'', ()) = None"
proof -
  let ?ds = "empty_dataset\<lparr>UploadStatus := ''CREATED'', UploadExpire := 100\<rparr>"
  have dec: "decode_struct dataset_fields dead_answer empty_dataset = Inr ?ds" by code_simp
  have "getJWT dead_batch (''tok'', ()) = (Inr ''tok'', ''tok'', ())"
    by (simp add: getJWT_def get_credential_def dead_batch_def demo_provider_def)
  moreover have "send (Doer dead_batch) batch_http_error (into dataset_fields empty_dataset) req w = (Inr ?ds, w)" for req w
    by (simp add: send_def dead_batch_def finish_response_def into_def Decode_def dec)
  ultimately have "described dead_conf (''tok'', ()) = (Inr ?ds, ''tok'', ())"
    by (simp add: DescribeDataset_def doRequest_def demo_paths(2) dead_conf_def)
  then have step: "\<exists>ds v'. described dead_conf v = (Inr ds, v') \<and> v' = (''tok'', ()) \<and> UploadStatus ds = DatasetUploadStatusCreated
      \<and> 0 \<le> UploadExpire ds \<and> UploadExpire ds < xclock dead_env v' \<and> xclock dead_env v' < 2 ^ 33" if "v = (''tok'', ())" for v
    using that by (intro exI [of _ ?ds] exI [of _ "(''tok'', ())"]) (simp add: dead_env_def DatasetUploadStatusCreated_def)
  show ?thesis
    by (rule dead_upload_spins [where live = "\<lambda>v. v = (''tok'', ())", OF step]) (simp_all add: dead_env_def)
qed

end
