(* ===== verification/Progress.thy ===== *)
theory Progress
  imports Transfer_Example
begin

text \<open>
  The progress of a transfer: \<^verbatim>\<open>ProgressBar\<close> of \<^verbatim>\<open>command/utils.go\<close>, the channel on which the workers of \<^verbatim>\<open>uploadChunks\<close>
  and \<^verbatim>\<open>downloadChunks\<close> tell it the lengths of their chunks (\<^verbatim>\<open>nerd/service/datatransfer/v1\<close>), the \<^verbatim>\<open>close\<close> of that
  channel by \<^verbatim>\<open>Upload\<close> and \<^verbatim>\<open>Download\<close>, and the command that waits for the bar. It is a layer over the steps of
  \<open>Chunk_Upload\<close> and \<open>Chunk_Download\<close>, which leave the channel out.
\<close>

section \<open>The layer\<close>

text \<open>
  What it sees of a pipeline: its steps, its items, the length an item's worker has to tell once it has done its work,
  whether the context is cancelled, and whether the pipeline has its result, and a good one.
\<close>

record ('s, 'i) reporting =
  rstep :: "'s \<Rightarrow> 's \<Rightarrow> bool"
  ritems :: "'s \<Rightarrow> 'i list"
  rpiece :: "'i \<Rightarrow> nat option"
  rcancelled :: "'s \<Rightarrow> bool"
  rover :: "'s \<Rightarrow> bool"
  rdone :: "'s \<Rightarrow> bool"

text \<open>The bar is in its loop, has left it and offers its end, or has been waited for.\<close>

datatype bar_phase = Drawing | Drawn | Awaited

text \<open>The pipeline; which of its items need tell nothing any more; the sum on the bar; the channel; a panic of a worker.\<close>

record 's progress =
  pipe_state :: 's
  told :: "bool list"
  bar_sum :: int
  ch_open :: bool
  bar_phase :: bar_phase
  panicked :: bool

definition progress_start :: "'s \<Rightarrow> 's progress" where
  "progress_start s = \<lparr>pipe_state = s, told = [], bar_sum = 0, ch_open = True, bar_phase = Drawing, panicked = False\<rparr>"

text \<open>
  A worker tells its length before it offers its result, unless it finds the context cancelled, which it also is once the
  pipeline has its result. The channel has no buffer: telling and adding are one step. It is closed when the
  transfer returns; a worker that still sends then panics, if its \<^verbatim>\<open>select\<close> does not choose the context.
\<close>

inductive progress_step :: "('s, 'i) reporting \<Rightarrow> 's progress \<Rightarrow> 's progress \<Rightarrow> bool" for r where
  emit: "rstep r (pipe_state s) t \<Longrightarrow> ritems r t = ritems r (pipe_state s) @ [i] \<Longrightarrow>
     progress_step r s (s\<lparr>pipe_state := t, told := told s @ [False]\<rparr>)"
| onward: "rstep r (pipe_state s) t \<Longrightarrow> length (ritems r t) = length (ritems r (pipe_state s)) \<Longrightarrow>
     progress_step r s (s\<lparr>pipe_state := t\<rparr>)"
| collect: "rstep r (pipe_state s) t \<Longrightarrow> ritems r (pipe_state s) = i # ritems r t \<Longrightarrow> told s = b # bs \<Longrightarrow>
     b \<or> rpiece r i = None \<Longrightarrow> progress_step r s (s\<lparr>pipe_state := t, told := bs\<rparr>)"
| tell: "j < length (told s) \<Longrightarrow> \<not> told s ! j \<Longrightarrow> rpiece r (ritems r (pipe_state s) ! j) = Some n \<Longrightarrow>
     ch_open s \<Longrightarrow> bar_phase s = Drawing \<Longrightarrow> progress_step r s (s\<lparr>told := (told s)[j := True], bar_sum := wrap64 (bar_sum s + int n)\<rparr>)"
| give_up: "j < length (told s) \<Longrightarrow> \<not> told s ! j \<Longrightarrow> rpiece r (ritems r (pipe_state s) ! j) = Some n \<Longrightarrow>
     rcancelled r (pipe_state s) \<or> rover r (pipe_state s) \<Longrightarrow> progress_step r s (s\<lparr>told := (told s)[j := True]\<rparr>)"
| shut: "ch_open s \<Longrightarrow> rcancelled r (pipe_state s) \<or> rover r (pipe_state s) \<Longrightarrow> progress_step r s (s\<lparr>ch_open := False\<rparr>)"
| panic: "\<not> ch_open s \<Longrightarrow> j < length (told s) \<Longrightarrow> \<not> told s ! j \<Longrightarrow> rpiece r (ritems r (pipe_state s) ! j) = Some n \<Longrightarrow>
     progress_step r s (s\<lparr>panicked := True\<rparr>)"
| drawn: "\<not> ch_open s \<Longrightarrow> bar_phase s = Drawing \<Longrightarrow> progress_step r s (s\<lparr>bar_phase := Drawn\<rparr>)"
| awaited: "bar_phase s = Drawn \<Longrightarrow> rdone r (pipe_state s) \<Longrightarrow> progress_step r s (s\<lparr>bar_phase := Awaited\<rparr>)"

text \<open>Whatever is done with the bar, the pipeline does as it does without.\<close>

lemma progress_step_pipe: "progress_step r s t \<Longrightarrow> pipe_state t = pipe_state s \<or> rstep r (pipe_state s) (pipe_state t)"
  by (erule progress_step.cases) simp_all

lemma progress_pipe:
  "(progress_step r)\<^sup>*\<^sup>* s t \<Longrightarrow> (rstep r)\<^sup>*\<^sup>* (pipe_state s) (pipe_state t)"
proof (induction rule: rtranclp_induct)
  case (step t u)
  from progress_step_pipe [OF step(2)] step(3) show ?case
    by (elim disjE) (simp_all add: rtranclp.rtrancl_into_rtrancl)
qed simp

section \<open>What a pipeline promises\<close>

text \<open>
  A step appends an item that has nothing to tell yet, or lets one go on that had nothing to tell, or takes the first one
  away; \<open>moved\<close> grows by the length of what is taken, unless the pipeline fails or is cancelled.
\<close>

locale reported_pipeline =
  fixes r :: "('s, 'i) reporting" and moved :: "'s \<Rightarrow> int"
  assumes shapes: "rstep r s t \<Longrightarrow>
       (\<exists>i. ritems r t = ritems r s @ [i] \<and> rpiece r i = None) \<or>
       (length (ritems r t) = length (ritems r s) \<and>
          (\<forall>j<length (ritems r s). rpiece r (ritems r s ! j) \<noteq> None \<longrightarrow> ritems r t ! j = ritems r s ! j)) \<or>
       (\<exists>i. ritems r s = i # ritems r t)"
    and moves: "rstep r s t \<Longrightarrow> \<not> rcancelled r s \<Longrightarrow> rover r t \<longrightarrow> rdone r t \<Longrightarrow>
       (case ritems r s of [] \<Rightarrow> moved t = moved s
        | i # its \<Rightarrow> if ritems r t = its then \<exists>n. rpiece r i = Some n \<and> moved t = moved s + int n else moved t = moved s)"
    and ends: "rstep r s t \<Longrightarrow> \<not> rover r s"
    and empties: "rstep r s t \<Longrightarrow> rdone r t \<Longrightarrow> rover r t \<and> ritems r t = []"
begin

definition told_bytes :: "'i list \<Rightarrow> bool list \<Rightarrow> int" where
  "told_bytes its ts = (\<Sum>j<length ts. if ts ! j then int (the (rpiece r (its ! j))) else 0)"

lemma told_bytes_empty [simp]: "told_bytes its [] = 0"
  by (simp add: told_bytes_def)

lemma told_bytes_append: "length ts = length its \<Longrightarrow> told_bytes (its @ [i]) (ts @ [False]) = told_bytes its ts"
  unfolding told_bytes_def by (simp add: nth_append cong: if_cong)

lemma told_bytes_Cons: "told_bytes (i # its) (b # ts) = (if b then int (the (rpiece r i)) else 0) + told_bytes its ts"
  by (simp add: told_bytes_def sum.lessThan_Suc_shift del: sum.lessThan_Suc cong: if_cong)

lemma told_bytes_same: "(\<And>j. j < length ts \<Longrightarrow> ts ! j \<Longrightarrow> jts ! j = its ! j) \<Longrightarrow> told_bytes jts ts = told_bytes its ts"
  unfolding told_bytes_def by (rule sum.cong) auto

lemma told_bytes_tell:
  assumes "j < length ts" and "\<not> ts ! j" and "rpiece r (its ! j) = Some n"
  shows "told_bytes its (ts[j := True]) = told_bytes its ts + int n"
proof -
  let ?f = "\<lambda>ts i. if ts ! i then int (the (rpiece r (its ! i))) else 0"
  have "sum (?f (ts[j := True])) ({..<length ts} - {j}) = sum (?f ts) ({..<length ts} - {j})"
    by (rule sum.cong) auto
  then show ?thesis
    using assms sum.remove [of "{..<length ts}" j "?f (ts[j := True])"] sum.remove [of "{..<length ts}" j "?f ts"]
    by (simp add: told_bytes_def)
qed

text \<open>
  The invariant: only who has done its work has told, the channel is open while the pipeline runs, and the sum on the bar is
  what has been taken away and what has been told by the items that are still there.
\<close>

definition progress_inv :: "'s \<Rightarrow> 's progress \<Rightarrow> bool" where
  "progress_inv s0 s \<longleftrightarrow> length (told s) = length (ritems r (pipe_state s)) \<and>
     (\<forall>j<length (told s). told s ! j \<longrightarrow> rpiece r (ritems r (pipe_state s) ! j) \<noteq> None) \<and>
     (rdone r (pipe_state s) \<longrightarrow> rover r (pipe_state s) \<and> told s = []) \<and>
     (\<not> ch_open s \<longrightarrow> rover r (pipe_state s)) \<and> (panicked s \<longrightarrow> rover r (pipe_state s) \<and> \<not> rdone r (pipe_state s)) \<and>
     ((rover r (pipe_state s) \<longrightarrow> rdone r (pipe_state s)) \<longrightarrow>
        bar_sum s = wrap64 (moved (pipe_state s) - moved s0 + told_bytes (ritems r (pipe_state s)) (told s)))"

lemma progress_step_inv:
  assumes "progress_step r s t" and inv: "progress_inv s0 s" and nc: "\<And>u. \<not> rcancelled r u"
  shows "progress_inv s0 t"
  using assms(1)
proof cases
  case (emit u i)
  from ends [OF emit(2)] have "\<not> rover r (pipe_state s)" .
  moreover have "rover r u \<longrightarrow> rdone r u \<Longrightarrow> moved u = moved (pipe_state s)"
    using moves [OF emit(2) nc] emit(3) by (cases "ritems r (pipe_state s)") auto
  moreover have "\<not> rdone r u" using empties [OF emit(2)] emit(3) by auto
  ultimately show ?thesis
    using inv emit told_bytes_append [of "told s" "ritems r (pipe_state s)" i] by (auto simp: progress_inv_def nth_append)
next
  case (onward u)
  have o: "\<not> rover r (pipe_state s)" using ends [OF onward(2)] .
  have same: "ritems r u ! j = ritems r (pipe_state s) ! j" if "j < length (told s)" "told s ! j" for j
    using shapes [OF onward(2)] onward(3) inv that unfolding progress_inv_def by fastforce
  have "rover r u \<longrightarrow> rdone r u \<Longrightarrow> moved u = moved (pipe_state s)"
    using moves [OF onward(2) nc] onward(3) by (cases "ritems r (pipe_state s)") (auto split: if_splits)
  moreover have "rdone r u \<Longrightarrow> rover r u \<and> told s = []" using empties [OF onward(2)] onward(3) inv by (auto simp: progress_inv_def)
  ultimately show ?thesis
    using inv onward o same told_bytes_same [of "told s" "ritems r u" "ritems r (pipe_state s)", OF same]
    by (auto simp: progress_inv_def)
next
  case (collect u i b bs)
  have o: "\<not> rover r (pipe_state s)" using ends [OF collect(2)] .
  have m: "\<exists>n. rpiece r i = Some n \<and> moved u = moved (pipe_state s) + int n" if "rover r u \<longrightarrow> rdone r u"
    using moves [OF collect(2) nc that] collect(3) by simp
  have e: "rdone r u \<Longrightarrow> rover r u \<and> bs = []" using empties [OF collect(2)] collect(3,4) inv by (auto simp: progress_inv_def)
  have "bar_sum s = wrap64 (moved u - moved s0 + told_bytes (ritems r u) bs)" if "rover r u \<longrightarrow> rdone r u"
    using m [OF that] inv o collect(3,4,5) told_bytes_Cons [of i "ritems r u" b bs] by (auto simp: progress_inv_def algebra_simps)
  moreover have "rpiece r (ritems r u ! j) \<noteq> None" if "j < length bs" "bs ! j" for j
    using inv collect(3,4) that unfolding progress_inv_def by (auto dest: spec [of _ "Suc j"])
  ultimately show ?thesis using inv collect o e by (auto simp: progress_inv_def)
next
  case (tell j n)
  with inv told_bytes_tell [OF tell(2,3,4)] show ?thesis by (auto simp: progress_inv_def nth_list_update add.assoc)
next
  case (give_up j n)
  with inv nc show ?thesis by (auto simp: progress_inv_def nth_list_update)
next
  case shut
  with inv nc show ?thesis by (auto simp: progress_inv_def)
next
  case (panic j n)
  with inv show ?thesis by (auto simp: progress_inv_def)
qed (use inv in \<open>auto simp: progress_inv_def\<close>)

lemma progress_steps_inv:
  assumes "(progress_step r)\<^sup>*\<^sup>* (progress_start s0) s" and "\<And>u. \<not> rcancelled r u" and "ritems r s0 = []" and "\<not> rover r s0" and "\<not> rdone r s0"
  shows "progress_inv s0 s"
  using assms(1)
proof (induction rule: rtranclp_induct)
  case base
  show ?case using assms(3-5) by (simp add: progress_inv_def progress_start_def wrap64_def)
next
  case (step s t)
  from progress_step_inv [OF step(2,3) assms(2)] show ?case .
qed

text \<open>Every run of the pipeline is one with the bar.\<close>

lemma run_with_progress:
  assumes "(rstep r)\<^sup>*\<^sup>* s0 s" and "ritems r s0 = []"
  shows "\<exists>p. (progress_step r)\<^sup>*\<^sup>* (progress_start s0) p \<and> pipe_state p = s \<and> ch_open p \<and> bar_phase p = Drawing \<and>
    length (told p) = length (ritems r s)"
  using assms(1)
proof (induction rule: rtranclp_induct)
  case base
  show ?case using assms(2) by (intro exI [of _ "progress_start s0"]) (simp add: progress_start_def)
next
  case (step s t)
  from step(3) obtain p where p: "(progress_step r)\<^sup>*\<^sup>* (progress_start s0) p" "pipe_state p = s" "ch_open p" "bar_phase p = Drawing"
    "length (told p) = length (ritems r s)" by blast
  have on: "\<exists>q. progress_step r p' q \<and> pipe_state q = t \<and> ch_open q \<and> bar_phase q = Drawing \<and> length (told q) = length (ritems r t)"
    if "pipe_state p' = s" "ch_open p'" "bar_phase p' = Drawing" "length (told p') = length (ritems r s)"
      "\<forall>i. ritems r s = i # ritems r t \<longrightarrow> told p' ! 0 \<or> rpiece r i = None" for p'
    using shapes [OF step(2)]
  proof (elim disjE exE conjE)
    fix i assume "ritems r t = ritems r s @ [i]"
    with that progress_step.emit [of r p' t i] step(2) show ?thesis by (intro exI) auto
  next
    assume "length (ritems r t) = length (ritems r s)"
    with that progress_step.onward [of r p' t] step(2) show ?thesis by (intro exI) auto
  next
    fix i assume i: "ritems r s = i # ritems r t"
    with that(4) obtain b bs where "told p' = b # bs" by (cases "told p'") auto
    with i that progress_step.collect [of r p' t i b bs] step(2) show ?thesis by (intro exI) auto
  qed
  show ?case
  proof (cases "\<exists>i n. ritems r s = i # ritems r t \<and> \<not> told p ! 0 \<and> rpiece r i = Some n")
    case True
    then obtain i n where i: "ritems r s = i # ritems r t" "\<not> told p ! 0" "rpiece r i = Some n" by blast
    let ?p = "p\<lparr>told := (told p)[0 := True], bar_sum := wrap64 (bar_sum p + int n)\<rparr>"
    have "progress_step r p ?p" using progress_step.tell [of 0 p r n] i p by simp
    moreover have "told ?p ! 0" using i(1) p(5) by (cases "told p") simp_all
    ultimately show ?thesis using on [of ?p] p by (auto intro: rtranclp.rtrancl_into_rtrancl)
  next
    case False
    then have "\<forall>i. ritems r s = i # ritems r t \<longrightarrow> told p ! 0 \<or> rpiece r i = None" by (metis not_None_eq)
    with on [of p] p show ?thesis by (auto intro: rtranclp.rtrancl_into_rtrancl)
  qed
qed

text \<open>After a success: the bar is full, nobody has panicked, and the command's wait for the bar ends.\<close>

lemma progress_of_success:
  assumes "(progress_step r)\<^sup>*\<^sup>* (progress_start s0) s" and "\<And>u. \<not> rcancelled r u" and "ritems r s0 = []" and "\<not> rover r s0" and "\<not> rdone r s0"
    and "rdone r (pipe_state s)"
  shows "bar_sum s = wrap64 (moved (pipe_state s) - moved s0) \<and> \<not> panicked s \<and>
    (\<exists>t. (progress_step r)\<^sup>*\<^sup>* s t \<and> pipe_state t = pipe_state s \<and> bar_phase t = Awaited)"
proof -
  note inv = progress_steps_inv [OF assms(1-5)]
  then have over: "rover r (pipe_state s)" using assms(6) by (simp add: progress_inv_def)
  let ?shut = "s\<lparr>ch_open := False\<rparr>"
  have "(progress_step r)\<^sup>*\<^sup>* s ?shut"
    using progress_step.shut [of s r] over by (cases s; cases "ch_open s") (auto simp: r_into_rtranclp)
  moreover have "\<exists>t. (progress_step r)\<^sup>*\<^sup>* ?shut t \<and> pipe_state t = pipe_state s \<and> bar_phase t = Awaited"
  proof (cases "bar_phase s")
    case Drawing
    then have "progress_step r ?shut (?shut\<lparr>bar_phase := Drawn\<rparr>)" by (intro progress_step.drawn) simp_all
    moreover have "progress_step r (?shut\<lparr>bar_phase := Drawn\<rparr>) (?shut\<lparr>bar_phase := Drawn, bar_phase := Awaited\<rparr>)"
      using assms(6) by (intro progress_step.awaited) simp_all
    ultimately have "(progress_step r)\<^sup>*\<^sup>* ?shut (?shut\<lparr>bar_phase := Drawn, bar_phase := Awaited\<rparr>)"
      by (rule converse_rtranclp_into_rtranclp [OF _ r_into_rtranclp])
    then show ?thesis by (intro exI [of _ "?shut\<lparr>bar_phase := Drawn, bar_phase := Awaited\<rparr>"]) simp
  next
    case Drawn
    then have "progress_step r ?shut (?shut\<lparr>bar_phase := Awaited\<rparr>)"
      using assms(6) by (intro progress_step.awaited) simp_all
    then show ?thesis by (auto intro!: exI [of _ "?shut\<lparr>bar_phase := Awaited\<rparr>"])
  next
    case Awaited
    then show ?thesis by (intro exI [of _ ?shut]) simp
  qed
  ultimately have "\<exists>t. (progress_step r)\<^sup>*\<^sup>* s t \<and> pipe_state t = pipe_state s \<and> bar_phase t = Awaited"
    by (meson rtranclp_trans)
  with inv assms(6) over show ?thesis by (simp add: progress_inv_def)
qed

end

section \<open>The two pipelines\<close>

definition upload_piece :: "upload_item \<Rightarrow> nat option" where
  "upload_piece it = (case it of UItem c (Announced k) \<Rightarrow> Some (length c) | _ \<Rightarrow> None)"

definition upload_progress :: "'w upload_env \<Rightarrow> (Key \<Rightarrow> 'k \<Rightarrow> (goerr + unit) \<times> 'k) \<Rightarrow> (('w, 'k) upload_state, upload_item) reporting" where
  "upload_progress v wk = \<lparr>rstep = upload_step v wk, ritems = uitems, rpiece = upload_piece,
     rcancelled = (\<lambda>s. uctx v (uworld s) \<noteq> None), rover = (\<lambda>s. uresult s \<noteq> None), rdone = (\<lambda>s. uresult s = Some (Inr ()))\<rparr>"

definition download_piece :: "download_item \<Rightarrow> nat option" where
  "download_piece it = (case it of DItem k (Fetched c) \<Rightarrow> Some (length c) | _ \<Rightarrow> None)"

definition download_progress :: "'w download_env \<Rightarrow> ('r \<Rightarrow> (goerr + Key) \<times> 'r) \<Rightarrow> (string \<Rightarrow> string \<Rightarrow> goerr option)
    \<Rightarrow> (('w, 'r) download_state, download_item) reporting" where
  "download_progress v rk wr = \<lparr>rstep = download_step v rk wr, ritems = ditems, rpiece = download_piece,
     rcancelled = (\<lambda>s. dctx v (dworld s) \<noteq> None), rover = (\<lambda>s. dresult s \<noteq> None), rdone = (\<lambda>s. dresult s = Some (Inr ()))\<rparr>"

text \<open>Of an upload: what is still to be moved, below zero; of a download: what has been written.\<close>

definition upload_moved :: "('w, 'k) upload_state \<Rightarrow> int" where
  "upload_moved s = - int (length (concat (item_chunks (uitems s) @ utodo s)))"

definition download_moved :: "('w, 'r) download_state \<Rightarrow> int" where
  "download_moved s = int (length (dwritten s))"

lemma upload_shapes:
  assumes "upload_step v wk s t"
  shows "(\<exists>i. uitems t = uitems s @ [i] \<and> upload_piece i = None) \<or>
     (length (uitems t) = length (uitems s) \<and>
        (\<forall>j<length (uitems s). upload_piece (uitems s ! j) \<noteq> None \<longrightarrow> uitems t ! j = uitems s ! j)) \<or>
     (\<exists>i. uitems s = i # uitems t)"
  using assms by cases (auto simp: upload_piece_def nth_list_update)

lemma nothing_taken:
  "length its \<le> length jts \<Longrightarrow> A \<Longrightarrow> (case its of [] \<Rightarrow> A | i # ks \<Rightarrow> if jts = ks then B i else A)"
  by (cases its) auto

lemma upload_moves:
  assumes "upload_step v wk s t" and "\<not> uctx v (uworld s) \<noteq> None" and "uresult t \<noteq> None \<longrightarrow> uresult t = Some (Inr ())"
  shows "case uitems s of [] \<Rightarrow> upload_moved t = upload_moved s
    | i # its \<Rightarrow> if uitems t = its then \<exists>n. upload_piece i = Some n \<and> upload_moved t = upload_moved s + int n else upload_moved t = upload_moved s"
  using assms(1)
proof cases
  case (work i c p p' w')
  with item_chunks_update [OF work(3,4), of p'] show ?thesis by (intro nothing_taken) (simp_all add: upload_moved_def)
next
  case (collect c k its u x)
  then show ?thesis by (simp add: upload_moved_def upload_piece_def)
next
  case (emit c cs)
  then show ?thesis by (intro nothing_taken) (simp_all add: upload_moved_def)
next
  case (emit_error e)
  then show ?thesis by (intro nothing_taken) (simp_all add: upload_moved_def)
next
  case close
  then show ?thesis by (intro nothing_taken) (simp_all add: upload_moved_def)
qed (use assms(2,3) in \<open>simp_all add: upload_moved_def\<close>)

lemma upload_progress_simps [simp]:
  "rstep (upload_progress v wk) = upload_step v wk" "ritems (upload_progress v wk) = uitems" "rpiece (upload_progress v wk) = upload_piece"
  "rcancelled (upload_progress v wk) s = (uctx v (uworld s) \<noteq> None)" "rover (upload_progress v wk) s = (uresult s \<noteq> None)"
  "rdone (upload_progress v wk) s = (uresult s = Some (Inr ()))"
  by (simp_all add: upload_progress_def)

interpretation uploading: reported_pipeline "upload_progress v wk" upload_moved for v :: "'w upload_env" and wk :: "Key \<Rightarrow> 'k \<Rightarrow> (goerr + unit) \<times> 'k"
proof (unfold_locales, unfold upload_progress_simps, goal_cases)
  case (1 s t)
  then show ?case by (rule upload_shapes)
next
  case (2 s t)
  then show ?case by (rule upload_moves)
next
  case (3 s t)
  then show ?case by cases simp_all
next
  case (4 s t)
  then show ?case by (elim upload_step.cases) simp_all
qed

lemma download_shapes:
  assumes "download_step v rk wr s t"
  shows "(\<exists>i. ditems t = ditems s @ [i] \<and> download_piece i = None) \<or>
     (length (ditems t) = length (ditems s) \<and>
        (\<forall>j<length (ditems s). download_piece (ditems s ! j) \<noteq> None \<longrightarrow> ditems t ! j = ditems s ! j)) \<or>
     (\<exists>i. ditems s = i # ditems t)"
  using assms by cases (auto simp: download_piece_def nth_list_update)

lemma download_moves:
  assumes "download_step v rk wr s t" and "\<not> dctx v (dworld s) \<noteq> None" and "dresult t \<noteq> None \<longrightarrow> dresult t = Some (Inr ())"
  shows "case ditems s of [] \<Rightarrow> download_moved t = download_moved s
    | i # its \<Rightarrow> if ditems t = its then \<exists>n. download_piece i = Some n \<and> download_moved t = download_moved s + int n else download_moved t = download_moved s"
  using assms(1)
proof cases
  case (fetch i k f w')
  then show ?thesis by (intro nothing_taken) (simp_all add: download_moved_def)
next
  case (collect k chunk its)
  then show ?thesis by (simp add: download_moved_def download_piece_def)
next
  case (emit k r)
  then show ?thesis by (intro nothing_taken) (simp_all add: download_moved_def)
next
  case (close r)
  then show ?thesis by (intro nothing_taken) (simp_all add: download_moved_def)
next
  case (emit_error e r)
  then show ?thesis by (intro nothing_taken) (simp_all add: download_moved_def)
qed (use assms(2,3) in \<open>simp_all add: download_moved_def\<close>)

lemma download_progress_simps [simp]:
  "rstep (download_progress v rk wr) = download_step v rk wr" "ritems (download_progress v rk wr) = ditems" "rpiece (download_progress v rk wr) = download_piece"
  "rcancelled (download_progress v rk wr) s = (dctx v (dworld s) \<noteq> None)" "rover (download_progress v rk wr) s = (dresult s \<noteq> None)"
  "rdone (download_progress v rk wr) s = (dresult s = Some (Inr ()))"
  by (simp_all add: download_progress_def)

interpretation downloading: reported_pipeline "download_progress v rk wr" download_moved
  for v :: "'w download_env" and rk :: "'r \<Rightarrow> (goerr + Key) \<times> 'r" and wr :: "string \<Rightarrow> string \<Rightarrow> goerr option"
proof (unfold_locales, unfold download_progress_simps, goal_cases)
  case (1 s t)
  then show ?case by (rule download_shapes)
next
  case (2 s t)
  then show ?case by (rule download_moves)
next
  case (3 s t)
  then show ?case by cases simp_all
next
  case (4 s t)
  then show ?case by (elim download_step.cases) simp_all
qed

section \<open>A full bar\<close>

lemma upload_ended:
  "(upload_step v wk)\<^sup>*\<^sup>* (upload_start chunks e w x) s \<Longrightarrow>
     (uclosed s \<longrightarrow> utodo s = []) \<and> (uresult s = Some (Inr ()) \<longrightarrow> uitems s = [] \<and> utodo s = [])"
proof (induction rule: rtranclp_induct)
  case (step s t)
  from step(2,3) show ?case by cases auto
qed (simp add: upload_start_def)

lemma local_size:
  "GetLocalDatasetSize env encode (\<lambda>_. None) dir t = Some (Inr n) \<Longrightarrow>
     \<exists>es. tardir env dir t = (None, es) \<and> n = wrap64 (int (length (encode es)))"
  by (cases "tardir env dir t") (auto simp: GetLocalDatasetSize_def countBytes_all split: option.splits tar_stop.splits)

text \<open>
  C40: The bar of an upload that ends well ends full: the lengths the workers have told, also of the chunks that were in the
  store already, make up the size with which the command has started it, that of the archive of the directory; no worker
  has sent on the closed channel, and the command that waits for the bar goes on.
\<close>

theorem upload_fills_the_bar:
  assumes "GetLocalDatasetSize env encode (\<lambda>_. None) dir t = Some (Inr n)" and "\<And>es. tardir env dir t = (None, es) \<Longrightarrow> concat chunks = encode es"
    and "(progress_step (upload_progress v wk))\<^sup>*\<^sup>* (progress_start (upload_start chunks e w x)) s"
    and "\<And>w. uctx v w = None" and "uresult (pipe_state s) = Some (Inr ())"
  shows "bar_sum s = n \<and> \<not> panicked s
    \<and> (\<exists>u. (progress_step (upload_progress v wk))\<^sup>*\<^sup>* s u \<and> pipe_state u = pipe_state s \<and> bar_phase u = Awaited)"
proof -
  from progress_pipe [OF assms(3)] have "(upload_step v wk)\<^sup>*\<^sup>* (upload_start chunks e w x) (pipe_state s)"
    by (simp add: progress_start_def)
  from upload_ended [OF this] assms(5) have "uitems (pipe_state s) = []" "utodo (pipe_state s) = []" by simp_all
  moreover have "n = wrap64 (int (length (concat chunks)))" using local_size [OF assms(1)] assms(2) by auto
  ultimately show ?thesis
    using uploading.progress_of_success [OF assms(3)] assms(4,5) by (simp add: upload_start_def upload_moved_def)
qed

text \<open>The bar of a download ends with the length of what has been written to the archive reader.\<close>

lemma download_fills_the_bar:
  assumes "(progress_step (download_progress v rk wr))\<^sup>*\<^sup>* (progress_start (download_start x w)) s"
    and "\<And>w. dctx v w = None" and "dresult (pipe_state s) = Some (Inr ())"
  shows "bar_sum s = wrap64 (int (length (dwritten (pipe_state s)))) \<and> \<not> panicked s
    \<and> (\<exists>u. (progress_step (download_progress v rk wr))\<^sup>*\<^sup>* s u \<and> pipe_state u = pipe_state s \<and> bar_phase u = Awaited)"
  using downloading.progress_of_success [OF assms(1)] assms(2,3)
  by (simp add: download_start_def download_moved_def)

section \<open>A late worker\<close>

text \<open>After a failure, a worker that has done its work but not told it can find the channel closed.\<close>

lemma late_worker_panics:
  assumes "rover r (pipe_state s)" and "j < length (told s)" and "\<not> told s ! j" and "rpiece r (ritems r (pipe_state s) ! j) = Some n"
  shows "\<exists>u. (progress_step r)\<^sup>*\<^sup>* s u \<and> pipe_state u = pipe_state s \<and> panicked u"
proof -
  let ?shut = "s\<lparr>ch_open := False\<rparr>"
  have "(progress_step r)\<^sup>*\<^sup>* s ?shut"
    using progress_step.shut [of s r] assms(1) by (cases s; cases "ch_open s") (auto simp: r_into_rtranclp)
  moreover have "progress_step r ?shut (?shut\<lparr>panicked := True\<rparr>)"
    using assms by (intro progress_step.panic [where j = j and n = n]) simp_all
  ultimately have "(progress_step r)\<^sup>*\<^sup>* s (?shut\<lparr>panicked := True\<rparr>)" by (rule rtranclp.rtrancl_into_rtrancl)
  then show ?thesis by (auto intro!: exI [of _ "?shut\<lparr>panicked := True\<rparr>"])
qed

section \<open>Examples\<close>

theorem upload_fills_the_bar_witness:
  "\<exists>s. (progress_step (upload_progress demo_up (WriteKey append_bytes)))\<^sup>*\<^sup>* (progress_start (upload_start [''hello''] None empty_s3 [])) s \<and> bar_sum s = 5"
proof -
  obtain p where p: "(upload_step demo_up (WriteKey append_bytes))\<^sup>*\<^sup>* (upload_start [''hello''] None empty_s3 []) p" "uresult p = Some (Inr ())"
    using demo_upload_run by auto
  have "(rstep (upload_progress demo_up (WriteKey append_bytes)))\<^sup>*\<^sup>* (upload_start [''hello''] None empty_s3 []) p" using p(1) by simp
  from uploading.run_with_progress [OF this] obtain s where
    s: "(progress_step (upload_progress demo_up (WriteKey append_bytes)))\<^sup>*\<^sup>* (progress_start (upload_start [''hello''] None empty_s3 [])) s" "pipe_state s = p"
    by (auto simp: upload_start_def)
  have size: "GetLocalDatasetSize demo_env (\<lambda>_. ''hello'') (\<lambda>_. None) ''src'' (Folder None demo_children) = Some (Inr 5)"
    using demo_tardir by (simp add: GetLocalDatasetSize_def countBytes_all in_int64_def max_int64_def min_int64_def del: packed_files.simps)
  have "bar_sum s = 5 \<and> \<not> panicked s \<and> (\<exists>u. (progress_step (upload_progress demo_up (WriteKey append_bytes)))\<^sup>*\<^sup>* s u \<and> pipe_state u = pipe_state s \<and> bar_phase u = Awaited)"
    by (rule upload_fills_the_bar [OF size _ s(1)]) (simp_all add: s(2) p(2) demo_up_def)
  with s(1) show ?thesis by blast
qed

text \<open>Two chunks: the store cannot be asked for the first, the second is in it by the time the upload fails.\<close>

definition failing_s3 :: s3_world where
  "failing_s3 = full_s3\<lparr>outages := [Some (Sentinel EOF)]\<rparr>"

lemma failing_works:
  "\<exists>err. upload_work demo_up ''a'' Checking failing_s3 = (Broken err, full_s3)"
  "upload_work demo_up ''hello'' Checking full_s3 = (Announced (pad_key ''hello''), full_s3)"
  by (simp_all add: upload_work_def demo_up_def Client_Exists_def DataClient_def S3_Exists_def s3_table_def s3_head_def
      s3_call_def full_s3_def failing_s3_def not_found_def s3_code_def)

lemma failed_upload_panics:
  "\<exists>s. (progress_step (upload_progress demo_up (WriteKey append_bytes)))\<^sup>*\<^sup>* (progress_start (upload_start [''a'', ''hello''] None failing_s3 [])) s
     \<and> (\<exists>err. uresult (pipe_state s) = Some (Inl err)) \<and> panicked s"
proof -
  let ?r = "upload_progress demo_up (WriteKey append_bytes) :: ((s3_world, string) upload_state, upload_item) reporting"
  from failing_works(1) obtain err where work1: "upload_work demo_up ''a'' Checking failing_s3 = (Broken err, full_s3)" by blast
  let ?s0 = "upload_start [''a'', ''hello''] None failing_s3 [] :: (s3_world, string) upload_state"
  let ?s1 = "?s0\<lparr>utodo := [''hello''], uitems := [UItem ''a'' Checking]\<rparr>"
  let ?s2 = "?s1\<lparr>utodo := [], uitems := [UItem ''a'' Checking, UItem ''hello'' Checking]\<rparr>"
  let ?s3 = "?s2\<lparr>uitems := [UItem ''a'' (Broken err), UItem ''hello'' Checking], uworld := full_s3\<rparr>"
  let ?s4 = "?s3\<lparr>uitems := [UItem ''a'' (Broken err), UItem ''hello'' (Announced (pad_key ''hello''))]\<rparr>"
  let ?s5 = "?s4\<lparr>uitems := [UItem ''hello'' (Announced (pad_key ''hello''))], uresult := Some (Inl err)\<rparr>"
  let ?p = "\<lambda>s ts. \<lparr>pipe_state = s, told = ts, bar_sum = 0, ch_open = True, bar_phase = Drawing, panicked = False\<rparr>"
  have "progress_step ?r (?p ?s0 []) (?p ?s1 [False])"
    using progress_step.emit [of ?r "?p ?s0 []" ?s1 "UItem ''a'' Checking"] upload_step.emit [of ?s0 "''a''" "[''hello'']" demo_up "WriteKey append_bytes"]
    by (simp add: upload_start_def)
  moreover have "progress_step ?r (?p ?s1 [False]) (?p ?s2 [False, False])"
    using progress_step.emit [of ?r "?p ?s1 [False]" ?s2 "UItem ''hello'' Checking"] upload_step.emit [of ?s1 "''hello''" "[]" demo_up "WriteKey append_bytes"]
    by (simp add: upload_start_def demo_up_def)
  moreover have "progress_step ?r (?p ?s2 [False, False]) (?p ?s3 [False, False])"
    using progress_step.onward [of ?r "?p ?s2 [False, False]" ?s3] upload_step.work [of ?s2 0 "''a''" Checking demo_up "Broken err" full_s3 "WriteKey append_bytes"] work1
    by (simp add: upload_start_def)
  moreover have "progress_step ?r (?p ?s3 [False, False]) (?p ?s4 [False, False])"
    using progress_step.onward [of ?r "?p ?s3 [False, False]" ?s4] failing_works(2)
      upload_step.work [of ?s3 1 "''hello''" Checking demo_up "Announced (pad_key ''hello'')" full_s3 "WriteKey append_bytes"]
    by (simp add: upload_start_def)
  moreover have "progress_step ?r (?p ?s4 [False, False]) (?p ?s5 [False])"
    using progress_step.collect [of ?r "?p ?s4 [False, False]" ?s5 "UItem ''a'' (Broken err)" False "[False]"]
      upload_step.broken [of ?s4 "''a''" err "[UItem ''hello'' (Announced (pad_key ''hello''))]" demo_up "WriteKey append_bytes"]
    by (simp add: upload_start_def upload_piece_def)
  ultimately have run: "(progress_step ?r)\<^sup>*\<^sup>* (?p ?s0 []) (?p ?s5 [False])"
    by (meson converse_rtranclp_into_rtranclp rtranclp.rtrancl_refl)
  have "\<exists>u. (progress_step ?r)\<^sup>*\<^sup>* (?p ?s5 [False]) u \<and> pipe_state u = pipe_state (?p ?s5 [False]) \<and> panicked u"
    by (rule late_worker_panics [where j = 0 and n = 5]) (simp_all add: upload_start_def upload_piece_def)
  then obtain u where u: "(progress_step ?r)\<^sup>*\<^sup>* (?p ?s5 [False]) u" "pipe_state u = ?s5" "panicked u" by auto
  from rtranclp_trans [OF run u(1)] u(2,3) show ?thesis
    by - (rule exI [of _ u], simp add: progress_start_def)
qed

end
