(* ===== verification/Kube_Jobs.thy ===== *)
theory Kube_Jobs
  imports Go_Errors
begin

text \<open>
  The package \<^verbatim>\<open>svc\<close>: creating a job on Kubernetes under a managed name, and the classes of its
  errors. The REST client and the validator are arguments. A call that panics has no value.
\<close>

section \<open>Errors\<close>

text \<open>
  What the REST client returns: \<^verbatim>\<open>*url.Error\<close> with its inner error, \<^verbatim>\<open>*StatusError\<close> with the
  reason and, where there are any, the details, or something else.
\<close>

record status_details =
  Kind :: string
  Causes :: "string list" \<comment> \<open>the \<^verbatim>\<open>Field\<close> of each cause\<close>

datatype kube_error = URLError goerr | StatusError string "status_details option" | OtherError string

datatype svc_error =
    errNoInput
  | errKubernetes kube_error
  | errValidation goerr
  | errDeadline kube_error
  | errAlreadyExists kube_error
  | errNamespaceNotExists kube_error
  | errInvalidName kube_error
  | PlainError goerr

fun IsNoInputErr :: "svc_error \<Rightarrow> bool" where "IsNoInputErr errNoInput = True" | "IsNoInputErr _ = False"
fun IsKubernetesErr :: "svc_error \<Rightarrow> bool" where "IsKubernetesErr (errKubernetes _) = True" | "IsKubernetesErr _ = False"
fun IsValidationErr :: "svc_error \<Rightarrow> bool" where "IsValidationErr (errValidation _) = True" | "IsValidationErr _ = False"
fun IsDeadlineErr :: "svc_error \<Rightarrow> bool" where "IsDeadlineErr (errDeadline _) = True" | "IsDeadlineErr _ = False"
fun IsAlreadyExistsErr :: "svc_error \<Rightarrow> bool" where "IsAlreadyExistsErr (errAlreadyExists _) = True" | "IsAlreadyExistsErr _ = False"
fun IsNamespaceNotExistsErr :: "svc_error \<Rightarrow> bool" where
  "IsNamespaceNotExistsErr (errNamespaceNotExists _) = True" | "IsNamespaceNotExistsErr _ = False"
fun IsInvalidNameErr :: "svc_error \<Rightarrow> bool" where "IsInvalidNameErr (errInvalidName _) = True" | "IsInvalidNameErr _ = False"

section \<open>Creating resources\<close>

definition KubeResourceTypeJobs :: string where
  "KubeResourceTypeJobs = ''jobs''"

text \<open>The part of \<^verbatim>\<open>batchv1.Job\<close> that is set: the names and the one container.\<close>

record job =
  Name :: string
  GenerateName :: string
  RestartPolicy :: string
  Containers :: "(string \<times> string) list" \<comment> \<open>name and img\<close>

text \<open>
  The service: its prefix, its namespace, the validator, and the POST of an object, which gives the error or
  the object the server answers with.
\<close>

record ('c, 'w) Kube =
  kprefix :: string
  ns :: string
  api :: "'c \<Rightarrow> string \<Rightarrow> string \<Rightarrow> job \<Rightarrow> 'w \<Rightarrow> (kube_error + job) \<times> 'w"
  val :: "string \<times> string \<Rightarrow> goerr option"

definition nerd_prefix :: string where
  "nerd_prefix = ''nlz-nerd.''"

definition NewKube :: "('c \<Rightarrow> string \<Rightarrow> string \<Rightarrow> job \<Rightarrow> 'w \<Rightarrow> (kube_error + job) \<times> 'w) \<Rightarrow> (string \<times> string \<Rightarrow> goerr option)
    \<Rightarrow> string \<Rightarrow> ('c, 'w) Kube" where
  "NewKube a v n = \<lparr>kprefix = nerd_prefix, ns = n, api = a, val = v\<rparr>"

text \<open>The class of an error of the REST client; the details are taken without a check for nil.\<close>

definition classify :: "kube_error \<Rightarrow> svc_error option" where
  "classify err =
     (case err of
        URLError inner \<Rightarrow> if inner = Sentinel CtxDeadlineExceeded then Some (errDeadline err) else Some (errKubernetes err)
      | StatusError reason details \<Rightarrow>
          if reason = ''AlreadyExists'' then Some (errAlreadyExists err)
          else if reason = ''NotFound'' then
            (case details of None \<Rightarrow> None
             | Some d \<Rightarrow> if Kind d = ''namespaces'' then Some (errNamespaceNotExists err) else Some (errKubernetes err))
          else if reason = ''Invalid'' then
            (case details of None \<Rightarrow> None
             | Some d \<Rightarrow> if list_ex (\<lambda>field. field = ''metadata.name'') (Causes d) then Some (errInvalidName err)
                         else Some (errKubernetes err))
          else Some (errKubernetes err)
      | OtherError _ \<Rightarrow> Some (errKubernetes err))"

definition managed :: "('c, 'w) Kube \<Rightarrow> string \<Rightarrow> string \<Rightarrow> job \<Rightarrow> job" where
  "managed k genfix name v =
     (if name \<noteq> [] then v\<lparr>Name := kprefix k @ name\<rparr> else v\<lparr>GenerateName := kprefix k @ genfix\<rparr>)"

definition createResource :: "('c, 'w) Kube \<Rightarrow> 'c \<Rightarrow> string \<Rightarrow> job \<Rightarrow> string \<Rightarrow> 'w \<Rightarrow> ((svc_error + job) \<times> 'w) option" where
  "createResource k ctx t v name w =
     (if t \<noteq> KubeResourceTypeJobs then
        Some (Inl (PlainError (Fundamental (''unknown Kubernetes resource type provided: '' @ in_quotes t))), w)
      else case api k ctx (ns k) t (managed k ''j-'' name v) w of
        (Inl err, w) \<Rightarrow> map_option (\<lambda>e. (Inl e, w)) (classify err)
      | (Inr vv, w) \<Rightarrow> Some (Inr (vv\<lparr>Name := trim_prefix (Name vv) (kprefix k)\<rparr>), w))"

text \<open>The input is absent or the image and the name; the context may be nil.\<close>

definition new_job :: "string \<Rightarrow> job" where
  "new_job img = \<lparr>Name = [], GenerateName = [], RestartPolicy = ''OnFailure'', Containers = [(''main'', img)]\<rparr>"

definition RunJob :: "('c, 'w) Kube \<Rightarrow> 'c option \<Rightarrow> (string \<times> string) option \<Rightarrow> 'w \<Rightarrow> ((svc_error + string) \<times> 'w) option" where
  "RunJob k ctx inp w =
     (case (inp, ctx) of
        (Some (img, name), Some ctx) \<Rightarrow>
          (case val k (img, name) of
             Some err \<Rightarrow> Some (Inl (errValidation err), w)
           | None \<Rightarrow>
               (case createResource k ctx KubeResourceTypeJobs (new_job img) name w of
                  None \<Rightarrow> None
                | Some (Inl err, w) \<Rightarrow> Some (Inl err, w)
                | Some (Inr job, w) \<Rightarrow> Some (Inr (Name job), w)))
      | _ \<Rightarrow> Some (Inl errNoInput, w))"

definition ListJobs :: "('c, 'w) Kube \<Rightarrow> 'c option \<Rightarrow> 'w \<Rightarrow> (svc_error + unit option) \<times> 'w" where
  "ListJobs k ctx w = (Inr None, w)"

section \<open>What a job is called\<close>

text \<open>
  A job is created under its managed name and reported under its own: for a valid input \<^verbatim>\<open>RunJob\<close> posts
  exactly one object, in the namespace of the service, a job that restarts on failure with one
  container of the given image, named with the prefix or, without a name, to be named
  by the server from the prefix and "j-"; when the server keeps the
  name, the user gets back the name that was asked for, and a generated one without the prefix.
\<close>
theorem job_named:
  assumes "val k (img, name) = None"
    and "api k ctx (ns k) KubeResourceTypeJobs
           \<lparr>Name = if name = [] then [] else kprefix k @ name, GenerateName = if name = [] then kprefix k @ ''j-'' else [],
            RestartPolicy = ''OnFailure'', Containers = [(''main'', img)]\<rparr> w = (Inr stored, w')"
    and "Name stored = kprefix k @ given"
  shows "RunJob k (Some ctx) (Some (img, name)) w = Some (Inr given, w')"
proof -
  let ?j = "\<lparr>Name = if name = [] then [] else kprefix k @ name, GenerateName = if name = [] then kprefix k @ ''j-'' else [],
    RestartPolicy = ''OnFailure'', Containers = [(''main'', img)]\<rparr>"
  have "managed k ''j-'' name (new_job img) = ?j" by (simp add: managed_def new_job_def)
  with assms show ?thesis by (simp add: RunJob_def createResource_def)
qed

text \<open>A server that takes every job, and gives one without a name a name of its own.\<close>

definition demo_kube :: "(unit, job list) Kube" where
  "demo_kube = NewKube (\<lambda>_ _ _ j jobs. let j = (if Name j = [] then j\<lparr>Name := GenerateName j @ ''4fz''\<rparr> else j) in (Inr j, jobs @ [j]))
     (\<lambda>(img, name). if img = [] then Some (Fundamental ''min'') else None) ''default''"

theorem job_named_witness:
  "map_option fst (RunJob demo_kube (Some ()) (Some (''hello-world'', ''abc'')) []) = Some (Inr ''abc'')
     \<and> map_option fst (RunJob demo_kube (Some ()) (Some (''hello-world'', [])) []) = Some (Inr ''j-4fz'')"
proof -
  let ?j = "\<lparr>Name = ''nlz-nerd.abc'', GenerateName = [], RestartPolicy = ''OnFailure'', Containers = [(''main'', ''hello-world'')]\<rparr> :: job"
  let ?g = "\<lparr>Name = ''nlz-nerd.j-4fz'', GenerateName = ''nlz-nerd.j-'', RestartPolicy = ''OnFailure'',
     Containers = [(''main'', ''hello-world'')]\<rparr> :: job"
  have 1: "RunJob demo_kube (Some ()) (Some (''hello-world'', ''abc'')) [] = Some (Inr ''abc'', [?j])"
    by (rule job_named [where stored = ?j]) (simp_all add: demo_kube_def NewKube_def nerd_prefix_def Let_def)
  have 2: "RunJob demo_kube (Some ()) (Some (''hello-world'', [])) [] = Some (Inr ''j-4fz'', [?g])"
    by (rule job_named [where stored = ?g]) (simp_all add: demo_kube_def NewKube_def nerd_prefix_def Let_def)
  show ?thesis by (simp only: 1 2 option.map fst_conv simp_thms)
qed

section \<open>Classes of errors\<close>

definition error_classes :: "svc_error \<Rightarrow> bool list" where
  "error_classes e = [IsNoInputErr e, IsKubernetesErr e, IsValidationErr e, IsDeadlineErr e, IsAlreadyExistsErr e,
     IsNamespaceNotExistsErr e, IsInvalidNameErr e]"



text \<open>A status without details makes the client panic.\<close>

lemma missing_details_panic:
  assumes "val k (img, name) = None" and "reason \<in> {''NotFound'', ''Invalid''}"
    and "api k ctx (ns k) KubeResourceTypeJobs (managed k ''j-'' name (new_job img)) w = (Inl (StatusError reason None), w')"
  shows "RunJob k (Some ctx) (Some (img, name)) w = None"
  using assms by (auto simp: RunJob_def createResource_def classify_def)

end
