(* ===== verification/Conf_Session.thy ===== *)
theory Conf_Session
  imports Go_Json Go_Path
begin

text \<open>
  \<^verbatim>\<open>nerd/conf\<close>: the configuration file (\<^verbatim>\<open>conf.go\<close>) and the session file (\<^verbatim>\<open>session.go\<close>), which
  holds the OAuth tokens, the JWT and the current project. The file system keeps, per path, the
  JSON document of the file or \<open>None\<close> for content that is no document (an empty file), and why
  opening, creating or writing a path fails, where it does. \<^verbatim>\<open>Session\<close> holds a path; its mutex
  makes each method one step. The locale \<open>session_store\<close> states what the clients of
  \<^verbatim>\<open>SessionInterface\<close> rely on.
\<close>

record fsys =
  disk :: "string \<Rightarrow> json option option"
  open_err :: "string \<Rightarrow> errno option"
  create_err :: "string \<Rightarrow> errno option"
  write_err :: "string \<Rightarrow> errno option"

definition os_error :: "string \<Rightarrow> string \<Rightarrow> errno \<Rightarrow> goerr" where
  "os_error op path n = OSError n (op @ '' '' @ path)"

text \<open>\<^verbatim>\<open>ioutil.ReadFile\<close>.\<close>

definition ReadFile :: "string \<Rightarrow> fsys \<Rightarrow> goerr + json option" where
  "ReadFile loc fs = (case open_err fs loc of Some n \<Rightarrow> Inl (os_error ''open'' loc n)
     | None \<Rightarrow> (case disk fs loc of None \<Rightarrow> Inl (os_error ''open'' loc ENOENT) | Some c \<Rightarrow> Inr c))"

text \<open>\<^verbatim>\<open>json.Unmarshal\<close>: content that is no document is an error before anything is stored.\<close>

definition Unmarshal :: "'r fields \<Rightarrow> json option \<Rightarrow> 'r \<Rightarrow> goerr + 'r" where
  "Unmarshal fds content r = (case content of None \<Rightarrow> Inl json_syntax_error
     | Some j \<Rightarrow> decode_struct fds j r)"

section \<open>Session snapshots\<close>

record OAuth =
  AccessToken :: string
  RefreshToken :: string
  Expiration :: int
  Scope :: string
  TokenType :: string

record JWT =
  Token :: string
  JRefreshToken :: string

record Project =
  PName :: string
  AWSRegion :: string

record SessionSnapshot =
  SOAuth :: OAuth
  SJWT :: JWT
  SProject :: Project

text \<open>The zero \<^verbatim>\<open>time.Time\<close> is the first of January of year 1.\<close>

definition zero_time :: int where
  "zero_time = -62135596800 * 1000000000"

definition empty_snapshot :: SessionSnapshot where
  "empty_snapshot = \<lparr>
     SOAuth = \<lparr>AccessToken = [], RefreshToken = [], Expiration = zero_time, Scope = [], TokenType = []\<rparr>,
     SJWT = \<lparr>Token = [], JRefreshToken = []\<rparr>,
     SProject = \<lparr>PName = [], AWSRegion = []\<rparr>\<rparr>"

definition oauth_fields :: "OAuth fields" where
  "oauth_fields = [
     (''access_token'', set_str (\<lambda>s r. r\<lparr>AccessToken := s\<rparr>)),
     (''refresh_token'', set_str (\<lambda>s r. r\<lparr>RefreshToken := s\<rparr>)),
     (''expiration'', set_time (\<lambda>t r. r\<lparr>Expiration := t\<rparr>)),
     (''scope'', set_str (\<lambda>s r. r\<lparr>Scope := s\<rparr>)),
     (''token_type'', set_str (\<lambda>s r. r\<lparr>TokenType := s\<rparr>))]"

definition jwt_fields :: "JWT fields" where
  "jwt_fields = [
     (''token'', set_str (\<lambda>s r. r\<lparr>Token := s\<rparr>)),
     (''refresh_token'', set_str (\<lambda>s r. r\<lparr>JRefreshToken := s\<rparr>))]"

definition project_fields :: "Project fields" where
  "project_fields = [
     (''name'', set_str (\<lambda>s r. r\<lparr>PName := s\<rparr>)),
     (''aws_region'', set_str (\<lambda>s r. r\<lparr>AWSRegion := s\<rparr>))]"

definition snapshot_fields :: "SessionSnapshot fields" where
  "snapshot_fields = [
     (''oauth'', set_struct oauth_fields SOAuth (\<lambda>x r. r\<lparr>SOAuth := x\<rparr>)),
     (''jwt'', set_struct jwt_fields SJWT (\<lambda>x r. r\<lparr>SJWT := x\<rparr>)),
     (''project'', set_struct project_fields SProject (\<lambda>x r. r\<lparr>SProject := x\<rparr>))]"

text \<open>
  Encoding: empty strings are omitted; structs and times never count as empty.
\<close>

definition encode_snapshot :: "SessionSnapshot \<Rightarrow> goerr + json" where
  "encode_snapshot ss =
     (case encode_time (Expiration (SOAuth ss)) of Inl e \<Rightarrow> Inl e
      | Inr t \<Rightarrow> Inr (JObj [
          (''oauth'', JObj (omit_str ''access_token'' (AccessToken (SOAuth ss)) @
             omit_str ''refresh_token'' (RefreshToken (SOAuth ss)) @ [(''expiration'', t)] @
             omit_str ''scope'' (Scope (SOAuth ss)) @ omit_str ''token_type'' (TokenType (SOAuth ss)) @ [])),
          (''jwt'', JObj (omit_str ''token'' (Token (SJWT ss)) @
             omit_str ''refresh_token'' (JRefreshToken (SJWT ss)) @ [])),
          (''project'', JObj (omit_str ''name'' (PName (SProject ss)) @
             omit_str ''aws_region'' (AWSRegion (SProject ss)) @ []))]))"

text \<open>The two guards of \<^verbatim>\<open>RequireProjectID\<close>, the token first.\<close>

definition RequireProjectID :: "SessionSnapshot \<Rightarrow> goerr + string" where
  "RequireProjectID ss =
     (let name = PName (SProject ss) in
      if AccessToken (SOAuth ss) = [] then Inl (Sentinel ErrTokenUnset)
      else if name = [] then Inl (Sentinel ErrProjectIDNotSet)
      else Inr name)"

section \<open>The session file\<close>

definition DefaultAWSRegion :: string where
  "DefaultAWSRegion = ''eu-west-1''"

text \<open>\<^verbatim>\<open>homedir.Dir\<close> is an argument.\<close>

definition GetDefaultSessionLocation :: "(goerr + string) \<Rightarrow> goerr + string" where
  "GetDefaultSessionLocation dir = (case dir of Inl err \<Rightarrow> Inl (wrapped ''failed to find home dir'' err)
     | Inr d \<Rightarrow> Inr (Join [d, ''.nerd'', ''session.json'']))"

definition readFile :: "string \<Rightarrow> fsys \<Rightarrow> (goerr + SessionSnapshot) \<times> fsys" where
  "readFile location fs =
     check (ReadFile location fs) (wrapped ''failed to open config file'') (\<lambda>content.
     check (Unmarshal snapshot_fields content empty_snapshot) (wrapped ''failed to parse config file'') (\<lambda>ss fs.
       (Inr ss, fs))) fs"

text \<open>\<^verbatim>\<open>os.Create\<close> truncates the file before the snapshot is encoded into it.\<close>

definition writeFile :: "string \<Rightarrow> SessionSnapshot \<Rightarrow> fsys \<Rightarrow> (goerr + unit) \<times> fsys" where
  "writeFile location ss fs =
     (case create_err fs location of
        Some n \<Rightarrow> (Inl (wrapped ''failed to create/open config file'' (os_error ''open'' location n)), fs)
      | None \<Rightarrow>
         let fs = fs\<lparr>disk := (disk fs)(location := Some None)\<rparr> in
         (case encode_snapshot ss of
            Inl err \<Rightarrow> (Inl (wrapped ''failed to encode json'' err), fs)
          | Inr j \<Rightarrow>
             (case write_err fs location of
                Some n \<Rightarrow> (Inl (wrapped ''failed to encode json'' (os_error ''write'' location n)), fs)
              | None \<Rightarrow> (Inr (), fs\<lparr>disk := (disk fs)(location := Some (Some j))\<rparr>))))"

definition Read :: "string \<Rightarrow> fsys \<Rightarrow> (goerr + SessionSnapshot) \<times> fsys" where
  "Read location = call (readFile location) (\<lambda>err. err) (\<lambda>ss fs. (Inr ss, fs))"

definition WriteJWT :: "string \<Rightarrow> string \<Rightarrow> string \<Rightarrow> fsys \<Rightarrow> (goerr + unit) \<times> fsys" where
  "WriteJWT location jwt refreshToken =
     call (readFile location) (wrapped ''failed to read config'') (\<lambda>ss.
     call (writeFile location (ss\<lparr>SJWT := \<lparr>Token = jwt, JRefreshToken = refreshToken\<rparr>\<rparr>))
       (wrapped ''failed to write config'') (\<lambda>_ fs. (Inr (), fs)))"

definition WriteOAuth ::
    "string \<Rightarrow> string \<Rightarrow> string \<Rightarrow> int \<Rightarrow> string \<Rightarrow> string \<Rightarrow> fsys \<Rightarrow> (goerr + unit) \<times> fsys" where
  "WriteOAuth location accessToken refreshToken expiration scope tokenType =
     call (readFile location) (wrapped ''failed to read config'') (\<lambda>ss.
     call (writeFile location (ss\<lparr>SOAuth := \<lparr>AccessToken = accessToken, RefreshToken = refreshToken,
              Expiration = expiration, Scope = scope, TokenType = tokenType\<rparr>\<rparr>))
       (wrapped ''failed to write config'') (\<lambda>_ fs. (Inr (), fs)))"

definition WriteProject :: "string \<Rightarrow> string \<Rightarrow> string \<Rightarrow> fsys \<Rightarrow> (goerr + unit) \<times> fsys" where
  "WriteProject location name awsRegion =
     call (readFile location) (wrapped ''failed to read config'') (\<lambda>ss.
     call (writeFile location (ss\<lparr>SProject := \<lparr>PName = name, AWSRegion = awsRegion\<rparr>\<rparr>))
       (wrapped ''failed to write config'') (\<lambda>_ fs. (Inr (), fs)))"

section \<open>Round trip of the session file\<close>

lemmas field_defs = oauth_fields_def jwt_fields_def project_fields_def snapshot_fields_def

lemma decode_oauth:
  "decode_members oauth_fields (omit_str ''access_token'' a @ omit_str ''refresh_token'' r @
     [(''expiration'', JTime t)] @ omit_str ''scope'' sc @ omit_str ''token_type'' tt @ [])
     (SOAuth empty_snapshot)
   = Inr \<lparr>AccessToken = a, RefreshToken = r, Expiration = t, Scope = sc, TokenType = tt\<rparr>"
  by (auto simp: omit_str_def oauth_fields_def find_field_def setter_defs empty_snapshot_def)

lemma decode_jwt:
  "decode_members jwt_fields (omit_str ''token'' a @ omit_str ''refresh_token'' r @ []) (SJWT empty_snapshot)
   = Inr \<lparr>Token = a, JRefreshToken = r\<rparr>"
  by (auto simp: omit_str_def jwt_fields_def find_field_def setter_defs empty_snapshot_def)

lemma decode_project:
  "decode_members project_fields (omit_str ''name'' a @ omit_str ''aws_region'' r @ []) (SProject empty_snapshot)
   = Inr \<lparr>PName = a, AWSRegion = r\<rparr>"
  by (auto simp: omit_str_def project_fields_def find_field_def setter_defs empty_snapshot_def)

lemma decode_encode_snapshot:
  assumes "encode_snapshot ss = Inr j"
  shows "Unmarshal snapshot_fields (Some j) empty_snapshot = Inr ss"
proof -
  from assms obtain t where t: "encode_time (Expiration (SOAuth ss)) = Inr t"
    by (auto simp: encode_snapshot_def split: sum.splits)
  then have "t = JTime (Expiration (SOAuth ss))"
    by (auto simp: encode_time_def split: if_splits)
  with assms t show ?thesis
    by (auto simp: encode_snapshot_def Unmarshal_def decode_struct_def snapshot_fields_def
        find_field_def set_struct_def decode_oauth [simplified] decode_jwt [simplified]
        decode_project [simplified])
qed

lemma encode_snapshot_ok:
  "(\<exists>j. encode_snapshot ss = Inr j) \<longleftrightarrow>
     time_min \<le> Expiration (SOAuth ss) \<and> Expiration (SOAuth ss) < time_max"
  by (auto simp: encode_snapshot_def encode_time_def)

lemma readFile_pure [simp]: "snd (readFile loc fs) = fs"
  by (auto simp: readFile_def check_def split: sum.splits)

lemma Read_readFile: "Read loc fs = readFile loc fs"
  by (auto simp: Read_def call_def split: prod.splits sum.splits)

lemma Read_pure [simp]: "snd (Read loc fs) = fs"
  by (simp add: Read_readFile)

lemma readFile_state: "readFile loc fs = (r, fs') \<Longrightarrow> fs' = fs"
  using readFile_pure [of loc fs] by simp

lemma writeFile_readFile:
  assumes "writeFile loc ss fs = (Inr u, fs')" and "open_err fs loc = None"
  shows "readFile loc fs' = (Inr ss, fs')" and "open_err fs' = open_err fs"
proof -
  from assms obtain j where "encode_snapshot ss = Inr j"
    and fs': "disk fs' = (disk fs)(loc := Some (Some j))" "open_err fs' = open_err fs"
    by (auto simp: writeFile_def Let_def split: option.splits sum.splits)
  with decode_encode_snapshot assms(2)
  show "readFile loc fs' = (Inr ss, fs')" "open_err fs' = open_err fs"
    by (simp_all add: readFile_def ReadFile_def)
qed

lemma readFile_open: "readFile loc fs = (Inr ss, fs') \<Longrightarrow> open_err fs loc = None"
  by (auto simp: readFile_def ReadFile_def check_def split: option.splits sum.splits)

text \<open>Read, change a section, write: what the three write methods have in common.\<close>

lemma update_read:
  assumes "call (readFile loc) h1 (\<lambda>ss. call (writeFile loc (upd ss)) h2 (\<lambda>_ fs. (Inr (), fs))) fs = (Inr u, fs')"
  shows "\<exists>ss. Read loc fs = (Inr ss, fs) \<and> Read loc fs' = (Inr (upd ss), fs')"
proof -
  from assms obtain ss fs1 u1 where r: "readFile loc fs = (Inr ss, fs1)"
    and w: "writeFile loc (upd ss) fs1 = (Inr u1, fs')"
    by (auto simp: call_Inr_iff)
  from r have "fs1 = fs" by (rule readFile_state)
  with r w have "open_err fs loc = None" and "writeFile loc (upd ss) fs = (Inr u1, fs')"
    by (auto dest: readFile_open)
  from writeFile_readFile [OF this(2,1)] r \<open>fs1 = fs\<close> show ?thesis
    by (auto simp: Read_readFile)
qed

text \<open>The same three methods where nothing goes wrong.\<close>

lemma update_ok:
  assumes "Read loc fs = (Inr ss, fs)" and "create_err fs loc = None" and "write_err fs loc = None"
    and "time_min \<le> Expiration (SOAuth (upd ss))" and "Expiration (SOAuth (upd ss)) < time_max"
  shows "\<exists>fs'. call (readFile loc) h1 (\<lambda>ss. call (writeFile loc (upd ss)) h2 (\<lambda>_ fs. (Inr (), fs))) fs = (Inr (), fs')
    \<and> Read loc fs' = (Inr (upd ss), fs') \<and> create_err fs' = create_err fs \<and> write_err fs' = write_err fs"
proof -
  from assms(4,5) obtain j where "encode_snapshot (upd ss) = Inr j"
    using encode_snapshot_ok [of "upd ss"] by blast
  with assms obtain fs' where w: "writeFile loc (upd ss) fs = (Inr (), fs')"
    and e: "create_err fs' = create_err fs" "write_err fs' = write_err fs"
    by (auto simp: writeFile_def Let_def)
  moreover have "open_err fs loc = None"
    using assms(1) by (auto simp: Read_readFile intro: readFile_open)
  ultimately show ?thesis
    using assms(1) writeFile_readFile [OF w] by (auto simp: Read_readFile)
qed

lemma WriteJWT_ok:
  assumes "Read loc fs = (Inr ss, fs)" and "create_err fs loc = None" and "write_err fs loc = None"
    and "time_min \<le> Expiration (SOAuth ss)" and "Expiration (SOAuth ss) < time_max"
  shows "\<exists>fs'. WriteJWT loc t r fs = (Inr (), fs') \<and>
    Read loc fs' = (Inr (ss\<lparr>SJWT := \<lparr>Token = t, JRefreshToken = r\<rparr>\<rparr>), fs') \<and>
    create_err fs' = create_err fs \<and> write_err fs' = write_err fs"
  unfolding WriteJWT_def by (rule update_ok [OF assms(1-3)]) (use assms in simp_all)

lemma WriteOAuth_ok:
  assumes "Read loc fs = (Inr ss, fs)" and "create_err fs loc = None" and "write_err fs loc = None"
    and "time_min \<le> e" and "e < time_max"
  shows "\<exists>fs'. WriteOAuth loc a rt e sc ty fs = (Inr (), fs') \<and>
    Read loc fs' = (Inr (ss\<lparr>SOAuth := \<lparr>AccessToken = a, RefreshToken = rt, Expiration = e,
      Scope = sc, TokenType = ty\<rparr>\<rparr>), fs') \<and>
    create_err fs' = create_err fs \<and> write_err fs' = write_err fs"
  unfolding WriteOAuth_def by (rule update_ok [OF assms(1-3)]) (use assms in simp_all)

lemma WriteProject_ok:
  assumes "Read loc fs = (Inr ss, fs)" and "create_err fs loc = None" and "write_err fs loc = None"
    and "time_min \<le> Expiration (SOAuth ss)" and "Expiration (SOAuth ss) < time_max"
  shows "\<exists>fs'. WriteProject loc n g fs = (Inr (), fs') \<and>
    Read loc fs' = (Inr (ss\<lparr>SProject := \<lparr>PName = n, AWSRegion = g\<rparr>\<rparr>), fs') \<and>
    create_err fs' = create_err fs \<and> write_err fs' = write_err fs"
  unfolding WriteProject_def by (rule update_ok [OF assms(1-3)]) (use assms in simp_all)

section \<open>The session interface\<close>

text \<open>
  \<^verbatim>\<open>SessionInterface\<close>: reading changes nothing, and a write that succeeds replaces its own
  section of what the next read returns and no other.
\<close>

locale session_store =
  fixes read :: "'s \<Rightarrow> (goerr + SessionSnapshot) \<times> 's"
    and write_jwt :: "string \<Rightarrow> string \<Rightarrow> 's \<Rightarrow> (goerr + unit) \<times> 's"
    and write_oauth :: "string \<Rightarrow> string \<Rightarrow> int \<Rightarrow> string \<Rightarrow> string \<Rightarrow> 's \<Rightarrow> (goerr + unit) \<times> 's"
    and write_project :: "string \<Rightarrow> string \<Rightarrow> 's \<Rightarrow> (goerr + unit) \<times> 's"
  assumes read_pure: "snd (read s) = s"
    and read_after_jwt: "write_jwt t r s = (Inr u, s') \<Longrightarrow>
      \<exists>ss. read s = (Inr ss, s) \<and> read s' = (Inr (ss\<lparr>SJWT := \<lparr>Token = t, JRefreshToken = r\<rparr>\<rparr>), s')"
    and read_after_oauth: "write_oauth a rt e sc ty s = (Inr u, s') \<Longrightarrow>
      \<exists>ss. read s = (Inr ss, s) \<and> read s' = (Inr (ss\<lparr>SOAuth := \<lparr>AccessToken = a, RefreshToken = rt,
        Expiration = e, Scope = sc, TokenType = ty\<rparr>\<rparr>), s')"
    and read_after_project: "write_project n g s = (Inr u, s') \<Longrightarrow>
      \<exists>ss. read s = (Inr ss, s) \<and> read s' = (Inr (ss\<lparr>SProject := \<lparr>PName = n, AWSRegion = g\<rparr>\<rparr>), s')"
begin

lemma read_state: "read s = (x, s') \<Longrightarrow> s' = s"
  using read_pure [of s] by simp

lemma read_jwt_exact:
  "read s = (Inr ss, s0) \<Longrightarrow> write_jwt t r s = (Inr u, s') \<Longrightarrow>
     read s' = (Inr (ss\<lparr>SJWT := \<lparr>Token = t, JRefreshToken = r\<rparr>\<rparr>), s')"
  using read_after_jwt [of t r s u s'] by auto

lemma read_oauth_exact:
  "read s = (Inr ss, s0) \<Longrightarrow> write_oauth a rt e sc ty s = (Inr u, s') \<Longrightarrow>
     read s' = (Inr (ss\<lparr>SOAuth := \<lparr>AccessToken = a, RefreshToken = rt, Expiration = e, Scope = sc, TokenType = ty\<rparr>\<rparr>), s')"
  using read_after_oauth [of a rt e sc ty s u s'] by auto

lemma read_project_exact:
  "read s = (Inr ss, s0) \<Longrightarrow> write_project n g s = (Inr u, s') \<Longrightarrow>
     read s' = (Inr (ss\<lparr>SProject := \<lparr>PName = n, AWSRegion = g\<rparr>\<rparr>), s')"
  using read_after_project [of n g s u s'] by auto

text \<open>A login, a project choice and a token, each stored in turn, are all there at the end.\<close>

lemma three_writes:
  assumes "write_oauth a rt e sc ty s = (Inr u1, s1)"
    and "write_project n g s1 = (Inr u2, s2)" and "write_jwt t r s2 = (Inr u3, s3)"
  shows "read s3 = (Inr \<lparr>SOAuth = \<lparr>AccessToken = a, RefreshToken = rt, Expiration = e, Scope = sc, TokenType = ty\<rparr>,
     SJWT = \<lparr>Token = t, JRefreshToken = r\<rparr>, SProject = \<lparr>PName = n, AWSRegion = g\<rparr>\<rparr>, s3)"
proof -
  from read_after_oauth [OF assms(1)] obtain ss where
    "read s1 = (Inr (ss\<lparr>SOAuth := \<lparr>AccessToken = a, RefreshToken = rt, Expiration = e, Scope = sc, TokenType = ty\<rparr>\<rparr>), s1)"
    by blast
  from read_jwt_exact [OF read_project_exact [OF this assms(2)] assms(3)]
  show ?thesis by simp
qed

text \<open>Writing the same section twice is writing it once: the second write wins.\<close>

lemma last_jwt_wins:
  assumes "write_jwt t r s = (Inr u, s1)" and "write_jwt t' r' s1 = (Inr u', s2)"
  shows "\<exists>ss. read s = (Inr ss, s) \<and> read s2 = (Inr (ss\<lparr>SJWT := \<lparr>Token = t', JRefreshToken = r'\<rparr>\<rparr>), s2)"
  using read_after_jwt [OF assms(1)] read_jwt_exact [OF _ assms(2)] by fastforce

end

lemma WriteJWT_read:
  "WriteJWT loc t r fs = (Inr u, fs') \<Longrightarrow>
     \<exists>ss. Read loc fs = (Inr ss, fs) \<and> Read loc fs' = (Inr (ss\<lparr>SJWT := \<lparr>Token = t, JRefreshToken = r\<rparr>\<rparr>), fs')"
  unfolding WriteJWT_def by (erule update_read)

lemma WriteOAuth_read:
  "WriteOAuth loc a rt e sc ty fs = (Inr u, fs') \<Longrightarrow>
     \<exists>ss. Read loc fs = (Inr ss, fs) \<and> Read loc fs' = (Inr (ss\<lparr>SOAuth := \<lparr>AccessToken = a,
       RefreshToken = rt, Expiration = e, Scope = sc, TokenType = ty\<rparr>\<rparr>), fs')"
  unfolding WriteOAuth_def by (erule update_read)

lemma WriteProject_read:
  "WriteProject loc n g fs = (Inr u, fs') \<Longrightarrow>
     \<exists>ss. Read loc fs = (Inr ss, fs) \<and> Read loc fs' = (Inr (ss\<lparr>SProject := \<lparr>PName = n, AWSRegion = g\<rparr>\<rparr>), fs')"
  unfolding WriteProject_def by (erule update_read)

interpretation session: session_store "Read loc" "WriteJWT loc" "WriteOAuth loc" "WriteProject loc" for loc
  by unfold_locales (simp, erule WriteJWT_read, erule WriteOAuth_read, erule WriteProject_read)

section \<open>Properties\<close>

lemma WriteOAuth_unfold:
  assumes "Read loc fs = (Inr ss, fs)"
  shows "WriteOAuth loc a rt e sc ty fs =
    (case writeFile loc (ss\<lparr>SOAuth := \<lparr>AccessToken = a, RefreshToken = rt, Expiration = e, Scope = sc, TokenType = ty\<rparr>\<rparr>) fs of
       (Inl err, fs') \<Rightarrow> (Inl (wrapped ''failed to write config'' err), fs') | (Inr u, fs') \<Rightarrow> (Inr (), fs'))"
  using assms by (simp add: WriteOAuth_def Read_readFile call_def split: prod.splits sum.splits)

lemma truncated_unreadable:
  "disk fs loc = Some None \<Longrightarrow> open_err fs loc = None \<Longrightarrow>
     Read loc fs = (Inl (wrapped ''failed to parse config file'' json_syntax_error), fs)"
  by (simp add: Read_readFile readFile_def ReadFile_def Unmarshal_def)

text \<open>
  What storing new OAuth credentials does to the session file, on every branch. If the file
  cannot be opened for writing, nothing changes. If it can, the credentials are stored and read
  back, with the JWT and the project untouched, exactly when the expiration is a year JSON can
  hold and the disk takes the write; otherwise the call fails and leaves a truncated file that no
  later read can parse: the old session is lost.
\<close>

theorem WriteOAuth_outcomes:
  assumes "Read loc fs = (Inr ss, fs)"
  shows "(\<forall>n. create_err fs loc = Some n \<longrightarrow> (\<exists>err. WriteOAuth loc a rt e sc ty fs = (Inl err, fs)))
    \<and> (create_err fs loc = None \<longrightarrow>
        (if time_min \<le> e \<and> e < time_max \<and> write_err fs loc = None
         then \<exists>fs'. WriteOAuth loc a rt e sc ty fs = (Inr (), fs') \<and>
           Read loc fs' = (Inr (ss\<lparr>SOAuth := \<lparr>AccessToken = a, RefreshToken = rt, Expiration = e,
              Scope = sc, TokenType = ty\<rparr>\<rparr>), fs')
         else \<exists>err err' fs'. WriteOAuth loc a rt e sc ty fs = (Inl err, fs') \<and>
           Read loc fs' = (Inl err', fs')))"
proof -
  define ss' where "ss' = ss\<lparr>SOAuth := \<lparr>AccessToken = a, RefreshToken = rt, Expiration = e,
    Scope = sc, TokenType = ty\<rparr>\<rparr>"
  have op: "open_err fs loc = None"
    using assms by (auto simp: Read_readFile intro: readFile_open)
  note out = WriteOAuth_unfold [OF assms, of a rt e sc ty, folded ss'_def]
  have ok: "\<exists>fs'. WriteOAuth loc a rt e sc ty fs = (Inr (), fs') \<and> Read loc fs' = (Inr ss', fs')"
    if "create_err fs loc = None" "time_min \<le> e \<and> e < time_max" "write_err fs loc = None"
    using WriteOAuth_ok [OF assms that(1,3) conjunct1 [OF that(2)] conjunct2 [OF that(2)], of a rt sc ty]
    by (auto simp: ss'_def)
  have bad: "\<exists>err err' fs'. WriteOAuth loc a rt e sc ty fs = (Inl err, fs') \<and> Read loc fs' = (Inl err', fs')"
    if "create_err fs loc = None" "\<not> (time_min \<le> e \<and> e < time_max \<and> write_err fs loc = None)"
  proof -
    from that encode_snapshot_ok [of ss'] obtain err where "writeFile loc ss' fs = (Inl err, fs\<lparr>disk := (disk fs)(loc := Some None)\<rparr>)"
      by (cases "encode_snapshot ss'") (auto simp: writeFile_def Let_def ss'_def)
    with truncated_unreadable [of "fs\<lparr>disk := (disk fs)(loc := Some None)\<rparr>" loc] op show ?thesis
      by (auto simp: out)
  qed
  from ok bad show ?thesis
    by (auto simp: out writeFile_def ss'_def)
qed

definition example_fs :: fsys where
  "example_fs = \<lparr>disk = (\<lambda>p. if p = ''s.json'' then Some (Some (JObj [])) else None),
     open_err = (\<lambda>_. None), create_err = (\<lambda>_. None), write_err = (\<lambda>_. None)\<rparr>"

lemma example_fs_read: "Read ''s.json'' example_fs = (Inr empty_snapshot, example_fs)"
  by (simp add: Read_readFile readFile_def ReadFile_def Unmarshal_def decode_struct_def example_fs_def)

theorem WriteOAuth_outcomes_witness:
  "\<exists>err err' fs'. WriteOAuth ''s.json'' ''a'' ''r'' (300000000000 * 1000000000) '''' '''' example_fs = (Inl err, fs')
     \<and> Read ''s.json'' fs' = (Inl err', fs')"
  using WriteOAuth_outcomes [OF example_fs_read, of "''a''" "''r''" "300000000000 * 1000000000" "''''" "''''"]
  by (simp add: example_fs_def time_min_def time_max_def)

text \<open>
  After a login, a project choice and the storing of a JWT, each successful, the session
  holds exactly those three: the last read returns every value written, whatever the file
  held before.
\<close>

theorem session_login_project_jwt:
  assumes "WriteOAuth loc a rt e sc ty fs = (Inr u1, fs1)"
    and "WriteProject loc n g fs1 = (Inr u2, fs2)" and "WriteJWT loc t r fs2 = (Inr u3, fs3)"
  shows "Read loc fs3 = (Inr \<lparr>SOAuth = \<lparr>AccessToken = a, RefreshToken = rt, Expiration = e, Scope = sc, TokenType = ty\<rparr>,
     SJWT = \<lparr>Token = t, JRefreshToken = r\<rparr>, SProject = \<lparr>PName = n, AWSRegion = g\<rparr>\<rparr>, fs3)
    \<and> RequireProjectID \<lparr>SOAuth = \<lparr>AccessToken = a, RefreshToken = rt, Expiration = e, Scope = sc, TokenType = ty\<rparr>,
     SJWT = \<lparr>Token = t, JRefreshToken = r\<rparr>, SProject = \<lparr>PName = n, AWSRegion = g\<rparr>\<rparr> =
       (if a = [] then Inl (Sentinel ErrTokenUnset) else if n = [] then Inl (Sentinel ErrProjectIDNotSet) else Inr n)"
  using session.three_writes [OF assms] by (simp add: RequireProjectID_def)

theorem session_login_project_jwt_witness:
  "\<exists>fs1 fs2 fs3. WriteOAuth ''s.json'' ''a'' ''r'' 0 '''' '''' example_fs = (Inr (), fs1)
     \<and> WriteProject ''s.json'' ''p'' ''g'' fs1 = (Inr (), fs2)
     \<and> WriteJWT ''s.json'' ''t'' '''' fs2 = (Inr (), fs3)
     \<and> (\<exists>ss. Read ''s.json'' fs3 = (Inr ss, fs3) \<and> RequireProjectID ss = Inr ''p'' \<and> Token (SJWT ss) = ''t'')"
proof -
  have fine: "create_err example_fs ''s.json'' = None" "write_err example_fs ''s.json'' = None"
    by (simp_all add: example_fs_def)
  have t: "time_min \<le> 0" "0 < time_max"
    by (simp_all add: time_min_def time_max_def)
  from WriteOAuth_ok [OF example_fs_read fine t, of "''a''" "''r''" "''''" "''''"] fine
  obtain fs1 ss1 where
    1: "WriteOAuth ''s.json'' ''a'' ''r'' 0 '''' '''' example_fs = (Inr (), fs1)"
    and r1: "Read ''s.json'' fs1 = (Inr ss1, fs1)" "Expiration (SOAuth ss1) = 0"
    and f1: "create_err fs1 ''s.json'' = None" "write_err fs1 ''s.json'' = None"
    by auto
  from WriteProject_ok [OF r1(1) f1, of "''p''" "''g''"] f1 r1 t obtain fs2 ss2 where
    2: "WriteProject ''s.json'' ''p'' ''g'' fs1 = (Inr (), fs2)"
    and r2: "Read ''s.json'' fs2 = (Inr ss2, fs2)" "Expiration (SOAuth ss2) = 0"
    and f2: "create_err fs2 ''s.json'' = None" "write_err fs2 ''s.json'' = None"
    by auto
  from WriteJWT_ok [OF r2(1) f2, of "''t''" "''''"] r2 t obtain fs3 where
    3: "WriteJWT ''s.json'' ''t'' '''' fs2 = (Inr (), fs3)"
    by auto
  from session_login_project_jwt [OF 1 2 3] 1 2 3 show ?thesis by auto
qed

end
