(* ===== verification/Conf_Config.thy ===== *)
theory Conf_Config
  imports Conf_Session
begin

text \<open>
  \<^verbatim>\<open>nerd/conf/conf.go\<close>: the configuration, its defaults, and reading a file or a JSON string
  over the defaults.
\<close>

record AuthConfig =
  APIEndpoint :: string
  PublicKey :: string
  ClientID :: string
  OAuthSuccessURL :: string
  OAuthLocalServer :: string

record LoggingConfig =
  Enabled :: bool
  FileLocation :: string

record Config =
  Auth :: AuthConfig
  Logging :: LoggingConfig
  NerdAPIEndpoint :: string

definition newline :: string where
  "newline = [CHR 10]"

definition Defaults :: Config where
  "Defaults = \<lparr>
     Auth = \<lparr>APIEndpoint = ''https://auth.nerdalize.com/v1/'',
       PublicKey = ''-----BEGIN PUBLIC KEY-----'' @ newline @
         ''MHYwEAYHKoZIzj0CAQYFK4EEACIDYgAEBthEmchVCtA3ZPXqiCXdj+7/ZFuhxRgx'' @ newline @
         ''grTxIHK+b0vEqKqA3O++ggD1GgjqtTfNLGUjLCE3KxyIN78TsK+HU4VVexTjlWXy'' @ newline @
         ''WPtidD68xGD0JVPU1cSfu8iP0XzwgttG'' @ newline @
         ''-----END PUBLIC KEY-----'' @ newline,
       ClientID = ''Po2PHR7YOIEQojfHy3zfOMulby9QGVSvcD9bO3S3'',
       OAuthSuccessURL = ''https://auth.nerdalize.com/do/login_complete/?client=CLI'',
       OAuthLocalServer = ''localhost:9876''\<rparr>,
     Logging = \<lparr>Enabled = False, FileLocation = ''~/.nerd/log''\<rparr>,
     NerdAPIEndpoint = ''https://batch.nerdalize.com/v1''\<rparr>"

definition auth_fields :: "AuthConfig fields" where
  "auth_fields = [
     (''api_endpoint'', set_str (\<lambda>s r. r\<lparr>APIEndpoint := s\<rparr>)),
     (''public_key'', set_str (\<lambda>s r. r\<lparr>PublicKey := s\<rparr>)),
     (''client_id'', set_str (\<lambda>s r. r\<lparr>ClientID := s\<rparr>)),
     (''oauth_success_url'', set_str (\<lambda>s r. r\<lparr>OAuthSuccessURL := s\<rparr>)),
     (''oauth_localserver'', set_str (\<lambda>s r. r\<lparr>OAuthLocalServer := s\<rparr>))]"

definition logging_fields :: "LoggingConfig fields" where
  "logging_fields = [
     (''enabled'', set_bool (\<lambda>b r. r\<lparr>Enabled := b\<rparr>)),
     (''file_location'', set_str (\<lambda>s r. r\<lparr>FileLocation := s\<rparr>))]"

definition config_fields :: "Config fields" where
  "config_fields = [
     (''auth'', set_struct auth_fields Auth (\<lambda>x r. r\<lparr>Auth := x\<rparr>)),
     (''logging'', set_struct logging_fields Logging (\<lambda>x r. r\<lparr>Logging := x\<rparr>)),
     (''nerd_api_endpoint'', set_str (\<lambda>s r. r\<lparr>NerdAPIEndpoint := s\<rparr>))]"

definition GetDefaultConfigLocation :: "(goerr + string) \<Rightarrow> goerr + string" where
  "GetDefaultConfigLocation dir = (case dir of Inl err \<Rightarrow> Inl (wrapped ''failed to find home dir'' err)
     | Inr d \<Rightarrow> Inr (Join [d, ''.nerd'', ''config.json'']))"

definition ReadConfig :: "string \<Rightarrow> fsys \<Rightarrow> (goerr + Config) \<times> fsys" where
  "ReadConfig location fs =
     check (ReadFile location fs) (wrapped ''failed to open config file'') (\<lambda>content.
     check (Unmarshal config_fields content Defaults) (wrapped ''failed to parse config file'') (\<lambda>conf fs.
       (Inr conf, fs))) fs"

definition FromJSON :: "json option \<Rightarrow> goerr + Config" where
  "FromJSON content = Unmarshal config_fields content Defaults"

section \<open>Fields without a key\<close>

text \<open>
  What no matched setter touches is the same after decoding: \<open>g\<close> is the part observed.
\<close>

definition keeps :: "'r fields \<Rightarrow> ('r \<Rightarrow> 'g) \<Rightarrow> string \<times> json \<Rightarrow> bool" where
  "keeps fs g = (\<lambda>(k, v). \<forall>d. find_field fs k = Some d \<longrightarrow> (\<forall>x y. d v x = Inr y \<longrightarrow> g y = g x))"

lemma decode_members_keeps:
  "decode_members fs kvs r = Inr r' \<Longrightarrow> list_all (keeps fs g) kvs \<Longrightarrow> g r' = g r"
proof (induction fs kvs r rule: decode_members.induct)
  case (2 fs k v kvs r)
  then show ?case
    by (cases "find_field fs k") (auto simp: keeps_def split: sum.splits)
qed simp

lemma decode_members_frame:
  assumes "decode_members fs kvs r = Inr r'"
    and "\<And>k v d x y. (k, v) \<in> set kvs \<Longrightarrow> find_field fs k = Some d \<Longrightarrow> d v x = Inr y \<Longrightarrow> g y = g x"
  shows "g r' = g r"
  by (rule decode_members_keeps [OF assms(1)]) (auto simp: list_all_iff keeps_def intro: assms(2))

text \<open>No key of the object is the name \<open>n\<close>, also not in other letters.\<close>

definition no_key :: "string \<Rightarrow> (string \<times> json) list \<Rightarrow> bool" where
  "no_key n kvs \<longleftrightarrow> (\<forall>(k, v) \<in> set kvs. \<not> fold_eq n k)"

lemma fold_eq_refl [simp]: "fold_eq a a"
  by (simp add: fold_eq_def)

lemma find_field_cases:
  "find_field fs k = Some d \<Longrightarrow> \<exists>n. (n, d) \<in> set fs \<and> fold_eq n k"
  by (auto simp: find_field_def find_Some_iff set_conv_nth split: option.splits dest: map_of_SomeD)
    (metis (no_types, lifting) fold_eq_refl in_set_conv_nth map_of_SomeD)

lemma no_key_field:
  "no_key n kvs \<Longrightarrow> (k, v) \<in> set kvs \<Longrightarrow> find_field fs k = Some d \<Longrightarrow> \<exists>m. (m, d) \<in> set fs \<and> m \<noteq> n"
  using find_field_cases [of fs k d] by (fastforce simp: no_key_def)

lemma config_frame:
  assumes "decode_members config_fields kvs r = Inr r'"
  shows "no_key ''auth'' kvs \<Longrightarrow> Auth r' = Auth r"
    and "no_key ''logging'' kvs \<Longrightarrow> Logging r' = Logging r"
    and "no_key ''nerd_api_endpoint'' kvs \<Longrightarrow> NerdAPIEndpoint r' = NerdAPIEndpoint r"
proof -
  show "no_key ''auth'' kvs \<Longrightarrow> Auth r' = Auth r"
    by (rule decode_members_frame [OF assms], drule (2) no_key_field)
      (auto simp: config_fields_def dest!: setterD)
  show "no_key ''logging'' kvs \<Longrightarrow> Logging r' = Logging r"
    by (rule decode_members_frame [OF assms], drule (2) no_key_field)
      (auto simp: config_fields_def dest!: setterD)
  show "no_key ''nerd_api_endpoint'' kvs \<Longrightarrow> NerdAPIEndpoint r' = NerdAPIEndpoint r"
    by (rule decode_members_frame [OF assms], drule (2) no_key_field)
      (auto simp: config_fields_def dest!: setterD)
qed

lemma auth_frame:
  assumes "decode_members auth_fields kvs r = Inr r'"
  shows "no_key ''public_key'' kvs \<Longrightarrow> PublicKey r' = PublicKey r"
    and "no_key ''api_endpoint'' kvs \<Longrightarrow> APIEndpoint r' = APIEndpoint r"
    and "no_key ''client_id'' kvs \<Longrightarrow> ClientID r' = ClientID r"
proof -
  show "no_key ''public_key'' kvs \<Longrightarrow> PublicKey r' = PublicKey r"
    by (rule decode_members_frame [OF assms], drule (2) no_key_field)
      (auto simp: auth_fields_def dest!: setterD)
  show "no_key ''api_endpoint'' kvs \<Longrightarrow> APIEndpoint r' = APIEndpoint r"
    by (rule decode_members_frame [OF assms], drule (2) no_key_field)
      (auto simp: auth_fields_def dest!: setterD)
  show "no_key ''client_id'' kvs \<Longrightarrow> ClientID r' = ClientID r"
    by (rule decode_members_frame [OF assms], drule (2) no_key_field)
      (auto simp: auth_fields_def dest!: setterD)
qed

section \<open>Properties\<close>

text \<open>
  A configuration file overrides, it does not replace: a section without a key keeps its
  default, and inside a given \<^verbatim>\<open>auth\<close> object (alone under its key) the public key that verifies
  tokens keeps its default unless the object names it.
\<close>

theorem config_keeps_defaults:
  assumes "FromJSON (Some (JObj kvs)) = Inr c"
  shows "(no_key ''auth'' kvs \<longrightarrow> Auth c = Auth Defaults)
    \<and> (no_key ''logging'' kvs \<longrightarrow> Logging c = Logging Defaults)
    \<and> (no_key ''nerd_api_endpoint'' kvs \<longrightarrow> NerdAPIEndpoint c = NerdAPIEndpoint Defaults)
    \<and> (\<forall>akvs rest. kvs = (''auth'', JObj akvs) # rest \<longrightarrow> no_key ''auth'' rest \<longrightarrow> no_key ''public_key'' akvs
         \<longrightarrow> PublicKey (Auth c) = PublicKey (Auth Defaults))"
proof -
  have d: "decode_members config_fields kvs Defaults = Inr c"
    using assms by (simp add: FromJSON_def Unmarshal_def decode_struct_def)
  have "PublicKey (Auth c) = PublicKey (Auth Defaults)"
    if k: "kvs = (''auth'', JObj akvs) # rest" "no_key ''auth'' rest" "no_key ''public_key'' akvs" for akvs rest
  proof -
    have f: "find_field config_fields ''auth'' = Some (set_struct auth_fields Auth (\<lambda>x r. r\<lparr>Auth := x\<rparr>))"
      by (simp add: find_field_def config_fields_def)
    from d k(1) f obtain au where a: "decode_members auth_fields akvs (Auth Defaults) = Inr au"
      and r: "decode_members config_fields rest (Defaults\<lparr>Auth := au\<rparr>) = Inr c"
      by (auto simp: set_struct_def decode_struct_def split: sum.splits)
    from config_frame(1) [OF r k(2)] auth_frame(1) [OF a k(3)] show ?thesis by simp
  qed
  with config_frame [OF d] show ?thesis by blast
qed

theorem config_keeps_defaults_witness:
  "\<exists>c. FromJSON (Some (JObj [(''auth'', JObj [(''client_id'', JStr ''me'')])])) = Inr c
     \<and> Logging c = Logging Defaults \<and> PublicKey (Auth c) = PublicKey (Auth Defaults) \<and> ClientID (Auth c) = ''me''"
proof -
  have e: "FromJSON (Some (JObj [(''auth'', JObj [(''client_id'', JStr ''me'')])]))
      = Inr (Defaults\<lparr>Auth := (Auth Defaults)\<lparr>ClientID := ''me''\<rparr>\<rparr>)"
    by (simp add: FromJSON_def Unmarshal_def decode_struct_def config_fields_def auth_fields_def
        find_field_def set_struct_def set_str_def)
  have "no_key ''logging'' [(''auth'', JObj [(''client_id'', JStr ''me'')])]"
    "no_key ''auth'' []" "no_key ''public_key'' [(''client_id'', JStr ''me'')]"
    by (simp_all add: no_key_def fold_eq_def)
  with config_keeps_defaults [OF e] e show ?thesis by simp
qed

end
