(* ===== verification/Command_Run.thy ===== *)
theory Command_Run
  imports Conf_Config Go_Errors
begin

text \<open>
  The frame around every command: what is shown of an error (\<^verbatim>\<open>command/utils.go\<close>,
  \<^verbatim>\<open>command/format/outputter.go\<close>), exit codes, the options that load the configuration and
  the session (\<^verbatim>\<open>command/command.go\<close>), the same for the newer commands (\<^verbatim>\<open>cmd/cmd.go\<close>), and the
  arguments of the program (\<^verbatim>\<open>main.go\<close>). The parser of flags is an argument.
\<close>

section \<open>What the user is told\<close>

text \<open>\<^verbatim>\<open>%v\<close> of a map of strings.\<close>

definition map_text :: "(string \<times> string) list \<Rightarrow> string" where
  "map_text fs = ''map['' @ join_with '' '' (map (\<lambda>(k, v). k @ '':'' @ v) fs) @ '']''"

definition batchErr :: "int \<Rightarrow> api_error \<Rightarrow> goerr" where
  "batchErr status e =
     (if status = 422 \<and> Fields e \<noteq> [] then Fundamental (''Validation error: '' @ map_text (Fields e))
      else if status = 404 then Fundamental ''The specified resource does not exist''
      else Fundamental (''unknown server error ('' @ int_text status @ '')''))"

definition HandleError :: "goerr \<Rightarrow> goerr" where
  "HandleError err =
     (case Cause (Some err) of
        Some (Sentinel ErrTokenRevoked) \<Rightarrow>
          Fundamental (''Your login session has expired. Please login using '' @ in_quotes ''nerd login'')
      | Some (Sentinel ErrTokenUnset) \<Rightarrow> Fundamental (''You are not logged in. Please login using '' @ in_quotes ''nerd login'')
      | Some (BatchHTTPError status e) \<Rightarrow> batchErr status e
      | _ \<Rightarrow> err)"

section \<open>The outputter\<close>

datatype output_type = Pretty | Raw | JSON | OtherType string

text \<open>\<^verbatim>\<open>logutils.LevelFilter\<close>: the level of a line is what stands in its first brackets.\<close>

definition line_level :: "string \<Rightarrow> string" where
  "line_level line =
     (case dropWhile (\<lambda>c. c \<noteq> CHR ''['') line of
        [] \<Rightarrow> []
      | _ # rest \<Rightarrow> if CHR '']'' \<in> set rest then takeWhile (\<lambda>c. c \<noteq> CHR '']'') rest else [])"

definition levels :: "string list" where
  "levels = [''DEBUG'', ''WARN'', ''ERROR'', ''INFO'']"

definition bad_levels :: "string \<Rightarrow> string list" where
  "bad_levels lowest = takeWhile (\<lambda>l. l \<noteq> lowest) levels"

text \<open>
  The state of the outputter: the flags, whether there is a log file, and the lines on the error stream,
  in the log file and on the output.
\<close>

record outputter =
  odebug :: bool
  otype :: output_type
  has_logfile :: bool
  err_lines :: "string list"
  log_lines :: "string list"
  out_lines :: "string list"

definition log_level :: "outputter \<Rightarrow> string" where
  "log_level o1 = (if odebug o1 then ''DEBUG'' else ''INFO'')"

text \<open>A line of the logger goes to the log file unfiltered, and to the error stream through the filter.\<close>

definition Println :: "string \<Rightarrow> outputter \<Rightarrow> outputter" where
  "Println line o1 = o1\<lparr>err_lines := (if line_level line \<in> set (bad_levels (log_level o1)) then err_lines o1 else err_lines o1 @ [line]),
     log_lines := (if has_logfile o1 then log_lines o1 @ [line] else log_lines o1)\<rparr>"

definition top_message :: "goerr \<Rightarrow> string" where
  "top_message err =
     (case Cause (Some err) of
        Some _ \<Rightarrow> (case ErrorCauser (ErrorCauser (Some err)) of
            Some e \<Rightarrow> replace_first (error_text err) ('': '' @ error_text e) []
          | None \<Rightarrow> error_text err)
      | None \<Rightarrow> error_text err)"

definition debug_line :: "goerr \<Rightarrow> string" where
  "debug_line err = ''[DEBUG] Underlying error: '' @ verbose_text err"

definition WriteError :: "goerr \<Rightarrow> outputter \<Rightarrow> outputter" where
  "WriteError err o1 = Println (debug_line err) (Println (top_message err) o1)"

definition SetDebug :: "bool \<Rightarrow> outputter \<Rightarrow> outputter" where
  "SetDebug b o1 = o1\<lparr>odebug := b\<rparr>"

definition setOutput :: "string \<Rightarrow> outputter \<Rightarrow> outputter" where
  "setOutput s o1 = o1\<lparr>otype := (if s = ''json'' then JSON else if s = ''raw'' then Raw else Pretty)\<rparr>"

text \<open>
  \<^verbatim>\<open>Output\<close>: the decorator of the output type, and \<^verbatim>\<open>NotImplDecorator\<close> where there is none. A decorator
  writes some text and then may fail.
\<close>

fun type_text :: "output_type \<Rightarrow> string" where
  "type_text Pretty = ''pretty''" | "type_text Raw = ''raw''" | "type_text JSON = ''json''" | "type_text (OtherType s) = s"

definition NotImplDecorator :: "output_type \<Rightarrow> string \<times> goerr option" where
  "NotImplDecorator t = (''the selected output format ('' @ type_text t @ '') is not supported'', None)"

definition Output :: "(output_type \<rightharpoonup> string \<times> goerr option) \<Rightarrow> outputter \<Rightarrow> outputter" where
  "Output decs o1 =
     (let (txt, err) = (case decs (otype o1) of Some d \<Rightarrow> d | None \<Rightarrow> NotImplDecorator (otype o1));
          o2 = o1\<lparr>out_lines := out_lines o1 @ [txt], log_lines := (if has_logfile o1 then log_lines o1 @ [txt] else log_lines o1)\<rparr> in
      (case err of None \<Rightarrow> o2 | Some e \<Rightarrow> WriteError (wrapped ''failed to decorate output'' e) o2))"

section \<open>Running a command\<close>

definition RunResultHelp :: int where
  "RunResultHelp = - 18511"

text \<open>The parser may end the process, from the functions it calls for the options.\<close>

datatype 'a parsed = Parsed 'a | BadFlags goerr | Exited int

text \<open>How the function of a command ends; a process that panics exits with status 2.\<close>

datatype ended = Done | Failing goerr | Panics

definition Run :: "(string list \<Rightarrow> 'w \<Rightarrow> string list parsed \<times> 'w) \<Rightarrow> (string list \<Rightarrow> 'w \<Rightarrow> ended \<times> 'w)
    \<Rightarrow> (goerr \<Rightarrow> 'w \<Rightarrow> 'w) \<Rightarrow> string list \<Rightarrow> 'w \<Rightarrow> int \<times> 'w" where
  "Run parse runFunc write_error args w =
     (case parse args w of
        (Exited n, w) \<Rightarrow> (n, w)
      | (BadFlags _, w) \<Rightarrow> (127, w)
      | (Parsed args, w) \<Rightarrow>
         (case runFunc args w of
            (Done, w) \<Rightarrow> (0, w)
          | (Panics, w) \<Rightarrow> (2, w)
          | (Failing err, w) \<Rightarrow>
             (case Cause (Some err) of
                Some (ShowHelp m) \<Rightarrow> (RunResultHelp, write_error (ShowHelp m) w)
              | _ \<Rightarrow> (1, write_error err w))))"

text \<open>\<^verbatim>\<open>cmd.Run\<close>: here only the error itself asks for help, and failures are 255.\<close>

definition cmd_fail :: "(goerr \<Rightarrow> 'w \<Rightarrow> 'w) \<Rightarrow> goerr \<Rightarrow> string \<Rightarrow> 'w \<Rightarrow> int \<times> 'w" where
  "cmd_fail log_error err message w = (255, log_error (wrapped message err) w)"

definition cmd_errShowHelp :: goerr where
  "cmd_errShowHelp = Fundamental ''show help''"

definition cmd_Run :: "(string list \<Rightarrow> 'w \<Rightarrow> (goerr + string list) \<times> 'w) \<Rightarrow> (string list \<Rightarrow> 'w \<Rightarrow> goerr option \<times> 'w)
    \<Rightarrow> (goerr \<Rightarrow> 'w \<Rightarrow> 'w) \<Rightarrow> string list \<Rightarrow> 'w \<Rightarrow> int \<times> 'w" where
  "cmd_Run parse runFunc log_error args w =
     (case parse args w of
        (Inl err, w) \<Rightarrow> cmd_fail log_error err ''failed to parse flags(s)'' w
      | (Inr remaining, w) \<Rightarrow>
         (case runFunc remaining w of
            (None, w) \<Rightarrow> (0, w)
          | (Some err, w) \<Rightarrow> if err = cmd_errShowHelp then (RunResultHelp, w) else cmd_fail log_error err ''error'' w))"

text \<open>\<^verbatim>\<open>create\<close> of \<^verbatim>\<open>main.go\<close>: a version flag anywhere makes it the version command.\<close>

definition program_args :: "string list \<Rightarrow> string list" where
  "program_args args =
     (if list_ex (\<lambda>a. a = ''-V'' \<or> a = ''-version'' \<or> a = ''--version'') args then ''version'' # args else args)"

section \<open>The configuration and the session of a command\<close>

definition EnvConfigJSON :: string where "EnvConfigJSON = ''NERD_CONFIG_JSON''"
definition EnvNerdProject :: string where "EnvNerdProject = ''NERD_PROJECT''"

text \<open>
  \<^verbatim>\<open>createFile\<close>: an existing file is left alone, and the error of writing is dropped. The folders above are
  not part of the file system here.
\<close>

definition createFile :: "string \<Rightarrow> json option \<Rightarrow> fsys \<Rightarrow> (goerr + unit) \<times> fsys" where
  "createFile path content fs =
     (case disk fs path of
        Some _ \<Rightarrow> (Inr (), fs)
      | None \<Rightarrow>
         (case create_err fs path of
            Some EEXIST \<Rightarrow> (Inr (), fs)
          | Some n \<Rightarrow> (Inl (os_error ''open'' path n), fs)
          | None \<Rightarrow> (Inr (), fs\<lparr>disk := (disk fs)(path := Some (if write_err fs path = None then content else None))\<rparr>)))"

text \<open>What ends the process, with code -1 (255 for the shell), and the message on its way out.\<close>

datatype 'a startup = Ready 'a | Stopped goerr

definition setConfig :: "(string \<Rightarrow> string) \<Rightarrow> (string \<Rightarrow> json option) \<Rightarrow> goerr + string \<Rightarrow> (string \<Rightarrow> goerr + string) \<Rightarrow> string
    \<Rightarrow> fsys \<Rightarrow> (Config \<times> string option) startup \<times> fsys" where
  "setConfig env parse_text home expand loc fs =
     (let js = env EnvConfigJSON in
      if js \<noteq> [] then
        (case FromJSON (parse_text js) of
           Inl err \<Rightarrow> (Stopped (wrapped (''failed to parse config json '' @ in_quotes js) err), fs)
         | Inr conf \<Rightarrow> (Ready (conf, None), fs))
      else
        (case (if loc \<noteq> [] then (Inr loc, fs)
               else case GetDefaultConfigLocation home of
                 Inl err \<Rightarrow> (Inl (wrapped ''failed to find config location'' err), fs)
               | Inr loc \<Rightarrow> call (createFile loc (Some (JObj []))) (wrapped (''failed to create config file '' @ loc)) (\<lambda>_ fs. (Inr loc, fs)) fs) of
           (Inl err, fs) \<Rightarrow> (Stopped err, fs)
         | (Inr loc, fs) \<Rightarrow>
            (case ReadConfig loc fs of
               (Inl err, fs) \<Rightarrow> (Stopped (wrapped ''failed to read config file'' err), fs)
             | (Inr conf, fs) \<Rightarrow>
                if \<not> Enabled (Logging conf) then (Ready (conf, None), fs)
                else
                  (case expand (FileLocation (Logging conf)) of
                     Inl err \<Rightarrow> (Stopped (wrapped ''failed to find home directory'' err), fs)
                   | Inr logPath \<Rightarrow>
                      (case createFile logPath None fs of
                         (Inl err, fs) \<Rightarrow> (Stopped (wrapped (''failed to create log file '' @ logPath) err), fs)
                       | (Inr _, fs) \<Rightarrow>
                          (case open_err fs logPath of
                             Some n \<Rightarrow> (Stopped (wrapped ''failed to set logging'' (wrapped ''failed to open log file'' (os_error ''open'' logPath n))), fs)
                           | None \<Rightarrow> (Ready (conf, Some logPath), fs)))))))"

text \<open>The result of \<^verbatim>\<open>WriteProject\<close> is dropped.\<close>

definition setSession :: "(string \<Rightarrow> string) \<Rightarrow> goerr + string \<Rightarrow> string \<Rightarrow> fsys \<Rightarrow> string startup \<times> fsys" where
  "setSession env home loc fs =
     (case (if loc \<noteq> [] then (Inr loc, fs)
            else case GetDefaultSessionLocation home of
              Inl err \<Rightarrow> (Inl (wrapped ''failed to find session location'' err), fs)
            | Inr loc \<Rightarrow> call (createFile loc (Some (JObj []))) (wrapped (''failed to create session file '' @ loc)) (\<lambda>_ fs. (Inr loc, fs)) fs) of
        (Inl err, fs) \<Rightarrow> (Stopped err, fs)
      | (Inr loc, fs) \<Rightarrow>
         (Ready loc, if env EnvNerdProject \<noteq> [] then snd (WriteProject loc (env EnvNerdProject) DefaultAWSRegion fs) else fs))"

section \<open>What a line of the error stream says\<close>

definition visible :: "outputter \<Rightarrow> string \<Rightarrow> bool" where
  "visible o1 line \<longleftrightarrow> line_level line \<notin> set (bad_levels (log_level o1))"

lemma Println_shown: "err_lines (Println line o1) = err_lines o1 @ filter (visible o1) [line]"
  and Println_flags [simp]: "odebug (Println line o1) = odebug o1" "otype (Println line o1) = otype o1"
    "out_lines (Println line o1) = out_lines o1" "has_logfile (Println line o1) = has_logfile o1"
    "visible (Println line o1) = visible o1"
  by (auto simp: Println_def visible_def log_level_def fun_eq_iff)

lemma debug_line_visible: "visible o1 (debug_line err) \<longleftrightarrow> odebug o1"
  by (simp add: visible_def debug_line_def line_level_def log_level_def bad_levels_def levels_def)

lemma WriteError_shown:
  "err_lines (WriteError err o1) =
     err_lines o1 @ filter (visible o1) [top_message err] @ (if odebug o1 then [debug_line err] else [])"
  using debug_line_visible [of o1 err] by (simp add: WriteError_def Println_shown)

lemma no_bracket_visible: "CHR ''['' \<notin> set line \<Longrightarrow> visible o1 line"
proof -
  assume "CHR ''['' \<notin> set line"
  then have "dropWhile (\<lambda>c. c \<noteq> CHR ''['') line = []"
    unfolding dropWhile_eq_Nil_conv by blast
  then have "line_level line = []" by (simp only: line_level_def list.case)
  moreover have "[] \<notin> set (bad_levels l)" for l
    by (auto simp: bad_levels_def levels_def dest: set_takeWhileD)
  ultimately show ?thesis by (simp add: visible_def)
qed

text \<open>Of a wrapped error the top message is shown, of any other the whole text.\<close>

lemma top_message_wrapped:
  "Cause (Some e) = Some r \<Longrightarrow> CHR '':'' \<notin> set m \<Longrightarrow> top_message (wrapped m e) = m"
  using replace_first_later [of "CHR '':''" m "'' '' @ error_text e" "[]" "[]"]
  by (simp add: top_message_def ErrorCauser_def)

lemma top_message_plain [simp]:
  "top_message (Fundamental m) = m" "top_message (ShowHelp m) = m" "top_message (Sentinel s) = sentinel_text s"
  by (simp_all add: top_message_def ErrorCauser_def replace_first_longer)

lemma top_message_no_cause: "Cause (Some e) = None \<Longrightarrow> top_message e = error_text e"
  by (simp add: top_message_def)

lemma HandleError_cases:
  "HandleError err = (if Cause (Some err) = Some (Sentinel ErrTokenRevoked)
       then Fundamental (''Your login session has expired. Please login using '' @ in_quotes ''nerd login'')
     else if Cause (Some err) = Some (Sentinel ErrTokenUnset)
       then Fundamental (''You are not logged in. Please login using '' @ in_quotes ''nerd login'')
     else err)"
  using Cause_not_http [of "Some err"]
  by (auto simp: HandleError_def split: option.splits goerr.splits sentinel.splits)

text \<open>
  C26: What the user sees when a command fails with a wrapped error, outside debug mode, and the exit code:
  a refused or absent login is told in its own words whatever the wrapping, an error that asks for help ends
  in the help, any other error with a cause shows the top message only. An error of the API server has no
  cause, so the whole chain is printed, with the text of the server at its end; the messages prepared for
  it are never used.
\<close>

theorem failure_shown:
  assumes "parse args o0 = (Parsed rest, o1)" and "runFunc rest o1 = (Failing (HandleError (wrapped m e)), o2)"
    and "\<not> odebug o2" and "CHR '':'' \<notin> set m" and "CHR ''['' \<notin> set m" and "CHR ''['' \<notin> set (error_text e)"
  shows "map_prod (\<lambda>n. n) err_lines (Run parse runFunc WriteError args o0) =
    (case Cause (Some e) of
       Some (ShowHelp h) \<Rightarrow> (RunResultHelp, err_lines o2 @ [h])
     | Some (Sentinel ErrTokenRevoked) \<Rightarrow>
         (1, err_lines o2 @ [''Your login session has expired. Please login using '' @ in_quotes ''nerd login''])
     | Some (Sentinel ErrTokenUnset) \<Rightarrow>
         (1, err_lines o2 @ [''You are not logged in. Please login using '' @ in_quotes ''nerd login''])
     | Some _ \<Rightarrow> (1, err_lines o2 @ [m])
     | None \<Rightarrow> (1, err_lines o2 @ [m @ '': '' @ error_text e]))"
proof -
  have v: "CHR ''['' \<notin> set l \<Longrightarrow> err_lines (WriteError err o2) = err_lines o2 @ [l]" if "top_message err = l" for err l
    using that assms(3) by (simp add: WriteError_shown no_bracket_visible)
  show ?thesis
  proof (cases "Cause (Some e)")
    case None
    then have "top_message (wrapped m e) = m @ '': '' @ error_text e"
      by (subst top_message_no_cause) simp_all
    from v [OF this] None assms show ?thesis
      by (simp add: Run_def HandleError_cases)
  next
    case (Some r)
    have h: "CHR ''['' \<notin> set h" if "r = ShowHelp h" for h
      using Cause_text_suffix [OF Some] assms(6) that by auto
    from v [OF top_message_wrapped [OF Some assms(4)]] assms(5)
    have "err_lines (WriteError (wrapped m e) o2) = err_lines o2 @ [m]" .
    with Some assms(1,2) v [OF top_message_plain(1)] v [OF top_message_plain(2)] h show ?thesis
      by (auto simp: Run_def HandleError_cases in_quotes_def split: goerr.splits sentinel.splits)
  qed
qed

definition failing_run :: "string list \<Rightarrow> outputter \<Rightarrow> ended \<times> outputter" where
  "failing_run args o1 = (Failing (HandleError (wrapped ''failed to get dataset''
     (BatchHTTPError 404 \<lparr>Retry = False, Message = ''no dataset d1'', Trace = [], Fields = []\<rparr>))), o1)"

definition quiet_outputter :: outputter where
  "quiet_outputter = \<lparr>odebug = False, otype = Pretty, has_logfile = False, err_lines = [], log_lines = [], out_lines = []\<rparr>"

theorem failure_shown_witness:
  "map_prod (\<lambda>n. n) err_lines (Run (\<lambda>args o1. (Parsed args, o1)) failing_run WriteError [''d1''] quiet_outputter) =
     (1, [''failed to get dataset: no dataset d1''])"
  using failure_shown [of "\<lambda>args o1. (Parsed args, o1)" "[''d1'']" quiet_outputter "[''d1'']" quiet_outputter failing_run
      "BatchHTTPError 404 \<lparr>Retry = False, Message = ''no dataset d1'', Trace = [], Fields = []\<rparr>" "''failed to get dataset''"]
  by (simp add: failing_run_def quiet_outputter_def)

section \<open>First runs, the project, and the configuration of a worker\<close>

text \<open>\<^verbatim>\<open>json.Marshal\<close> of the configuration.\<close>

definition encode_config :: "Config \<Rightarrow> json" where
  "encode_config c = JObj [
     (''auth'', JObj [(''api_endpoint'', JStr (APIEndpoint (Auth c))), (''public_key'', JStr (PublicKey (Auth c))),
        (''client_id'', JStr (ClientID (Auth c))), (''oauth_success_url'', JStr (OAuthSuccessURL (Auth c))),
        (''oauth_localserver'', JStr (OAuthLocalServer (Auth c)))]),
     (''logging'', JObj [(''enabled'', JBool (Enabled (Logging c))), (''file_location'', JStr (FileLocation (Logging c)))]),
     (''nerd_api_endpoint'', JStr (NerdAPIEndpoint c))]"

lemma decode_encode_config: "FromJSON (Some (encode_config c)) = Inr c"
  by (simp add: FromJSON_def Unmarshal_def decode_struct_def encode_config_def config_fields_def auth_fields_def
      logging_fields_def find_field_def set_struct_def set_str_def set_bool_def)

abbreviation config_path :: "string \<Rightarrow> string" where
  "config_path d \<equiv> Join [d, ''.nerd'', ''config.json'']"

abbreviation session_path :: "string \<Rightarrow> string" where
  "session_path d \<equiv> Join [d, ''.nerd'', ''session.json'']"

text \<open>A file that is missing and can be made, or one that is there and can be read.\<close>

definition usable :: "string \<Rightarrow> fsys \<Rightarrow> bool" where
  "usable path fs \<longleftrightarrow> open_err fs path = None \<and> create_err fs path = None \<and> write_err fs path = None"

lemma createFile_usable:
  "usable path fs \<Longrightarrow> createFile path content fs =
     (Inr (), if disk fs path = None then fs\<lparr>disk := (disk fs)(path := Some content)\<rparr> else fs)"
  by (auto simp: createFile_def usable_def split: option.splits)

lemma empty_object:
  "disk fs path = Some (Some (JObj [])) \<Longrightarrow> open_err fs path = None \<Longrightarrow> ReadConfig path fs = (Inr Defaults, fs)"
  "disk fs path = Some (Some (JObj [])) \<Longrightarrow> open_err fs path = None \<Longrightarrow> Read path fs = (Inr empty_snapshot, fs)"
  by (simp_all add: ReadConfig_def Read_readFile readFile_def ReadFile_def Unmarshal_def decode_struct_def)

lemma Defaults_no_logging [simp]: "Enabled (Logging Defaults) = False"
  by (simp add: Defaults_def)

lemma setConfig_default:
  assumes "usable (config_path d) fs" and "disk fs (config_path d) = None \<or> disk fs (config_path d) = Some (Some (JObj []))"
    and "env EnvConfigJSON = []"
  shows "setConfig env parse_text (Inr d) expand [] fs =
    (Ready (Defaults, None), fs\<lparr>disk := (disk fs)(config_path d := Some (Some (JObj [])))\<rparr>)"
proof -
  have same: "disk fs p = Some c \<Longrightarrow> fs = fs\<lparr>disk := (disk fs)(p := Some c)\<rparr>" for p c
    by (simp add: fun_upd_idem)
  let ?fs = "fs\<lparr>disk := (disk fs)(config_path d := Some (Some (JObj [])))\<rparr>"
  have "createFile (config_path d) (Some (JObj [])) fs = (Inr (), ?fs)"
    using assms(2) same by (auto simp: createFile_usable [OF assms(1)])
  moreover have "ReadConfig (config_path d) ?fs = (Inr Defaults, ?fs)"
    using assms(1) by (intro empty_object(1)) (simp_all add: usable_def)
  ultimately show ?thesis
    using assms(3) by (simp add: setConfig_def GetDefaultConfigLocation_def)
qed

text \<open>What the session file holds after the session option is handled.\<close>

lemma setSession_default:
  assumes "usable (session_path d) fs"
    and "Read (session_path d) fs = (Inr ss, fs) \<or> disk fs (session_path d) = None \<and> ss = empty_snapshot"
    and "time_min \<le> Expiration (SOAuth ss)" and "Expiration (SOAuth ss) < time_max"
  shows "\<exists>fs'. setSession env (Inr d) [] fs = (Ready (session_path d), fs')
    \<and> Read (session_path d) fs' = (Inr (if env EnvNerdProject = [] then ss
         else ss\<lparr>SProject := \<lparr>PName = env EnvNerdProject, AWSRegion = DefaultAWSRegion\<rparr>\<rparr>), fs')"
proof -
  let ?p = "session_path d"
  obtain fs1 where c: "createFile ?p (Some (JObj [])) fs = (Inr (), fs1)" and r: "Read ?p fs1 = (Inr ss, fs1)"
    and u: "usable ?p fs1"
  proof (cases "disk fs ?p")
    case None
    with assms(2) have "ss = empty_snapshot"
      by (auto simp: Read_readFile readFile_def ReadFile_def check_def split: option.splits)
    with None that [of "fs\<lparr>disk := (disk fs)(?p := Some (Some (JObj [])))\<rparr>"] assms(1) empty_object(2) show ?thesis
      by (simp add: createFile_usable usable_def)
  next
    case (Some c)
    with that [of fs] assms(1,2) show ?thesis by (simp add: createFile_usable)
  qed
  from u have e: "create_err fs1 ?p = None" "write_err fs1 ?p = None" by (simp_all add: usable_def)
  from WriteProject_ok [OF r e assms(3,4)] obtain fs2
    where "WriteProject ?p (env EnvNerdProject) DefaultAWSRegion fs1 = (Inr (), fs2)"
      and "Read ?p fs2 = (Inr (ss\<lparr>SProject := \<lparr>PName = env EnvNerdProject, AWSRegion = DefaultAWSRegion\<rparr>\<rparr>), fs2)"
    by blast
  with c r show ?thesis
    by (simp add: setSession_def GetDefaultSessionLocation_def)
qed

text \<open>
  The first command on a machine makes both files and runs with the defaults and an empty session; the
  second finds them, and changes nothing.
\<close>

theorem first_run:
  assumes "usable (config_path d) fs" and "usable (session_path d) fs" and "config_path d \<noteq> session_path d"
    and "disk fs (config_path d) = None" and "disk fs (session_path d) = None"
    and "env EnvConfigJSON = []" and "env EnvNerdProject = []"
  shows "\<exists>fs1 fs2. setConfig env parse_text (Inr d) expand [] fs = (Ready (Defaults, None), fs1)
    \<and> setSession env (Inr d) [] fs1 = (Ready (session_path d), fs2)
    \<and> Read (session_path d) fs2 = (Inr empty_snapshot, fs2)
    \<and> setConfig env parse_text (Inr d) expand [] fs2 = (Ready (Defaults, None), fs2)
    \<and> setSession env (Inr d) [] fs2 = (Ready (session_path d), fs2)"
proof -
  let ?j = "Some (Some (JObj []))"
  let ?fs1 = "fs\<lparr>disk := (disk fs)(config_path d := ?j)\<rparr>"
  let ?fs2 = "fs\<lparr>disk := (disk fs)(config_path d := ?j, session_path d := ?j)\<rparr>"
  have u: "usable (config_path d) ?fs2" "usable (session_path d) ?fs1" "usable (session_path d) ?fs2"
    using assms(1,2) by (simp_all add: usable_def)
  have s: "setSession env (Inr d) [] ?fs1 = (Ready (session_path d), ?fs2)"
    "setSession env (Inr d) [] ?fs2 = (Ready (session_path d), ?fs2)"
    using assms(3,5,7) by (simp_all add: setSession_def GetDefaultSessionLocation_def createFile_usable [OF u(2)]
        createFile_usable [OF u(3)])
  have "setConfig env parse_text (Inr d) expand [] fs = (Ready (Defaults, None), ?fs1)"
    by (rule setConfig_default) (use assms in simp_all)
  moreover have "setConfig env parse_text (Inr d) expand [] ?fs2 = (Ready (Defaults, None), ?fs2)"
    by (subst setConfig_default) (use assms u in \<open>simp_all add: fun_upd_twist fun_upd_idem\<close>)
  moreover have "Read (session_path d) ?fs2 = (Inr empty_snapshot, ?fs2)"
    by (rule empty_object(2)) (use assms(2) in \<open>simp_all add: usable_def\<close>)
  ultimately show ?thesis using s by blast
qed

definition fresh_home :: fsys where
  "fresh_home = \<lparr>disk = (\<lambda>_. None), open_err = (\<lambda>_. None), create_err = (\<lambda>_. None), write_err = (\<lambda>_. None)\<rparr>"

lemma fresh_usable: "usable p fresh_home" "disk fresh_home p = None"
  by (simp_all add: fresh_home_def usable_def)

lemma root_paths: "config_path ''/root'' = ''/root/.nerd/config.json''" "session_path ''/root'' = ''/root/.nerd/session.json''"
  by code_simp+

theorem first_run_witness:
  "\<exists>fs1. setConfig (\<lambda>_. []) (\<lambda>_. None) (Inr ''/root'') Inr [] fresh_home = (Ready (Defaults, None), fs1)"
  using first_run [OF fresh_usable(1) fresh_usable(1) _ fresh_usable(2) fresh_usable(2),
      of "''/root''" "\<lambda>_. []" "\<lambda>_. None" Inr]
  by (auto simp: root_paths)

text \<open>
  The project in the environment is written into the session file for good, next to whatever else the
  session holds, and it is the project of the command only if the session holds an OAuth token: the
  environment \<^verbatim>\<open>workload start\<close> makes for a worker, which brings a JWT and a project to a machine without
  a session, leads to the error of somebody who is not logged in.
\<close>

theorem project_from_env:
  assumes "usable (session_path d) fs" and "env EnvNerdProject = p" and "p \<noteq> []"
    and "Read (session_path d) fs = (Inr ss, fs) \<or> disk fs (session_path d) = None \<and> ss = empty_snapshot"
    and "time_min \<le> Expiration (SOAuth ss)" and "Expiration (SOAuth ss) < time_max"
  shows "\<exists>fs' ss'. setSession env (Inr d) [] fs = (Ready (session_path d), fs')
    \<and> Read (session_path d) fs' = (Inr ss', fs')
    \<and> SOAuth ss' = SOAuth ss \<and> SJWT ss' = SJWT ss \<and> PName (SProject ss') = p \<and> AWSRegion (SProject ss') = DefaultAWSRegion
    \<and> RequireProjectID ss' = (if AccessToken (SOAuth ss) = [] then Inl (Sentinel ErrTokenUnset) else Inr p)"
  using setSession_default [OF assms(1) assms(4-6), of env] assms(2,3)
  by (auto simp: RequireProjectID_def)

definition worker_env :: "string \<Rightarrow> string" where
  "worker_env n = (if n = ''NERD_PROJECT'' then ''p1'' else if n = ''NERD_JWT'' then ''jwt'' else [])"

theorem project_from_env_witness:
  "\<exists>fs' ss'. setSession worker_env (Inr ''/root'') [] fresh_home = (Ready ''/root/.nerd/session.json'', fs')
     \<and> Read ''/root/.nerd/session.json'' fs' = (Inr ss', fs') \<and> RequireProjectID ss' = Inl (Sentinel ErrTokenUnset)"
proof -
  have "AccessToken (SOAuth empty_snapshot) = []" "time_min \<le> Expiration (SOAuth empty_snapshot)"
    "Expiration (SOAuth empty_snapshot) < time_max"
    by (simp_all add: empty_snapshot_def zero_time_def time_min_def time_max_def)
  with project_from_env [of "''/root''" fresh_home worker_env "''p1''" empty_snapshot] fresh_usable [of "''/root/.nerd/session.json''"]
  show ?thesis by (auto simp: root_paths worker_env_def EnvNerdProject_def)
qed

text \<open>
  The configuration \<^verbatim>\<open>workload start\<close> sends along arrives at the worker as it is: the variable wins over
  every option and file, and the worker keeps no log file, whatever the configuration says.
\<close>

theorem config_travels:
  assumes "env EnvConfigJSON = txt" and "txt \<noteq> []" and "parse_text txt = Some (encode_config c)"
  shows "setConfig env parse_text home expand loc fs = (Ready (c, None), fs)"
  using assms by (simp add: setConfig_def decode_encode_config)

theorem config_travels_witness:
  "setConfig (\<lambda>_. ''{..}'') (\<lambda>_. Some (encode_config Defaults)) (Inr ''/root'') Inr ''other.json'' fresh_home =
     (Ready (Defaults, None), fresh_home)"
  using config_travels [of "\<lambda>_. ''{..}''" "''{..}''" "\<lambda>_. Some (encode_config Defaults)" Defaults] by simp

end
