(* ===== verification/Job_Command.thy ===== *)
theory Job_Command
  imports Kube_Jobs Command_Run
begin

text \<open>
  The commands of \<^verbatim>\<open>cmd/\<close>: \<^verbatim>\<open>job run\<close> (\<^verbatim>\<open>job_run.go\<close>) over the service of \<open>Kube_Jobs\<close>, with the dependencies of
  \<^verbatim>\<open>opts.go\<close>, and \<^verbatim>\<open>job\<close>. The home directory, the kube configuration, the clients made of it and the validator are
  arguments, and so is how an error of the service reads.
\<close>

section \<open>Dependencies\<close>

record KubeOpts =
  KubeConfig :: string
  Namespace :: string
  Timeout :: int

definition kube_config :: "goerr + string \<Rightarrow> KubeOpts \<Rightarrow> goerr + string" where
  "kube_config home kopts =
     (if KubeConfig kopts = [] then
        (case home of Inl err \<Rightarrow> Inl (wrapped ''failed to get home directory'' err)
         | Inr hdir \<Rightarrow> Inr (Join [hdir, ''.kube'', ''config'']))
      else Inr (KubeConfig kopts))"

text \<open>What is not under the repository: the home directory, the reading of a configuration, the client for one, the validator.\<close>

record ('c, 'k, 'w) job_env =
  home_dir :: "goerr + string"
  build_config :: "string \<Rightarrow> goerr + 'k"
  for_config :: "'k \<Rightarrow> goerr + ('c \<Rightarrow> string \<Rightarrow> string \<Rightarrow> job \<Rightarrow> 'w \<Rightarrow> (kube_error + job) \<times> 'w)"
  validator :: "string \<times> string \<Rightarrow> goerr option"
  with_timeout :: "int \<Rightarrow> 'c"
  as_error :: "svc_error \<Rightarrow> goerr"
  log_line :: "string \<Rightarrow> 'w \<Rightarrow> 'w"

definition NewDeps :: "('c, 'k, 'w) job_env \<Rightarrow> KubeOpts \<Rightarrow> goerr + ('c \<Rightarrow> string \<Rightarrow> string \<Rightarrow> job \<Rightarrow> 'w \<Rightarrow> (kube_error + job) \<times> 'w)" where
  "NewDeps e kopts =
     (case kube_config (home_dir e) kopts of Inl err \<Rightarrow> Inl err
      | Inr path \<Rightarrow>
         (case build_config e path of
            Inl err \<Rightarrow> Inl (wrapped ''failed to build Kubernetes config from provided kube config path'' err)
          | Inr kcfg \<Rightarrow>
             (case for_config e kcfg of Inl err \<Rightarrow> Inl (wrapped ''failed to create Kubernetes configuration'' err)
              | Inr kube \<Rightarrow> Inr kube)))"

section \<open>The commands\<close>

definition MessageNotEnoughArguments :: string where
  "MessageNotEnoughArguments = ''not enough arguments, see --help''"

definition job_Execute :: "string list \<Rightarrow> 'w \<Rightarrow> goerr option \<times> 'w" where
  "job_Execute args w = (Some cmd_errShowHelp, w)"

text \<open>No value where \<open>RunJob\<close> panics.\<close>

definition job_run_Execute :: "('c, 'k, 'w) job_env \<Rightarrow> KubeOpts \<Rightarrow> string \<Rightarrow> string list \<Rightarrow> 'w \<Rightarrow> (goerr option \<times> 'w) option" where
  "job_run_Execute e kopts name args w =
     (if length args < 1 then Some (Some (Fundamental MessageNotEnoughArguments), w)
      else case NewDeps e kopts of Inl err \<Rightarrow> Some (Some (wrapped ''failed to configure'' err), w)
      | Inr kube \<Rightarrow>
         (case RunJob (NewKube kube (validator e) (Namespace kopts)) (Some (with_timeout e (Timeout kopts))) (Some (args ! 0, name)) w of
            None \<Rightarrow> None
          | Some (Inl err, w) \<Rightarrow> Some (Some (wrapped ''failed to run job'' (as_error e err)), w)
          | Some (Inr out, w) \<Rightarrow>
              Some (None, log_line e (''To see whats happening, use: '' @ in_quotes (''nerd job inspect '' @ out))
                (log_line e (''Submitted job: '' @ in_quotes out) w))))"

section \<open>A job is submitted\<close>

text \<open>
  C37: \<^verbatim>\<open>job run\<close> ends well exactly when the dependencies are there, the image and the name are valid and the
  server takes the job: one object, posted to the namespace of the options under the managed name (with the timeout of
  the options); then the user is told the name without the prefix of nerd.
\<close>

theorem job_submitted:
  assumes "1 \<le> length args" and "NewDeps e kopts = Inr kube"
  shows "job_run_Execute e kopts name args w = Some (None, w') \<longleftrightarrow>
    validator e (args ! 0, name) = None \<and>
    (\<exists>stored w1 given. kube (with_timeout e (Timeout kopts)) (Namespace kopts) KubeResourceTypeJobs
         \<lparr>Name = if name = [] then [] else nerd_prefix @ name, GenerateName = if name = [] then nerd_prefix @ ''j-'' else [],
          RestartPolicy = ''OnFailure'', Containers = [(''main'', args ! 0)]\<rparr> w = (Inr stored, w1) \<and>
       given = trim_prefix (Name stored) nerd_prefix \<and>
       w' = log_line e (''To see whats happening, use: '' @ in_quotes (''nerd job inspect '' @ given))
              (log_line e (''Submitted job: '' @ in_quotes given) w1))"
proof -
  let ?k = "NewKube kube (validator e) (Namespace kopts)"
  let ?j = "\<lparr>Name = if name = [] then [] else nerd_prefix @ name, GenerateName = if name = [] then nerd_prefix @ ''j-'' else [],
    RestartPolicy = ''OnFailure'', Containers = [(''main'', args ! 0)]\<rparr>"
  have k: "val ?k = validator e" "api ?k = kube" "ns ?k = Namespace kopts" "kprefix ?k = nerd_prefix" by (simp_all add: NewKube_def)
  have j: "managed ?k ''j-'' name (new_job (args ! 0)) = ?j" by (simp add: managed_def new_job_def k)
  obtain r w1 where "kube (with_timeout e (Timeout kopts)) (Namespace kopts) KubeResourceTypeJobs ?j w = (r, w1)"
    by (rule prod.exhaust)
  with assms j k show ?thesis
    by (cases r; cases "validator e (args ! 0, name)")
      (auto simp: job_run_Execute_def RunJob_def createResource_def split: option.splits sum.splits)
qed

definition demo_jobs :: "(unit, unit, job list \<times> string list) job_env" where
  "demo_jobs = \<lparr>home_dir = Inr ''/root'', build_config = (\<lambda>p. if p = ''/root/.kube/config'' then Inr () else Inl (Sentinel EOF)),
     for_config = (\<lambda>_. Inr (\<lambda>_ _ _ j (jobs, ls). (Inr j, jobs @ [j], ls))), validator = (\<lambda>_. None), with_timeout = (\<lambda>_. ()),
     as_error = (\<lambda>_. Sentinel EOF), log_line = (\<lambda>l (jobs, ls). (jobs, ls @ [l]))\<rparr>"

theorem job_submitted_witness:
  "\<exists>w'. job_run_Execute demo_jobs \<lparr>KubeConfig = [], Namespace = ''default'', Timeout = 10\<rparr> ''abc'' [''hello-world''] ([], []) = Some (None, w')
     \<and> map Name (fst w') = [''nlz-nerd.abc''] \<and> length (snd w') = 2"
proof -
  let ?o = "\<lparr>KubeConfig = [], Namespace = ''default'', Timeout = 10\<rparr>"
  have "Join [''/root'', ''.kube'', ''config''] = ''/root/.kube/config''" by code_simp
  then obtain kube where d: "NewDeps demo_jobs ?o = Inr kube" and k: "kube = (\<lambda>_ _ _ j (jobs, ls). (Inr j, jobs @ [j], ls))"
    by (simp add: NewDeps_def kube_config_def demo_jobs_def)
  have n: "1 \<le> length [''hello-world'']" by simp
  let ?j = "\<lparr>Name = nerd_prefix @ ''abc'', GenerateName = [], RestartPolicy = ''OnFailure'', Containers = [(''main'', ''hello-world'')]\<rparr>"
  have "job_run_Execute demo_jobs ?o ''abc'' [''hello-world''] ([], []) = Some (None,
      [?j], [''Submitted job: '' @ in_quotes (trim_prefix (Name ?j) nerd_prefix),
             ''To see whats happening, use: '' @ in_quotes (''nerd job inspect '' @ trim_prefix (Name ?j) nerd_prefix)])"
    unfolding job_submitted [OF n d] k by (simp add: demo_jobs_def)
  then show ?thesis by (simp add: nerd_prefix_def)
qed

end
