(* ===== verification/Token_Providers.thy ===== *)
theory Token_Providers
  imports Conf_Session Batch_Client
begin

text \<open>
  The sources of credentials: \<^verbatim>\<open>nerd/jwt\<close>, \<^verbatim>\<open>nerd/oauth\<close>, \<^verbatim>\<open>nerd/aws/credentials_provider.go\<close> and
  \<^verbatim>\<open>nerd/client/batch/v1/jwt_provider.go\<close>. A provider keeps an expiration next to the world
  \<open>'w\<close>; the session and the APIs are the operations it is given, the clock is read from the
  world. Instants and durations are in nanoseconds. The signature check of \<^verbatim>\<open>jwt-go\<close> is the
  argument \<open>parse\<close>: key and token to an error, or to the expiry claim (in seconds, 0 when
  unset) and the verdict of the check.
\<close>

section \<open>Expiration\<close>

definition DefaultExpireWindow :: int where
  "DefaultExpireWindow = 20"

record ProviderBasis =
  expiration :: int
  AlwaysValid :: bool
  ExpireWindow :: int

definition new_basis :: ProviderBasis where
  "new_basis = \<lparr>expiration = zero_time, AlwaysValid = False, ExpireWindow = DefaultExpireWindow\<rparr>"

definition basis_expired :: "int \<Rightarrow> ProviderBasis \<Rightarrow> bool" where
  "basis_expired now b \<longleftrightarrow> \<not> AlwaysValid b \<and> \<not> now < expiration b"

definition SetExpiration :: "int \<Rightarrow> ProviderBasis \<Rightarrow> ProviderBasis" where
  "SetExpiration e b =
     (let b = b\<lparr>expiration := e\<rparr> in
      if ExpireWindow b > 0 then b\<lparr>expiration := expiration b - ExpireWindow b\<rparr> else b)"

definition second :: int where
  "second = 1000000000"

text \<open>\<^verbatim>\<open>time.Time.Unix\<close>.\<close>

definition unix_seconds :: "int \<Rightarrow> int" where
  "unix_seconds t = t div second"

section \<open>JSON web tokens\<close>

type_synonym 'k token_parser = "'k \<Rightarrow> string \<Rightarrow> goerr + int \<times> bool"

definition decodeToken :: "'k token_parser \<Rightarrow> 'k \<Rightarrow> string \<Rightarrow> goerr + int" where
  "decodeToken parse key nerdToken = (case parse key nerdToken of
     Inl err \<Rightarrow> Inl (wrapped (''failed to parse nerd token '' @ [CHR 39] @ nerdToken @ [CHR 39]) err)
   | Inr (expiresAt, ok) \<Rightarrow>
       if \<not> ok then Inl (Fundamental (''nerd token '' @ [CHR 39] @ nerdToken @ [CHR 39] @ '' signature is invalid''))
       else Inr expiresAt)"

text \<open>\<^verbatim>\<open>StandardClaims.VerifyExpiresAt(now, false)\<close>.\<close>

definition VerifyExpiresAt :: "int \<Rightarrow> int \<Rightarrow> bool" where
  "VerifyExpiresAt expiresAt now = (expiresAt = 0 \<or> now \<le> expiresAt)"

definition failed_decode :: "string \<Rightarrow> goerr \<Rightarrow> goerr" where
  "failed_decode jwt err = wrapped (''failed to decode jwt '' @ [CHR 39] @ jwt @ [CHR 39]) err"

text \<open>
  \<^verbatim>\<open>time.Duration.String\<close> of a positive number of whole seconds; a difference of instants is cut at
  the largest number of nanoseconds an \<^verbatim>\<open>int64\<close> holds.
\<close>

definition duration_text :: "int \<Rightarrow> string" where
  "duration_text n =
     (let h = n div 3600; mi = n div 60 mod 60; s = n mod 60 in
      if n > 9223372036 then ''2562047h47m16.854775807s''
      else if h > 0 then int_text h @ ''h'' @ int_text mi @ ''m'' @ int_text s @ ''s''
      else if mi > 0 then int_text mi @ ''m'' @ int_text s @ ''s''
      else int_text s @ ''s'')"

definition isValid :: "'k token_parser \<Rightarrow> 'k \<Rightarrow> int \<Rightarrow> string \<Rightarrow> goerr + unit" where
  "isValid parse key now jwt = (case decodeToken parse key jwt of
     Inl err \<Rightarrow> Inl (failed_decode jwt err)
   | Inr expiresAt \<Rightarrow>
       if \<not> VerifyExpiresAt expiresAt (unix_seconds now)
       then Inl (Fundamental (''token is expired by '' @ duration_text (unix_seconds now - expiresAt)))
       else Inr ())"

definition SetExpirationFromJWT :: "'k token_parser \<Rightarrow> 'k \<Rightarrow> string \<Rightarrow> ProviderBasis \<times> 'w
    \<Rightarrow> (goerr + unit) \<times> (ProviderBasis \<times> 'w)" where
  "SetExpirationFromJWT parse key jwt = (\<lambda>(b, w).
     (case decodeToken parse key jwt of
        Inl err \<Rightarrow> (Inl (failed_decode jwt err), b, w)
      | Inr expiresAt \<Rightarrow> (Inr (), SetExpiration (expiresAt * second) (b\<lparr>AlwaysValid := (expiresAt = 0)\<rparr>), w)))"

section \<open>The providers of the batch client\<close>

text \<open>What a provider is given: the clock, the session, the refresh call, and the environment.\<close>

record ('k, 'w) jwt_deps =
  parse_token :: "'k token_parser"
  Pub :: 'k
  clock :: "'w \<Rightarrow> int"
  read_session :: "'w \<Rightarrow> (goerr + SessionSnapshot) \<times> 'w"
  store_jwt :: "string \<Rightarrow> string \<Rightarrow> 'w \<Rightarrow> (goerr + unit) \<times> 'w"
  refresh_jwt :: "string \<Rightarrow> string \<Rightarrow> string \<Rightarrow> 'w \<Rightarrow> (goerr + string) \<times> 'w"
  get_jwt :: "string \<Rightarrow> 'w \<Rightarrow> (goerr + string) \<times> 'w"
  getenv :: "string \<Rightarrow> string"

text \<open>An operation of the world, beside the basis of the provider.\<close>

definition outside :: "('w \<Rightarrow> 'r \<times> 'w) \<Rightarrow> ProviderBasis \<times> 'w \<Rightarrow> 'r \<times> (ProviderBasis \<times> 'w)" where
  "outside f = (\<lambda>(b, w). case f w of (r, w') \<Rightarrow> (r, b, w'))"

definition is_expired :: "('k, 'w) jwt_deps \<Rightarrow> ProviderBasis \<times> 'w \<Rightarrow> bool" where
  "is_expired d = (\<lambda>(b, w). basis_expired (clock d w) b)"

definition jwt_valid :: "('k, 'w) jwt_deps \<Rightarrow> string \<Rightarrow> ProviderBasis \<times> 'w \<Rightarrow> goerr + unit" where
  "jwt_valid d jwt = (\<lambda>(b, w). isValid (parse_token d) (Pub d) (clock d w) jwt)"

definition NerdTokenEnvVar :: string where "NerdTokenEnvVar = ''NERD_JWT''"
definition NerdSecretEnvVar :: string where "NerdSecretEnvVar = ''NERD_JWT_REFRESH_TOKEN''"

definition EnvProvider_refresh :: "('k, 'w) jwt_deps \<Rightarrow> string \<Rightarrow> string
    \<Rightarrow> ProviderBasis \<times> 'w \<Rightarrow> (goerr + string) \<times> (ProviderBasis \<times> 'w)" where
  "EnvProvider_refresh d jwt secret =
     call (outside (read_session d)) (wrapped ''failed to read config'') (\<lambda>ss.
     call (outside (refresh_jwt d (PName (SProject ss)) jwt secret)) (wrapped ''failed to refresh token'') (\<lambda>token.
     call (SetExpirationFromJWT (parse_token d) (Pub d) token) (wrapped ''failed to set expiration'') (\<lambda>_ s.
       (Inr token, s))))"

definition EnvProvider_Retrieve :: "('k, 'w) jwt_deps
    \<Rightarrow> ProviderBasis \<times> 'w \<Rightarrow> (goerr + string) \<times> (ProviderBasis \<times> 'w)" where
  "EnvProvider_Retrieve d s =
     (let jwt = getenv d NerdTokenEnvVar; jwtSecret = getenv d NerdSecretEnvVar in
      if jwt = [] then (Inl (Fundamental (''environment variable '' @ NerdTokenEnvVar @ '' is not set'')), s)
      else
        call (SetExpirationFromJWT (parse_token d) (Pub d) jwt) (wrapped ''failed to set expiration'') (\<lambda>_ s.
        call (if jwtSecret \<noteq> [] \<and> is_expired d s then EnvProvider_refresh d jwt jwtSecret else Pair (Inr jwt))
          (wrapped ''failed to refresh'') (\<lambda>jwt s.
        check (jwt_valid d jwt s) (\<lambda>err. err) (\<lambda>_ s. (Inr jwt, s)) s) s) s)"

definition ConfigProvider_refresh :: "('k, 'w) jwt_deps \<Rightarrow> string \<Rightarrow> string \<Rightarrow> string
    \<Rightarrow> ProviderBasis \<times> 'w \<Rightarrow> (goerr + string) \<times> (ProviderBasis \<times> 'w)" where
  "ConfigProvider_refresh d jwt secret projectID =
     call (outside (refresh_jwt d projectID jwt secret)) (wrapped ''failed to refresh token'') (\<lambda>token.
     call (SetExpirationFromJWT (parse_token d) (Pub d) token) (wrapped ''failed to set expiration'') (\<lambda>_.
     call (outside (store_jwt d token secret)) (wrapped ''failed to write jwt and secret to config'') (\<lambda>_ s.
       (Inr token, s))))"

definition ConfigProvider_Retrieve :: "('k, 'w) jwt_deps
    \<Rightarrow> ProviderBasis \<times> 'w \<Rightarrow> (goerr + string) \<times> (ProviderBasis \<times> 'w)" where
  "ConfigProvider_Retrieve d =
     call (outside (read_session d)) (wrapped ''failed to read config'') (\<lambda>ss s.
       let jwt = Token (SJWT ss); secret = JRefreshToken (SJWT ss) in
       if jwt = [] then (Inl (Fundamental ''.jwt.token is not set in config''), s)
       else
         call (SetExpirationFromJWT (parse_token d) (Pub d) jwt) (wrapped ''failed to set expiration'') (\<lambda>_ s.
         call (if secret \<noteq> [] \<and> is_expired d s
               then ConfigProvider_refresh d jwt secret (PName (SProject ss)) else Pair (Inr jwt))
           (wrapped ''failed to refresh'') (\<lambda>jwt s.
         check (jwt_valid d jwt s) (\<lambda>err. err) (\<lambda>_ s. (Inr jwt, s)) s) s) s)"

definition jwtScope :: string where
  "jwtScope = ''nce.nerdalize.com''"

definition AuthAPIProvider_Retrieve :: "('k, 'w) jwt_deps
    \<Rightarrow> ProviderBasis \<times> 'w \<Rightarrow> (goerr + string) \<times> (ProviderBasis \<times> 'w)" where
  "AuthAPIProvider_Retrieve d =
     call (outside (get_jwt d jwtScope)) (wrapped ''failed to get nerd jwt'') (\<lambda>token.
     call (SetExpirationFromJWT (parse_token d) (Pub d) token) (wrapped ''failed to set expiration'') (\<lambda>_ s.
     check (jwt_valid d token s) (\<lambda>err. err) (\<lambda>_.
     call (outside (store_jwt d token [])) (wrapped ''failed to write nerd jwt to config'') (\<lambda>_ s.
       (Inr token, s))) s))"

section \<open>The static and the chained provider\<close>

definition StaticJWTProvider :: "string \<Rightarrow> 'w provider" where
  "StaticJWTProvider jwt = \<lparr>IsExpired = (\<lambda>w. (False, w)), Retrieve = (\<lambda>w. (Inr jwt, w))\<rparr>"

text \<open>The loop over the providers, with the index of the first one left and the last error.\<close>

fun try_providers :: "'w provider list \<Rightarrow> nat \<Rightarrow> goerr option \<Rightarrow> 'w \<Rightarrow> (goerr + string \<times> nat) \<times> 'w" where
  "try_providers [] i provErr w = (Inl (NewError ''could not retreive token from any provider'' provErr), w)"
| "try_providers (p # ps) i provErr w =
     (case Retrieve p w of
        (Inr jwt, w) \<Rightarrow> (Inr (jwt, i), w)
      | (Inl err, w) \<Rightarrow> try_providers ps (Suc i) (Some err) w)"

text \<open>The state: the index of the current provider.\<close>

definition Chained_Retrieve :: "'w provider list \<Rightarrow> nat option \<times> 'w \<Rightarrow> (goerr + string) \<times> (nat option \<times> 'w)" where
  "Chained_Retrieve providers = (\<lambda>(curr, w). case try_providers providers 0 None w of
     (Inr (jwt, i), w) \<Rightarrow> (Inr jwt, Some i, w)
   | (Inl err, w) \<Rightarrow> (Inl err, None, w))"

text \<open>The index is that of one of the providers, as \<open>Chained_Retrieve\<close> leaves it; any other one would count as none.\<close>

definition Chained_IsExpired :: "'w provider list \<Rightarrow> nat option \<times> 'w \<Rightarrow> bool \<times> (nat option \<times> 'w)" where
  "Chained_IsExpired providers = (\<lambda>(curr, w). case curr of
     None \<Rightarrow> (True, curr, w)
   | Some i \<Rightarrow>
       if i < length providers then (case IsExpired (providers ! i) w of (b, w) \<Rightarrow> (b, curr, w))
       else (True, curr, w))"

section \<open>The OAuth provider\<close>

text \<open>The package \<^verbatim>\<open>oauth\<close> has a copy of the basis, and the auth client one of the static provider.\<close>

definition OAuth_IsExpired :: "int \<Rightarrow> ProviderBasis \<Rightarrow> bool" where
  [simp]: "OAuth_IsExpired = basis_expired"

definition OAuth_SetExpiration :: "int \<Rightarrow> ProviderBasis \<Rightarrow> ProviderBasis" where
  [simp]: "OAuth_SetExpiration = SetExpiration"

definition StaticOAuthTokenProvider :: "string \<Rightarrow> 'w provider" where
  "StaticOAuthTokenProvider token = StaticJWTProvider token"

record 'w oauth_deps =
  oauth_clock :: "'w \<Rightarrow> int"
  oauth_read :: "'w \<Rightarrow> (goerr + SessionSnapshot) \<times> 'w"
  oauth_write :: "string \<Rightarrow> string \<Rightarrow> int \<Rightarrow> string \<Rightarrow> string \<Rightarrow> 'w \<Rightarrow> (goerr + unit) \<times> 'w"
  oauth_refresh :: "string \<Rightarrow> string \<Rightarrow> 'w \<Rightarrow> (goerr + OAuthCredentials) \<times> 'w"
  OAuthClientID :: string

fun refresh_error :: "goerr \<Rightarrow> goerr" where
  "refresh_error err = (case err of
     AuthHTTPError code m \<Rightarrow> if code = 401 then Sentinel ErrTokenRevoked
                             else wrapped ''failed to get oauth credentials'' err
   | _ \<Rightarrow> wrapped ''failed to get oauth credentials'' err)"

definition OAuth_refresh :: "'w oauth_deps \<Rightarrow> string \<Rightarrow> string
    \<Rightarrow> ProviderBasis \<times> 'w \<Rightarrow> (goerr + string) \<times> (ProviderBasis \<times> 'w)" where
  "OAuth_refresh d refreshToken clientID =
     call (outside (oauth_refresh d refreshToken clientID)) refresh_error (\<lambda>out (b, w).
       let exp = wrap64 (unix_seconds (oauth_clock d w) + ExpiresIn out) * second in
       call (outside (oauth_write d (ocAccessToken out) (ocRefreshToken out) exp (ocScope out) (ocTokenType out)))
         (wrapped ''failed to write oauth tokens to config'') (\<lambda>_ s. (Inr (ocAccessToken out), s))
         (OAuth_SetExpiration exp b, w))"

definition OAuth_Retrieve :: "'w oauth_deps
    \<Rightarrow> ProviderBasis \<times> 'w \<Rightarrow> (goerr + string) \<times> (ProviderBasis \<times> 'w)" where
  "OAuth_Retrieve d =
     call (outside (oauth_read d)) (wrapped ''failed to read config'') (\<lambda>ss (b, w).
       if AccessToken (SOAuth ss) = [] then (Inl (Sentinel ErrTokenUnset), b, w)
       else
         let b = OAuth_SetExpiration (Expiration (SOAuth ss)) b in
         if OAuth_IsExpired (oauth_clock d w) b then
           call (OAuth_refresh d (RefreshToken (SOAuth ss)) (OAuthClientID d))
             (wrapped ''failed to refresh oauth access token'') (\<lambda>token s. (Inr token, s)) (b, w)
         else (Inr (AccessToken (SOAuth ss)), b, w))"

section \<open>The credentials of AWS\<close>

record aws_value =
  AccessKeyID :: string
  SecretAccessKey :: string
  SessionToken :: string
  ProviderName :: string

definition NerdalizeProvider :: string where
  "NerdalizeProvider = ''NerdalizeProvider''"

text \<open>\<^verbatim>\<open>credentials.Expiry\<close> of the SDK: expired strictly after the instant.\<close>

definition Expiry_IsExpired :: "int \<Rightarrow> ProviderBasis \<Rightarrow> bool" where
  "Expiry_IsExpired now b \<longleftrightarrow> expiration b < now"

definition AWS_Retrieve :: "(string \<Rightarrow> 'w \<Rightarrow> (goerr + CreateTokenOutput) \<times> 'w) \<Rightarrow> string
    \<Rightarrow> ProviderBasis \<times> 'w \<Rightarrow> (goerr + aws_value) \<times> (ProviderBasis \<times> 'w)" where
  "AWS_Retrieve create_token projectID =
     call (outside (create_token projectID)) (wrapped ''failed to get AWS credentials'') (\<lambda>token (b, w).
       (Inr \<lparr>AccessKeyID = AWSAccessKeyID token, SecretAccessKey = AWSSecretAccessKey token,
             SessionToken = AWSSessionToken token, ProviderName = NerdalizeProvider\<rparr>,
        SetExpiration (AWSExpiration token) b, w))"

section \<open>Lemmas\<close>

lemma outside_Inr: "outside f s = (Inr r, s') \<longleftrightarrow> (\<exists>w'. f (snd s) = (Inr r, w') \<and> s' = (fst s, w'))"
  by (cases s) (auto simp: outside_def split: prod.splits)

lemma outside_eq [simp]: "f w = (r, w') \<Longrightarrow> outside f (b, w) = (r, b, w')"
  by (simp add: outside_def)

lemma decodeToken_Inr: "decodeToken parse key t = Inr e \<longleftrightarrow> parse key t = Inr (e, True)"
  by (auto simp: decodeToken_def split: sum.splits)

lemma isValid_Inr:
  "isValid parse key now t = Inr u \<longleftrightarrow>
     (\<exists>e. parse key t = Inr (e, True) \<and> (e = 0 \<or> unix_seconds now \<le> e))"
  by (auto simp: isValid_def VerifyExpiresAt_def simp flip: decodeToken_Inr split: sum.splits)

lemma SetExpirationFromJWT_Inr:
  "SetExpirationFromJWT parse key t (b, w) = (Inr u, s') \<longleftrightarrow>
     (\<exists>e. parse key t = Inr (e, True) \<and>
        s' = (SetExpiration (e * second) (b\<lparr>AlwaysValid := (e = 0)\<rparr>), w))"
  by (auto simp: SetExpirationFromJWT_def simp flip: decodeToken_Inr split: sum.splits)

lemma basis_expired_SetExpiration:
  "basis_expired now (SetExpiration e b) \<longleftrightarrow> \<not> AlwaysValid b \<and> e - max 0 (ExpireWindow b) \<le> now"
  by (auto simp: basis_expired_def SetExpiration_def Let_def)

text \<open>
  The expiry window of the providers is 20 nanoseconds, not the 20 seconds its comment
  promises: credentials count as expired from 20 ns before their expiration on, and at every
  earlier instant, up to 20 seconds before and less, they are still handed out as valid.
\<close>
theorem expire_window_nanoseconds:
  "basis_expired now (SetExpiration e new_basis) \<longleftrightarrow> e - 20 \<le> now"
  by (simp add: basis_expired_SetExpiration new_basis_def DefaultExpireWindow_def)

lemma Config_valid:
  "ConfigProvider_Retrieve d s = (Inr jwt, s') \<Longrightarrow> jwt_valid d jwt s' = Inr ()"
  by (auto simp: ConfigProvider_Retrieve_def Let_def call_Inr_iff check_Inr_iff split: if_splits)

lemma Env_valid:
  "EnvProvider_Retrieve d s = (Inr jwt, s') \<Longrightarrow> jwt_valid d jwt s' = Inr ()"
  by (auto simp: EnvProvider_Retrieve_def Let_def call_Inr_iff check_Inr_iff split: if_splits)

lemma AuthAPI_valid:
  assumes "AuthAPIProvider_Retrieve d s = (Inr jwt, s')"
    and "\<And>t r w. clock d (snd (store_jwt d t r w)) = clock d w"
  shows "jwt_valid d jwt s' = Inr ()"
proof -
  from assms(1) obtain s1 w' where "jwt_valid d jwt s1 = Inr ()" "store_jwt d jwt [] (snd s1) = (Inr (), w')"
    "s' = (fst s1, w')"
    by (auto simp: AuthAPIProvider_Retrieve_def call_Inr_iff check_Inr_iff outside_Inr)
  moreover from this have "clock d w' = clock d (snd s1)" using assms(2) by (metis snd_conv)
  ultimately show ?thesis by (simp add: jwt_valid_def split: prod.splits)
qed

text \<open>
  C12: Whichever provider a JWT comes from (the environment, the session file or the auth server),
  refreshed or not, it has passed the signature check under the configured key, and the claimed
  expiration, if any, is not before the second in which it is handed out.
\<close>
theorem jwt_handed_out_is_valid:
  assumes "retrieve \<in> {EnvProvider_Retrieve d, ConfigProvider_Retrieve d, AuthAPIProvider_Retrieve d}"
    and "retrieve s = (Inr jwt, s')" and "\<And>t r w. clock d (snd (store_jwt d t r w)) = clock d w"
  shows "\<exists>exp. parse_token d (Pub d) jwt = Inr (exp, True) \<and>
           (exp = 0 \<or> unix_seconds (clock d (snd s')) \<le> exp)"
proof -
  from assms(1) consider "retrieve = EnvProvider_Retrieve d" | "retrieve = ConfigProvider_Retrieve d"
    | "retrieve = AuthAPIProvider_Retrieve d" by blast
  then have "jwt_valid d jwt s' = Inr ()"
  proof cases
    case 1
    with assms(2) show ?thesis by (intro Env_valid) simp
  next
    case 2
    with assms(2) show ?thesis by (intro Config_valid) simp
  next
    case 3
    with assms(2) show ?thesis by (intro AuthAPI_valid [OF _ assms(3)]) simp
  qed
  then show ?thesis by (auto simp: jwt_valid_def isValid_Inr split: prod.splits)
qed

section \<open>On the session file\<close>

text \<open>The world of the program: the clock, the disk, and everything behind the network.\<close>

record 'x world =
  wclock :: int
  wfs :: fsys
  wnet :: 'x

definition on_disk :: "(fsys \<Rightarrow> 'r \<times> fsys) \<Rightarrow> 'x world \<Rightarrow> 'r \<times> 'x world" where
  "on_disk f w = (case f (wfs w) of (r, fs) \<Rightarrow> (r, w\<lparr>wfs := fs\<rparr>))"

lemma on_disk_eq [simp]: "f (wfs w) = (r, fs) \<Longrightarrow> on_disk f w = (r, w\<lparr>wfs := fs\<rparr>)"
  by (simp add: on_disk_def)

lemma on_disk_same: "f (wfs w) = (r, wfs w) \<Longrightarrow> on_disk f w = (r, w)"
  by (simp add: on_disk_def)

lemma on_disk_clock [simp]: "wclock (snd (on_disk f w)) = wclock w"
  by (simp add: on_disk_def split: prod.splits)

lemma on_disk_Inr:
  "on_disk f w = (Inr r, w') \<longleftrightarrow> (\<exists>fs. f (wfs w) = (Inr r, fs) \<and> w' = w\<lparr>wfs := fs\<rparr>)"
  by (auto simp: on_disk_def split: prod.splits)

text \<open>The session file keeps its contract inside the larger world.\<close>

interpretation wsession: session_store "on_disk (Read loc)" "\<lambda>t r. on_disk (WriteJWT loc t r)"
    "\<lambda>a rt e sc ty. on_disk (WriteOAuth loc a rt e sc ty)" "\<lambda>n g. on_disk (WriteProject loc n g)" for loc
proof unfold_locales
  show "snd (on_disk (Read loc) s) = s" for s :: "'a world"
    by (simp add: on_disk_def Read_pure split: prod.splits) (metis Read_pure snd_conv world.surjective world.update_convs(2))
  have lift: "on_disk (Read loc) w = (Inr ss, w)" if "Read loc (wfs w) = (Inr ss, wfs w)" for w :: "'a world" and ss
    using that by (rule on_disk_same)
  show "\<exists>ss. on_disk (Read loc) s = (Inr ss, s) \<and> on_disk (Read loc) s' =
      (Inr (ss\<lparr>SJWT := \<lparr>Token = t, JRefreshToken = r\<rparr>\<rparr>), s')"
    if "on_disk (WriteJWT loc t r) s = (Inr u, s')" for t r u and s s' :: "'a world"
    using that WriteJWT_read [of loc t r "wfs s" u "wfs s'"] lift by (auto simp: on_disk_Inr)
  show "\<exists>ss. on_disk (Read loc) s = (Inr ss, s) \<and> on_disk (Read loc) s' =
      (Inr (ss\<lparr>SOAuth := \<lparr>AccessToken = a, RefreshToken = rt, Expiration = e, Scope = sc, TokenType = ty\<rparr>\<rparr>), s')"
    if "on_disk (WriteOAuth loc a rt e sc ty) s = (Inr u, s')" for a rt e sc ty u and s s' :: "'a world"
    using that WriteOAuth_read [of loc a rt e sc ty "wfs s" u "wfs s'"] lift by (auto simp: on_disk_Inr)
  show "\<exists>ss. on_disk (Read loc) s = (Inr ss, s) \<and> on_disk (Read loc) s' =
      (Inr (ss\<lparr>SProject := \<lparr>PName = n, AWSRegion = g\<rparr>\<rparr>), s')"
    if "on_disk (WriteProject loc n g) s = (Inr u, s')" for n g u and s s' :: "'a world"
    using that WriteProject_read [of loc n g "wfs s" u "wfs s'"] lift by (auto simp: on_disk_Inr)
qed

lemma SetExpiration_overwrites [simp]:
  "SetExpiration e' (SetExpiration e b\<lparr>AlwaysValid := v\<rparr>) = SetExpiration e' (b\<lparr>AlwaysValid := v\<rparr>)"
  by (simp add: SetExpiration_def Let_def)

context session_store
begin

lemma config_provider_fresh:
  assumes "read_session d = read" and "read w = (Inr ss, w)"
    and "Token (SJWT ss) \<noteq> []" and "parse_token d (Pub d) (Token (SJWT ss)) = Inr (e, True)"
    and "\<not> basis_expired (clock d w) (SetExpiration (e * second) (b\<lparr>AlwaysValid := (e = 0)\<rparr>))"
    and "e = 0 \<or> unix_seconds (clock d w) \<le> e"
  shows "ConfigProvider_Retrieve d (b, w) =
           (Inr (Token (SJWT ss)), SetExpiration (e * second) (b\<lparr>AlwaysValid := (e = 0)\<rparr>), w)"
proof -
  have "SetExpirationFromJWT (parse_token d) (Pub d) (Token (SJWT ss)) (b, w) =
      (Inr (), SetExpiration (e * second) (b\<lparr>AlwaysValid := (e = 0)\<rparr>), w)"
    using assms(4) by (simp add: SetExpirationFromJWT_Inr)
  moreover have "isValid (parse_token d) (Pub d) (clock d w) (Token (SJWT ss)) = Inr ()"
    using assms(4,6) by (simp add: isValid_Inr)
  ultimately show ?thesis
    using assms(1-3,5)
    by (simp add: ConfigProvider_Retrieve_def is_expired_def jwt_valid_def Let_def)
qed

lemma config_provider_refreshes:
  assumes "read_session d = read" and "store_jwt d = write_jwt" and "read w = (Inr ss, w)"
    and "Token (SJWT ss) \<noteq> []" and "JRefreshToken (SJWT ss) \<noteq> []"
    and "parse_token d (Pub d) (Token (SJWT ss)) = Inr (e, True)"
    and "basis_expired (clock d w) (SetExpiration (e * second) (b\<lparr>AlwaysValid := (e = 0)\<rparr>))"
    and "refresh_jwt d (PName (SProject ss)) (Token (SJWT ss)) (JRefreshToken (SJWT ss)) w = (Inr t2, w1)"
    and "read w1 = (Inr ss, w1)" and "parse_token d (Pub d) t2 = Inr (e2, True)"
    and "write_jwt t2 (JRefreshToken (SJWT ss)) w1 = (Inr (), w2)"
    and "e2 = 0 \<or> unix_seconds (clock d w2) \<le> e2"
  shows "ConfigProvider_Retrieve d (b, w) =
           (Inr t2, SetExpiration (e2 * second) (b\<lparr>AlwaysValid := (e2 = 0)\<rparr>), w2)"
    and "read w2 = (Inr (ss\<lparr>SJWT := \<lparr>Token = t2, JRefreshToken = JRefreshToken (SJWT ss)\<rparr>\<rparr>), w2)"
proof -
  let ?b1 = "SetExpiration (e * second) (b\<lparr>AlwaysValid := (e = 0)\<rparr>)"
  let ?b2 = "SetExpiration (e2 * second) (b\<lparr>AlwaysValid := (e2 = 0)\<rparr>)"
  have 1: "SetExpirationFromJWT (parse_token d) (Pub d) (Token (SJWT ss)) (b, w) = (Inr (), ?b1, w)"
    using assms(6) by (simp add: SetExpirationFromJWT_Inr)
  have 2: "SetExpirationFromJWT (parse_token d) (Pub d) t2 (?b1, w1) = (Inr (), ?b2, w1)"
    using assms(10) by (simp add: SetExpirationFromJWT_Inr)
  have valid: "isValid (parse_token d) (Pub d) (clock d w2) t2 = Inr ()"
    using assms(10,12) by (simp add: isValid_Inr)
  have "ConfigProvider_refresh d (Token (SJWT ss)) (JRefreshToken (SJWT ss)) (PName (SProject ss)) (?b1, w)
      = (Inr t2, ?b2, w2)"
    using assms(2,8,11) 2 by (simp add: ConfigProvider_refresh_def)
  then show "ConfigProvider_Retrieve d (b, w) = (Inr t2, ?b2, w2)"
    using assms(1,3-5,7) 1 valid
    by (simp add: ConfigProvider_Retrieve_def is_expired_def jwt_valid_def Let_def)
  show "read w2 = (Inr (ss\<lparr>SJWT := \<lparr>Token = t2, JRefreshToken = JRefreshToken (SJWT ss)\<rparr>\<rparr>), w2)"
    using read_jwt_exact [OF assms(9,11)] .
qed

lemma oauth_provider_refreshes:
  assumes "oauth_read d = read" and "oauth_write d = write_oauth" and "read w = (Inr ss, w)"
    and "AccessToken (SOAuth ss) \<noteq> []"
    and "basis_expired (oauth_clock d w) (SetExpiration (Expiration (SOAuth ss)) b)"
    and "oauth_refresh d (RefreshToken (SOAuth ss)) (OAuthClientID d) w = (Inr out, w1)"
    and "read w1 = (Inr ss, w1)"
    and "exp = wrap64 (unix_seconds (oauth_clock d w1) + ExpiresIn out) * second"
    and "write_oauth (ocAccessToken out) (ocRefreshToken out) exp (ocScope out) (ocTokenType out) w1 = (Inr (), w2)"
  shows "OAuth_Retrieve d (b, w) =
           (Inr (ocAccessToken out), SetExpiration exp (SetExpiration (Expiration (SOAuth ss)) b), w2)"
    and "read w2 = (Inr (ss\<lparr>SOAuth := \<lparr>AccessToken = ocAccessToken out, RefreshToken = ocRefreshToken out,
           Expiration = exp, Scope = ocScope out, TokenType = ocTokenType out\<rparr>\<rparr>), w2)"
proof -
  have "OAuth_refresh d (RefreshToken (SOAuth ss)) (OAuthClientID d) (SetExpiration (Expiration (SOAuth ss)) b, w)
      = (Inr (ocAccessToken out), SetExpiration exp (SetExpiration (Expiration (SOAuth ss)) b), w2)"
    using assms(2,6,9) by (simp add: OAuth_refresh_def Let_def flip: assms(8))
  then show "OAuth_Retrieve d (b, w) =
      (Inr (ocAccessToken out), SetExpiration exp (SetExpiration (Expiration (SOAuth ss)) b), w2)"
    using assms(1,3-5) by (simp add: OAuth_Retrieve_def Let_def)
  show "read w2 = (Inr (ss\<lparr>SOAuth := \<lparr>AccessToken = ocAccessToken out, RefreshToken = ocRefreshToken out,
      Expiration = exp, Scope = ocScope out, TokenType = ocTokenType out\<rparr>\<rparr>), w2)"
    using read_oauth_exact [OF assms(7,9)] .
qed

end

text \<open>The providers of the command line (\<^verbatim>\<open>command/utils.go\<close>), on the world.\<close>

definition nerd_deps :: "'k token_parser \<Rightarrow> 'k \<Rightarrow> (string \<Rightarrow> string) \<Rightarrow> 'x world doer \<Rightarrow> url \<Rightarrow> string
    \<Rightarrow> (string \<Rightarrow> 'x world \<Rightarrow> (goerr + string) \<times> 'x world) \<Rightarrow> ('k, 'x world) jwt_deps" where
  "nerd_deps parse key env exec base loc get = \<lparr>parse_token = parse, Pub = key, clock = wclock,
     read_session = on_disk (Read loc), store_jwt = (\<lambda>t r. on_disk (WriteJWT loc t r)),
     refresh_jwt = RefreshJWT exec base, get_jwt = get, getenv = env\<rparr>"

definition nerd_oauth_deps :: "'x world doer \<Rightarrow> url \<Rightarrow> string \<Rightarrow> string \<Rightarrow> 'x world oauth_deps" where
  "nerd_oauth_deps exec base loc client = \<lparr>oauth_clock = wclock, oauth_read = on_disk (Read loc),
     oauth_write = (\<lambda>a rt e sc ty. on_disk (WriteOAuth loc a rt e sc ty)),
     oauth_refresh = RefreshOAuthCredentials exec base, OAuthClientID = client\<rparr>"

lemma nerd_deps_sel [simp]:
  "parse_token (nerd_deps parse key env exec base loc get) = parse"
  "Pub (nerd_deps parse key env exec base loc get) = key"
  "clock (nerd_deps parse key env exec base loc get) = wclock"
  "read_session (nerd_deps parse key env exec base loc get) = on_disk (Read loc)"
  "store_jwt (nerd_deps parse key env exec base loc get) = (\<lambda>t r. on_disk (WriteJWT loc t r))"
  "refresh_jwt (nerd_deps parse key env exec base loc get) = RefreshJWT exec base"
  by (simp_all add: nerd_deps_def)

text \<open>
  C16: An expired JWT of the session file with a refresh secret is replaced: if the server answers
  the refresh with a token that is valid under the key and still valid afterwards, and the
  session can be written, that token is returned, the session file holds it with the old
  secret and everything else as it was, and, as long as it is not reported as expired, the next
  retrieval returns it from the file without another call.
\<close>
theorem expired_jwt_is_refreshed:
  assumes "Read loc (wfs w) = (Inr ss, wfs w)"
    and "Token (SJWT ss) \<noteq> []" and "JRefreshToken (SJWT ss) \<noteq> []"
    and "parse key (Token (SJWT ss)) = Inr (e, True)"
    and "basis_expired (wclock w) (SetExpiration (e * second) (b\<lparr>AlwaysValid := (e = 0)\<rparr>))"
    and "RefreshJWT exec base (PName (SProject ss)) (Token (SJWT ss)) (JRefreshToken (SJWT ss)) w = (Inr t2, w1)"
    and "wfs w1 = wfs w" and "t2 \<noteq> []" and "parse key t2 = Inr (e2, True)"
    and "e2 = 0 \<or> unix_seconds (wclock w1) \<le> e2"
    and "WriteJWT loc t2 (JRefreshToken (SJWT ss)) (wfs w1) = (Inr (), fs2)"
  shows "\<exists>b2. ConfigProvider_Retrieve (nerd_deps parse key env exec base loc get) (b, w) = (Inr t2, b2, w1\<lparr>wfs := fs2\<rparr>)
     \<and> Read loc fs2 = (Inr (ss\<lparr>SJWT := \<lparr>Token = t2, JRefreshToken = JRefreshToken (SJWT ss)\<rparr>\<rparr>), fs2)
     \<and> (\<not> basis_expired (wclock w1) b2 \<longrightarrow>
          ConfigProvider_Retrieve (nerd_deps parse key env exec base loc get) (b2, w1\<lparr>wfs := fs2\<rparr>)
            = (Inr t2, b2, w1\<lparr>wfs := fs2\<rparr>))"
proof -
  let ?d = "nerd_deps parse key env exec base loc get" and ?w2 = "w1\<lparr>wfs := fs2\<rparr>"
  let ?b2 = "SetExpiration (e2 * second) (b\<lparr>AlwaysValid := (e2 = 0)\<rparr>)"
  let ?ss2 = "ss\<lparr>SJWT := \<lparr>Token = t2, JRefreshToken = JRefreshToken (SJWT ss)\<rparr>\<rparr>"
  have rd: "on_disk (Read loc) w = (Inr ss, w)" "on_disk (Read loc) w1 = (Inr ss, w1)"
    using assms(1,7) by (auto intro: on_disk_same)
  have wr: "on_disk (WriteJWT loc t2 (JRefreshToken (SJWT ss))) w1 = (Inr (), ?w2)"
    using assms(11) by simp
  note step = wsession.config_provider_refreshes [where d = ?d and loc = loc,
      OF _ _ rd(1) assms(2,3) _ _ _ rd(2) _ wr]
  have 1: "ConfigProvider_Retrieve ?d (b, w) = (Inr t2, ?b2, ?w2)"
    by (rule step(1) [where e = e]) (use assms in simp_all)
  have 2: "on_disk (Read loc) ?w2 = (Inr ?ss2, ?w2)"
    by (rule step(2) [where e = e and b = b and ?e2.0 = e2]) (use assms in simp_all)
  then have "fst (Read loc fs2) = Inr ?ss2"
    by (auto simp: on_disk_Inr)
  then have 3: "Read loc fs2 = (Inr ?ss2, fs2)"
    using Read_pure [of loc fs2] by (metis prod.collapse)
  have "ConfigProvider_Retrieve ?d (?b2, ?w2) = (Inr t2, ?b2, ?w2)" if "\<not> basis_expired (wclock w1) ?b2"
  proof -
    have "SetExpiration (e2 * second) (?b2\<lparr>AlwaysValid := (e2 = 0)\<rparr>) = ?b2" by simp
    moreover have "ConfigProvider_Retrieve ?d (?b2, ?w2) =
        (Inr (Token (SJWT ?ss2)), SetExpiration (e2 * second) (?b2\<lparr>AlwaysValid := (e2 = 0)\<rparr>), ?w2)"
      by (rule wsession.config_provider_fresh [OF _ 2]) (use assms that in simp_all)
    ultimately show ?thesis by simp
  qed
  with 1 3 show ?thesis by blast
qed

text \<open>A session with an old token, and a server that answers every request with a new one.\<close>

definition demo_fs :: fsys where
  "demo_fs = example_fs\<lparr>disk := (\<lambda>p. if p = ''s.json'' then Some (Some (JObj [
     (''jwt'', JObj [(''token'', JStr ''old''), (''refresh_token'', JStr ''sec'')]),
     (''project'', JObj [(''name'', JStr ''7'')])])) else None)\<rparr>"

definition demo_world :: "unit world" where
  "demo_world = \<lparr>wclock = 50 * second, wfs = demo_fs, wnet = ()\<rparr>"

definition demo_parse :: "unit token_parser" where
  "demo_parse key t = (if t = ''old'' then Inr (10, True) else if t = ''new'' then Inr (100, True)
     else Inl (Fundamental ''no token''))"

definition demo_server :: "unit world doer" where
  "demo_server req w = (Inr \<lparr>StatusCode = 200, Status = ''200 OK'',
     RespBody = Inr (JObj [(''token'', JStr ''new'')])\<rparr>, w)"

definition demo_session :: SessionSnapshot where
  "demo_session = empty_snapshot\<lparr>SJWT := \<lparr>Token = ''old'', JRefreshToken = ''sec''\<rparr>,
     SProject := \<lparr>PName = ''7'', AWSRegion = []\<rparr>\<rparr>"

lemma demo_read: "Read ''s.json'' demo_fs = (Inr demo_session, demo_fs)"
  by (simp add: Read_readFile readFile_def ReadFile_def Unmarshal_def decode_struct_def demo_fs_def example_fs_def
      snapshot_fields_def jwt_fields_def project_fields_def find_field_def set_struct_def set_str_def
      demo_session_def empty_snapshot_def)

lemma demo_refresh: "RefreshJWT demo_server demo_url p t s w = (Inr ''new'', w)"
  if "\<exists>u. url_Parse (tokenEndpoint @ ''/'' @ p @ ''/refresh/'') = Inr u"
  using that
  by (auto simp: RefreshJWT_def token_doRequest_def demo_server_def send_def finish_response_def into_def
      Decode_def decode_struct_def jwt_output_fields_def find_field_def set_str_def)

lemma demo_parses: "\<exists>u. url_Parse (tokenEndpoint @ ''/'' @ ''7'' @ ''/refresh/'') = Inr u"
proof -
  have "url_Parse ''token/7/refresh/'' = Inr (empty_url\<lparr>Path := ''token/7/refresh/''\<rparr>)"
    by (rule parse_path_only) code_simp+
  then show ?thesis by (simp add: tokenEndpoint_def)
qed

theorem expired_jwt_is_refreshed_witness:
  "\<exists>b2 w2. ConfigProvider_Retrieve (nerd_deps demo_parse () (\<lambda>_. []) demo_server demo_url ''s.json'' (\<lambda>_. Pair (Inr [])))
     (new_basis, demo_world) = (Inr ''new'', b2, w2)"
proof -
  have sess: "Token (SJWT demo_session) = ''old''" "JRefreshToken (SJWT demo_session) = ''sec''"
    "PName (SProject demo_session) = ''7''" by (simp_all add: demo_session_def)
  have t: "time_min \<le> Expiration (SOAuth demo_session)" "Expiration (SOAuth demo_session) < time_max"
    by (simp_all add: demo_session_def empty_snapshot_def zero_time_def time_min_def time_max_def)
  obtain fs2 where wr: "WriteJWT ''s.json'' ''new'' ''sec'' demo_fs = (Inr (), fs2)"
    using WriteJWT_ok [OF demo_read _ _ t, of "''new''" "''sec''"] by (auto simp: demo_fs_def example_fs_def)
  have "\<exists>b2. ConfigProvider_Retrieve (nerd_deps demo_parse () (\<lambda>_. []) demo_server demo_url ''s.json'' (\<lambda>_. Pair (Inr [])))
     (new_basis, demo_world) = (Inr ''new'', b2, demo_world\<lparr>wfs := fs2\<rparr>)"
    using expired_jwt_is_refreshed [where loc = "''s.json''" and w = demo_world and ss = demo_session
        and parse = demo_parse and key = "()" and e = 10 and b = new_basis and exec = demo_server
        and base = demo_url and ?t2.0 = "''new''" and ?w1.0 = demo_world and ?e2.0 = 100 and ?fs2.0 = fs2
        and env = "\<lambda>_. []" and get = "\<lambda>_. Pair (Inr [])"]
      demo_read demo_refresh [OF demo_parses] wr
    by (simp add: sess demo_world_def demo_parse_def basis_expired_SetExpiration new_basis_def
        DefaultExpireWindow_def second_def unix_seconds_def) blast
  then show ?thesis by blast
qed

theorem jwt_handed_out_is_valid_witness:
  "\<exists>s'. ConfigProvider_Retrieve (nerd_deps demo_parse () (\<lambda>_. []) demo_server demo_url ''s.json'' (\<lambda>_. Pair (Inr [])))
     (new_basis\<lparr>ExpireWindow := 0\<rparr>, demo_world\<lparr>wclock := 5 * second\<rparr>) = (Inr ''old'', s')
   \<and> (\<exists>exp. demo_parse () ''old'' = Inr (exp, True) \<and> (exp = 0 \<or> unix_seconds (wclock (snd s')) \<le> exp))"
proof -
  let ?d = "nerd_deps demo_parse () (\<lambda>_. []) demo_server demo_url ''s.json'' (\<lambda>_. Pair (Inr []))"
  let ?w = "demo_world\<lparr>wclock := 5 * second\<rparr>" and ?b = "new_basis\<lparr>ExpireWindow := 0\<rparr>"
  have sess: "Token (SJWT demo_session) = ''old''" by (simp add: demo_session_def)
  have rd: "on_disk (Read ''s.json'') ?w = (Inr demo_session, ?w)"
    using demo_read by (intro on_disk_same) (simp add: demo_world_def)
  have run: "ConfigProvider_Retrieve ?d (?b, ?w) = (Inr ''old'', SetExpiration (10 * second) (?b\<lparr>AlwaysValid := False\<rparr>), ?w)"
    using wsession.config_provider_fresh [where d = ?d, OF _ rd, of 10 ?b]
    by (simp add: sess demo_parse_def basis_expired_SetExpiration new_basis_def second_def unix_seconds_def)
  have "\<exists>exp. parse_token ?d (Pub ?d) ''old'' = Inr (exp, True) \<and>
      (exp = 0 \<or> unix_seconds (clock ?d (snd (SetExpiration (10 * second) (?b\<lparr>AlwaysValid := False\<rparr>), ?w))) \<le> exp)"
    by (rule jwt_handed_out_is_valid [where retrieve = "ConfigProvider_Retrieve ?d" and d = ?d, OF _ run]) simp_all
  with run show ?thesis by auto
qed

end
