(* ===== verification/Provider_Chain.thy ===== *)
theory Provider_Chain
  imports Token_Providers
begin

text \<open>
  What the batch client gets from its providers: the outcomes of the OAuth provider, and the order
  in which \<^verbatim>\<open>ChainedJWTProvider\<close> asks its providers.
\<close>

section \<open>OAuth\<close>

lemma OAuth_read_only:
  assumes "Read loc (wfs w) = (Inr ss, wfs w)"
  shows "outside (on_disk (Read loc)) (b, w) = (Inr ss, b, w)"
  using assms by (simp add: on_disk_same)

text \<open>
  C17: An expired OAuth token is refreshed with the stored refresh token: the new credentials
  are handed out and stored, with the expiration counted from the clock, next to the JWT and the
  project of the session.
\<close>
theorem oauth_refresh_stored:
  assumes "Read loc (wfs w) = (Inr ss, wfs w)" and "AccessToken (SOAuth ss) \<noteq> []"
    and "basis_expired (wclock w) (SetExpiration (Expiration (SOAuth ss)) b)"
    and "RefreshOAuthCredentials exec base (RefreshToken (SOAuth ss)) client w = (Inr out, w1)"
    and "wfs w1 = wfs w" and "exp = wrap64 (unix_seconds (wclock w1) + ExpiresIn out) * second"
    and "WriteOAuth loc (ocAccessToken out) (ocRefreshToken out) exp (ocScope out) (ocTokenType out) (wfs w1) = (Inr (), fs2)"
  shows "\<exists>b2. OAuth_Retrieve (nerd_oauth_deps exec base loc client) (b, w)
           = (Inr (ocAccessToken out), b2, w1\<lparr>wfs := fs2\<rparr>)
     \<and> fst (Read loc fs2) = Inr (ss\<lparr>SOAuth := \<lparr>AccessToken = ocAccessToken out, RefreshToken = ocRefreshToken out,
           Expiration = exp, Scope = ocScope out, TokenType = ocTokenType out\<rparr>\<rparr>)"
proof -
  let ?d = "nerd_oauth_deps exec base loc client"
  have rd: "on_disk (Read loc) w = (Inr ss, w)" "on_disk (Read loc) w1 = (Inr ss, w1)"
    using assms(1,5) by (auto intro: on_disk_same)
  have wr: "on_disk (WriteOAuth loc (ocAccessToken out) (ocRefreshToken out) exp (ocScope out) (ocTokenType out)) w1
      = (Inr (), w1\<lparr>wfs := fs2\<rparr>)"
    using assms(7) by simp
  have d: "oauth_read ?d = on_disk (Read loc)" "oauth_clock ?d = wclock" "OAuthClientID ?d = client"
    "oauth_write ?d = (\<lambda>a rt e sc ty. on_disk (WriteOAuth loc a rt e sc ty))"
    "oauth_refresh ?d = RefreshOAuthCredentials exec base"
    by (simp_all add: nerd_oauth_deps_def)
  note step = wsession.oauth_provider_refreshes [where d = ?d and loc = loc, OF _ _ rd(1) assms(2) _ _ rd(2) _ wr]
  have 1: "OAuth_Retrieve ?d (b, w) = (Inr (ocAccessToken out),
      SetExpiration exp (SetExpiration (Expiration (SOAuth ss)) b), w1\<lparr>wfs := fs2\<rparr>)"
    by (rule step(1)) (use assms in \<open>simp_all add: d\<close>)
  have "on_disk (Read loc) (w1\<lparr>wfs := fs2\<rparr>) = (Inr (ss\<lparr>SOAuth := \<lparr>AccessToken = ocAccessToken out,
      RefreshToken = ocRefreshToken out, Expiration = exp, Scope = ocScope out, TokenType = ocTokenType out\<rparr>\<rparr>), w1\<lparr>wfs := fs2\<rparr>)"
    by (rule step(2) [where b = b]) (use assms in \<open>simp_all add: d\<close>)
  then have "fst (Read loc fs2) = Inr (ss\<lparr>SOAuth := \<lparr>AccessToken = ocAccessToken out,
      RefreshToken = ocRefreshToken out, Expiration = exp, Scope = ocScope out, TokenType = ocTokenType out\<rparr>\<rparr>)"
    by (auto simp: on_disk_Inr)
  with 1 show ?thesis by blast
qed

text \<open>A logged-in session whose OAuth token has run out, and a server with new credentials.\<close>

definition oauth_fs :: fsys where
  "oauth_fs = example_fs\<lparr>disk := (\<lambda>p. if p = ''s.json'' then Some (Some (JObj [
     (''oauth'', JObj [(''access_token'', JStr ''a1''), (''refresh_token'', JStr ''r1''), (''expiration'', JTime 0)])])) else None)\<rparr>"

definition oauth_world :: "unit world" where
  "oauth_world = \<lparr>wclock = 50 * second, wfs = oauth_fs, wnet = ()\<rparr>"

definition oauth_session :: SessionSnapshot where
  "oauth_session = empty_snapshot\<lparr>SOAuth := \<lparr>AccessToken = ''a1'', RefreshToken = ''r1'', Expiration = 0,
     Scope = [], TokenType = []\<rparr>\<rparr>"

lemma oauth_demo_read: "Read ''s.json'' oauth_fs = (Inr oauth_session, oauth_fs)"
  by (simp add: Read_readFile readFile_def ReadFile_def Unmarshal_def decode_struct_def oauth_fs_def example_fs_def
      snapshot_fields_def oauth_fields_def find_field_def set_struct_def set_str_def set_time_def
      oauth_session_def empty_snapshot_def)

definition oauth_server :: "int \<Rightarrow> json \<Rightarrow> unit world doer" where
  "oauth_server code doc req w = (Inr \<lparr>StatusCode = code, Status = int_text code, RespBody = Inr doc\<rparr>, w)"

lemma oauth_path: "url_Parse ''o/token/'' = Inr (empty_url\<lparr>Path := ''o/token/''\<rparr>)"
  by (rule parse_path_only) code_simp+

lemma oauth_demo_refresh:
  "RefreshOAuthCredentials (oauth_server 200 (JObj [(''access_token'', JStr ''a2''), (''expires_in'', JNum 60)]))
     demo_url r c w = (Inr (empty_credentials\<lparr>ocAccessToken := ''a2'', ExpiresIn := 60\<rparr>), w)"
  by (simp add: RefreshOAuthCredentials_def ops_doRequest_def oauth_path oauth_server_def send_def finish_response_def
      into_def Decode_def decode_struct_def credentials_fields_def find_field_def set_str_def set_int_def
      in_int64_def min_int64_def max_int64_def)

theorem oauth_refresh_stored_witness:
  "\<exists>b2 w2. OAuth_Retrieve (nerd_oauth_deps
       (oauth_server 200 (JObj [(''access_token'', JStr ''a2''), (''expires_in'', JNum 60)])) demo_url ''s.json'' ''cli'')
     (new_basis, oauth_world) = (Inr ''a2'', b2, w2)
     \<and> map_sum id (\<lambda>ss. Expiration (SOAuth ss)) (fst (Read ''s.json'' (wfs w2))) = Inr (110 * second)"
proof -
  let ?s = "oauth_server 200 (JObj [(''access_token'', JStr ''a2''), (''expires_in'', JNum 60)])"
  let ?out = "empty_credentials\<lparr>ocAccessToken := ''a2'', ExpiresIn := 60\<rparr>"
  have rd: "Read ''s.json'' (wfs oauth_world) = (Inr oauth_session, wfs oauth_world)"
    using oauth_demo_read by (simp add: oauth_world_def)
  have tok: "AccessToken (SOAuth oauth_session) \<noteq> []"
    and exp: "basis_expired (wclock oauth_world) (SetExpiration (Expiration (SOAuth oauth_session)) new_basis)"
    by (simp_all add: oauth_session_def oauth_world_def basis_expired_SetExpiration new_basis_def second_def
        DefaultExpireWindow_def)
  have e: "110 * second = wrap64 (unix_seconds (wclock oauth_world) + ExpiresIn ?out) * second"
    by (simp add: oauth_world_def second_def unix_seconds_def in_int64_def min_int64_def max_int64_def)
  have cf: "create_err (wfs oauth_world) ''s.json'' = None" "write_err (wfs oauth_world) ''s.json'' = None"
    by (simp_all add: oauth_world_def oauth_fs_def example_fs_def)
  have tm: "time_min \<le> 110 * second" "110 * second < time_max"
    by (simp_all add: time_min_def time_max_def second_def)
  obtain fs2 where wr: "WriteOAuth ''s.json'' (ocAccessToken ?out) (ocRefreshToken ?out) (110 * second)
      (ocScope ?out) (ocTokenType ?out) (wfs oauth_world) = (Inr (), fs2)"
    using WriteOAuth_ok [OF rd cf tm] by blast
  from oauth_refresh_stored [OF rd tok exp oauth_demo_refresh refl e wr]
  obtain b2 where "OAuth_Retrieve (nerd_oauth_deps ?s demo_url ''s.json'' ''cli'') (new_basis, oauth_world)
      = (Inr (ocAccessToken ?out), b2, oauth_world\<lparr>wfs := fs2\<rparr>)"
    and "fst (Read ''s.json'' fs2) = Inr (oauth_session\<lparr>SOAuth := \<lparr>AccessToken = ocAccessToken ?out,
      RefreshToken = ocRefreshToken ?out, Expiration = 110 * second, Scope = ocScope ?out, TokenType = ocTokenType ?out\<rparr>\<rparr>)"
    by blast
  then show ?thesis by (intro exI [of _ b2] exI [of _ "oauth_world\<lparr>wfs := fs2\<rparr>"]) simp
qed

text \<open>
  When the auth server refuses the refresh, the session is left as it was, and the error tells
  a revoked login (status 401, with the cause \<^verbatim>\<open>ErrTokenRevoked\<close>) from every other failure,
  whose cause is never \<^verbatim>\<open>ErrTokenRevoked\<close> unless the transport failed with it.
\<close>
theorem oauth_refused:
  assumes "Read loc (wfs w) = (Inr ss, wfs w)" and "AccessToken (SOAuth ss) \<noteq> []"
    and "basis_expired (wclock w) (SetExpiration (Expiration (SOAuth ss)) b)"
    and "RefreshOAuthCredentials exec base (RefreshToken (SOAuth ss)) client w = (Inl (AuthHTTPError code msg), w1)"
  shows "\<exists>err b2. OAuth_Retrieve (nerd_oauth_deps exec base loc client) (b, w) = (Inl err, b2, w1)
     \<and> Cause (Some err) = (if code = 401 then Some (Sentinel ErrTokenRevoked) else None)"
proof -
  let ?d = "nerd_oauth_deps exec base loc client" and ?b = "SetExpiration (Expiration (SOAuth ss)) b"
  have "OAuth_Retrieve ?d (b, w) = (Inl (wrapped ''failed to refresh oauth access token''
      (refresh_error (AuthHTTPError code msg))), ?b, w1)"
    using assms OAuth_read_only [OF assms(1)]
    by (simp add: OAuth_Retrieve_def OAuth_refresh_def nerd_oauth_deps_def Let_def del: refresh_error.simps)
  then show ?thesis by (cases "code = 401") simp_all
qed

theorem oauth_refused_witness:
  "\<exists>err b2 w2. OAuth_Retrieve (nerd_oauth_deps (oauth_server 401 (JObj [(''error'', JStr ''no'')])) demo_url ''s.json'' ''cli'')
     (new_basis, oauth_world) = (Inl err, b2, w2) \<and> Cause (Some err) = Some (Sentinel ErrTokenRevoked)"
proof -
  have rd: "Read ''s.json'' (wfs oauth_world) = (Inr oauth_session, wfs oauth_world)"
    using oauth_demo_read by (simp add: oauth_world_def)
  have tok: "AccessToken (SOAuth oauth_session) \<noteq> []"
    and exp: "basis_expired (wclock oauth_world) (SetExpiration (Expiration (SOAuth oauth_session)) new_basis)"
    by (simp_all add: oauth_session_def oauth_world_def basis_expired_SetExpiration new_basis_def second_def
        DefaultExpireWindow_def)
  have "RefreshOAuthCredentials (oauth_server 401 (JObj [(''error'', JStr ''no'')])) demo_url
      (RefreshToken (SOAuth oauth_session)) ''cli'' oauth_world = (Inl (AuthHTTPError 401 ''no''), oauth_world)"
    by (simp add: RefreshOAuthCredentials_def ops_doRequest_def oauth_path oauth_server_def send_def
        finish_response_def auth_http_error_def Decode_def decode_struct_def auth_error_fields_def find_field_def set_str_def)
  from oauth_refused [OF rd tok exp this] show ?thesis by auto
qed

section \<open>The chain\<close>

text \<open>Providers that all fail, in their order: the last error and the world after them.\<close>

fun failing :: "'w provider list \<Rightarrow> goerr option \<Rightarrow> 'w \<Rightarrow> (goerr option \<times> 'w) option" where
  "failing [] e w = Some (e, w)"
| "failing (p # ps) e w = (case Retrieve p w of (Inl err, w) \<Rightarrow> failing ps (Some err) w | (Inr _, _) \<Rightarrow> None)"

lemma try_providers_Inr:
  "try_providers ps i e w = (Inr (jwt, k), w') \<longleftrightarrow>
     (\<exists>j e' wj. j < length ps \<and> k = i + j \<and> failing (take j ps) e w = Some (e', wj) \<and> Retrieve (ps ! j) wj = (Inr jwt, w'))"
proof (induction ps arbitrary: i e w)
  case (Cons p ps)
  show ?case
  proof (cases "Retrieve p w")
    case (Pair r w1)
    show ?thesis
    proof (cases r)
      case (Inr t)
      have "(\<exists>j e' wj. j < length (p # ps) \<and> k = i + j \<and> failing (take j (p # ps)) e w = Some (e', wj)
          \<and> Retrieve ((p # ps) ! j) wj = (Inr jwt, w')) \<longleftrightarrow> k = i \<and> Retrieve p w = (Inr jwt, w')"
        (is "?L \<longleftrightarrow> ?R")
      proof
        assume ?L
        then obtain j e' wj where "k = i + j" "failing (take j (p # ps)) e w = Some (e', wj)"
          "Retrieve ((p # ps) ! j) wj = (Inr jwt, w')" by blast
        then show ?R using Pair Inr by (cases j) auto
      next
        assume ?R
        then show ?L by (intro exI [of _ 0]) simp
      qed
      with Pair Inr show ?thesis by auto
    next
      case (Inl err)
      have "(\<exists>j e' wj. j < length (p # ps) \<and> k = i + j \<and> failing (take j (p # ps)) e w = Some (e', wj)
          \<and> Retrieve ((p # ps) ! j) wj = (Inr jwt, w')) \<longleftrightarrow>
        (\<exists>j e' wj. j < length ps \<and> k = Suc i + j \<and> failing (take j ps) (Some err) w1 = Some (e', wj)
          \<and> Retrieve (ps ! j) wj = (Inr jwt, w'))" (is "?L \<longleftrightarrow> ?R")
      proof
        assume ?L
        then obtain j e' wj where "j < length (p # ps)" "k = i + j"
          "failing (take j (p # ps)) e w = Some (e', wj)" "Retrieve ((p # ps) ! j) wj = (Inr jwt, w')" by blast
        then show ?R using Pair Inl by (cases j) auto
      next
        assume ?R
        then obtain j e' wj where "j < length ps" "k = Suc i + j"
          "failing (take j ps) (Some err) w1 = Some (e', wj)" "Retrieve (ps ! j) wj = (Inr jwt, w')" by blast
        then show ?L using Pair Inl by (intro exI [of _ "Suc j"]) simp
      qed
      with Pair Inl Cons show ?thesis by simp
    qed
  qed
qed simp

lemma try_providers_Inl:
  "try_providers ps i e w = (Inl err, w') \<longleftrightarrow>
     (\<exists>e'. failing ps e w = Some (e', w') \<and> err = NewError ''could not retreive token from any provider'' e')"
  by (induction ps i e w rule: try_providers.induct) (auto split: prod.splits sum.splits)

text \<open>
  The chained provider asks its providers in their order and stops at the first one that has a
  token: that one is remembered, its expiry is the chain's from then on, and the later ones are
  not touched. Only when every provider has failed does the chain fail, with the error of the last
  one as the cause, and it then counts as expired.
\<close>
theorem chain_first_token:
  "(Chained_Retrieve ps (c, w) = (Inr jwt, c', w') \<longleftrightarrow>
      (\<exists>i e wi. i < length ps \<and> c' = Some i \<and> failing (take i ps) None w = Some (e, wi)
         \<and> Retrieve (ps ! i) wi = (Inr jwt, w')))
   \<and> (Chained_Retrieve ps (c, w) = (Inl err, c', w') \<longleftrightarrow>
      c' = None \<and> (\<exists>e. failing ps None w = Some (e, w')
         \<and> err = ClientError ''could not retreive token from any provider'' e))
   \<and> (i < length ps \<longrightarrow> fst (Chained_IsExpired ps (Some i, w)) = fst (IsExpired (ps ! i) w))
   \<and> fst (Chained_IsExpired ps (None, w))"
proof -
  have "Chained_Retrieve ps (c, w) = (Inr jwt, c', w') \<longleftrightarrow>
      (\<exists>i. c' = Some i \<and> try_providers ps 0 None w = (Inr (jwt, i), w'))"
    and "Chained_Retrieve ps (c, w) = (Inl err, c', w') \<longleftrightarrow>
      c' = None \<and> try_providers ps 0 None w = (Inl err, w')"
    by (auto simp: Chained_Retrieve_def split: prod.splits sum.splits)
  then show ?thesis
    by (auto simp: try_providers_Inr try_providers_Inl NewError_def Chained_IsExpired_def split: prod.splits)
qed

end
