(* ===== verification/Command_Client.thy ===== *)
theory Command_Client
  imports Provider_Chain Task_Queue Command_Run
begin

text \<open>
  What the commands share: the client of the batch API with its chain of providers
  (\<^verbatim>\<open>NewClient\<close> of \<^verbatim>\<open>command/utils.go\<close>), the session, and the way every \<^verbatim>\<open>DoRun\<close> starts. The state
  is the terminal, the credential the batch client has cached, the providers behind it and the
  world. Transport, keys, signatures and the environment are arguments.
\<close>

section \<open>The state of the providers\<close>

record provider_bases =
  env_basis :: ProviderBasis
  config_basis :: ProviderBasis
  auth_basis :: ProviderBasis

text \<open>The auth client: its cached token and its OAuth provider; then the chain: the current provider and the bases.\<close>

type_synonym 'x auth_world = "string \<times> ProviderBasis \<times> 'x world"
type_synonym 'x batch_world = "nat option \<times> provider_bases \<times> 'x auth_world"

definition new_auth :: "'x world \<Rightarrow> 'x auth_world" where
  "new_auth w = ([], new_basis, w)"

definition new_batch :: "'x world \<Rightarrow> 'x batch_world" where
  "new_batch w = (None, \<lparr>env_basis = new_basis, config_basis = new_basis, auth_basis = new_basis\<rparr>, new_auth w)"

definition outer :: "'x batch_world \<Rightarrow> 'x world" where
  "outer v = snd (snd (snd (snd v)))"

definition with_outer :: "('x world \<Rightarrow> 'r \<times> 'x world) \<Rightarrow> 'x batch_world \<Rightarrow> 'r \<times> 'x batch_world" where
  "with_outer f = (\<lambda>(curr, bs, tok, ob, w). case f w of (r, w) \<Rightarrow> (r, curr, bs, tok, ob, w))"

text \<open>A call of the world, one level further out.\<close>

definition past :: "('w \<Rightarrow> 'r \<times> 'w) \<Rightarrow> 'a \<times> 'w \<Rightarrow> 'r \<times> ('a \<times> 'w)" where
  "past f = (\<lambda>(a, w). case f w of (r, w) \<Rightarrow> (r, a, w))"

section \<open>The clients\<close>

text \<open>
  What every command is given: the configuration, the location of the session file, the environment, the keys
  and the signatures, the transport, and the parsing of a whole URL (\<open>url_Parse\<close> is for references).
\<close>

record ('k, 'x) command_env =
  config :: Config
  session_file :: string
  environment :: "string \<Rightarrow> string"
  parse_key :: "string \<Rightarrow> goerr + 'k"
  parse_jwt :: "'k token_parser"
  transport :: "'x world doer"
  parse_url :: "string \<Rightarrow> goerr + url"

definition oauth_provider :: "('k, 'x) command_env \<Rightarrow> url \<Rightarrow> (ProviderBasis \<times> 'x world) provider" where
  "oauth_provider e authbase = \<lparr>IsExpired = (\<lambda>(b, w). (OAuth_IsExpired (wclock w) b, b, w)),
     Retrieve = OAuth_Retrieve (nerd_oauth_deps (transport e) (with_slash authbase) (session_file e) (ClientID (Auth (config e))))\<rparr>"

definition auth_client :: "('k, 'x) command_env \<Rightarrow> url \<Rightarrow> (ProviderBasis \<times> 'x world) ClientConfig" where
  "auth_client e authbase = NewClient \<lparr>Doer = (\<lambda>req. past (transport e req)), TokenProvider = Some (oauth_provider e authbase),
     BaseURL = authbase\<rparr>"

definition command_jwt_deps :: "('k, 'x) command_env \<Rightarrow> 'k \<Rightarrow> url \<Rightarrow> ('k, 'x auth_world) jwt_deps" where
  "command_jwt_deps e key authbase = \<lparr>parse_token = parse_jwt e, Pub = key, clock = (\<lambda>v. wclock (snd (snd v))),
     read_session = past (past (on_disk (Read (session_file e)))),
     store_jwt = (\<lambda>t r. past (past (on_disk (WriteJWT (session_file e) t r)))),
     refresh_jwt = (\<lambda>p t s. past (past (RefreshJWT (transport e) (with_slash authbase) p t s))),
     get_jwt = GetJWT (auth_client e authbase), getenv = environment e\<rparr>"

text \<open>A provider of the chain works on its own basis.\<close>

definition basis_provider :: "(provider_bases \<Rightarrow> ProviderBasis) \<Rightarrow> (ProviderBasis \<Rightarrow> provider_bases \<Rightarrow> provider_bases)
    \<Rightarrow> ('w \<Rightarrow> int) \<Rightarrow> (ProviderBasis \<times> 'w \<Rightarrow> (goerr + string) \<times> (ProviderBasis \<times> 'w)) \<Rightarrow> (provider_bases \<times> 'w) provider" where
  "basis_provider get put now retrieve = \<lparr>IsExpired = (\<lambda>(bs, w). (basis_expired (now w) (get bs), bs, w)),
     Retrieve = (\<lambda>(bs, w). case retrieve (get bs, w) of (r, b, w) \<Rightarrow> (r, put b bs, w))\<rparr>"

definition jwt_providers :: "('k, 'x) command_env \<Rightarrow> 'k \<Rightarrow> url \<Rightarrow> (provider_bases \<times> 'x auth_world) provider list" where
  "jwt_providers e key authbase =
     (let d = command_jwt_deps e key authbase in
      [basis_provider env_basis (\<lambda>b bs. bs\<lparr>env_basis := b\<rparr>) (clock d) (EnvProvider_Retrieve d),
       basis_provider config_basis (\<lambda>b bs. bs\<lparr>config_basis := b\<rparr>) (clock d) (ConfigProvider_Retrieve d),
       basis_provider auth_basis (\<lambda>b bs. bs\<lparr>auth_basis := b\<rparr>) (clock d) (AuthAPIProvider_Retrieve d)])"

definition parse_endpoint :: "('k, 'x) command_env \<Rightarrow> string \<Rightarrow> string \<Rightarrow> goerr + url" where
  "parse_endpoint e what endpoint = (case parse_url e endpoint of
     Inl err \<Rightarrow> Inl (wrapped (what @ '' endpoint '' @ in_quotes endpoint @ '' is not a valid URL'') err) | Inr u \<Rightarrow> Inr u)"

definition command_NewClient :: "('k, 'x) command_env \<Rightarrow> goerr + 'x batch_world ClientConfig" where
  "command_NewClient e =
     (case parse_key e (PublicKey (Auth (config e))) of
        Inl err \<Rightarrow> Inl (wrapped ''ECDSA Public Key is invalid'' err)
      | Inr key \<Rightarrow>
         (case parse_endpoint e ''nerd'' (NerdAPIEndpoint (config e)) of
            Inl err \<Rightarrow> Inl err
          | Inr base \<Rightarrow>
             (case parse_endpoint e ''auth'' (APIEndpoint (Auth (config e))) of
                Inl err \<Rightarrow> Inl err
              | Inr authbase \<Rightarrow>
                  let ps = jwt_providers e key authbase in
                  Inr (NewClient \<lparr>Doer = (\<lambda>req. with_outer (transport e req)),
                    TokenProvider = Some \<lparr>IsExpired = Chained_IsExpired ps, Retrieve = Chained_Retrieve ps\<rparr>,
                    BaseURL = base\<rparr>))))"

section \<open>The frame of a command\<close>

record 'x shell =
  console :: outputter
  batch :: "string \<times> 'x batch_world"

definition shell_of :: "outputter \<Rightarrow> 'x world \<Rightarrow> 'x shell" where
  "shell_of o1 w = \<lparr>console = o1, batch = ([], new_batch w)\<rparr>"

definition world_of :: "'x shell \<Rightarrow> 'x world" where
  "world_of s = outer (snd (batch s))"

definition on_batch :: "(string \<times> 'x batch_world \<Rightarrow> 'r \<times> (string \<times> 'x batch_world)) \<Rightarrow> 'x shell \<Rightarrow> 'r \<times> 'x shell" where
  "on_batch f s = (case f (batch s) of (r, b) \<Rightarrow> (r, s\<lparr>batch := b\<rparr>))"

definition on_world :: "('x world \<Rightarrow> 'r \<times> 'x world) \<Rightarrow> 'x shell \<Rightarrow> 'r \<times> 'x shell" where
  "on_world f = on_batch (past (with_outer f))"

definition print_line :: "string \<Rightarrow> 'x shell \<Rightarrow> 'x shell" where
  "print_line line s = s\<lparr>console := Println line (console s)\<rparr>"

text \<open>\<^verbatim>\<open>x, err := m(); if err != nil { return HandleError(err) }\<close>, for calls with and without effects.\<close>

definition attempt :: "('s \<Rightarrow> (goerr + 'a) \<times> 's) \<Rightarrow> ('a \<Rightarrow> 's \<Rightarrow> ended \<times> 's) \<Rightarrow> 's \<Rightarrow> ended \<times> 's" where
  "attempt m k s = (case m s of (Inl err, s) \<Rightarrow> (Failing (HandleError err), s) | (Inr x, s) \<Rightarrow> k x s)"

definition given :: "goerr + 'a \<Rightarrow> ('a \<Rightarrow> 's \<Rightarrow> ended \<times> 's) \<Rightarrow> 's \<Rightarrow> ended \<times> 's" where
  "given r k s = (case r of Inl err \<Rightarrow> (Failing (HandleError err), s) | Inr x \<Rightarrow> k x s)"

lemma attempt_simps [simp]:
  "m s = (Inl err, s') \<Longrightarrow> attempt m k s = (Failing (HandleError err), s')"
  "m s = (Inr x, s') \<Longrightarrow> attempt m k s = k x s'"
  by (simp_all add: attempt_def)

lemma given_simps [simp]: "given (Inl err) k s = (Failing (HandleError err), s)" "given (Inr x) k s = k x s"
  by (simp_all add: given_def)

definition not_enough :: goerr where
  "not_enough = ShowHelp ''Not enough arguments, see below for usage.''"

definition at_least :: "nat \<Rightarrow> string list \<Rightarrow> ('s \<Rightarrow> ended \<times> 's) \<Rightarrow> 's \<Rightarrow> ended \<times> 's" where
  "at_least n args k s = (if length args < n then (Failing not_enough, s) else k s)"

text \<open>The session is read and asked for the project.\<close>

definition session_project :: "('k, 'x) command_env \<Rightarrow> (SessionSnapshot \<Rightarrow> string \<Rightarrow> 'x shell \<Rightarrow> ended \<times> 'x shell)
    \<Rightarrow> 'x shell \<Rightarrow> ended \<times> 'x shell" where
  "session_project e k = attempt (on_world (on_disk (Read (session_file e)))) (\<lambda>ss. given (RequireProjectID ss) (k ss))"

text \<open>The calls most commands start with: the client, the session, the project.\<close>

definition with_project :: "('k, 'x) command_env \<Rightarrow> ('x batch_world ClientConfig \<Rightarrow> SessionSnapshot \<Rightarrow> string \<Rightarrow> 'x shell \<Rightarrow> ended \<times> 'x shell)
    \<Rightarrow> 'x shell \<Rightarrow> ended \<times> 'x shell" where
  "with_project e k = given (command_NewClient e) (\<lambda>c. session_project e (k c))"

text \<open>A command with an auth client of its own, as \<^verbatim>\<open>project list\<close> has it.\<close>

definition on_auth :: "(string \<times> ProviderBasis \<times> 'x world \<Rightarrow> (goerr + 'r) \<times> (string \<times> ProviderBasis \<times> 'x world))
    \<Rightarrow> 'x shell \<Rightarrow> (goerr + 'r) \<times> 'x shell" where
  "on_auth f = on_world (\<lambda>w. case f (new_auth w) of (r, _, _, w) \<Rightarrow> (r, w))"

section \<open>Lemmas\<close>

lemma world_of_shell [simp]: "world_of (shell_of o1 w) = w"
  by (simp add: world_of_def shell_of_def new_batch_def new_auth_def outer_def)

text \<open>An operation of the world changes the world and nothing else.\<close>

lemma on_world_result: "f (world_of s) = (r, w) \<Longrightarrow> fst (on_world f s) = r \<and> world_of (snd (on_world f s)) = w"
  by (cases "batch s")
    (auto simp: on_world_def on_batch_def past_def with_outer_def world_of_def outer_def split: prod.splits)

lemma on_world_back: "on_world f s = (r, s') \<Longrightarrow> f (world_of s) = (r, world_of s')"
  using on_world_result [where f = f and s = s] by (cases "f (world_of s)") simp

lemma on_world_same: "f (world_of s) = (r, world_of s) \<Longrightarrow> on_world f s = (r, s)"
  by (cases s, cases "batch s")
    (auto simp: on_world_def on_batch_def past_def with_outer_def world_of_def outer_def split: prod.splits)

lemma on_disk_world: "f (wfs w) = (r, fs) \<Longrightarrow> on_disk f w = (r, w\<lparr>wfs := fs\<rparr>)"
  by (simp add: on_disk_def)

lemma read_session_same:
  "Read loc (wfs (world_of s)) = (r, fs) \<Longrightarrow> on_world (on_disk (Read loc)) s = (r, s)"
  using Read_pure [of loc "wfs (world_of s)"] by (intro on_world_same) (simp add: on_disk_def)

lemma on_session_result:
  "on_world (on_disk f) s = (r, s') \<Longrightarrow> f (wfs (world_of s)) = (r, wfs (world_of s'))"
  using on_world_result [where f = "on_disk f" and s = s] on_disk_world [of f "world_of s"]
  by (cases "f (wfs (world_of s))") auto

lemma on_session_ok:
  "f (wfs (world_of s)) = (r, fs) \<Longrightarrow> \<exists>s'. on_world (on_disk f) s = (r, s') \<and> wfs (world_of s') = fs"
  using on_world_result [where f = "on_disk f" and s = s] on_disk_world [of f "world_of s"]
  by (cases "on_world (on_disk f) s") auto

text \<open>What happens without a login, and without a project.\<close>

lemma RequireProjectID_cases:
  "RequireProjectID ss = Inl err \<longleftrightarrow> AccessToken (SOAuth ss) = [] \<and> err = Sentinel ErrTokenUnset
     \<or> AccessToken (SOAuth ss) \<noteq> [] \<and> PName (SProject ss) = [] \<and> err = Sentinel ErrProjectIDNotSet"
  by (auto simp: RequireProjectID_def Let_def)

definition not_logged_in :: goerr where
  "not_logged_in = Fundamental (''You are not logged in. Please login using '' @ in_quotes ''nerd login'')"

lemma HandleError_session [simp]:
  "HandleError (Sentinel ErrTokenUnset) = not_logged_in"
  "HandleError (Sentinel ErrProjectIDNotSet) = Sentinel ErrProjectIDNotSet"
  by (simp_all add: HandleError_cases not_logged_in_def)

definition refusal :: "SessionSnapshot \<Rightarrow> goerr" where
  "refusal ss = (if AccessToken (SOAuth ss) = [] then not_logged_in else Sentinel ErrProjectIDNotSet)"

lemma session_project_refused:
  assumes "Read (session_file e) (wfs (world_of s)) = (Inr ss, fs)"
    and "AccessToken (SOAuth ss) = [] \<or> PName (SProject ss) = []"
  shows "session_project e k s = (Failing (refusal ss), s)"
proof -
  have "RequireProjectID ss = Inl (if AccessToken (SOAuth ss) = [] then Sentinel ErrTokenUnset else Sentinel ErrProjectIDNotSet)"
    using assms(2) by (subst RequireProjectID_cases) auto
  with read_session_same [OF assms(1)] show ?thesis
    by (simp add: session_project_def refusal_def)
qed

lemma with_project_refused:
  assumes "command_NewClient e = Inr c" and "Read (session_file e) (wfs (world_of s)) = (Inr ss, fs)"
    and "AccessToken (SOAuth ss) = [] \<or> PName (SProject ss) = []"
  shows "with_project e k s = (Failing (refusal ss), s)"
  by (simp add: with_project_def assms(1) session_project_refused [OF assms(2,3)])

lemma at_least_enough [simp]: "n \<le> length args \<Longrightarrow> at_least n args k = k"
  by (simp add: at_least_def fun_eq_iff)

end
