(* ===== verification/Commands.thy ===== *)
theory Commands
  imports Command_Client "HOL-Library.AList"
begin

text \<open>
  The \<^verbatim>\<open>DoRun\<close> of the commands under \<^verbatim>\<open>command/\<close> that talk to the batch and the auth API, each a function
  of the options, the arguments and the state. What is displayed is kept as a value: the templates
  that lay it out, and how \<^verbatim>\<open>%v\<close> spells it, are arguments. Options are parsed by the flag parser.
\<close>

section \<open>What is displayed\<close>

datatype reply =
    Datasets "DatasetSummary option list"
  | Projects "auth_Project list"
  | SecretCreated SecretSummary
  | SecretDetails DescribeSecretOutput
  | SecretsOf ListSecretsOutput
  | TaskDetails DescribeTaskOutput
  | Tasks "TaskSummary option list"
  | WorkloadDetails DescribeWorkloadOutput
  | Workloads "WorkloadSummary option list"

type_synonym renderer = "reply \<Rightarrow> output_type \<rightharpoonup> string \<times> goerr option"

definition show_reply :: "renderer \<Rightarrow> reply \<Rightarrow> 'x shell \<Rightarrow> ended \<times> 'x shell" where
  "show_reply render r s = (Done, s\<lparr>console := Output (render r) (console s)\<rparr>)"

definition say :: "string \<Rightarrow> 'x shell \<Rightarrow> ended \<times> 'x shell" where
  "say line s = (Done, print_line line s)"

section \<open>Datasets\<close>

definition dataset_list :: "('k, 'x) command_env \<Rightarrow> renderer \<Rightarrow> 'x shell \<Rightarrow> ended \<times> 'x shell" where
  "dataset_list e render =
     with_project e (\<lambda>c ss projectID. attempt (on_batch (ListDatasets c projectID)) (\<lambda>out. show_reply render (Datasets out)))"

section \<open>Projects\<close>

definition parse_auth :: "('k, 'x) command_env \<Rightarrow> goerr + url" where
  "parse_auth e = parse_endpoint e ''auth'' (APIEndpoint (Auth (config e)))"

text \<open>An endpoint that does not parse is returned without \<^verbatim>\<open>HandleError\<close>. A null project makes the loop panic.\<close>

definition list_projects :: "('k, 'x) command_env \<Rightarrow> url \<Rightarrow> 'x shell \<Rightarrow> (goerr + auth_Project option list) \<times> 'x shell" where
  "list_projects e authbase = on_auth (ListProjects (auth_client e authbase))"

definition project_set :: "('k, 'x) command_env \<Rightarrow> string list \<Rightarrow> 'x shell \<Rightarrow> ended \<times> 'x shell" where
  "project_set e args =
     at_least 1 args (\<lambda>s.
       (case parse_auth e of
          Inl err \<Rightarrow> (Failing err, s)
        | Inr authbase \<Rightarrow>
            attempt (list_projects e authbase) (\<lambda>projects s.
              if None \<in> set projects then (Panics, s)
              else if \<not> list_ex (\<lambda>p. apSlug (the p) = args ! 0) projects then
                (Failing (HandleError (Fundamental (''Project not found, please check the project name. You can get a list of ''
                   @ ''your projects by running `nerd project list`.''))), s)
              else attempt (on_world (on_disk (WriteProject (session_file e) (args ! 0) DefaultAWSRegion)))
                     (\<lambda>_ s. (Done, s)) s) s))"

text \<open>The mark of the current project is put into the project itself.\<close>

definition mark_current :: "string \<Rightarrow> auth_Project \<Rightarrow> auth_Project" where
  "mark_current name p = (if apSlug p = name then p\<lparr>apSlug := name @ '' *''\<rparr> else p)"

definition project_list :: "('k, 'x) command_env \<Rightarrow> renderer \<Rightarrow> 'x shell \<Rightarrow> ended \<times> 'x shell" where
  "project_list e render s =
     (case parse_auth e of
        Inl err \<Rightarrow> (Failing err, s)
      | Inr authbase \<Rightarrow>
          attempt (list_projects e authbase) (\<lambda>projects.
          attempt (on_world (on_disk (Read (session_file e)))) (\<lambda>ss s.
            if None \<in> set projects then (Panics, s)
            else show_reply render (Projects (map (\<lambda>p. mark_current (PName (SProject ss)) (the p)) projects)) s)) s)"

record ProjectPlaceOpts =
  ppToken :: string
  ppUsername :: string
  ppPassword :: string
  ppInsecure :: bool
  ppComputeUnits :: string

definition project_place :: "('k, 'x) command_env \<Rightarrow> ProjectPlaceOpts \<Rightarrow> string list \<Rightarrow> 'x shell \<Rightarrow> ended \<times> 'x shell" where
  "project_place e opts args =
     at_least 1 args (with_project e (\<lambda>c ss projectID.
       attempt (on_batch (PlaceProject c projectID (args ! 0) (ppToken opts) [] (ppUsername opts) (ppPassword opts)
           (ppComputeUnits opts) (ppInsecure opts)))
         (\<lambda>_. say ''Succesfully placed project'')))"

definition project_expel :: "('k, 'x) command_env \<Rightarrow> 'x shell \<Rightarrow> ended \<times> 'x shell" where
  "project_expel e =
     with_project e (\<lambda>c ss projectID. attempt (on_batch (ExpelProject c projectID))
       (\<lambda>_. say ''Succesfully removed project placement''))"

section \<open>Secrets\<close>

record SecretCreateOpts =
  scUsername :: string
  scPassword :: string
  scType :: string

definition pair_expected :: string where
  "pair_expected = ''To create a secret, please provide a valid key value pair: <key>=<value>.'' @ newline @
     ''See '' @ in_quotes ''nerd secret create --help'' @ ''.''"

definition name_expected :: string where
  "name_expected = ''To create a secret, please provide a valid name.'' @ newline @
     ''See '' @ in_quotes ''nerd secret create --help'' @ ''.''"

definition secret_create :: "('k, 'x) command_env \<Rightarrow> renderer \<Rightarrow> SecretCreateOpts \<Rightarrow> string list \<Rightarrow> 'x shell \<Rightarrow> ended \<times> 'x shell" where
  "secret_create e render opts args =
     at_least 1 args (with_project e (\<lambda>c ss _ s.
       let project = PName (SProject ss) in
       if scType opts = SecretTypeRegistry then
         attempt (on_batch (CreatePullSecret c project (args ! 0) (scUsername opts) (scPassword opts)))
           (\<lambda>out. show_reply render (SecretCreated out)) s
       else if scType opts = SecretTypeOpaque then
         (if length args < 2 then
            (Failing (HandleError (ShowHelp (if CHR ''='' \<in> set (args ! 0) then name_expected else pair_expected))), s)
          else
            let secretKv = split_on CHR ''='' (args ! 1) in
            if length secretKv < 2 then (Failing (HandleError (Fundamental pair_expected)), s)
            else attempt (on_batch (CreateSecret c project (args ! 0) (secretKv ! 0) (secretKv ! 1)))
                   (\<lambda>out. show_reply render (SecretCreated out)) s)
       else (Failing (HandleError (Fundamental (''Invalid secret type '' @ in_quotes (scType opts) @ '', available options are ''
               @ in_quotes ''registry'' @ '', and '' @ in_quotes ''opaque''))), s)))"

definition secret_delete :: "('k, 'x) command_env \<Rightarrow> string list \<Rightarrow> 'x shell \<Rightarrow> ended \<times> 'x shell" where
  "secret_delete e args =
     at_least 1 args (with_project e (\<lambda>c ss _. attempt (on_batch (DeleteSecret c (PName (SProject ss)) (args ! 0)))
       (\<lambda>_. say ''Secret successfully deleted'')))"

definition secret_describe :: "('k, 'x) command_env \<Rightarrow> renderer \<Rightarrow> string list \<Rightarrow> 'x shell \<Rightarrow> ended \<times> 'x shell" where
  "secret_describe e render args =
     at_least 1 args (with_project e (\<lambda>c ss _. attempt (on_batch (DescribeSecret c (PName (SProject ss)) (args ! 0)))
       (\<lambda>out. show_reply render (SecretDetails out))))"

definition secret_list :: "('k, 'x) command_env \<Rightarrow> renderer \<Rightarrow> 'x shell \<Rightarrow> ended \<times> 'x shell" where
  "secret_list e render =
     with_project e (\<lambda>c ss _. attempt (on_batch (ListSecrets c (PName (SProject ss)))) (\<lambda>out. show_reply render (SecretsOf out)))"

section \<open>Tasks\<close>

text \<open>\<^verbatim>\<open>strconv.ParseInt(s, 10, 64)\<close>; the text is quoted as it is.\<close>

definition ParseInt :: "string \<Rightarrow> goerr + int" where
  "ParseInt s = (case Atoi s of
     (n, None) \<Rightarrow> Inr n
   | (n, Some err) \<Rightarrow> Inl (Fundamental (''strconv.ParseInt: parsing '' @ [CHR 34] @ s @ [CHR 34] @ '': ''
       @ (case err of ErrSyntax \<Rightarrow> ''invalid syntax'' | ErrRange \<Rightarrow> ''value out of range''))))"

definition parse_task_id :: "string \<Rightarrow> goerr + int" where
  "parse_task_id s = (case ParseInt s of Inl err \<Rightarrow> Inl (wrapped ''invalid task ID, must be a number'' err) | Inr n \<Rightarrow> Inr n)"

text \<open>The commands on a task: the client, the id, the session, the project.\<close>

definition on_task :: "('k, 'x) command_env \<Rightarrow> string \<Rightarrow> ('x batch_world ClientConfig \<Rightarrow> int \<Rightarrow> string \<Rightarrow> 'x shell \<Rightarrow> ended \<times> 'x shell)
    \<Rightarrow> 'x shell \<Rightarrow> ended \<times> 'x shell" where
  "on_task e arg k = given (command_NewClient e) (\<lambda>c. given (parse_task_id arg) (\<lambda>taskID.
     session_project e (\<lambda>ss projectID. k c taskID projectID)))"

definition task_describe :: "('k, 'x) command_env \<Rightarrow> renderer \<Rightarrow> string list \<Rightarrow> 'x shell \<Rightarrow> ended \<times> 'x shell" where
  "task_describe e render args =
     at_least 2 args (on_task e (args ! 1) (\<lambda>c taskID projectID.
       attempt (on_batch (DescribeTask c projectID (args ! 0) taskID)) (\<lambda>out s.
         if tsStatus out = [] \<and> tsTaskID out = 0 then
           (Failing (HandleError (Fundamental ''Unable to find task. Please check the provided task-id and workload-id.'')), s)
         else show_reply render (TaskDetails out) s)))"

definition task_failure :: "('k, 'x) command_env \<Rightarrow> string list \<Rightarrow> 'x shell \<Rightarrow> ended \<times> 'x shell" where
  "task_failure e args =
     at_least 5 args (on_task e (args ! 1) (\<lambda>c taskID projectID.
       attempt (on_batch (SendRunFailure c projectID (args ! 0) taskID (args ! 2) (args ! 3) (args ! 4)))
         (\<lambda>_. say ''Task Failure: &{}'')))"

definition task_heartbeat :: "('k, 'x) command_env \<Rightarrow> string list \<Rightarrow> 'x shell \<Rightarrow> ended \<times> 'x shell" where
  "task_heartbeat e args =
     at_least 3 args (on_task e (args ! 1) (\<lambda>c taskID projectID.
       attempt (on_batch (SendRunHeartbeat c projectID (args ! 0) taskID (args ! 2)))
         (\<lambda>hasExpired. say (''Task Heartbeat: &{'' @ (if hasExpired then ''true'' else ''false'') @ ''}''))))"

text \<open>Four arguments are taken for enough, and then the fifth is used.\<close>

definition task_success :: "('k, 'x) command_env \<Rightarrow> string list \<Rightarrow> 'x shell \<Rightarrow> ended \<times> 'x shell" where
  "task_success e args =
     at_least 4 args (on_task e (args ! 1) (\<lambda>c taskID projectID s.
       if length args \<le> 4 then (Panics, s)
       else attempt (on_batch (SendRunSuccess c projectID (args ! 0) taskID (args ! 2) (args ! 3) (args ! 4)))
              (\<lambda>_. say ''Task Success: &{}'') s))"

definition task_stop :: "('k, 'x) command_env \<Rightarrow> string list \<Rightarrow> 'x shell \<Rightarrow> ended \<times> 'x shell" where
  "task_stop e args =
     at_least 2 args (on_task e (args ! 1) (\<lambda>c taskID projectID.
       attempt (on_batch (StopTask c projectID (args ! 0) taskID)) (\<lambda>_. say (''Stopped task with ID: '' @ int_text taskID))))"

definition task_list :: "('k, 'x) command_env \<Rightarrow> renderer \<Rightarrow> string list \<Rightarrow> 'x shell \<Rightarrow> ended \<times> 'x shell" where
  "task_list e render args =
     at_least 1 args (with_project e (\<lambda>c ss projectID.
       attempt (on_batch (ListTasks c projectID (args ! 0) False)) (\<lambda>out. show_reply render (Tasks out))))"

text \<open>The queue is made from the credentials of the project and the region; AWS may refuse. Fuel as in \<^verbatim>\<open>ReceiveTaskRuns\<close>.\<close>

definition three_minutes :: int where
  "three_minutes = 180000000000"

definition task_receive :: "nat \<Rightarrow> ('k, 'x) command_env \<Rightarrow> (string \<Rightarrow> string \<Rightarrow> goerr + ('m, 'x batch_world) QueueOps) \<Rightarrow> (Run list \<Rightarrow> string)
    \<Rightarrow> string list \<Rightarrow> 'x shell \<Rightarrow> (ended \<times> 'x shell) option" where
  "task_receive n e new_queue spell args s =
     (if length args < 1 then Some (Failing not_enough, s)
      else case command_NewClient e of Inl err \<Rightarrow> Some (Failing (HandleError err), s)
      | Inr c \<Rightarrow>
         (case on_world (on_disk (Read (session_file e))) s of (Inl err, s) \<Rightarrow> Some (Failing (HandleError err), s)
          | (Inr ss, s) \<Rightarrow>
             (case RequireProjectID ss of Inl err \<Rightarrow> Some (Failing (HandleError err), s)
              | Inr projectID \<Rightarrow>
                 (case new_queue projectID (AWSRegion (SProject ss)) of Inl err \<Rightarrow> Some (Failing (HandleError err), s)
                  | Inr qops \<Rightarrow>
                     (case ReceiveTaskRuns n (\<lambda>v. wclock (outer v)) c projectID (args ! 0) three_minutes qops (batch s) of
                        None \<Rightarrow> None
                      | Some (Inl err, b) \<Rightarrow> Some (Failing (HandleError err), s\<lparr>batch := b\<rparr>)
                      | Some (Inr out, b) \<Rightarrow> Some (say (''Task Receiving: '' @ spell out) (s\<lparr>batch := b\<rparr>)))))))"

text \<open>Environment variables as \<^verbatim>\<open>NAME=value\<close>, cut at the first sign; a later one replaces an earlier one.\<close>

fun parse_env :: "string list \<Rightarrow> (string \<times> string) list \<Rightarrow> goerr + (string \<times> string) list" where
  "parse_env [] m = Inr m"
| "parse_env (l # ls) m =
     (case dropWhile (\<lambda>c. c \<noteq> CHR ''='') l of
        [] \<Rightarrow> Inl (Fundamental (''invalid environment variable format, expected '' @ in_quotes ''FOO=bar'' @ '' fromat, got: '' @ l))
      | _ # v \<Rightarrow> parse_env ls (AList.update (takeWhile (\<lambda>c. c \<noteq> CHR ''='') l) v m))"

text \<open>Standard input that is no terminal: its content, and the error its reading ends with; at most 128 KiB are read.\<close>

definition stdin_limit :: nat where
  "stdin_limit = 131072"

definition read_stdin :: "(string \<times> goerr option) option \<Rightarrow> goerr + string option" where
  "read_stdin inp = (case inp of
     None \<Rightarrow> Inr None
   | Some (content, err) \<Rightarrow>
       if stdin_limit \<le> length content then Inr (Some (take stdin_limit content))
       else (case err of None \<Rightarrow> Inr (Some content)
             | Some er \<Rightarrow> Inl (Fundamental (''failed to copy stdin: '' @ error_text er))))"

definition task_create :: "('k, 'x) command_env \<Rightarrow> string list \<Rightarrow> (string \<times> goerr option) option \<Rightarrow> string list
    \<Rightarrow> 'x shell \<Rightarrow> ended \<times> 'x shell" where
  "task_create e opt_env inp args =
     at_least 1 args (given (command_NewClient e) (\<lambda>c.
       given (parse_env opt_env []) (\<lambda>tenv.
       given (read_stdin inp) (\<lambda>buf.
       session_project e (\<lambda>ss projectID.
       attempt (on_batch (StartTask c projectID (args ! 0) (Some (tl args)) (Some tenv) buf))
         (\<lambda>out. say (''Created task with ID: '' @ int_text (tsTaskID out))))))))"

end
