(* ===== verification/Transfer_Commands.thy ===== *)
theory Transfer_Commands
  imports Commands Dataset_Transfer
begin

text \<open>
  The commands that move datasets: \<^verbatim>\<open>dataset upload\<close>, \<^verbatim>\<open>dataset download\<close> and \<^verbatim>\<open>workload download\<close>
  (\<^verbatim>\<open>command/dataset_upload.go\<close>, \<^verbatim>\<open>dataset_download.go\<close>, \<^verbatim>\<open>workload_download.go\<close>), as relations around
  \<open>Upload\<close> and \<open>Download\<close>. The batch client of the shell is the one the transfers use, the disk is the
  local one, and paths are taken in their cleaned form. AWS may refuse a store; progress bars are in \<open>Progress\<close>.
\<close>

section \<open>The output folder\<close>

text \<open>\<^verbatim>\<open>os.Stat\<close> and \<^verbatim>\<open>os.Mkdir\<close>.\<close>

definition below_file :: "string \<Rightarrow> disk \<Rightarrow> bool" where
  "below_file p d \<longleftrightarrow> list_ex (\<lambda>q. case node_at d q of Some (FileNode _ _ _) \<Rightarrow> True | _ \<Rightarrow> False) (butlast (ancestors (Clean p)))"

definition Stat :: "string \<Rightarrow> disk \<Rightarrow> goerr + node" where
  "Stat p d =
     (if p = [] then Inl (PathError ''stat'' p ENOENT)
      else case node_at d (Clean p) of
        Some n \<Rightarrow> Inr n
      | None \<Rightarrow> Inl (PathError ''stat'' p (if below_file p d then ENOTDIR else ENOENT)))"

definition IsNotExist :: "goerr \<Rightarrow> bool" where
  "IsNotExist e = (case e of OSError ENOENT _ \<Rightarrow> True | _ \<Rightarrow> False)"

definition Mkdir :: "string \<Rightarrow> disk \<Rightarrow> (goerr + unit) \<times> disk" where
  "Mkdir p d =
     (if node_at d p \<noteq> None then (Inl (PathError ''mkdir'' p EEXIST), d)
      else case node_at d (Dir p) of
        Some DirNode \<Rightarrow> (Inr (), put_node p DirNode d)
      | Some _ \<Rightarrow> (Inl (PathError ''mkdir'' p ENOTDIR), d)
      | None \<Rightarrow> (Inl (PathError ''mkdir'' p (if below_file p d then ENOTDIR else ENOENT)), d))"

definition is_folder :: "string \<Rightarrow> goerr + node \<Rightarrow> goerr + unit" where
  "is_folder p r = (case r of Inl err \<Rightarrow> Inl err
     | Inr DirNode \<Rightarrow> Inr ()
     | Inr _ \<Rightarrow> Inl (Fundamental (''The provided path '' @ in_quotes p @ '' is not a directory'')))"

definition output_folder :: "string \<Rightarrow> disk \<Rightarrow> (goerr + unit) \<times> disk" where
  "output_folder p d =
     (case Stat p d of
        Inr n \<Rightarrow> (is_folder p (Inr n), d)
      | Inl err \<Rightarrow>
          if IsNotExist err then
            (case (if p = [] then (Inl err, d) else MkdirAll (Clean p) d) of
               (Inl _, d) \<Rightarrow> (Inl (Fundamental (''The provided path '' @ in_quotes p @ '' does not exist and could not be created.'')), d)
             | (Inr _, d) \<Rightarrow> (is_folder p (Stat p d), d))
          else (Inl err, d))"

section \<open>The clients\<close>

type_synonym 'x batch_ops = "(string \<times> 'x batch_world) DataOps"

text \<open>What a transfer uses: the batch client, the session, the project and the store of the project.\<close>

record 'x transfer_clients =
  tcBatch :: "'x batch_world ClientConfig"
  tcSession :: SessionSnapshot
  tcProject :: string
  tcOps :: "'x batch_ops"

definition download_clients :: "('k, 'x) command_env \<Rightarrow> (string \<Rightarrow> string \<Rightarrow> goerr + 'x batch_ops) \<Rightarrow> 'x shell
    \<Rightarrow> (goerr + 'x transfer_clients) \<times> 'x shell" where
  "download_clients e new_store s =
     (case command_NewClient e of Inl err \<Rightarrow> (Inl (HandleError err), s)
      | Inr c \<Rightarrow>
         (case on_world (on_disk (Read (session_file e))) s of (Inl err, s) \<Rightarrow> (Inl (HandleError err), s)
          | (Inr ss, s) \<Rightarrow>
             (case RequireProjectID ss of Inl err \<Rightarrow> (Inl (HandleError err), s)
              | Inr projectID \<Rightarrow>
                 (case new_store projectID (AWSRegion (SProject ss)) of
                    Inl err \<Rightarrow> (Inl (HandleError (wrapped ''could not create aws dataops client'' err)), s)
                  | Inr ops \<Rightarrow> (Inr \<lparr>tcBatch = c, tcSession = ss, tcProject = projectID, tcOps = ops\<rparr>, s)))))"

text \<open>For an upload only the error of the project is handled, the other ones are shown as they are.\<close>

definition upload_clients :: "('k, 'x) command_env \<Rightarrow> (string \<Rightarrow> string \<Rightarrow> goerr + 'x batch_ops) \<Rightarrow> 'x shell
    \<Rightarrow> (goerr + 'x transfer_clients) \<times> 'x shell" where
  "upload_clients e new_store s =
     (case command_NewClient e of Inl err \<Rightarrow> (Inl err, s)
      | Inr c \<Rightarrow>
         (case on_world (on_disk (Read (session_file e))) s of (Inl err, s) \<Rightarrow> (Inl err, s)
          | (Inr ss, s) \<Rightarrow>
             (case RequireProjectID ss of Inl err \<Rightarrow> (Inl (HandleError err), s)
              | Inr projectID \<Rightarrow>
                 (case new_store projectID (AWSRegion (SProject ss)) of
                    Inl err \<Rightarrow> (Inl (wrapped ''could not create aws dataops client'' err), s)
                  | Inr ops \<Rightarrow> (Inr \<lparr>tcBatch = c, tcSession = ss, tcProject = projectID, tcOps = ops\<rparr>, s)))))"

section \<open>Uploading a dataset\<close>

definition UploadConcurrency :: nat where
  "UploadConcurrency = 64"

definition upload_config :: "'x transfer_clients \<Rightarrow> string \<Rightarrow> 'x batch_world UploadConfig" where
  "upload_config tc dataPath = \<lparr>uBatchClient = tcBatch tc, uDataOps = tcOps tc, uLocalDir = dataPath,
     uProjectID = tcProject tc, uConcurrency = UploadConcurrency\<rparr>"

text \<open>\<open>stat\<close> says whether the path is a directory; its tree is \<open>t\<close>. \<open>layout\<close> lays out the new dataset.\<close>

definition data_path :: "goerr + bool \<Rightarrow> string \<Rightarrow> goerr option" where
  "data_path stat p = (case stat of
     Inl _ \<Rightarrow> Some (Fundamental (''argument '' @ in_quotes p @ '' is not a valid file or directory''))
   | Inr False \<Rightarrow> Some (Fundamental (''provided path '' @ in_quotes p @ '' is not a directory''))
   | Inr True \<Rightarrow> None)"

definition uploaded :: "(DatasetSummary \<Rightarrow> output_type \<rightharpoonup> string \<times> goerr option) \<Rightarrow> DatasetSummary \<Rightarrow> 'x shell \<Rightarrow> 'x shell" where
  "uploaded layout ds s = s\<lparr>console := Output (layout ds) (console s)\<rparr>"

inductive dataset_upload :: "('k, 'x) command_env \<Rightarrow> (string \<Rightarrow> string \<Rightarrow> goerr + 'x batch_ops) \<Rightarrow> 'x batch_world transfer_env
    \<Rightarrow> (DatasetSummary \<Rightarrow> output_type \<rightharpoonup> string \<times> goerr option) \<Rightarrow> string list \<Rightarrow> goerr + bool \<Rightarrow> tree
    \<Rightarrow> 'x shell \<Rightarrow> ended \<Rightarrow> 'x shell \<Rightarrow> bool" for e new_store x layout args stat t s where
  few: "length args < 1 \<Longrightarrow> dataset_upload e new_store x layout args stat t s (Failing not_enough) s"
| no_folder: "1 \<le> length args \<Longrightarrow> data_path stat (args ! 0) = Some err \<Longrightarrow>
     dataset_upload e new_store x layout args stat t s (Failing err) s"
| no_clients: "1 \<le> length args \<Longrightarrow> data_path stat (args ! 0) = None \<Longrightarrow> upload_clients e new_store s = (Inl err, s') \<Longrightarrow>
     dataset_upload e new_store x layout args stat t s (Failing err) s'"
| count_panics: "1 \<le> length args \<Longrightarrow> data_path stat (args ! 0) = None \<Longrightarrow> upload_clients e new_store s = (Inr tc, s') \<Longrightarrow>
     GetLocalDatasetSize (xtar x) (xencode x) (\<lambda>_. None) (args ! 0) t = None \<Longrightarrow>
     dataset_upload e new_store x layout args stat t s Panics s'"
| not_counted: "1 \<le> length args \<Longrightarrow> data_path stat (args ! 0) = None \<Longrightarrow> upload_clients e new_store s = (Inr tc, s') \<Longrightarrow>
     GetLocalDatasetSize (xtar x) (xencode x) (\<lambda>_. None) (args ! 0) t = Some (Inl err) \<Longrightarrow>
     dataset_upload e new_store x layout args stat t s (Failing (HandleError err)) s'"
| failed: "1 \<le> length args \<Longrightarrow> data_path stat (args ! 0) = None \<Longrightarrow> upload_clients e new_store s = (Inr tc, s') \<Longrightarrow>
     GetLocalDatasetSize (xtar x) (xencode x) (\<lambda>_. None) (args ! 0) t = Some (Inr n) \<Longrightarrow>
     Upload x (upload_config tc (args ! 0)) t (batch s') (ds, Some err) b \<Longrightarrow>
     dataset_upload e new_store x layout args stat t s (Failing (HandleError err)) (s'\<lparr>batch := b\<rparr>)"
| complete: "1 \<le> length args \<Longrightarrow> data_path stat (args ! 0) = None \<Longrightarrow> upload_clients e new_store s = (Inr tc, s') \<Longrightarrow>
     GetLocalDatasetSize (xtar x) (xencode x) (\<lambda>_. None) (args ! 0) t = Some (Inr n) \<Longrightarrow>
     Upload x (upload_config tc (args ! 0)) t (batch s') (Some ds, None) b \<Longrightarrow>
     dataset_upload e new_store x layout args stat t s Done (uploaded layout ds (s'\<lparr>batch := b\<rparr>))"

section \<open>Downloading\<close>

definition DownloadConcurrency :: nat where
  "DownloadConcurrency = 10"

definition download_config :: "'x transfer_clients \<Rightarrow> string \<Rightarrow> string \<Rightarrow> string \<Rightarrow> 'x batch_world DownloadConfig" where
  "download_config tc project outputDir datasetID = \<lparr>dBatchClient = tcBatch tc, dDataOps = tcOps tc, dLocalDir = outputDir,
     dProjectID = project, dDatasetID = datasetID, dConcurrency = DownloadConcurrency\<rparr>"

text \<open>What both downloads do for a dataset: its size is asked for, then it is fetched.\<close>

inductive fetch_dataset :: "'v transfer_env \<Rightarrow> 'v DownloadConfig \<Rightarrow> disk \<Rightarrow> string \<times> 'v \<Rightarrow> goerr + unit
    \<Rightarrow> disk \<Rightarrow> string \<times> 'v \<Rightarrow> bool" for x conf d b where
  no_size: "GetRemoteDatasetSize x conf b = (Inl err, b') \<Longrightarrow> fetch_dataset x conf d b (Inl err) d b'"
| failed: "GetRemoteDatasetSize x conf b = (Inr n, b1) \<Longrightarrow> Download x conf d b1 (Inl err) d' b' \<Longrightarrow>
     fetch_dataset x conf d b (Inl (wrapped (''failed to download dataset '' @ in_quotes (dDatasetID conf)) err)) d' b'"
| fetched: "GetRemoteDatasetSize x conf b = (Inr n, b1) \<Longrightarrow> Download x conf d b1 (Inr u) d' b' \<Longrightarrow>
     fetch_dataset x conf d b (Inr ()) d' b'"

definition prepare_download :: "('k, 'x) command_env \<Rightarrow> (string \<Rightarrow> string \<Rightarrow> goerr + 'x batch_ops) \<Rightarrow> string list \<Rightarrow> 'x shell \<Rightarrow> disk
    \<Rightarrow> (goerr + 'x transfer_clients) \<times> 'x shell \<times> disk" where
  "prepare_download e new_store args s d =
     (if length args < 2 then (Inl not_enough, s, d)
      else case output_folder (args ! 1) d of
        (Inl err, d) \<Rightarrow> (Inl (HandleError err), s, d)
      | (Inr _, d) \<Rightarrow> (case download_clients e new_store s of (r, s) \<Rightarrow> (r, s, d)))"

definition ending :: "goerr + unit \<Rightarrow> ended" where
  "ending r = (case r of Inl err \<Rightarrow> Failing (HandleError err) | Inr _ \<Rightarrow> Done)"

definition downloading :: "string \<Rightarrow> 'x shell \<Rightarrow> 'x shell" where
  "downloading datasetID = print_line (''Downloading dataset with ID '' @ in_quotes datasetID)"

inductive dataset_download :: "('k, 'x) command_env \<Rightarrow> (string \<Rightarrow> string \<Rightarrow> goerr + 'x batch_ops) \<Rightarrow> 'x batch_world transfer_env
    \<Rightarrow> string list \<Rightarrow> 'x shell \<Rightarrow> disk \<Rightarrow> ended \<Rightarrow> 'x shell \<Rightarrow> disk \<Rightarrow> bool" for e new_store x args s d where
  refused: "prepare_download e new_store args s d = (Inl err, s', d') \<Longrightarrow> dataset_download e new_store x args s d (Failing err) s' d'"
| ended: "prepare_download e new_store args s d = (Inr tc, s1, d1) \<Longrightarrow>
     fetch_dataset x (download_config tc (tcProject tc) (args ! 1) (args ! 0)) d1 (batch (downloading (args ! 0) s1)) r d' b \<Longrightarrow>
     dataset_download e new_store x args s d (ending r) ((downloading (args ! 0) s1)\<lparr>batch := b\<rparr>) d'"

section \<open>The outputs of a workload\<close>

text \<open>\<open>md5\<close> is the digest in hexadecimal digits.\<close>

definition task_folder :: "(string \<Rightarrow> string) \<Rightarrow> string \<Rightarrow> TaskSummary \<Rightarrow> string" where
  "task_folder md5 outputDir t = Join [outputDir, md5 (concat (tsCmd t)) @ ''_'' @ int_text (tsTaskID t)]"

definition already_there :: "TaskSummary \<Rightarrow> 'x shell \<Rightarrow> 'x shell" where
  "already_there t = print_line (''Dataset '' @ tsOutputDatasetID t @ '' for task '' @ int_text (tsTaskID t) @ '' already exists'')"

definition output_config :: "(string \<Rightarrow> string) \<Rightarrow> 'x transfer_clients \<Rightarrow> string \<Rightarrow> TaskSummary \<Rightarrow> 'x batch_world DownloadConfig" where
  "output_config md5 tc outputDir t = download_config tc (PName (SProject (tcSession tc))) (task_folder md5 outputDir t) (tsOutputDatasetID t)"

text \<open>Of the errors of \<^verbatim>\<open>Mkdir\<close> only that of a folder that is there is looked at.\<close>

inductive fetch_outputs :: "'x batch_world transfer_env \<Rightarrow> (string \<Rightarrow> string) \<Rightarrow> 'x transfer_clients \<Rightarrow> string
    \<Rightarrow> TaskSummary option list \<Rightarrow> 'x shell \<Rightarrow> disk \<Rightarrow> ended \<Rightarrow> 'x shell \<Rightarrow> disk \<Rightarrow> bool" for x md5 tc outputDir where
  through: "fetch_outputs x md5 tc outputDir [] s d Done s d"
| null_task: "fetch_outputs x md5 tc outputDir (None # ts) s d Panics s d"
| no_output: "tsOutputDatasetID t = [] \<Longrightarrow> fetch_outputs x md5 tc outputDir ts s d r s' d' \<Longrightarrow>
     fetch_outputs x md5 tc outputDir (Some t # ts) s d r s' d'"
| there: "tsOutputDatasetID t \<noteq> [] \<Longrightarrow> Mkdir (task_folder md5 outputDir t) d = (Inl err, d1) \<Longrightarrow> IsExist err \<Longrightarrow>
     fetch_outputs x md5 tc outputDir ts (already_there t s) d1 r s' d' \<Longrightarrow>
     fetch_outputs x md5 tc outputDir (Some t # ts) s d r s' d'"
| failed: "tsOutputDatasetID t \<noteq> [] \<Longrightarrow> Mkdir (task_folder md5 outputDir t) d = (m, d1) \<Longrightarrow> \<not> (\<exists>err. m = Inl err \<and> IsExist err) \<Longrightarrow>
     fetch_dataset x (output_config md5 tc outputDir t) d1 (batch (downloading (tsOutputDatasetID t) s)) (Inl err) d' b \<Longrightarrow>
     fetch_outputs x md5 tc outputDir (Some t # ts) s d (Failing (HandleError err)) ((downloading (tsOutputDatasetID t) s)\<lparr>batch := b\<rparr>) d'"
| fetched: "tsOutputDatasetID t \<noteq> [] \<Longrightarrow> Mkdir (task_folder md5 outputDir t) d = (m, d1) \<Longrightarrow> \<not> (\<exists>err. m = Inl err \<and> IsExist err) \<Longrightarrow>
     fetch_dataset x (output_config md5 tc outputDir t) d1 (batch (downloading (tsOutputDatasetID t) s)) (Inr u) d2 b \<Longrightarrow>
     fetch_outputs x md5 tc outputDir ts ((downloading (tsOutputDatasetID t) s)\<lparr>batch := b\<rparr>) d2 r s' d' \<Longrightarrow>
     fetch_outputs x md5 tc outputDir (Some t # ts) s d r s' d'"

inductive workload_download :: "('k, 'x) command_env \<Rightarrow> (string \<Rightarrow> string \<Rightarrow> goerr + 'x batch_ops) \<Rightarrow> 'x batch_world transfer_env
    \<Rightarrow> (string \<Rightarrow> string) \<Rightarrow> string list \<Rightarrow> 'x shell \<Rightarrow> disk \<Rightarrow> ended \<Rightarrow> 'x shell \<Rightarrow> disk \<Rightarrow> bool" for e new_store x md5 args s d where
  refused: "prepare_download e new_store args s d = (Inl err, s', d') \<Longrightarrow> workload_download e new_store x md5 args s d (Failing err) s' d'"
| no_tasks: "prepare_download e new_store args s d = (Inr tc, s1, d1) \<Longrightarrow>
     on_batch (ListTasks (tcBatch tc) (PName (SProject (tcSession tc))) (args ! 0) True) s1 = (Inl err, s') \<Longrightarrow>
     workload_download e new_store x md5 args s d (Failing (HandleError err)) s' d1"
| tasks: "prepare_download e new_store args s d = (Inr tc, s1, d1) \<Longrightarrow>
     on_batch (ListTasks (tcBatch tc) (PName (SProject (tcSession tc))) (args ! 0) True) s1 = (Inr ts, s2) \<Longrightarrow>
     fetch_outputs x md5 tc (args ! 1) ts s2 d1 r s' d' \<Longrightarrow>
     workload_download e new_store x md5 args s d r s' d'"

section \<open>Folders stay\<close>

text \<open>Nothing in a download takes a folder away.\<close>

definition keeps_folders :: "disk \<Rightarrow> disk \<Rightarrow> bool" where
  "keeps_folders d d' \<longleftrightarrow> (\<forall>q. node_at d q = Some DirNode \<longrightarrow> node_at d' q = Some DirNode)"

lemma keeps_folders_refl [simp, intro]: "keeps_folders d d"
  by (simp add: keeps_folders_def)

lemma keeps_folders_trans [trans]: "keeps_folders d d1 \<Longrightarrow> keeps_folders d1 d' \<Longrightarrow> keeps_folders d d'"
  by (simp add: keeps_folders_def)

lemma keeps_folders_update [simp]: "keeps_folders d (d'\<lparr>handles := h\<rparr>) = keeps_folders d d'"
    "keeps_folders d (d'\<lparr>space := k\<rparr>) = keeps_folders d d'"
    "keeps_folders (d\<lparr>handles := h\<rparr>) d' = keeps_folders d d'"
    "keeps_folders (d\<lparr>space := k\<rparr>) d' = keeps_folders d d'"
  by (simp_all add: keeps_folders_def node_at_def)

lemma put_node_keeps: "node_at d p \<noteq> Some DirNode \<or> n = DirNode \<Longrightarrow> keeps_folders d (put_node p n d)"
  by (auto simp: keeps_folders_def node_at_def put_node_def)

lemma mkdir_all_keeps: "mkdir_all ps d = (r, d') \<Longrightarrow> keeps_folders d d'"
proof (induction ps d rule: mkdir_all.induct)
  case (2 q qs d)
  show ?case
  proof (cases "node_at d q")
    case None
    with 2 have "keeps_folders (put_node q DirNode d) d'" by simp
    with put_node_keeps [of d q DirNode] show ?thesis by (blast intro: keeps_folders_trans)
  next
    case (Some n)
    with 2 show ?thesis by (cases n) auto
  qed
qed simp

lemma create_exclusive_keeps:
  "create_exclusive p perm d = (r, d') \<Longrightarrow> keeps_folders d d' \<and> (\<forall>u. r = Inr u \<longrightarrow> node_at d' p \<noteq> Some DirNode)"
proof -
  have "keeps_folders d (new_file p perm d)" and "node_at (new_file p perm d) p \<noteq> Some DirNode" if "node_at d p = None"
    using that put_node_keeps [of "d\<lparr>handles := handles d - 1\<rparr>" p "FileNode perm [] (now d)"]
    by (simp_all add: new_file_def) (auto simp: node_at_def put_node_def split: if_splits)
  then show "create_exclusive p perm d = (r, d') \<Longrightarrow> ?thesis"
    by (auto simp: create_exclusive_def split: if_splits option.splits node.splits)
qed

lemma safeFilePath_keeps:
  "safeFilePath n p perm d = Some (r, d') \<Longrightarrow> keeps_folders d d' \<and> (\<forall>f. r = Inr f \<longrightarrow> node_at d' f \<noteq> Some DirNode)"
proof (induction n p perm d rule: safeFilePath.induct)
  case (2 n p perm d)
  obtain c d1 where c: "create_exclusive p perm d = (c, d1)" by (cases "create_exclusive p perm d")
  note k = create_exclusive_keeps [OF c]
  show ?case
  proof (cases c)
    case (Inl err)
    show ?thesis
    proof (cases "IsExist err")
      case True
      with 2 c Inl have "keeps_folders d1 d' \<and> (\<forall>f. r = Inr f \<longrightarrow> node_at d' f \<noteq> Some DirNode)" by simp
      with k show ?thesis by (blast intro: keeps_folders_trans)
    qed (use 2 c Inl k in auto)
  qed (use 2 c k in auto)
qed simp

lemma write_file_keeps:
  "node_at d f \<noteq> Some DirNode \<Longrightarrow> write_file f data rerr d = (r, d') \<Longrightarrow> keeps_folders d d'"
  using put_node_keeps [of "d\<lparr>space := space d - min (length data) (space d)\<rparr>" f]
  by (auto simp: write_file_def Let_def node_at_def)

lemma Chtimes_keeps: "Chtimes p mtime d = (r, d') \<Longrightarrow> keeps_folders d d'"
  using put_node_keeps [of d p] by (auto simp: Chtimes_def split: option.splits node.splits)

lemma untar_entry_keeps:
  assumes "untar_entry n dir e d = Some (r, d')"
  shows "keeps_folders d d'"
proof -
  obtain hdr data rerr where e: "e = (hdr, data, rerr)" by (cases e)
  let ?p = "Join [dir, denormalizeName (hName hdr)]"
  obtain m d1 where m: "MkdirAll (Dir ?p) d = (m, d1)" by (cases "MkdirAll (Dir ?p) d")
  have k1: "keeps_folders d d1" using m by (auto simp: MkdirAll_def dest: mkdir_all_keeps)
  show ?thesis
  proof (cases m)
    case (Inl err)
    with assms m k1 show ?thesis by (simp add: untar_entry_def e Let_def)
  next
    case (Inr u)
    then obtain f d2 where f: "safeFilePath n ?p (hMode hdr mod 2 ^ 32) d1 = Some (f, d2)"
      using assms m by (auto simp: untar_entry_def e Let_def split: option.splits)
    note k2 = safeFilePath_keeps [OF f]
    show ?thesis
    proof (cases f)
      case (Inl err)
      with assms m Inr f k1 k2 show ?thesis
        by (auto simp: untar_entry_def e Let_def intro: keeps_folders_trans)
    next
      case file_made: (Inr q)
      obtain k werr d3 where w: "write_file q data rerr d2 = ((k, werr), d3)" by (metis surj_pair)
      have k3: "keeps_folders d2 d3" using write_file_keeps [OF _ w] k2 file_made by simp
      obtain c d4 where c: "Chtimes ?p (hModTime hdr) d3 = (c, d4)" by (cases "Chtimes ?p (hModTime hdr) d3")
      have k03: "keeps_folders d d3" using k1 k2 k3 by (blast intro: keeps_folders_trans)
      moreover have "keeps_folders d d4" using k03 Chtimes_keeps [OF c] by (rule keeps_folders_trans)
      moreover have "d' = d3 \<or> d' = d4"
        using assms m Inr f file_made w c by (auto simp: untar_entry_def e Let_def split: option.splits sum.splits if_splits)
      ultimately show ?thesis by auto
    qed
  qed
qed

lemma untar_loop_keeps: "untar_loop n ctx i dir es fin d = Some (r, d') \<Longrightarrow> keeps_folders d d'"
proof (induction n ctx i dir es fin d rule: untar_loop.induct)
  case (2 n ctx i dir e es fin d)
  show ?case
  proof (cases "ctx i")
    case None
    with 2(2) obtain q d1 where q: "untar_entry n dir e d = Some (q, d1)" by (auto split: option.splits)
    note k = untar_entry_keeps [OF q]
    show ?thesis
    proof (cases q)
      case (Inr u)
      with 2 None q have "keeps_folders d1 d'" by simp
      with k show ?thesis by (rule keeps_folders_trans)
    qed (use 2(2) None q k in simp)
  qed (use 2(2) in simp)
qed (auto split: option.splits if_splits)

lemma untardir_keeps: "untardir n ctx dir es fin d = Some (r, d') \<Longrightarrow> keeps_folders d d'"
  by (auto simp: untardir_def dest: untar_loop_keeps)

lemma down_steps_keep: "(down_step p)\<^sup>*\<^sup>* s s' \<Longrightarrow> keeps_folders (down_disk s) (down_disk s')"
proof (induction rule: rtranclp_induct)
  case (step s s')
  from step.hyps(2) have "keeps_folders (down_disk s) (down_disk s')"
    by cases (simp_all add: untardir_keeps)
  with step.IH show ?case by (rule keeps_folders_trans)
qed simp

lemma Download_keeps: "Download x conf d w r d' w' \<Longrightarrow> keeps_folders d d'"
  by (erule Download.cases) (use down_steps_keep in \<open>fastforce simp: down_start_def\<close>)+

lemma fetch_dataset_keeps: "fetch_dataset x conf d b r d' b' \<Longrightarrow> keeps_folders d d'"
  by (erule fetch_dataset.cases) (auto dest: Download_keeps)

lemma Mkdir_keeps: "Mkdir p d = (r, d') \<Longrightarrow> keeps_folders d d'"
  using put_node_keeps [of d p DirNode] by (auto simp: Mkdir_def split: if_splits option.splits node.splits)

lemma fetch_outputs_keep: "fetch_outputs x md5 tc dir ts s d r s' d' \<Longrightarrow> keeps_folders d d'"
  by (induction rule: fetch_outputs.induct) (blast intro: keeps_folders_trans dest: Mkdir_keeps fetch_dataset_keeps)+

lemma Mkdir_makes: "Mkdir p d = (Inr u, d') \<Longrightarrow> node_at d' p = Some DirNode"
  by (auto simp: Mkdir_def node_at_def put_node_def split: if_splits option.splits node.splits)

lemma Mkdir_there: "node_at d p = Some DirNode \<Longrightarrow> Mkdir p d = (Inl (PathError ''mkdir'' p EEXIST), d)"
  by (simp add: Mkdir_def)

end
