(* ===== verification/Client_Frame.thy ===== *)
theory Client_Frame
  imports Transfer_Commands
begin

text \<open>
  What the client of a command leaves alone. A command's client fetches, refreshes and stores credentials on the
  way to a request, through three providers and an auth client with a provider of its own. Whatever part of the
  network the transport does not touch, none of that touches either; so a store of objects is where the last upload
  left it.
\<close>

section \<open>Operations that keep an observation\<close>

definition keeps :: "('s \<Rightarrow> 'b) \<Rightarrow> ('s \<Rightarrow> 'r \<times> 's) \<Rightarrow> bool" where
  "keeps g f \<longleftrightarrow> (\<forall>s. g (snd (f s)) = g s)"

named_theorems keeping \<open>operations that keep an observation\<close>

lemma keepsI: "(\<And>s. g (snd (f s)) = g s) \<Longrightarrow> keeps g f"
  by (simp add: keeps_def)

lemma keepsD: "keeps g f \<Longrightarrow> f s = (r, s') \<Longrightarrow> g s' = g s"
  by (metis keeps_def snd_conv)

lemma keeps_pair [keeping]: "keeps g (Pair x)" "keeps g (\<lambda>s. (h s, s))"
  by (simp_all add: keeps_def)

lemma keeps_call [keeping]:
  assumes "keeps g m" and "\<And>x. keeps g (k x)"
  shows "keeps g (call m h k)"
  using assms by (auto simp: keeps_def call_def split: prod.splits sum.splits) (metis snd_conv)+

text \<open>The same at one state, for what looks at it.\<close>

lemma kept_call:
  "keeps g m \<Longrightarrow> (\<And>x s. g (snd (k x s)) = g s) \<Longrightarrow> g (snd (call m h k s)) = g s"
  using keeps_call [of g m k h] by (simp add: keeps_def)

lemma kept_check: "(\<And>x. g (snd (k x s)) = g s) \<Longrightarrow> g (snd (check r h k s)) = g s"
  by (auto simp: check_def split: sum.splits)

lemma keeps_check [keeping]: "(\<And>x. keeps g (k x)) \<Longrightarrow> keeps g (check r h k)"
  by (auto simp: keeps_def check_def split: sum.splits)

lemma keeps_cond [keeping]: "keeps g f1 \<Longrightarrow> keeps g f2 \<Longrightarrow> keeps g (if c then f1 else f2)"
  by simp

lemma keeps_case [keeping]: "keeps g f1 \<Longrightarrow> (\<And>x. keeps g (f2 x)) \<Longrightarrow> keeps g (case o1 of None \<Rightarrow> f1 | Some x \<Rightarrow> f2 x)"
  by (cases o1) simp_all

lemma keeps_outside [keeping]: "keeps g f \<Longrightarrow> keeps (g \<circ> snd) (outside f)"
  by (auto simp: keeps_def outside_def split: prod.splits) (metis snd_conv)

lemma keeps_past [keeping]: "keeps g f \<Longrightarrow> keeps (g \<circ> snd) (past f)"
  by (auto simp: keeps_def past_def split: prod.splits) (metis snd_conv)

lemma keeps_send: "(\<And>req. keeps g (exec req)) \<Longrightarrow> keeps g (send exec h out req)"
  by (auto simp: keeps_def send_def split: prod.splits sum.splits) (metis snd_conv)+

section \<open>Requests\<close>

definition keeps_provider :: "('w \<Rightarrow> 'b) \<Rightarrow> 'w provider \<Rightarrow> bool" where
  "keeps_provider g p \<longleftrightarrow> keeps g (IsExpired p) \<and> keeps g (Retrieve p)"

lemma keeps_get_credential:
  assumes "keeps_provider g p"
  shows "keeps (g \<circ> snd) (get_credential no (Some p))"
  unfolding keeps_def
proof
  fix s :: "string \<times> 'a"
  obtain cred w where s: "s = (cred, w)" by (cases s)
  obtain b w1 where e: "(if cred = [] then (True, w) else IsExpired p w) = (b, w1)" by (rule prod.exhaust)
  with assms have w1: "g w1 = g w" by (auto simp: keeps_provider_def dest: keepsD split: if_splits)
  obtain r w2 where r: "Retrieve p w1 = (r, w2)" by (rule prod.exhaust)
  with assms have "g w2 = g w1" by (auto simp: keeps_provider_def dest: keepsD)
  with w1 e r s show "(g \<circ> snd) (snd (get_credential no (Some p) s)) = (g \<circ> snd) s"
    by (cases r; cases b) (simp_all add: get_credential_def Let_def)
qed

lemma keeps_auth_doRequest:
  assumes "TokenProvider c = Some p" and "keeps_provider g p" and "\<And>req. keeps g (Doer c req)"
  shows "keeps (g \<circ> snd) (auth_doRequest c m path i out)"
  unfolding auth_doRequest_def getOAuthAccessToken_def assms(1)
proof (rule keeps_call [OF keeps_get_credential [OF assms(2)]], rule keeps_check)
  fix cred u
  let ?req = "bearer_request m (ResolveReference (BaseURL c) u) i cred"
  show "keeps (g \<circ> snd) (\<lambda>s. case send (Doer c) auth_http_error out ?req (snd s) of (r, w) \<Rightarrow> (r, fst s, w))"
  proof (rule keepsI)
    fix s
    obtain r w where "send (Doer c) auth_http_error out ?req (snd s) = (r, w)" by (rule prod.exhaust)
    moreover from keepsD [OF keeps_send this] assms(3) have "g w = g (snd s)" by blast
    ultimately show "(g \<circ> snd) (snd (case send (Doer c) auth_http_error out ?req (snd s) of (r, w) \<Rightarrow> (r, fst s, w))) = (g \<circ> snd) s"
      by simp
  qed
qed

lemma keeps_ops_doRequest: "(\<And>req. keeps g (exec req)) \<Longrightarrow> keeps g (ops_doRequest exec base m path form out)"
  unfolding ops_doRequest_def by (intro keeps_check keeps_send)

lemma keeps_token_doRequest: "(\<And>req. keeps g (exec req)) \<Longrightarrow> keeps g (token_doRequest exec base m path i out)"
  unfolding token_doRequest_def by (intro keeps_check keeps_send)

section \<open>Providers\<close>

lemma keeps_SetExpirationFromJWT: "keeps (g \<circ> snd) (SetExpirationFromJWT parse key jwt)"
  by (auto simp: keeps_def SetExpirationFromJWT_def split: sum.splits)

text \<open>An observation of the world that the operations a provider is given keep.\<close>

definition keeps_deps :: "('w \<Rightarrow> 'b) \<Rightarrow> ('k, 'w) jwt_deps \<Rightarrow> bool" where
  "keeps_deps g d \<longleftrightarrow> keeps g (read_session d) \<and> (\<forall>t r. keeps g (store_jwt d t r)) \<and> (\<forall>p t r. keeps g (refresh_jwt d p t r))
     \<and> (\<forall>sc. keeps g (get_jwt d sc))"

text \<open>How a provider ends: the expiration, a refresh if it must be, the check.\<close>

lemma kept_token:
  assumes "\<And>s. keeps (g \<circ> snd) (f s)"
  shows "(g \<circ> snd) (snd (call (SetExpirationFromJWT parse key jwt) h1 (\<lambda>_ s. call (f s) h2
    (\<lambda>jwt s. check (jwt_valid d jwt s) h3 (\<lambda>_ s. (Inr jwt, s)) s) s) s)) = (g \<circ> snd) s"
  by (intro kept_call keeps_SetExpirationFromJWT assms kept_check) (simp only: snd_conv)

lemma keeps_EnvProvider:
  assumes "keeps_deps g d"
  shows "keeps (g \<circ> snd) (EnvProvider_Retrieve d)"
proof -
  have "keeps (g \<circ> snd) (EnvProvider_refresh d jwt secret)" for jwt secret
    using assms unfolding EnvProvider_refresh_def keeps_deps_def
    by (intro keeps_call keeps_outside keeps_SetExpirationFromJWT keeps_pair) auto
  then have r: "keeps (g \<circ> snd) (if c then EnvProvider_refresh d jwt secret else Pair x)" for c jwt secret x
    by (intro keeps_cond keeps_pair)
  show ?thesis
    unfolding EnvProvider_Retrieve_def Let_def
    by (rule keepsI, split if_split, intro conjI impI) (simp_all only: snd_conv kept_token [OF r])
qed

lemma keeps_ConfigProvider:
  assumes "keeps_deps g d"
  shows "keeps (g \<circ> snd) (ConfigProvider_Retrieve d)"
proof -
  have "keeps (g \<circ> snd) (ConfigProvider_refresh d jwt secret project)" for jwt secret project
    using assms unfolding ConfigProvider_refresh_def keeps_deps_def
    by (intro keeps_call keeps_outside keeps_SetExpirationFromJWT keeps_pair) auto
  then have r: "keeps (g \<circ> snd) (if c then ConfigProvider_refresh d jwt secret project else Pair x)" for c jwt secret project x
    by (intro keeps_cond keeps_pair)
  have "keeps (g \<circ> snd) (outside (read_session d))" using assms by (intro keeps_outside) (simp add: keeps_deps_def)
  then show ?thesis
    unfolding ConfigProvider_Retrieve_def Let_def
    by (rule keeps_call) (rule keepsI, split if_split, intro conjI impI, simp_all only: snd_conv kept_token [OF r])
qed

lemma keeps_AuthAPIProvider:
  assumes "keeps_deps g d"
  shows "keeps (g \<circ> snd) (AuthAPIProvider_Retrieve d)"
proof -
  have t: "keeps (g \<circ> snd) (outside (get_jwt d jwtScope))" and "keeps (g \<circ> snd) (outside (store_jwt d t r))" for t r
    using assms by (auto intro!: keeps_outside simp: keeps_deps_def)
  then have s: "(g \<circ> snd) (snd (call (outside (store_jwt d t r)) h (\<lambda>_ s. (x, s)) s)) = (g \<circ> snd) s"
    for t r s and h :: "goerr \<Rightarrow> goerr" and x :: "goerr + string"
    by (intro kept_call) (simp_all only: snd_conv)
  show ?thesis
    unfolding AuthAPIProvider_Retrieve_def
    by (rule keeps_call [OF t], rule keepsI) (intro kept_call keeps_SetExpirationFromJWT kept_check s)
qed

text \<open>The provider of the auth client, and the chain.\<close>

definition keeps_oauth :: "('w \<Rightarrow> 'b) \<Rightarrow> 'w oauth_deps \<Rightarrow> bool" where
  "keeps_oauth g d \<longleftrightarrow> keeps g (oauth_read d) \<and> (\<forall>a r x sc t. keeps g (oauth_write d a r x sc t)) \<and> (\<forall>r c. keeps g (oauth_refresh d r c))"

lemma keeps_OAuth_refresh:
  assumes "keeps_oauth g d"
  shows "keeps (g \<circ> snd) (OAuth_refresh d rt client)"
proof -
  have o: "keeps (g \<circ> snd) (outside (oauth_refresh d rt client))" and w: "keeps (g \<circ> snd) (outside (oauth_write d a r x sc t))" for a r x sc t
    using assms by (auto intro!: keeps_outside simp: keeps_oauth_def)
  show ?thesis unfolding OAuth_refresh_def Let_def
  proof (rule keeps_call [OF o], rule keepsI)
    fix out and s :: "ProviderBasis \<times> 'a"
    obtain b v where s: "s = (b, v)" by (cases s)
    have "(g \<circ> snd) (snd (call (outside (oauth_write d a r x sc t)) h (\<lambda>_ s. (y, s)) (b', v))) = (g \<circ> snd) (b', v)"
      for a r x sc t b' and h :: "goerr \<Rightarrow> goerr" and y :: "goerr + string"
      by (intro kept_call w) (simp only: snd_conv)
    then show "(g \<circ> snd) (snd (case s of (b, v) \<Rightarrow>
        call (outside (oauth_write d (ocAccessToken out) (ocRefreshToken out) (wrap64 (unix_seconds (oauth_clock d v) + ExpiresIn out) * second)
            (ocScope out) (ocTokenType out))) (wrapped ''failed to write oauth tokens to config'') (\<lambda>_ s. (Inr (ocAccessToken out), s))
          (OAuth_SetExpiration (wrap64 (unix_seconds (oauth_clock d v) + ExpiresIn out) * second) b, v))) = (g \<circ> snd) s"
      unfolding s by simp
  qed
qed

lemma keeps_OAuth_Retrieve:
  assumes "keeps_oauth g d"
  shows "keeps (g \<circ> snd) (OAuth_Retrieve d)"
proof -
  have "keeps (g \<circ> snd) (outside (oauth_read d))" using assms by (intro keeps_outside) (simp add: keeps_oauth_def)
  then show ?thesis unfolding OAuth_Retrieve_def Let_def
  proof (rule keeps_call, intro keepsI)
    fix ss and s :: "ProviderBasis \<times> 'a"
    obtain b v where s: "s = (b, v)" by (cases s)
    have "(g \<circ> snd) (snd (call (OAuth_refresh d rt client) h (\<lambda>t s. (Inr t, s)) (b', v))) = g v" for rt client b' and h :: "goerr \<Rightarrow> goerr"
      by (rule kept_call [OF keeps_OAuth_refresh [OF assms], THEN trans]) simp_all
    then show "(g \<circ> snd) (snd (case s of (b, v) \<Rightarrow> if AccessToken (SOAuth ss) = [] then (Inl (Sentinel ErrTokenUnset), b, v)
         else if OAuth_IsExpired (oauth_clock d v) (OAuth_SetExpiration (Expiration (SOAuth ss)) b) then
           call (OAuth_refresh d (RefreshToken (SOAuth ss)) (OAuthClientID d)) (wrapped ''failed to refresh oauth access token'')
             (\<lambda>token s. (Inr token, s)) (OAuth_SetExpiration (Expiration (SOAuth ss)) b, v)
         else (Inr (AccessToken (SOAuth ss)), OAuth_SetExpiration (Expiration (SOAuth ss)) b, v))) = (g \<circ> snd) s"
      unfolding s by simp
  qed
qed

section \<open>The client of a command\<close>

lemma keeps_on_disk: "(\<And>w fs. g (w\<lparr>wfs := fs\<rparr>) = g w) \<Longrightarrow> keeps g (on_disk f)"
  by (auto simp: keeps_def on_disk_def split: prod.splits)

lemma keeps_oauth_provider:
  assumes "\<And>req. keeps g (transport e req)" and "\<And>w fs. g (w\<lparr>wfs := fs\<rparr>) = g w"
  shows "keeps_provider (g \<circ> snd) (oauth_provider e authbase)"
proof -
  have "keeps_oauth g (nerd_oauth_deps (transport e) base loc client)" for base loc client
    using assms by (simp add: keeps_oauth_def nerd_oauth_deps_def keeps_on_disk RefreshOAuthCredentials_def keeps_ops_doRequest)
  from keeps_OAuth_Retrieve [OF this] show ?thesis
    by (auto simp: keeps_provider_def oauth_provider_def keeps_def split: prod.splits)
qed

lemma keeps_command_deps:
  assumes "\<And>req. keeps g (transport e req)" and "\<And>w fs. g (w\<lparr>wfs := fs\<rparr>) = g w"
  shows "keeps_deps (g \<circ> snd \<circ> snd) (command_jwt_deps e key authbase)"
proof -
  have p: "keeps (g \<circ> snd \<circ> snd) (past (past f))" if "keeps g f" for f :: "'a world \<Rightarrow> 'r \<times> 'a world"
    using keeps_past [OF keeps_past [OF that]] by (simp add: comp_assoc)
  have "keeps (g \<circ> snd \<circ> snd) (GetJWT (auth_client e authbase) sc)" for sc
    unfolding GetJWT_def
    by (rule keeps_auth_doRequest [where g = "g \<circ> snd" and p = "oauth_provider e authbase"])
      (simp_all add: auth_client_def NewClient_def keeps_oauth_provider assms keeps_past)
  then show ?thesis
    using assms by (simp add: keeps_deps_def command_jwt_deps_def p keeps_on_disk RefreshJWT_def keeps_token_doRequest)
qed

lemma keeps_basis_provider:
  assumes "keeps (g \<circ> snd) retrieve"
  shows "keeps_provider (g \<circ> snd) (basis_provider fetch put clk retrieve)"
  unfolding keeps_provider_def
proof
  show "keeps (g \<circ> snd) (IsExpired (basis_provider fetch put clk retrieve))"
    by (auto simp: keeps_def basis_provider_def split: prod.splits)
  show "keeps (g \<circ> snd) (Retrieve (basis_provider fetch put clk retrieve))"
  proof (rule keepsI)
    fix s
    obtain r b w where r: "retrieve (fetch (fst s), snd s) = (r, b, w)" by (rule prod_cases3)
    with keepsD [OF assms r] show "(g \<circ> snd) (snd (Retrieve (basis_provider fetch put clk retrieve) s)) = (g \<circ> snd) s"
      by (cases s) (simp add: basis_provider_def)
  qed
qed

lemma keeps_try_providers: "list_all (keeps_provider g) ps \<Longrightarrow> g (snd (try_providers ps i err w)) = g w"
proof (induction ps arbitrary: i err w)
  case (Cons p ps)
  obtain r u where r: "Retrieve p w = (r, u)" by (rule prod.exhaust)
  with Cons.prems have "g u = g w" by (auto simp: keeps_provider_def dest: keepsD)
  with Cons r show ?case by (cases r) simp_all
qed simp

lemma keeps_chain:
  assumes "list_all (keeps_provider g) ps"
  shows "keeps_provider (g \<circ> snd) \<lparr>IsExpired = Chained_IsExpired ps, Retrieve = Chained_Retrieve ps\<rparr>"
proof -
  have "g (snd (snd (Chained_Retrieve ps (c, w)))) = g w" for c w
  proof -
    obtain r u where t: "try_providers ps 0 None w = (r, u)" by (rule prod.exhaust)
    with keeps_try_providers [OF assms, of 0 None w] show ?thesis by (cases r) (auto simp: Chained_Retrieve_def)
  qed
  moreover have "g (snd (snd (Chained_IsExpired ps (c, w)))) = g w" for c w
  proof (cases "\<exists>i. c = Some i \<and> i < length ps")
    case True
    then obtain i where i: "c = Some i" "i < length ps" by blast
    with assms have "keeps g (IsExpired (ps ! i))" by (simp add: list_all_length keeps_provider_def)
    moreover obtain b u where "IsExpired (ps ! i) w = (b, u)" by (rule prod.exhaust)
    ultimately show ?thesis using i by (auto simp: Chained_IsExpired_def dest: keepsD)
  qed (auto simp: Chained_IsExpired_def split: option.splits)
  ultimately show ?thesis by (auto simp: keeps_provider_def keeps_def)
qed

text \<open>
  Whatever the transport leaves alone in the network is left alone by the whole client: by its requests, and by every
  retrieval of a credential on the way, with the refreshing and storing that go with it.
\<close>

lemma command_client_keeps:
  assumes "command_NewClient e = Inr c" and "\<And>req. keeps g (transport e req)" and "\<And>w fs. g (w\<lparr>wfs := fs\<rparr>) = g w"
  shows "\<exists>p. TokenProvider c = Some p \<and> keeps_provider (g \<circ> outer) p \<and> (\<forall>req. keeps (g \<circ> outer) (Doer c req))"
proof -
  from assms(1) obtain key base authbase where
    c: "c = NewClient \<lparr>Doer = (\<lambda>req. with_outer (transport e req)), TokenProvider = Some \<lparr>IsExpired = Chained_IsExpired (jwt_providers e key authbase),
      Retrieve = Chained_Retrieve (jwt_providers e key authbase)\<rparr>, BaseURL = base\<rparr>"
    by (auto simp: command_NewClient_def Let_def split: sum.splits)
  have o: "g \<circ> outer = (g \<circ> snd \<circ> snd \<circ> snd) \<circ> snd" by (simp add: fun_eq_iff outer_def)
  let ?d = "command_jwt_deps e key authbase"
  have d: "keeps_deps (g \<circ> snd \<circ> snd) ?d" by (rule keeps_command_deps [OF assms(2,3)])
  have "list_all (keeps_provider (g \<circ> snd \<circ> snd \<circ> snd)) (jwt_providers e key authbase)"
    using keeps_basis_provider [OF keeps_EnvProvider [OF d]] keeps_basis_provider [OF keeps_ConfigProvider [OF d]]
      keeps_basis_provider [OF keeps_AuthAPIProvider [OF d]]
    by (simp add: jwt_providers_def Let_def)
  from keeps_chain [OF this] have "keeps_provider (g \<circ> outer)
      \<lparr>IsExpired = Chained_IsExpired (jwt_providers e key authbase), Retrieve = Chained_Retrieve (jwt_providers e key authbase)\<rparr>"
    by (simp only: o)
  moreover have "keeps (g \<circ> outer) (with_outer (transport e req))" for req
  proof (rule keepsI)
    fix v :: "'a batch_world"
    obtain a bs tok ob w where v: "v = (a, bs, tok, ob, w)" by (cases v) auto
    obtain r u where t: "transport e req w = (r, u)" by (rule prod.exhaust)
    with assms(2) have "g u = g w" by (auto dest: keepsD)
    with t v show "(g \<circ> outer) (snd (with_outer (transport e req) v)) = (g \<circ> outer) v"
      by (simp add: with_outer_def outer_def)
  qed
  ultimately show ?thesis by (simp add: c NewClient_def)
qed

lemma command_client_quiet:
  assumes "command_NewClient e = Inr c" and "\<And>req w. stored (wnet (snd (transport e req w))) = stored (wnet w)"
  shows "quiet c (stored \<circ> wnet \<circ> outer)"
proof -
  have "keeps (stored \<circ> wnet) (transport e req)" for req using assms(2) by (simp add: keeps_def)
  from command_client_keeps [OF assms(1) this] show ?thesis
    by (auto simp: quiet_def keeps_provider_def keeps_def comp_assoc)
qed

end
