(* ===== verification/Workload_Commands.thy ===== *)
theory Workload_Commands
  imports Commands
begin

text \<open>
  The commands of workloads and workers (\<^verbatim>\<open>command/workload*.go\<close>, \<^verbatim>\<open>command/worker*.go\<close>), as in \<open>Commands\<close>.
\<close>

section \<open>Looking and stopping\<close>

text \<open>The logs go to the output as they are, past the log file.\<close>

definition worker_logs :: "('k, 'x) command_env \<Rightarrow> string list \<Rightarrow> 'x shell \<Rightarrow> ended \<times> 'x shell" where
  "worker_logs e args =
     at_least 2 args (with_project e (\<lambda>c ss projectID. attempt (on_batch (WorkerLogs c projectID (args ! 0) (args ! 1)))
       (\<lambda>logs s. (Done, s\<lparr>console := (console s)\<lparr>out_lines := out_lines (console s) @ [logs]\<rparr>\<rparr>))))"

definition workload_describe :: "('k, 'x) command_env \<Rightarrow> renderer \<Rightarrow> string list \<Rightarrow> 'x shell \<Rightarrow> ended \<times> 'x shell" where
  "workload_describe e render args =
     at_least 1 args (with_project e (\<lambda>c ss projectID. attempt (on_batch (DescribeWorkload c projectID (args ! 0)))
       (\<lambda>out. show_reply render (WorkloadDetails out))))"

definition workload_list :: "('k, 'x) command_env \<Rightarrow> renderer \<Rightarrow> 'x shell \<Rightarrow> ended \<times> 'x shell" where
  "workload_list e render =
     with_project e (\<lambda>c ss projectID. attempt (on_batch (ListWorkloads c projectID)) (\<lambda>out. show_reply render (Workloads out)))"

definition workload_stop :: "('k, 'x) command_env \<Rightarrow> string list \<Rightarrow> 'x shell \<Rightarrow> ended \<times> 'x shell" where
  "workload_stop e args =
     at_least 1 args (with_project e (\<lambda>c ss projectID. attempt (on_batch (StopWorkload c projectID (args ! 0)))
       (\<lambda>_. say (''Workload '' @ in_quotes (args ! 0) @ '' was stopped''))))"

text \<open>The commands that only group others.\<close>

definition group_command :: "'x shell \<Rightarrow> ended \<times> 'x shell" where
  "group_command s = (Failing not_enough, s)"

section \<open>Starting a workload\<close>

record WorkloadStartOpts =
  wsEnv :: "string list"
  wsInputDataset :: string
  wsInstances :: int
  wsPullSecret :: string
  wsSize :: nat

text \<open>The variables of a worker: those of the user, and over them what the worker needs to work.\<close>

definition worker_variables :: "(json \<Rightarrow> string) \<Rightarrow> Config \<Rightarrow> string \<Rightarrow> GetWorkerJWTOutput \<Rightarrow> (string \<times> string) list
    \<Rightarrow> (string \<times> string) list" where
  "worker_variables marshal conf project jwt wenv =
     AList.update EnvNerdProject project (AList.update EnvConfigJSON (marshal (encode_config conf))
       (AList.update NerdSecretEnvVar (wjSecret jwt) (AList.update NerdTokenEnvVar (wjToken jwt) wenv)))"

definition workload_start :: "('k, 'x) command_env \<Rightarrow> (json \<Rightarrow> string) \<Rightarrow> WorkloadStartOpts \<Rightarrow> string list
    \<Rightarrow> 'x shell \<Rightarrow> ended \<times> 'x shell" where
  "workload_start e marshal opts args =
     at_least 1 args (given (parse_auth e) (\<lambda>authbase.
       attempt (on_world (on_disk (Read (session_file e)))) (\<lambda>ss.
       given (RequireProjectID ss) (\<lambda>projectID.
       attempt (\<lambda>s. case on_auth (GetWorkerJWT (auth_client e authbase) projectID NCEScope) s of
           (Inl err, s) \<Rightarrow> (Inl (wrapped ''failed to get worker JWT'' err), s) | (Inr out, s) \<Rightarrow> (Inr out, s)) (\<lambda>workerJWT.
       given (command_NewClient e) (\<lambda>c.
       given (parse_env (wsEnv opts) []) (\<lambda>wenv.
       attempt (on_batch (CreateWorkload c (PName (SProject ss)) (args ! 0) (wsInputDataset opts) (wsPullSecret opts) (wsSize opts)
           (Some (worker_variables marshal (config e) (PName (SProject ss)) workerJWT wenv)) (wsInstances opts) True))
         (\<lambda>workload. say (''Workload created with ID: '' @ wlWorkloadID workload)))))))))"

section \<open>Working\<close>

record WorkloadWorkOpts =
  EntrypointJSONB64 :: string
  CmdJSONB64 :: string
  OutputDir :: string

text \<open>\<^verbatim>\<open>json.Unmarshal\<close> into a slice of strings that is nil.\<close>

definition decode_strings :: "(string \<Rightarrow> json option) \<Rightarrow> string \<Rightarrow> goerr + string list" where
  "decode_strings parse_text t = (case parse_text t of None \<Rightarrow> Inl json_syntax_error
     | Some j \<Rightarrow> set_slice elem_str (\<lambda>xs _. xs) j [])"

text \<open>Both values are taken out of base64 before either is read as JSON.\<close>

definition work_command :: "(string \<Rightarrow> json option) \<Rightarrow> WorkloadWorkOpts \<Rightarrow> goerr + string list \<times> string list" where
  "work_command parse_text opts =
     (case b64_decode (EntrypointJSONB64 opts) of
        Inl err \<Rightarrow> Inl (wrapped (''failed to base64 decode entrypoint '' @ in_quotes (EntrypointJSONB64 opts)) err)
      | Inr entr \<Rightarrow>
         (case b64_decode (CmdJSONB64 opts) of
            Inl err \<Rightarrow> Inl (wrapped (''failed to base64 decode cmd '' @ in_quotes (CmdJSONB64 opts)) err)
          | Inr com \<Rightarrow>
             (case decode_strings parse_text entr of
                Inl err \<Rightarrow> Inl (wrapped (''failed to decode entrypoint '' @ in_quotes entr) err)
              | Inr entrypoint \<Rightarrow>
                 (case decode_strings parse_text com of
                    Inl err \<Rightarrow> Inl (wrapped (''failed to decode cmd '' @ in_quotes com) err)
                  | Inr command \<Rightarrow> Inr (entrypoint, command)))))"

text \<open>
  What the worker is made of: the project, the workload, entrypoint and command, the folder whose
  content is uploaded, if any. AWS may refuse the queue or, where there is an output folder, the store.
\<close>

record 'q working =
  wkProject :: string
  wkWorkload :: string
  wkEntrypoint :: "string list"
  wkCmd :: "string list"
  wkUpload :: "string option"
  wkQueue :: 'q

text \<open>The worker is started (\<open>Inr\<close>) and the command ends well at an interrupt, or the command fails before.\<close>

definition workload_work :: "('k, 'x) command_env \<Rightarrow> (string \<Rightarrow> json option) \<Rightarrow> (string \<Rightarrow> string \<Rightarrow> goerr + 'q) \<Rightarrow> (string \<Rightarrow> string \<Rightarrow> goerr option)
    \<Rightarrow> WorkloadWorkOpts \<Rightarrow> string list \<Rightarrow> 'x shell \<Rightarrow> (goerr + 'q working) \<times> 'x shell" where
  "workload_work e parse_text new_queue new_store opts args s =
     (if length args < 1 then (Inl not_enough, s)
      else case work_command parse_text opts of Inl err \<Rightarrow> (Inl (HandleError err), s)
      | Inr (entrypoint, command) \<Rightarrow>
         (case command_NewClient e of Inl err \<Rightarrow> (Inl (HandleError (wrapped ''failed to create client'' err)), s)
          | Inr c \<Rightarrow>
             (case on_world (on_disk (Read (session_file e))) s of (Inl err, s) \<Rightarrow> (Inl (HandleError err), s)
              | (Inr ss, s) \<Rightarrow>
                 (case RequireProjectID ss of Inl err \<Rightarrow> (Inl (HandleError err), s)
                  | Inr projectID \<Rightarrow>
                     (case new_queue projectID (AWSRegion (SProject ss)) of Inl err \<Rightarrow> (Inl (HandleError err), s)
                      | Inr qops \<Rightarrow>
                         (case (if OutputDir opts \<noteq> [] then new_store projectID (AWSRegion (SProject ss)) else None) of
                            Some err \<Rightarrow> (Inl (HandleError (wrapped ''could not create aws dataops client'' err)), s)
                          | None \<Rightarrow> (Inr \<lparr>wkProject = projectID, wkWorkload = args ! 0, wkEntrypoint = entrypoint, wkCmd = command,
                              wkUpload = (if OutputDir opts \<noteq> [] then Some (OutputDir opts) else None), wkQueue = qops\<rparr>, s)))))))"

end
