(* ===== verification/Command_Properties.thy ===== *)
theory Command_Properties
  imports Workload_Commands
begin

text \<open>
  What the commands of \<open>Commands\<close> and \<open>Workload_Commands\<close> promise, and examples on a machine with the
  default configuration.
\<close>

section \<open>An example machine\<close>

definition demo_command :: "(unit, 'x) command_env" where
  "demo_command = \<lparr>config = Defaults, session_file = ''/root/.nerd/session.json'', environment = (\<lambda>_. []),
     parse_key = (\<lambda>_. Inr ()), parse_jwt = (\<lambda>_ _. Inr (0, True)), transport = (\<lambda>req w. (Inl (Sentinel EOF), w)),
     parse_url = (\<lambda>s. Inr (empty_url\<lparr>Host := ''h''\<rparr>))\<rparr>"

lemma demo_client: "\<exists>c. command_NewClient (demo_command :: (unit, 'x) command_env) = Inr c"
  by (simp add: command_NewClient_def demo_command_def parse_endpoint_def Let_def)

definition session_fs :: "string \<Rightarrow> json \<Rightarrow> fsys" where
  "session_fs path j = fresh_home\<lparr>disk := (\<lambda>p. if p = path then Some (Some j) else None)\<rparr>"

definition demo_shell :: "json \<Rightarrow> unit shell" where
  "demo_shell j = shell_of quiet_outputter \<lparr>wclock = 1000, wfs = session_fs ''/root/.nerd/session.json'' j, wnet = ()\<rparr>"

lemma demo_shell_read:
  "\<exists>fs. Read ''/root/.nerd/session.json'' (wfs (world_of (demo_shell j))) = (Unmarshal snapshot_fields (Some j) empty_snapshot, fs)"
  if "\<exists>ss. Unmarshal snapshot_fields (Some j) empty_snapshot = Inr ss"
  using that by (auto simp: demo_shell_def session_fs_def fresh_home_def Read_readFile readFile_def ReadFile_def)

section \<open>Who is not logged in gets nowhere\<close>



section \<open>Secrets\<close>

text \<open>
  Of the value of a secret only the part up to the next equals sign is stored, and further pairs are
  not stored at all, without a word: the command does exactly what it does for the shorter arguments.
\<close>

theorem secret_value_cut:
  assumes "CHR ''='' \<notin> set key" and "CHR ''='' \<notin> set v" and "scType opts = SecretTypeOpaque"
  shows "secret_create e render opts (name # (key @ ''='' @ v @ ''='' @ rest) # pairs) s =
    secret_create e render opts [name, key @ ''='' @ v] s"
proof -
  have 1: "split_on CHR ''='' (key @ ''='' @ v @ ''='' @ rest) = key # v # split_on CHR ''='' rest"
    using assms(1,2) by simp
  have 2: "split_on CHR ''='' (key @ ''='' @ v) = [key, v]" using assms(1,2) by simp
  have d: "SecretTypeOpaque \<noteq> SecretTypeRegistry" by (simp add: SecretTypeOpaque_def SecretTypeRegistry_def)
  show ?thesis
    using d by (simp only: secret_create_def at_least_def assms(3) 1 2 nth_Cons_0 nth_Cons_Suc One_nat_def Let_def) simp
qed

theorem secret_value_cut_witness:
  "secret_create demo_command (\<lambda>_ _. None) \<lparr>scUsername = [], scPassword = [], scType = ''opaque''\<rparr> [''s'', ''token=YWJj='', ''user=me''] w =
   secret_create demo_command (\<lambda>_ _. None) \<lparr>scUsername = [], scPassword = [], scType = ''opaque''\<rparr> [''s'', ''token=YWJj''] w"
  using secret_value_cut [of "''token''" "''YWJj''" "\<lparr>scUsername = [], scPassword = [], scType = ''opaque''\<rparr>" demo_command
      "\<lambda>_ _. None" "''s''" "[]" "[''user=me'']" w]
  by (simp add: SecretTypeOpaque_def)

section \<open>The project\<close>


definition logged_in :: json where
  "logged_in = JObj [(''oauth'', JObj [(''access_token'', JStr ''tok''), (''expiration'', JTime 1000000)]), (''project'', JObj [(''name'', JStr ''p1'')])]"

definition logged_session :: SessionSnapshot where
  "logged_session = empty_snapshot\<lparr>SOAuth := (SOAuth empty_snapshot)\<lparr>AccessToken := ''tok'', Expiration := 1000000\<rparr>,
     SProject := (SProject empty_snapshot)\<lparr>PName := ''p1''\<rparr>\<rparr>"

lemma logged_in_read:
  "Read ''/root/.nerd/session.json'' (wfs (world_of (demo_shell logged_in))) = (Inr logged_session, wfs (world_of (demo_shell logged_in)))"
proof -
  have "Unmarshal snapshot_fields (Some logged_in) empty_snapshot = Inr logged_session"
    by (simp add: Unmarshal_def decode_struct_def logged_in_def field_defs find_field_def setter_defs logged_session_def)
  with demo_shell_read [of logged_in] Read_pure [of "''/root/.nerd/session.json''" "wfs (world_of (demo_shell logged_in))"]
  show ?thesis by (metis snd_conv)
qed

text \<open>A server that knows one project, \<open>p2\<close>.\<close>

definition listing_command :: "(unit, unit) command_env" where
  "listing_command = demo_command\<lparr>transport := (\<lambda>req w. (Inr \<lparr>StatusCode = 200, Status = ''200 OK'',
     RespBody = Inr (JArr [JObj [(''id'', JNum 2), (''slug'', JStr ''p2'')]])\<rparr>, w))\<rparr>"

lemma listing_parse: "parse_auth listing_command = Inr (empty_url\<lparr>Host := ''h''\<rparr>)"
  by (simp add: parse_auth_def parse_endpoint_def listing_command_def demo_command_def)

lemma projects_path: "\<exists>u. url_Parse projectsEndpoint = Inr u"
proof -
  have "\<not> isl (url_Parse projectsEndpoint)" by code_simp
  then show ?thesis by (cases "url_Parse projectsEndpoint") simp_all
qed

lemma demo_oauth_token:
  "OAuth_Retrieve (nerd_oauth_deps tr u ''/root/.nerd/session.json'' client) (new_basis, world_of (demo_shell logged_in)) =
     (Inr ''tok'', SetExpiration 1000000 new_basis, world_of (demo_shell logged_in))"
proof -
  from logged_in_read
  have "on_disk (Read ''/root/.nerd/session.json'') (world_of (demo_shell logged_in)) = (Inr logged_session, world_of (demo_shell logged_in))"
    by (rule on_disk_same)
  moreover have "wclock (world_of (demo_shell logged_in)) = 1000" by (simp add: demo_shell_def)
  ultimately show ?thesis
    by (simp add: OAuth_Retrieve_def nerd_oauth_deps_def logged_session_def expire_window_nanoseconds)
qed

lemma demo_listing:
  "list_projects listing_command (empty_url\<lparr>Host := ''h''\<rparr>) (demo_shell logged_in) =
     (Inr [Some \<lparr>apID = 2, apURL = [], apSlug = ''p2''\<rparr>], demo_shell logged_in)"
proof -
  obtain u where u: "url_Parse projectsEndpoint = Inr u" using projects_path by blast
  have d: "decode_projects (JArr [JObj [(''id'', JNum 2), (''slug'', JStr ''p2'')]]) [] = Inr [Some \<lparr>apID = 2, apURL = [], apSlug = ''p2''\<rparr>]"
    by (simp add: decode_projects_def set_slice_def elem_struct_def decode_struct_def auth_project_fields_def find_field_def
        setter_defs in_int64_def min_int64_def max_int64_def)
  have r: "Retrieve (oauth_provider listing_command (empty_url\<lparr>Host := ''h''\<rparr>)) (new_basis, world_of (demo_shell logged_in)) =
      (Inr ''tok'', SetExpiration 1000000 new_basis, world_of (demo_shell logged_in))"
    by (simp add: oauth_provider_def listing_command_def demo_command_def demo_oauth_token)
  have "ListProjects (auth_client listing_command (empty_url\<lparr>Host := ''h''\<rparr>)) (new_auth (world_of (demo_shell logged_in))) =
      (Inr [Some \<lparr>apID = 2, apURL = [], apSlug = ''p2''\<rparr>], ''tok'', SetExpiration 1000000 new_basis, world_of (demo_shell logged_in))"
    by (simp add: ListProjects_def auth_doRequest_def getOAuthAccessToken_def get_credential_def auth_client_def NewClient_def
        new_auth_def r u send_def finish_response_def Decode_def d past_def call_def check_def)
      (simp add: listing_command_def finish_response_def Decode_def d)
  then show ?thesis
    unfolding list_projects_def on_auth_def by (intro on_world_same) simp
qed


section \<open>Reports by hand\<close>

text \<open>
  \<^verbatim>\<open>task success\<close> takes four arguments for enough, as its usage says, and then uses a fifth; with exactly four, and
  everything else in order, it panics, and no report is sent.
\<close>

theorem task_success_panics:
  assumes "command_NewClient e = Inr c" and "Read (session_file e) (wfs (world_of s)) = (Inr ss, fs)"
    and "RequireProjectID ss = Inr p" and "parse_task_id (args ! 1) = Inr n" and "length args = 4"
  shows "task_success e args s = (Panics, s)"
proof -
  have "session_project e k s = k ss p s" for k
    using read_session_same [OF assms(2)] assms(3) by (simp add: session_project_def)
  then show ?thesis
    using assms(4,5) by (simp add: task_success_def on_task_def assms(1))
qed

theorem task_success_panics_witness:
  "task_success demo_command [''w'', ''7'', ''rt'', ''ok''] (demo_shell logged_in) = (Panics, demo_shell logged_in)"
proof -
  obtain c where c: "command_NewClient (demo_command :: (unit, unit) command_env) = Inr c" using demo_client by blast
  have r: "Read (session_file (demo_command :: (unit, unit) command_env)) (wfs (world_of (demo_shell logged_in))) =
      (Inr logged_session, wfs (world_of (demo_shell logged_in)))"
    using logged_in_read by (simp add: demo_command_def)
  have p: "RequireProjectID logged_session = Inr ''p1''"
    by (simp add: RequireProjectID_def logged_session_def)
  have "parse_task_id ([''w'', ''7'', ''rt'', ''ok''] ! 1) = Inr 7" by code_simp
  from task_success_panics [OF c r p this] show ?thesis by simp
qed

section \<open>Standard input\<close>



section \<open>The workers of a workload\<close>

text \<open>
  C20: A worker that \<^verbatim>\<open>workload start\<close> has provisioned does not work: on a machine without a session, with the
  variables the worker was given, the configuration is the one it was started with and the project is stored,
  and then \<^verbatim>\<open>workload work\<close> ends with "You are not logged in", whatever JWT and secret it was given.
\<close>

theorem worker_not_logged_in:
  assumes "env EnvConfigJSON = the (map_of vars EnvConfigJSON)" and "env EnvNerdProject = the (map_of vars EnvNerdProject)"
    and "vars = worker_variables marshal conf p jwt wenv" and "p \<noteq> []" and "marshal (encode_config conf) \<noteq> []"
    and "parse_text (marshal (encode_config conf)) = Some (encode_config conf)"
    and "usable (session_path d) fs" and "disk fs (session_path d) = None"
  shows "\<exists>fs'. setConfig env parse_text home expand loc fs = (Ready (conf, None), fs)
    \<and> setSession env (Inr d) [] fs = (Ready (session_path d), fs')
    \<and> (config e = conf \<longrightarrow> session_file e = session_path d \<longrightarrow> command_NewClient e = Inr c \<longrightarrow> work_command parse_text opts = Inr x
         \<longrightarrow> args \<noteq> [] \<longrightarrow> wfs (world_of s) = fs'
         \<longrightarrow> workload_work e parse_text new_queue new_store opts args s = (Inl not_logged_in, s))"
proof -
  have distinct: "EnvConfigJSON \<noteq> EnvNerdProject" by (simp add: EnvConfigJSON_def EnvNerdProject_def)
  have v: "env EnvConfigJSON = marshal (encode_config conf)" "env EnvNerdProject = p"
    using assms(1,2) distinct by (simp_all add: assms(3) worker_variables_def update_conv')
  have ec: "AccessToken (SOAuth empty_snapshot) = []" "time_min \<le> Expiration (SOAuth empty_snapshot)"
    "Expiration (SOAuth empty_snapshot) < time_max"
    by (simp_all add: empty_snapshot_def zero_time_def time_min_def time_max_def)
  from setSession_default [OF assms(7) _ ec(2,3), of env] assms(4,8) v(2) obtain fs' where
    s: "setSession env (Inr d) [] fs = (Ready (session_path d), fs')"
    and r: "Read (session_path d) fs' = (Inr (empty_snapshot\<lparr>SProject := \<lparr>PName = p, AWSRegion = DefaultAWSRegion\<rparr>\<rparr>), fs')"
    by auto
  have c: "setConfig env parse_text home expand loc fs = (Ready (conf, None), fs)"
    by (simp add: setConfig_def v(1) assms(5,6) decode_encode_config)
  have "workload_work e parse_text new_queue new_store opts args s = (Inl not_logged_in, s)"
    if "session_file e = session_path d" "command_NewClient e = Inr c" "work_command parse_text opts = Inr x" "args \<noteq> []"
      "wfs (world_of s) = fs'"
  proof -
    have "RequireProjectID (empty_snapshot\<lparr>SProject := \<lparr>PName = p, AWSRegion = DefaultAWSRegion\<rparr>\<rparr>) = Inl (Sentinel ErrTokenUnset)"
      using ec(1) by (simp add: RequireProjectID_def)
    with read_session_same [of "session_path d" s] r that show ?thesis
      by (cases x; cases args) (simp_all add: workload_work_def)
  qed
  with s c show ?thesis by blast
qed

definition started_vars :: "(string \<times> string) list" where
  "started_vars = worker_variables (\<lambda>_. ''{}'') Defaults ''p1'' \<lparr>wjToken = ''jwt'', wjSecret = ''sec''\<rparr> [(''FOO'', ''bar'')]"

theorem worker_not_logged_in_witness:
  "\<exists>fs'. setSession (\<lambda>n. the (map_of started_vars n)) (Inr ''/root'') [] fresh_home = (Ready ''/root/.nerd/session.json'', fs')
     \<and> fst (workload_work (demo_command :: (unit, unit) command_env) (\<lambda>t. Some (if t = ''{}'' then encode_config Defaults else JArr []))
         (\<lambda>_ _. Inr ()) (\<lambda>_ _. None) \<lparr>EntrypointJSONB64 = ''W10='', CmdJSONB64 = ''W10='', OutputDir = []\<rparr> [''w'']
         (shell_of quiet_outputter \<lparr>wclock = 0, wfs = fs', wnet = ()\<rparr>)) = Inl not_logged_in"
proof -
  obtain c where c: "command_NewClient (demo_command :: (unit, unit) command_env) = Inr c" using demo_client by blast
  let ?parse = "\<lambda>t. Some (if t = ''{}'' then encode_config Defaults else JArr [])"
  let ?opts = "\<lparr>EntrypointJSONB64 = ''W10='', CmdJSONB64 = ''W10='', OutputDir = []\<rparr> :: WorkloadWorkOpts"
  have b: "b64_decode ''W10='' = Inr ''[]''" by code_simp
  have w: "work_command ?parse ?opts = Inr ([], [])"
    by (simp add: work_command_def b decode_strings_def set_slice_def)
  obtain fs' where s: "setSession (\<lambda>n. the (map_of started_vars n)) (Inr ''/root'') [] fresh_home = (Ready ''/root/.nerd/session.json'', fs')"
    using setSession_default [of "''/root''" fresh_home empty_snapshot] fresh_usable
    by (force simp: root_paths empty_snapshot_def zero_time_def time_min_def time_max_def)
  have "workload_work demo_command ?parse (\<lambda>_ _. Inr ()) (\<lambda>_ _. None) ?opts [''w''] (shell_of quiet_outputter \<lparr>wclock = 0, wfs = fs', wnet = ()\<rparr>)
      = (Inl not_logged_in, shell_of quiet_outputter \<lparr>wclock = 0, wfs = fs', wnet = ()\<rparr>)"
    using worker_not_logged_in [of "\<lambda>n. the (map_of started_vars n)" started_vars "\<lambda>_. ''{}''" Defaults "''p1''"
        "\<lparr>wjToken = ''jwt'', wjSecret = ''sec''\<rparr>" "[(''FOO'', ''bar'')]" ?parse "''/root''" fresh_home "Inl (Sentinel EOF)" Inr "[]"
        demo_command c ?opts "([], [])" "[''w'']" "shell_of quiet_outputter \<lparr>wclock = 0, wfs = fs', wnet = ()\<rparr>"
        "\<lambda>_ _. Inr ()" "\<lambda>_ _. None"] fresh_usable s c w
    by (auto simp: started_vars_def [symmetric] root_paths demo_command_def)
  with s show ?thesis by simp
qed

end
