(* ===== verification/Transfer_Properties.thy ===== *)
theory Transfer_Properties
  imports Command_Properties Transfer_Commands
begin

text \<open>
  What the commands of \<open>Transfer_Commands\<close> make of \<open>Upload\<close> and \<open>Download\<close>, with examples on the machine of
  \<open>Command_Properties\<close>.
\<close>

section \<open>Outputs that were interrupted\<close>

text \<open>
  C18: An output that has once got its folder is never fetched again: whatever became of the first download, with an
  error in the middle of it, say, the next \<^verbatim>\<open>workload download\<close> into the same folder passes over the task
  as already there, asks the server nothing about it and goes on to the other ones.
\<close>

theorem interrupted_output_skipped:
  assumes "fetch_outputs x md5 tc dir (Some t # ts) s d r s1 d1" and "tsOutputDatasetID t \<noteq> []"
    and "Mkdir (task_folder md5 dir t) d = (Inr u, d0)"
  shows "fetch_outputs x' md5 tc' dir (Some t # ts') s2 d1 r' s3 d3 \<longleftrightarrow>
    fetch_outputs x' md5 tc' dir ts' (already_there t s2) d1 r' s3 d3"
proof -
  let ?p = "task_folder md5 dir t"
  have made: "node_at d0 ?p = Some DirNode" by (rule Mkdir_makes [OF assms(3)])
  from assms(1) have "keeps_folders d0 d1"
    by cases (use assms(2,3) in \<open>auto dest!: fetch_dataset_keeps fetch_outputs_keep intro: keeps_folders_trans\<close>)
  with made have m: "Mkdir ?p d1 = (Inl (PathError ''mkdir'' ?p EEXIST), d1)"
    by (intro Mkdir_there) (simp add: keeps_folders_def)
  have e: "IsExist (PathError ''mkdir'' ?p EEXIST)" by (simp add: IsExist_def PathError_def)
  show ?thesis
  proof
    assume "fetch_outputs x' md5 tc' dir (Some t # ts') s2 d1 r' s3 d3"
    then show "fetch_outputs x' md5 tc' dir ts' (already_there t s2) d1 r' s3 d3"
      by cases (use assms(2) m e in auto)
  next
    assume "fetch_outputs x' md5 tc' dir ts' (already_there t s2) d1 r' s3 d3"
    with fetch_outputs.there [OF assms(2) m e] show "fetch_outputs x' md5 tc' dir (Some t # ts') s2 d1 r' s3 d3" by blast
  qed
qed

definition demo_env :: "unit batch_world transfer_env" where
  "demo_env = \<lparr>xctx = (\<lambda>_. None), xsha = (\<lambda>_. []), xtar = \<lparr>tctx = (\<lambda>_. None), refused = (\<lambda>_. None), flush = None\<rparr>,
     xencode = (\<lambda>_. []), xparse = (\<lambda>_. ([], Sentinel EOF)), xends = (\<lambda>_. False), xsplit = (\<lambda>b. [b]), xmarshal = (\<lambda>_. []),
     xunmarshal = (\<lambda>_. Inl (Sentinel EOF)), xclock = (\<lambda>_. 0), xwait = (\<lambda>_ w. (None, w)), xcancel = (\<lambda>w. w)\<rparr>"

text \<open>A store in which nothing is found.\<close>

definition bare_store :: "unit batch_ops" where
  "bare_store = \<lparr>ops_upload = (\<lambda>_ _ _ w. (Inr (), w)), ops_download = (\<lambda>_ _ w. (Inl (Sentinel EOF), w)),
     ops_exists = (\<lambda>_ _ w. (Inr False, w))\<rparr>"

text \<open>Clients without a JWT.\<close>

definition lost_clients :: "unit transfer_clients" where
  "lost_clients = \<lparr>tcBatch = \<lparr>Doer = (\<lambda>_ w. (Inl (Sentinel EOF), w)), TokenProvider = None, BaseURL = empty_url\<rparr>,
     tcSession = logged_session, tcProject = ''p1'', tcOps = bare_store\<rparr>"

definition demo_task :: TaskSummary where
  "demo_task = \<lparr>tsTaskID = 7, TTL = 0, tsWorkloadID = ''w'', tsStatus = ''success'', tsOutputDatasetID = ''ds'', tsCmd = [''run'']\<rparr>"

theorem interrupted_output_skipped_witness:
  "\<exists>err s1 d1. fetch_outputs demo_env (\<lambda>_. ''f00'') lost_clients ''.'' [Some demo_task] (demo_shell logged_in) demo_disk (Failing err) s1 d1
     \<and> fetch_outputs demo_env (\<lambda>_. ''f00'') lost_clients ''.'' [Some demo_task] (demo_shell logged_in) d1 Done
         (already_there demo_task (demo_shell logged_in)) d1"
proof -
  let ?md5 = "\<lambda>_. ''f00''" and ?s = "demo_shell logged_in"
  have p: "task_folder ?md5 ''.'' demo_task = ''f00_7''" by code_simp
  have "\<not> isl (fst (Mkdir ''f00_7'' demo_disk))" by code_simp
  then obtain u d0 where m: "Mkdir (task_folder ?md5 ''.'' demo_task) demo_disk = (Inr u, d0)"
    by (cases "Mkdir ''f00_7'' demo_disk"; cases "fst (Mkdir ''f00_7'' demo_disk)") (simp_all add: p)
  have o: "tsOutputDatasetID demo_task \<noteq> []" by (simp add: demo_task_def)
  let ?conf = "output_config ?md5 lost_clients ''.'' demo_task" and ?s1 = "downloading (tsOutputDatasetID demo_task) ?s"
  obtain err b where "GetRemoteDatasetSize demo_env ?conf (batch ?s1) = (Inl err, b)"
    by (cases "batch ?s1") (simp add: GetRemoteDatasetSize_def call_def output_config_def download_config_def lost_clients_def DescribeDataset_def
        doRequest_def getJWT_def get_credential_def)
  then have "fetch_dataset demo_env ?conf d0 (batch ?s1) (Inl err) d0 b" by (rule fetch_dataset.no_size)
  from fetch_outputs.failed [where s = ?s and ts = "[]" and x = demo_env, OF o m _ this] have
    f: "fetch_outputs demo_env ?md5 lost_clients ''.'' [Some demo_task] ?s demo_disk (Failing (HandleError err)) (?s1\<lparr>batch := b\<rparr>) d0"
    by simp
  from interrupted_output_skipped [OF f o m, of demo_env lost_clients "[]" ?s Done "already_there demo_task ?s" d0] f
  show ?thesis using fetch_outputs.through by blast
qed

section \<open>Downloads of datasets that are not there yet\<close>


text \<open>A machine whose environment has a JWT, and what its client has after the first call.\<close>

definition jwt_command :: "'x world doer \<Rightarrow> (unit, 'x) command_env" where
  "jwt_command tr = demo_command\<lparr>environment := (\<lambda>n. if n = NerdTokenEnvVar then ''jwt'' else []), transport := tr\<rparr>"

definition jwt_basis :: ProviderBasis where
  "jwt_basis = SetExpiration 0 (new_basis\<lparr>AlwaysValid := True\<rparr>)"

definition settled :: "'x world \<Rightarrow> string \<times> 'x batch_world" where
  "settled w = (''jwt'', Some 0, \<lparr>env_basis = jwt_basis, config_basis = new_basis, auth_basis = new_basis\<rparr>, new_auth w)"

lemma jwt_client: "\<exists>c. command_NewClient (jwt_command tr) = Inr c"
  by (simp add: command_NewClient_def jwt_command_def demo_command_def parse_endpoint_def Let_def)

lemma jwt_client_calls:
  assumes "command_NewClient (jwt_command tr) = Inr c"
  shows "getJWT c ([], new_batch w) = (Inr ''jwt'', settled w)" and "getJWT c (settled w) = (Inr ''jwt'', settled w)"
    and "Doer c = (\<lambda>req. with_outer (tr req))"
proof -
  from assms obtain ps p where c: "c = NewClient \<lparr>Doer = (\<lambda>req. with_outer (tr req)),
      TokenProvider = Some \<lparr>IsExpired = Chained_IsExpired ps, Retrieve = Chained_Retrieve ps\<rparr>, BaseURL = p\<rparr>"
    and ps: "ps = jwt_providers (jwt_command tr) () p"
    by (auto simp: command_NewClient_def jwt_command_def demo_command_def parse_endpoint_def Let_def)
  show "Doer c = (\<lambda>req. with_outer (tr req))" by (simp add: c NewClient_def)
  let ?d = "command_jwt_deps (jwt_command tr) () p"
  have d: "getenv ?d = (\<lambda>n. if n = NerdTokenEnvVar then ''jwt'' else [])" "parse_token ?d = (\<lambda>_ _. Inr (0, True))"
    by (simp_all add: command_jwt_deps_def jwt_command_def demo_command_def)
  have n: "NerdSecretEnvVar \<noteq> NerdTokenEnvVar" by (simp add: NerdSecretEnvVar_def NerdTokenEnvVar_def)
  have e: "EnvProvider_Retrieve ?d (new_basis, v) = (Inr ''jwt'', jwt_basis, v)" for v
    using n by (simp add: EnvProvider_Retrieve_def d call_def check_def SetExpirationFromJWT_def decodeToken_def jwt_valid_def isValid_def
        VerifyExpiresAt_def jwt_basis_def)
  obtain a where a: "new_auth w = a" by simp
  then show "getJWT c ([], new_batch w) = (Inr ''jwt'', settled w)"
    by (cases a) (simp add: c NewClient_def getJWT_def get_credential_def Chained_Retrieve_def ps jwt_providers_def Let_def
        basis_provider_def new_batch_def settled_def e)
  have "\<not> basis_expired i jwt_basis" for i by (simp add: jwt_basis_def basis_expired_SetExpiration)
  then show "getJWT c (settled w) = (Inr ''jwt'', settled w)"
    by (simp add: c NewClient_def getJWT_def get_credential_def Chained_IsExpired_def ps jwt_providers_def Let_def
        basis_provider_def settled_def)
qed

text \<open>A server that knows a dataset that is being uploaded.\<close>

definition uploading_command :: "(unit, unit) command_env" where
  "uploading_command = jwt_command (\<lambda>req w. (Inr \<lparr>StatusCode = 200, Status = ''200 OK'',
       RespBody = Inr (JObj [(''upload_status'', JStr DatasetUploadStatusUploading), (''upload_expire'', JNum 99)])\<rparr>, w))"

lemma datasets_path: "\<exists>u. url_Parse (createPath ''p1'' [datasetEndpoint, ''ds'']) = Inr u"
proof -
  have "\<not> isl (url_Parse (createPath ''p1'' [datasetEndpoint, ''ds'']))" by code_simp
  then show ?thesis by (cases "url_Parse (createPath ''p1'' [datasetEndpoint, ''ds''])") simp_all
qed

lemma uploading_described:
  assumes "command_NewClient uploading_command = Inr c"
  shows "\<exists>ds b. DescribeDataset c ''p1'' ''ds'' ([], new_batch w) = (Inr ds, b) \<and> UploadStatus ds = DatasetUploadStatusUploading"
proof -
  note c = jwt_client_calls [OF assms [unfolded uploading_command_def]]
  obtain u where u: "url_Parse (createPath ''p1'' [datasetEndpoint, ''ds'']) = Inr u" using datasets_path by blast
  let ?ds = "empty_dataset\<lparr>UploadStatus := DatasetUploadStatusUploading, UploadExpire := 99\<rparr>"
  have d: "decode_struct dataset_fields (JObj [(''upload_status'', JStr DatasetUploadStatusUploading), (''upload_expire'', JNum 99)]) empty_dataset = Inr ?ds"
    by (simp add: decode_struct_def dataset_fields_def find_field_def setter_defs in_int64_def min_int64_def max_int64_def empty_dataset_def)
  obtain b where "DescribeDataset c ''p1'' ''ds'' ([], new_batch w) = (Inr ?ds, b)"
    by (cases "new_auth w") (simp add: DescribeDataset_def doRequest_def c(1,3) settled_def u call_def check_def send_def with_outer_def
        into_def finish_response_def Decode_def d)
  then show ?thesis by (intro exI conjI) (assumption, simp)
qed


end
