(* ===== verification/Dataset_Commands.thy ===== *)
theory Dataset_Commands
  imports Client_Frame Transfer_Properties
begin

text \<open>
  \<^verbatim>\<open>nerd dataset upload\<close> and \<^verbatim>\<open>nerd dataset download\<close> together: with everything that lies between the two commands
  and the store, the clients, their credentials, the session and the goroutines, what one puts away the other brings back.
\<close>

section \<open>The surroundings\<close>

text \<open>The objects behind a command.\<close>

definition behind :: "('x \<Rightarrow> objects) \<Rightarrow> 'x shell \<Rightarrow> objects" where
  "behind stored s = stored (wnet (world_of s))"

text \<open>
  What both commands rely on: requests to the APIs leave the objects alone, every store that is made keeps its contract,
  nothing is cancelled, hashes are hashes, the chunker loses nothing, and an archive reader asks for nothing behind the end of
  an archive.
\<close>

definition transfer_world :: "('k, 'x) command_env \<Rightarrow> (string \<Rightarrow> string \<Rightarrow> goerr + 'x batch_ops) \<Rightarrow> 'x batch_world transfer_env
    \<Rightarrow> ('x \<Rightarrow> objects) \<Rightarrow> bool" where
  "transfer_world e new_store x stored \<longleftrightarrow>
     (\<forall>req w. stored (wnet (snd (transport e req w))) = stored (wnet w)) \<and>
     (\<forall>project region ops. new_store project region = Inr ops \<longrightarrow>
        object_store (ops_upload ops) (ops_download ops) (ops_exists ops) (stored \<circ> wnet \<circ> outer \<circ> snd)) \<and>
     (\<forall>w. xctx x w = None) \<and> (\<forall>w. stored (wnet (outer (snd (xcancel x w)))) = stored (wnet (outer (snd w)))) \<and>
     (\<forall>n w. stored (wnet (outer (snd (snd (xwait x n w))))) = stored (wnet (outer (snd w)))) \<and>
     (\<forall>c. is_key (xsha x c)) \<and> (\<forall>b. concat (xsplit x b) = b) \<and>
     (\<forall>a b. xends x a \<longrightarrow> xparse x (a @ b) = xparse x a)"

text \<open>What the server promises: the places of a new dataset are plain names, and it describes them as it made them.\<close>

definition known_dataset :: "'v ClientConfig \<Rightarrow> 'a DatasetSummary_scheme \<Rightarrow> bool" where
  "known_dataset c ds \<longleftrightarrow> plain_roots ds \<and>
     (\<forall>project u ds' u'. DescribeDataset c project (DatasetID ds) u = (Inr ds', u') \<longrightarrow> same_places ds' ds)"

lemma known_datasetD:
  assumes "known_dataset c ds" and "DescribeDataset c project (DatasetID ds) u = (Inr ds', u')"
  shows "same_places ds' ds"
  using assms unfolding known_dataset_def by blast

section \<open>The objects stay where they are\<close>

lemma objects_eq: "(stored \<circ> wnet \<circ> outer) (snd (batch s)) = behind stored s"
  by (simp add: behind_def world_of_def)

lemma session_read_objects: "on_world (on_disk f) s = (r, s') \<Longrightarrow> behind stored s' = behind stored s"
  using on_world_result [of "on_disk f" s "fst (on_disk f (world_of s))" "snd (on_disk f (world_of s))"]
  by (auto simp: behind_def on_disk_def split: prod.splits)

lemma upload_clients_Inr:
  assumes "upload_clients e new_store s = (Inr tc, s')" and "Read (session_file e) (wfs (world_of s)) = (Inr ss, fs)"
    and "RequireProjectID ss = Inr project"
  shows "command_NewClient e = Inr (tcBatch tc) \<and> tcProject tc = project \<and> (\<exists>project region. new_store project region = Inr (tcOps tc)) \<and> s' = s"
  using assms(1) read_session_same [OF assms(2)] assms(3) by (fastforce simp: upload_clients_def split: sum.splits prod.splits)

lemma download_clients_Inr:
  assumes "download_clients e new_store s = (Inr tc, s')"
  shows "command_NewClient e = Inr (tcBatch tc) \<and> (\<exists>project region. new_store project region = Inr (tcOps tc)) \<and> behind stored s' = behind stored s"
  using assms by (fastforce simp: download_clients_def dest: session_read_objects split: sum.splits prod.splits)

lemma downloading_objects [simp]: "behind stored (downloading i s) = behind stored s" "batch (downloading i s) = batch s"
  by (simp_all add: downloading_def print_line_def behind_def world_of_def)

lemma ready_folder: "base_ready out d \<Longrightarrow> output_folder out d = (Inr (), d)"
  using clean_dir_nonempty [of out] by (simp add: output_folder_def Stat_def base_ready_def clean_dir_def is_folder_def)

text \<open>Asking for the size changes no object.\<close>

lemma keeps_MetadataDownload:
  assumes "object_store (ops_upload ops) (ops_download ops) (ops_exists ops) st"
  shows "keeps st (MetadataDownload parse ctx ops bucket root)"
  unfolding MetadataDownload_def Client_Download_def
  by (intro keeps_call keeps_check keeps_pair keepsI) (rule object_store.attempts_download_pure [OF assms])

lemma keeps_remote_size:
  assumes "quiet (dBatchClient conf) stored"
    and "object_store (ops_upload (dDataOps conf)) (ops_download (dDataOps conf)) (ops_exists (dDataOps conf)) (stored \<circ> snd)"
  shows "keeps (stored \<circ> snd) (GetRemoteDatasetSize x conf)"
proof -
  have "keeps (stored \<circ> snd) (DescribeDataset (dBatchClient conf) project i)" for project i
    using batch_calls_quiet(4) [OF assms(1)] by (simp add: keeps_def)
  then show ?thesis
    unfolding GetRemoteDatasetSize_def by (intro keeps_call keeps_MetadataDownload [OF assms(2)] keeps_pair) blast
qed

section \<open>There and back\<close>

lemma commands_ready:
  assumes "transfer_world e new_store x stored" and "command_NewClient e = Inr c"
    and "new_store p1 r1 = Inr (uDataOps uc)" and "new_store p2 r2 = Inr (dDataOps dc)" and "uBatchClient uc = c" and "dBatchClient dc = c"
  shows "transfer_ready x uc dc (stored \<circ> wnet \<circ> outer)"
proof -
  have q: "quiet c (stored \<circ> wnet \<circ> outer)"
    by (rule command_client_quiet [OF assms(2)]) (use assms(1) in \<open>simp add: transfer_world_def\<close>)
  from assms(1) have st: "\<And>project region ops. new_store project region = Inr ops \<Longrightarrow>
      object_store (ops_upload ops) (ops_download ops) (ops_exists ops) (stored \<circ> wnet \<circ> outer \<circ> snd)"
    by (simp add: transfer_world_def)
  from st [OF assms(3)] st [OF assms(4)] q assms(1,5,6) show ?thesis
    by (simp add: transfer_ready_def transfer_world_def)
qed

text \<open>A command that ends well has come all the way.\<close>

lemma upload_done:
  assumes "dataset_upload e new_store x lay args stat t s Done s1"
  shows "\<exists>tc s0 ds b. upload_clients e new_store s = (Inr tc, s0) \<and> Upload x (upload_config tc (args ! 0)) t (batch s0) (Some ds, None) b
    \<and> s1 = uploaded lay ds (s0\<lparr>batch := b\<rparr>)"
  using assms
proof cases
  case (complete tc s' n ds b)
  then show ?thesis by blast
qed

lemma download_done:
  assumes "dataset_download e new_store x args s d Done s3 d'"
  shows "\<exists>tc s1 d1 u b1 b. prepare_download e new_store args s d = (Inr tc, s1, d1)
    \<and> GetRemoteDatasetSize x (download_config tc (tcProject tc) (args ! 1) (args ! 0)) (batch s1) = (Inr u, b1)
    \<and> Download x (download_config tc (tcProject tc) (args ! 1) (args ! 0)) d1 b1 (Inr ()) d' b"
  using assms
proof cases
  case (ended tc s1 d1 r b)
  then obtain r' where r: "r = Inr r'" by (cases r) (auto simp: ending_def)
  from ended(4) r obtain u b1 where "GetRemoteDatasetSize x (download_config tc (tcProject tc) (args ! 1) (args ! 0)) (batch s1) = (Inr u, b1)"
    "Download x (download_config tc (tcProject tc) (args ! 1) (args ! 0)) d1 b1 (Inr ()) d' b"
    by cases auto
  with ended(3) show ?thesis by blast
qed

lemma uploaded_objects [simp]: "behind stored (uploaded lay ds s) = behind stored s"
  by (simp add: uploaded_def behind_def world_of_def)

text \<open>
  C1: What \<^verbatim>\<open>dataset upload\<close> puts away \<^verbatim>\<open>dataset download\<close> brings back: if the upload of a readable directory ends
  well, nobody touches the objects, and a later \<^verbatim>\<open>dataset download\<close> with the ID of the dataset the server made for
  it, into an empty folder with enough room, ends well, then that folder has exactly the files of the directory, and
  nothing else on the disk is different; whichever credentials were fetched, refreshed and stored on the way, and
  however the goroutines of both commands interleave.
\<close>
theorem dataset_commands_roundtrip:
  assumes "transfer_world e new_store x stored" and "command_NewClient e = Inr c"
    and "Read (session_file e) (wfs (world_of s)) = (Inr ss, fs)" and "RequireProjectID ss = Inr project"
    and "CreateDataset c project (batch s) = (Inr ds, b)" and "known_dataset c ds"
    and "sound (Folder None ts)" and "undisturbed (xtar x)" and "stream_ready x (behind stored s) ds (Folder None ts) src"
    and "dataset_upload e new_store x lay [src] stat (Folder None ts) s Done s1" and "behind stored s2 = behind stored s1"
    and "room_in (Folder None ts) out d" and "dataset_download e new_store x [DatasetID ds, out] s2 d Done s3 d'"
  shows "brought_back (Folder None ts) out d d'"
proof -
  let ?st = "stored \<circ> wnet \<circ> outer" and ?ds = "DatasetSummary.truncate ds"
  from upload_done [OF assms(10)] obtain tc s0 ds0 b0 where uc: "upload_clients e new_store s = (Inr tc, s0)"
    and up: "Upload x (upload_config tc src) (Folder None ts) (batch s0) (Some ds0, None) b0" and s1: "s1 = uploaded lay ds0 (s0\<lparr>batch := b0\<rparr>)" by auto
  from upload_clients_Inr [OF uc assms(3,4)] assms(2) obtain p1 r1 where
    tc: "tcBatch tc = c" "tcProject tc = project" "new_store p1 r1 = Inr (tcOps tc)" and s0: "s0 = s" by auto
  from up s0 tc(1,2) assms(5) have ds0: "ds0 = ?ds" by cases (auto simp: upload_config_def)
  from download_done [OF assms(13)] obtain tc' t1 d1 u b1 b2 where
    pd: "prepare_download e new_store [DatasetID ds, out] s2 d = (Inr tc', t1, d1)" and
    size: "GetRemoteDatasetSize x (download_config tc' (tcProject tc') out (DatasetID ds)) (batch t1) = (Inr u, b1)" and
    dn: "Download x (download_config tc' (tcProject tc') out (DatasetID ds)) d1 b1 (Inr ()) d' b2" by auto
  let ?dc = "download_config tc' (tcProject tc') out (DatasetID ds)"
  have base: "base_ready out d" using assms(12) by (simp add: room_in_def)
  from pd ready_folder [OF base] have d1: "d1 = d" and dc: "download_clients e new_store s2 = (Inr tc', t1)"
    by (auto simp: prepare_download_def split: prod.splits)
  from download_clients_Inr [OF dc, of stored] assms(2) obtain p2 r2 where
    tc': "tcBatch tc' = c" "new_store p2 r2 = Inr (tcOps tc')" and t1: "behind stored t1 = behind stored s2" by auto
  have ready: "transfer_ready x (upload_config tc src) ?dc ?st"
    by (rule commands_ready [OF assms(1,2), of p1 r1 _ p2 r2]) (use tc tc' in \<open>simp_all add: upload_config_def download_config_def\<close>)
  then have "quiet (dBatchClient ?dc) ?st"
    "object_store (ops_upload (dDataOps ?dc)) (ops_download (dDataOps ?dc)) (ops_exists (dDataOps ?dc)) (?st \<circ> snd)"
    by (simp_all add: transfer_ready_def)
  from keepsD [OF keeps_remote_size [OF this] size] t1 assms(11) have w: "?st (snd b1) = ?st (snd b0)"
    by (simp add: s1 behind_def world_of_def uploaded_def)
  have known: "same_places ds' ?ds" if "DescribeDataset (dBatchClient ?dc) (dProjectID ?dc) (dDatasetID ?dc) v = (Inr ds', v')" for v ds' v'
    using known_datasetD [OF assms(6)] that tc'(1) by (simp add: download_config_def same_places_def)
  have roots: "plain_roots ?ds" using assms(6) by (simp add: known_dataset_def plain_roots_def)
  have stream: "stream_ready x (?st (snd (batch s))) ?ds (Folder None ts) (uLocalDir (upload_config tc src))"
    using assms(9) unfolding objects_eq by (simp add: upload_config_def stream_ready_def)
  have l: "dLocalDir ?dc = out" by (simp add: download_config_def)
  have room: "room_in (Folder None ts) (dLocalDir ?dc) d" using assms(12) l by simp
  from dn have dn': "Download x ?dc d b1 (Inr ()) d' b2" by (simp only: d1)
  have "brought_back (Folder None ts) (dLocalDir ?dc) d d'"
    by (rule dataset_journey [OF ready up [unfolded ds0 s0] roots stream w _ assms(7,8) room dn']) (rule known)
  then show ?thesis unfolding l .
qed

end
