(* ===== verification/Dataset_Commands_Example.thy ===== *)
theory Dataset_Commands_Example
  imports Dataset_Commands Transfer_Example
begin

text \<open>
  \<^verbatim>\<open>dataset upload\<close> and \<^verbatim>\<open>dataset download\<close> on a machine with a login, a JWT in the environment and an object store behind the
  clients: the hypotheses of the round trip of \<open>Dataset_Commands\<close> hold together, and both commands end well.
\<close>

section \<open>The store behind a command\<close>

definition net_of :: "string \<times> 'x batch_world \<Rightarrow> 'x" where
  "net_of s = wnet (outer (snd s))"

definition put_net :: "'x \<Rightarrow> string \<times> 'x batch_world \<Rightarrow> string \<times> 'x batch_world" where
  "put_net v = (\<lambda>(cred, i, bs, tok, ob, w). (cred, i, bs, tok, ob, w\<lparr>wnet := v\<rparr>))"

interpretation net: world_part net_of put_net
  by unfold_locales (auto simp: net_of_def put_net_def outer_def)

definition served_world :: "s3_world \<Rightarrow> s3_world world" where
  "served_world v = \<lparr>wclock = 1000, wfs = session_fs ''/root/.nerd/session.json'' logged_in, wnet = v\<rparr>"

lemma put_net_settled [simp]: "put_net v (settled (served_world u)) = settled (served_world v)"
  by (simp add: put_net_def settled_def new_auth_def served_world_def)

section \<open>A server that knows one dataset\<close>

definition serving :: "s3_world world doer" where
  "serving req w = (Inr \<lparr>StatusCode = 200, Status = ''200 OK'', RespBody = Inr demo_answer\<rparr>, w)"

definition serving_command :: "(unit, s3_world) command_env" where
  "serving_command = jwt_command serving"

definition serving_client :: "s3_world batch_world ClientConfig" where
  "serving_client = (case command_NewClient serving_command of Inr c \<Rightarrow> c | Inl _ \<Rightarrow> undefined)"

lemma serving_client: "command_NewClient serving_command = Inr serving_client"
  using jwt_client [of serving] by (auto simp: serving_client_def serving_command_def)

lemmas serving_calls = jwt_client_calls [OF serving_client [unfolded serving_command_def]]

lemma serving_send:
  "decode_struct fs demo_answer z = Inr y \<Longrightarrow> send (Doer serving_client) batch_http_error (into fs z) req v = (Inr y, v)"
  "send (Doer serving_client) batch_http_error (into fs z) req v = (Inr y, v') \<Longrightarrow> decode_struct fs demo_answer z = Inr y"
  by (cases v; auto simp: send_def serving_calls(3) with_outer_def serving_def finish_response_def into_def Decode_def split: sum.splits)+

lemma serving_call:
  assumes "url_Parse path = Inr u" and "decode_struct fs demo_answer z = Inr r"
  shows "doRequest serving_client m path i (into fs z) ([], new_batch w) = (Inr r, settled w)"
    and "doRequest serving_client m path i (into fs z) (settled w) = (Inr r, settled w)"
  using serving_calls(1,2) [of w] assms(1) serving_send(1) [OF assms(2)] by (simp_all add: doRequest_def)

lemma serving_gives:
  assumes "doRequest serving_client m path i (into fs z) v = (Inr r, v')"
  shows "decode_struct fs demo_answer z = Inr r"
proof -
  obtain x s where j: "getJWT serving_client v = (x, s)" by (rule prod.exhaust)
  show ?thesis
  proof (cases x)
    case cred: (Inr cred)
    show ?thesis
    proof (cases "url_Parse path")
      case (Inr u)
      obtain y w' where q: "send (Doer serving_client) batch_http_error (into fs z)
          (bearer_request m (ResolveReference (BaseURL serving_client) u) i cred) (snd s) = (y, w')" by (rule prod.exhaust)
      with assms j cred Inr have y: "y = Inr r" by (simp add: doRequest_def)
      from q [unfolded y] show ?thesis by (rule serving_send(2))
    qed (use assms j cred in \<open>simp add: doRequest_def\<close>)
  qed (use assms j in \<open>simp add: doRequest_def\<close>)
qed

lemma serving_paths: "\<exists>u. url_Parse (createPath ''p1'' [datasetEndpoint]) = Inr u"
  "\<exists>u. url_Parse (createPath ''p1'' [datasetEndpoint, ''ds'']) = Inr u"
proof -
  have "list_all safe_elem [''p1'', datasetEndpoint]" "list_all safe_elem [''p1'', datasetEndpoint, ''ds'']" by code_simp+
  from createPath_parses [OF this(1)] createPath_parses [OF this(2)]
  show "\<exists>u. url_Parse (createPath ''p1'' [datasetEndpoint]) = Inr u" "\<exists>u. url_Parse (createPath ''p1'' [datasetEndpoint, ''ds'']) = Inr u"
    by simp_all
qed

lemma serving_served:
  "CreateDataset serving_client ''p1'' ([], new_batch w) = (Inr demo_created, settled w)"
  "DescribeDataset serving_client ''p1'' ''ds'' ([], new_batch w) = (Inr demo_dataset, settled w)"
  "DescribeDataset serving_client ''p1'' ''ds'' (settled w) = (Inr demo_dataset, settled w)"
  "SendUploadSuccess serving_client ''pr'' ''ds'' (settled w) = (Inr (), settled w)"
proof -
  obtain u1 u2 where u: "url_Parse (createPath ''p1'' [datasetEndpoint]) = Inr u1"
    "url_Parse (createPath ''p1'' [datasetEndpoint, ''ds'']) = Inr u2" using serving_paths by blast
  show "CreateDataset serving_client ''p1'' ([], new_batch w) = (Inr demo_created, settled w)"
    using serving_call(1) [OF u(1) demo_decoded(1)] by (simp add: CreateDataset_def demo_created_def)
  show "DescribeDataset serving_client ''p1'' ''ds'' ([], new_batch w) = (Inr demo_dataset, settled w)"
    "DescribeDataset serving_client ''p1'' ''ds'' (settled w) = (Inr demo_dataset, settled w)"
    using serving_call [OF u(2) demo_decoded(2)] by (simp_all add: DescribeDataset_def)
  show "SendUploadSuccess serving_client ''pr'' ''ds'' (settled w) = (Inr (), settled w)"
    using serving_call(2) [OF demo_paths(3) demo_decoded(3)] by (simp add: SendUploadSuccess_def)
qed

interpretation served: demo_machine net_of put_net serving_client "''p1''" "\<lambda>v. ([], new_batch (served_world v))" "settled (served_world empty_s3)"
  by unfold_locales (simp_all add: serving_served)

section \<open>The commands\<close>

abbreviation served_ops :: "s3_world batch_ops" where
  "served_ops \<equiv> ops_within net_of put_net (DataClient s3_table)"

abbreviation served_store :: "string \<Rightarrow> string \<Rightarrow> goerr + s3_world batch_ops" where
  "served_store \<equiv> \<lambda>_ _. Inr served_ops"

definition served_shell :: "s3_world \<Rightarrow> s3_world shell" where
  "served_shell v = shell_of quiet_outputter (served_world v)"

lemma served_shell [simp]: "batch (served_shell v) = ([], new_batch (served_world v))" "wnet (world_of (served_shell v)) = v"
  "behind objs (served_shell v) = objs v"
  by (simp_all add: served_shell_def shell_of_def served_world_def world_of_def behind_def outer_def new_batch_def new_auth_def)

lemma served_session: "\<exists>fs. Read (session_file serving_command) (wfs (world_of (served_shell v))) = (Inr logged_session, fs)"
  using logged_in_read
  by (simp add: serving_command_def jwt_command_def demo_command_def demo_shell_def served_shell_def served_world_def)

lemma served_project: "RequireProjectID logged_session = Inr ''p1''" 
  by (simp add: RequireProjectID_def logged_session_def)

lemma served_ready: "transfer_world serving_command served_store demo_transfer objs"
proof -
  have "objs \<circ> net_of = objs \<circ> wnet \<circ> outer \<circ> snd" by (simp add: fun_eq_iff net_of_def)
  with net.object_store_within [OF s3_ops]
  have "object_store (ops_upload served_ops) (ops_download served_ops) (ops_exists served_ops) (objs \<circ> wnet \<circ> outer \<circ> snd)" by metis
  then show ?thesis
    by (simp add: transfer_world_def demo_transfer_def serving_command_def jwt_command_def serving_def pad_key_is_key)
qed

lemma served_known: "known_dataset serving_client demo_created"
proof -
  have same: "same_places ds' demo_created" if "DescribeDataset serving_client p (DatasetID demo_created) u = (Inr ds', u')" for p u ds' u'
  proof -
    from serving_gives [OF that [unfolded DescribeDataset_def]] demo_decoded(2) have "ds' = demo_dataset" by simp
    then show ?thesis by (simp add: same_places_def demo_dataset_def)
  qed
  have "plain_roots demo_created" using demo_roots by (simp add: plain_roots_def demo_dataset_def)
  with same show ?thesis unfolding known_dataset_def by blast
qed

lemma served_clients:
  "upload_clients serving_command served_store (served_shell v) =
     (Inr \<lparr>tcBatch = serving_client, tcSession = logged_session, tcProject = ''p1'', tcOps = served_ops\<rparr>, served_shell v)"
  "download_clients serving_command served_store (served_shell v) =
     (Inr \<lparr>tcBatch = serving_client, tcSession = logged_session, tcProject = ''p1'', tcOps = served_ops\<rparr>, served_shell v)"
proof -
  from served_session obtain fs where "Read (session_file serving_command) (wfs (world_of (served_shell v))) = (Inr logged_session, fs)" by blast
  from read_session_same [OF this]
  show "upload_clients serving_command served_store (served_shell v) =
      (Inr \<lparr>tcBatch = serving_client, tcSession = logged_session, tcProject = ''p1'', tcOps = served_ops\<rparr>, served_shell v)"
    "download_clients serving_command served_store (served_shell v) =
      (Inr \<lparr>tcBatch = serving_client, tcSession = logged_session, tcProject = ''p1'', tcOps = served_ops\<rparr>, served_shell v)"
    by (simp_all add: upload_clients_def download_clients_def serving_client served_project)
qed

lemma served_upload:
  "dataset_upload serving_command served_store demo_transfer (\<lambda>_ _. None) [''src''] (Inr True) (Folder None demo_children)
     (served_shell empty_s3) Done (uploaded (\<lambda>_ _. None) demo_dataset ((served_shell empty_s3)\<lparr>batch := settled (served_world sized_s3)\<rparr>))"
proof (rule dataset_upload.complete [OF _ _ served_clients(1)])
  show "GetLocalDatasetSize (xtar demo_transfer) (xencode demo_transfer) (\<lambda>_. None) ([''src''] ! 0) (Folder None demo_children) = Some (Inr 5)"
    using demo_tardir by (simp add: GetLocalDatasetSize_def demo_transfer_def countBytes_all in_int64_def max_int64_def min_int64_def del: packed_files.simps)
  show "Upload demo_transfer (upload_config \<lparr>tcBatch = serving_client, tcSession = logged_session, tcProject = ''p1'', tcOps = served_ops\<rparr> ([''src''] ! 0))
     (Folder None demo_children) (batch (served_shell empty_s3)) (Some demo_dataset, None) (settled (served_world sized_s3))"
    using served.upload_succeeds [of UploadConcurrency] by (simp add: upload_config_def upload_at_def UploadConcurrency_def)
qed (simp_all add: data_path_def)

lemma served_download:
  "\<exists>s3 d'. dataset_download serving_command served_store demo_transfer [''ds'', ''out''] (served_shell sized_s3) out_disk Done s3 d'"
proof -
  let ?tc = "\<lparr>tcBatch = serving_client, tcSession = logged_session, tcProject = ''p1'', tcOps = served_ops\<rparr>"
  have "base_ready ''out'' out_disk" by (simp add: out_ready out_disk_def)
  from ready_folder [OF this]
  have p: "prepare_download serving_command served_store [''ds'', ''out''] (served_shell sized_s3) out_disk = (Inr ?tc, served_shell sized_s3, out_disk)"
    by (simp add: prepare_download_def served_clients(2))
  obtain d' w' where "Download demo_transfer (download_config ?tc ''p1'' ''out'' ''ds'') out_disk (settled (served_world sized_s3)) (Inr ()) d' w'"
    using served.download_succeeds [of DownloadConcurrency] by (auto simp: download_config_def download_at_def DownloadConcurrency_def)
  then have "fetch_dataset demo_transfer (download_config ?tc ''p1'' ''out'' ''ds'') out_disk (batch (downloading ''ds'' (served_shell sized_s3))) (Inr ()) d' w'"
    using served.remote_size [of DownloadConcurrency] by (intro fetch_dataset.fetched) (simp_all add: download_config_def download_at_def)
  with dataset_download.ended [OF p] show ?thesis by (fastforce simp: ending_def)
qed

theorem dataset_commands_roundtrip_witness:
  "\<exists>s1 s3 d'. dataset_upload serving_command served_store demo_transfer (\<lambda>_ _. None) [''src''] (Inr True) (Folder None demo_children)
       (served_shell empty_s3) Done s1
     \<and> dataset_download serving_command served_store demo_transfer [''ds'', ''out''] (served_shell sized_s3) out_disk Done s3 d'
     \<and> nodes d' ''out/a.txt'' = Some (FileNode 420 ''one'' 7) \<and> nodes d' ''out/s/b'' = Some (FileNode 420 ''two'' 8)"
proof -
  obtain fs where fs: "Read (session_file serving_command) (wfs (world_of (served_shell empty_s3))) = (Inr logged_session, fs)"
    using served_session by blast
  have cr: "CreateDataset serving_client ''p1'' (batch (served_shell empty_s3)) = (Inr demo_created, settled (served_world empty_s3))"
    by (simp add: serving_served)
  have st: "stream_ready demo_transfer (behind objs (served_shell empty_s3)) demo_created (Folder None demo_children) ''src''"
    using demo_stream [of demo_created] by simp
  have un: "undisturbed (xtar (demo_transfer :: s3_world batch_world transfer_env))"
    by (simp add: undisturbed_def demo_transfer_def Archive_Files.demo_env_def)
  have kept: "behind objs (served_shell sized_s3) = behind objs (uploaded (\<lambda>_ _. None) demo_dataset
      ((served_shell empty_s3)\<lparr>batch := settled (served_world sized_s3)\<rparr>))"
    unfolding uploaded_objects served_shell(3) by (simp add: behind_def world_of_def settled_def outer_def new_auth_def served_world_def)
  have room: "room_in (Folder None demo_children) ''out'' out_disk"
    unfolding room_in_def using out_disk_free out_disk_fits by (simp add: out_ready out_disk_def)
  obtain s3 d' where dl: "dataset_download serving_command served_store demo_transfer [''ds'', ''out''] (served_shell sized_s3) out_disk Done s3 d'"
    using served_download by blast
  have "brought_back (Folder None demo_children) ''out'' out_disk d'"
    by (rule dataset_commands_roundtrip [OF served_ready serving_client fs served_project cr served_known demo_sound un st served_upload kept room])
      (unfold demo_created_sel, rule dl)
  then have "nodes d' ''out/a.txt'' = Some (FileNode 420 ''one'' 7)" "nodes d' ''out/s/b'' = Some (FileNode 420 ''two'' 8)"
    by (simp_all add: brought_back_def demo_packed sub_def)
  with dl served_upload show ?thesis by blast
qed

end
