(* ===== verification/Login_Flow.thy ===== *)
theory Login_Flow
  imports Command_Client
begin

text \<open>
  \<^verbatim>\<open>command/login.go\<close>: the random state of a login, the two handlers of the local server, and the login, which
  waits for the first of them to answer, exchanges the code and stores the credentials. The numbers of
  \<^verbatim>\<open>math/rand\<close>, the browser and the order of what happens at the server are arguments.
\<close>

section \<open>Random states\<close>

definition letterBytes :: string where
  "letterBytes = ''abcdefghijklmnopqrstuvwxyzABCDEFGHIJKLMNOPQRSTUVWXYZ0123456789''"

definition letterIdxMax :: nat where
  "letterIdxMax = 10"

text \<open>
  The loop: letters still missing, bits, how many draws are left in them, the next number of the source, and the
  end of the string so far, which is filled from the back. Draws of 62 and 63 are thrown away.
\<close>

fun random_loop :: "nat \<Rightarrow> (nat \<Rightarrow> nat) \<Rightarrow> nat \<Rightarrow> nat \<Rightarrow> nat \<Rightarrow> nat \<Rightarrow> string \<Rightarrow> string option" where
  "random_loop fuel src 0 cache remain k acc = Some acc"
| "random_loop 0 src (Suc m) cache remain k acc = None"
| "random_loop (Suc fuel) src (Suc m) cache remain k acc =
     (let (cache, remain, k) = (if remain = 0 then (src k, letterIdxMax, Suc k) else (cache, remain, k));
          idx = cache mod 64 in
      if idx < length letterBytes then random_loop fuel src m (cache div 64) (remain - 1) k (letterBytes ! idx # acc)
      else random_loop fuel src (Suc m) (cache div 64) (remain - 1) k acc)"

definition randomString :: "nat \<Rightarrow> (nat \<Rightarrow> nat) \<Rightarrow> nat \<Rightarrow> string option" where
  "randomString fuel src n = random_loop fuel src n (src 0) letterIdxMax 1 []"

section \<open>The local server\<close>

definition authorizeEndpoint :: string where
  "authorizeEndpoint = ''o/authorize''"

text \<open>What happens at the server: a request, with what \<^verbatim>\<open>Query().Get\<close> says, or the end of \<^verbatim>\<open>ListenAndServe\<close>.\<close>

datatype server_event = Callback "string \<Rightarrow> string" | Authorize "string \<Rightarrow> string" | Stopped_listening goerr

type_synonym response = "goerr + string"

definition state_mismatch :: "string \<Rightarrow> string \<Rightarrow> goerr" where
  "state_mismatch expected actual = Fundamental (''oauth state does not match provided state (expected: '' @ expected
     @ '', actual: '' @ actual @ '')'')"

definition handle_callback :: "AuthConfig \<Rightarrow> string \<Rightarrow> (string \<Rightarrow> string) \<Rightarrow> response \<times> string option" where
  "handle_callback cfg randomState q =
     (if randomState \<noteq> q ''state'' then (Inl (state_mismatch randomState (q ''state'')), None)
      else (Inr (q ''code''), Some (OAuthSuccessURL cfg)))"

text \<open>The answer, if any, and where the browser is sent.\<close>

definition handle_authorize :: "(string \<Rightarrow> goerr + url) \<Rightarrow> AuthConfig \<Rightarrow> (string \<Rightarrow> string) \<Rightarrow> response option \<times> url option" where
  "handle_authorize parse cfg q =
     (case parse (APIEndpoint cfg) of
        Inl err \<Rightarrow> (Some (Inl (wrapped (''failed to parse auth api endpoint ('' @ APIEndpoint cfg @ '')'') err)), None)
      | Inr base \<Rightarrow>
         (case url_Parse authorizeEndpoint of
            Inl err \<Rightarrow> (Some (Inl (wrapped (''failed to parse authorize endpoint ('' @ authorizeEndpoint @ '')'') err)), None)
          | Inr path \<Rightarrow>
             (None, Some ((ResolveReference base path)\<lparr>RawQuery := Values_Encode [(''state'', q ''state''), (''client_id'', ClientID cfg),
                (''response_type'', ''code''), (''redirect_uri'', ''http://'' @ OAuthLocalServer cfg @ ''/oauth/callback'')]\<rparr>))))"

fun answer :: "(string \<Rightarrow> goerr + url) \<Rightarrow> AuthConfig \<Rightarrow> string \<Rightarrow> server_event \<Rightarrow> response option" where
  "answer parse cfg st (Callback q) = Some (fst (handle_callback cfg st q))"
| "answer parse cfg st (Authorize q) = fst (handle_authorize parse cfg q)"
| "answer parse cfg st (Stopped_listening err) = Some (Inl (wrapped ''failed to spawn local server'' err))"

text \<open>The login hears the first answer; without one it waits for good.\<close>

fun first_answer :: "(string \<Rightarrow> goerr + url) \<Rightarrow> AuthConfig \<Rightarrow> string \<Rightarrow> server_event list \<Rightarrow> response option" where
  "first_answer parse cfg st [] = None"
| "first_answer parse cfg st (ev # evs) = (case answer parse cfg st ev of Some r \<Rightarrow> Some r | None \<Rightarrow> first_answer parse cfg st evs)"

section \<open>The login\<close>

definition open_failed :: string where
  "open_failed = ''Failed to open browser window. Please see github.com/nerdalize/nerd for alternative ways of authenticating.''"

definition exchange :: "('k, 'x) command_env \<Rightarrow> url \<Rightarrow> string \<Rightarrow> 'x world \<Rightarrow> (goerr + OAuthCredentials) \<times> 'x world" where
  "exchange e authbase code = GetOAuthCredentials (transport e) (with_slash authbase) code (ClientID (Auth (config e)))
     (''http://'' @ OAuthLocalServer (Auth (config e)) @ ''/oauth/callback'')"

definition store_credentials :: "('k, 'x) command_env \<Rightarrow> OAuthCredentials \<Rightarrow> 'x world \<Rightarrow> (goerr + unit) \<times> 'x world" where
  "store_credentials e out w = on_disk (WriteOAuth (session_file e) (ocAccessToken out) (ocRefreshToken out)
     (wrap64 (unix_seconds (wclock w) + ExpiresIn out) * second) (ocScope out) (ocTokenType out)) w"

definition info :: "string \<Rightarrow> 'x shell \<Rightarrow> ended \<times> 'x shell" where
  "info line s = (Done, s\<lparr>console := (console s)\<lparr>err_lines := err_lines (console s) @ [line]\<rparr>\<rparr>)"

definition success_text :: string where
  "success_text = ''Successful login. You can now select a project using '' @ in_quotes ''nerd project''"

text \<open>The state is \<open>None\<close> where its loop has no fuel; \<open>open_browser\<close> is the error of opening the browser at a state.\<close>

definition login :: "('k, 'x) command_env \<Rightarrow> string option \<Rightarrow> (string \<Rightarrow> goerr option) \<Rightarrow> server_event list
    \<Rightarrow> 'x shell \<Rightarrow> (ended \<times> 'x shell) option" where
  "login e st open_browser evs s =
     (case parse_endpoint e ''auth'' (APIEndpoint (Auth (config e))) of
        Inl err \<Rightarrow> Some (Failing (HandleError err), s)
      | Inr authbase \<Rightarrow>
         (case st of None \<Rightarrow> None
          | Some randomState \<Rightarrow>
             (case open_browser randomState of
                Some err \<Rightarrow> Some (Failing (HandleError (wrapped open_failed err)), s)
              | None \<Rightarrow>
                 (case first_answer (parse_url e) (Auth (config e)) randomState evs of
                    None \<Rightarrow> None
                  | Some (Inl err) \<Rightarrow> Some (Failing (HandleError (wrapped ''failed to do oauth login'' err)), s)
                  | Some (Inr code) \<Rightarrow> Some
                      (case on_world (exchange e authbase code) s of
                         (Inl err, s) \<Rightarrow> (Failing (HandleError (wrapped ''failed to get oauth credentials'' err)), s)
                       | (Inr out, s) \<Rightarrow>
                          (case on_world (store_credentials e out) s of
                             (Inl err, s) \<Rightarrow> (Failing (HandleError (wrapped ''failed to write oauth tokens to config'' err)), s)
                           | (Inr _, s) \<Rightarrow> info success_text s))))))"

section \<open>The state is random letters\<close>

text \<open>The letters in a number, in the order they are drawn.\<close>

fun picks :: "nat \<Rightarrow> nat \<Rightarrow> string" where
  "picks 0 v = []"
| "picks (Suc r) v = (if v mod 64 < length letterBytes then [letterBytes ! (v mod 64)] else []) @ picks r (v div 64)"

lemma letterBytes_length [simp]: "length letterBytes = 62"
  by (simp add: letterBytes_def)

lemma random_loop_block:
  "random_loop (r + f) src m v r k acc =
     (if m \<le> length (picks r v) then Some (rev (take m (picks r v)) @ acc)
      else random_loop f src (m - length (picks r v)) (v div 64 ^ r) 0 k (rev (picks r v) @ acc))"
proof (induction r arbitrary: m v acc)
  case 0
  then show ?case by (cases m) simp_all
next
  case (Suc r)
  show ?case
  proof (cases m)
    case (Suc m')
    show ?thesis
      using Suc.IH [of m' "v div 64"] Suc.IH [of m "v div 64"] Suc
      by (auto simp: div_mult2_eq)
  qed simp
qed

lemma random_loop_reload: "random_loop (Suc f) src (Suc m) v 0 k acc = random_loop (Suc f) src (Suc m) (src k) letterIdxMax (Suc k) acc"
  by (simp add: letterIdxMax_def)

definition draws :: "(nat \<Rightarrow> nat) \<Rightarrow> nat \<Rightarrow> nat \<Rightarrow> string" where
  "draws src k b = concat (map (\<lambda>i. picks letterIdxMax (src i)) [k..<k + b])"

lemma draws_Suc: "draws src k (Suc b) = picks letterIdxMax (src k) @ draws src (Suc k) b"
proof -
  have "[k..<k + Suc b] = k # [Suc k..<Suc k + b]" by (subst upt_conv_Cons) simp_all
  then show ?thesis by (simp only: draws_def list.map concat.simps)
qed

lemma random_loop_draws:
  "m \<le> length (draws src k b) \<Longrightarrow> letterIdxMax * b \<le> fuel \<Longrightarrow>
     random_loop fuel src m v 0 k acc = Some (rev (take m (draws src k b)) @ acc)"
proof (induction b arbitrary: m v k acc fuel)
  case 0
  then show ?case by (simp add: draws_def)
next
  case (Suc b)
  let ?p = "picks letterIdxMax (src k)"
  define f where "f = fuel - letterIdxMax"
  then have f: "fuel = letterIdxMax + f" "letterIdxMax * b \<le> f"
    using Suc.prems(2) by simp_all
  show ?case
  proof (cases m)
    case (Suc m')
    have "random_loop fuel src m v 0 k acc = random_loop fuel src m (src k) letterIdxMax (Suc k) acc"
      using random_loop_reload [of "9 + f" src m' v k acc] Suc f(1) by (simp add: letterIdxMax_def)
    also have "\<dots> = Some (rev (take m (draws src k (Suc b))) @ acc)"
    proof (cases "m \<le> length ?p")
      case True
      then show ?thesis by (simp add: f(1) random_loop_block draws_Suc)
    next
      case False
      with Suc.prems(1) have "m - length ?p \<le> length (draws src (Suc k) b)" by (simp add: draws_Suc)
      from Suc.IH [OF this f(2)] False show ?thesis by (simp add: f(1) random_loop_block draws_Suc)
    qed
    finally show ?thesis .
  qed simp
qed

lemma picks_letters: "set (picks r v) \<subseteq> set letterBytes"
  by (induction r v rule: picks.induct) auto

text \<open>
  The state of a login is random letters of the full length: the string is the first draws of the source
  that name a letter, from the back, each draw six bits of a number and at most ten to a number, as soon as
  the source has given enough of them; and the loop ends after ten turns for each number it takes.
\<close>

theorem random_state:
  assumes "n \<le> length (draws src 0 b)" and "letterIdxMax * b \<le> fuel"
  shows "\<exists>s. randomString fuel src n = Some s \<and> length s = n \<and> set s \<subseteq> set letterBytes \<and> s = rev (take n (draws src 0 b))"
proof -
  have l: "set (draws src k c) \<subseteq> set letterBytes" for k c
    using picks_letters by (fastforce simp: draws_def)
  have "randomString fuel src n = Some (rev (take n (draws src 0 b)))"
  proof (cases n)
    case (Suc m)
    with assms(1) have "b \<noteq> 0" by (cases b) (simp_all add: draws_def)
    with assms(2) obtain f where f: "fuel = Suc f" by (cases fuel) (auto simp: letterIdxMax_def)
    have "randomString fuel src n = random_loop fuel src n 0 0 0 []"
      using random_loop_reload [of f src m 0 0 "[]"] Suc f by (simp add: randomString_def)
    with random_loop_draws [OF assms, of 0 "[]"] show ?thesis by simp
  qed (simp add: randomString_def)
  moreover have "set (rev (take n (draws src 0 b))) \<subseteq> set letterBytes"
    using l [of 0 b] set_take_subset [of n "draws src 0 b"] by auto
  ultimately show ?thesis using assms(1) by simp
qed

lemma picks_small: "v < 62 \<Longrightarrow> length (picks r v) = r"
  by (induction r arbitrary: v) simp_all

theorem random_state_witness:
  "\<exists>s. randomString 40 (\<lambda>k. k) 32 = Some s \<and> length s = 32 \<and> set s \<subseteq> set letterBytes"
proof -
  have "[0..<0 + 4] = [0, 1, 2, 3]" by (simp add: upt_rec)
  then have "32 \<le> length (draws (\<lambda>k. k) 0 4)"
    by (simp only: draws_def list.map concat.simps) (simp add: picks_small letterIdxMax_def)
  from random_state [OF this, of 40] show ?thesis by (auto simp: letterIdxMax_def)
qed

section \<open>Only the right callback logs in\<close>

lemma first_answer_code:
  "first_answer parse cfg st evs = Some (Inr code) \<Longrightarrow>
     \<exists>pre q post. evs = pre @ Callback q # post \<and> (\<forall>ev\<in>set pre. \<exists>q. ev = Authorize q) \<and> q ''state'' = st \<and> q ''code'' = code"
proof (induction evs)
  case (Cons ev evs)
  show ?case
  proof (cases ev)
    case (Callback q)
    with Cons.prems show ?thesis
      by (intro exI [of _ "[]"]) (auto simp: handle_callback_def split: if_splits)
  next
    case (Authorize q)
    then have "first_answer parse cfg st evs = Some (Inr code)"
      using Cons.prems by (auto simp: handle_authorize_def split: sum.splits option.splits)
    from Cons.IH [OF this] obtain pre q' post where "evs = pre @ Callback q' # post"
      "\<forall>ev\<in>set pre. \<exists>q. ev = Authorize q" "q' ''state'' = st" "q' ''code'' = code" by blast
    then show ?thesis using Authorize by (intro exI [of _ "ev # pre"]) auto
  next
    case (Stopped_listening err)
    with Cons.prems show ?thesis by simp
  qed
qed simp

text \<open>
  C9: A login ends well only after a callback that knows its state, and before any other: the credentials that
  are stored are the ones the server gave for the code of that callback, with the time they expire, and the
  rest of the session is kept.
\<close>

theorem login_checks_state:
  assumes "login e (Some st) open_browser evs s = Some (Done, s')"
  shows "\<exists>authbase pre q post out s1 ss. evs = pre @ Callback q # post \<and> (\<forall>ev\<in>set pre. \<exists>q. ev = Authorize q) \<and> q ''state'' = st
    \<and> parse_endpoint e ''auth'' (APIEndpoint (Auth (config e))) = Inr authbase
    \<and> on_world (exchange e authbase (q ''code'')) s = (Inr out, s1)
    \<and> Read (session_file e) (wfs (world_of s1)) = (Inr ss, wfs (world_of s1))
    \<and> Read (session_file e) (wfs (world_of s')) = (Inr (ss\<lparr>SOAuth := \<lparr>AccessToken = ocAccessToken out, RefreshToken = ocRefreshToken out,
         Expiration = wrap64 (unix_seconds (wclock (world_of s1)) + ExpiresIn out) * second, Scope = ocScope out, TokenType = ocTokenType out\<rparr>\<rparr>),
         wfs (world_of s'))"
proof -
  from assms obtain authbase where a: "parse_endpoint e ''auth'' (APIEndpoint (Auth (config e))) = Inr authbase"
    by (auto simp: login_def split: sum.splits)
  from assms a obtain code where o: "open_browser st = None" and c: "first_answer (parse_url e) (Auth (config e)) st evs = Some (Inr code)"
    by (auto simp: login_def split: option.splits sum.splits)
  from assms a o c obtain out s1 where x: "on_world (exchange e authbase code) s = (Inr out, s1)"
    by (auto simp: login_def split: prod.splits sum.splits)
  from assms a o c x obtain s2 where w: "on_world (store_credentials e out) s1 = (Inr (), s2)"
    and i: "info success_text s2 = (Done, s')"
    by (auto simp: login_def split: prod.splits sum.splits)
  have same: "world_of s' = world_of s2" using i by (auto simp: info_def world_of_def)
  from first_answer_code [OF c] obtain pre q post where q: "evs = pre @ Callback q # post"
    "\<forall>ev\<in>set pre. \<exists>q. ev = Authorize q" "q ''state'' = st" "q ''code'' = code" by blast
  let ?exp = "wrap64 (unix_seconds (wclock (world_of s1)) + ExpiresIn out) * second"
  have "store_credentials e out (world_of s1) = on_disk (WriteOAuth (session_file e) (ocAccessToken out) (ocRefreshToken out) ?exp
      (ocScope out) (ocTokenType out)) (world_of s1)" by (simp add: store_credentials_def)
  with on_world_back [OF w] have "on_disk (WriteOAuth (session_file e) (ocAccessToken out) (ocRefreshToken out) ?exp
      (ocScope out) (ocTokenType out)) (world_of s1) = (Inr (), world_of s2)" by (simp only:)
  from iffD1 [OF on_disk_Inr this] obtain fs where
    "WriteOAuth (session_file e) (ocAccessToken out) (ocRefreshToken out) ?exp (ocScope out) (ocTokenType out)
      (wfs (world_of s1)) = (Inr (), fs)" and "world_of s2 = (world_of s1)\<lparr>wfs := fs\<rparr>" by blast
  then have "WriteOAuth (session_file e) (ocAccessToken out) (ocRefreshToken out) ?exp (ocScope out) (ocTokenType out)
      (wfs (world_of s1)) = (Inr (), fs)" "fs = wfs (world_of s2)" by simp_all
  from update_read [OF this(1) [unfolded WriteOAuth_def]] this(2) obtain ss where
    r1: "Read (session_file e) (wfs (world_of s1)) = (Inr ss, wfs (world_of s1))" and
    r2: "Read (session_file e) (wfs (world_of s2)) = (Inr (ss\<lparr>SOAuth := \<lparr>AccessToken = ocAccessToken out, RefreshToken = ocRefreshToken out,
         Expiration = ?exp, Scope = ocScope out, TokenType = ocTokenType out\<rparr>\<rparr>), wfs (world_of s2))" by (elim exE conjE) simp
  show ?thesis
    by (intro exI conjI) (rule q(1-3) a x [folded q(4)] r1 r2 [folded same])+
qed

end
