(* ===== verification/Login_Example.thy ===== *)
theory Login_Example
  imports Command_Properties Login_Flow
begin

text \<open>
  A login of \<open>Login_Flow\<close> on the example machine of \<open>Command_Properties\<close>: the browser asks for the
  authorization, the callback brings the right state, and the session ends with the new token.
\<close>

definition granting_command :: "(unit, unit) command_env" where
  "granting_command = demo_command\<lparr>transport := (\<lambda>req w. (Inr \<lparr>StatusCode = 200, Status = ''200 OK'',
     RespBody = Inr (JObj [(''access_token'', JStr ''new''), (''expires_in'', JNum 3600)])\<rparr>, w))\<rparr>"

definition callback_of :: "string \<Rightarrow> string \<Rightarrow> string \<Rightarrow> string" where
  "callback_of st code key = (if key = ''state'' then st else if key = ''code'' then code else [])"

lemma token_path: "\<exists>u. url_Parse ''o/token/'' = Inr u"
proof -
  have "\<not> isl (url_Parse ''o/token/'')" by code_simp
  then show ?thesis by (cases "url_Parse ''o/token/''") simp_all
qed

lemma authorize_path: "\<exists>u. url_Parse authorizeEndpoint = Inr u"
proof -
  have "\<not> isl (url_Parse authorizeEndpoint)" by code_simp
  then show ?thesis by (cases "url_Parse authorizeEndpoint") simp_all
qed

lemma granting_exchange:
  "exchange granting_command u code (world_of (demo_shell logged_in)) =
     (Inr (empty_credentials\<lparr>ocAccessToken := ''new'', ExpiresIn := 3600\<rparr>), world_of (demo_shell logged_in))"
proof -
  obtain p where p: "url_Parse ''o/token/'' = Inr p" using token_path by blast
  have d: "decode_struct credentials_fields (JObj [(''access_token'', JStr ''new''), (''expires_in'', JNum 3600)]) empty_credentials =
      Inr (empty_credentials\<lparr>ocAccessToken := ''new'', ExpiresIn := 3600\<rparr>)"
    by (simp add: decode_struct_def credentials_fields_def find_field_def setter_defs in_int64_def min_int64_def max_int64_def)
  show ?thesis
    by (simp add: exchange_def GetOAuthCredentials_def ops_doRequest_def p check_def send_def granting_command_def call_def)
      (simp add: into_def finish_response_def Decode_def d)
qed

theorem login_checks_state_witness:
  "\<exists>s' ss. login granting_command (Some ''st'') (\<lambda>_. None) [Authorize (callback_of ''st'' []), Callback (callback_of ''st'' ''c0de'')]
       (demo_shell logged_in) = Some (Done, s')
     \<and> Read ''/root/.nerd/session.json'' (wfs (world_of s')) = (Inr ss, wfs (world_of s')) \<and> AccessToken (SOAuth ss) = ''new''"
proof -
  let ?s = "demo_shell logged_in" and ?e = granting_command and ?u = "empty_url\<lparr>Host := ''h''\<rparr>" and ?loc = "''/root/.nerd/session.json''"
  let ?out = "empty_credentials\<lparr>ocAccessToken := ''new'', ExpiresIn := 3600\<rparr>"
  let ?evs = "[Authorize (callback_of ''st'' []), Callback (callback_of ''st'' ''c0de'')]"
  have f: "session_file ?e = ?loc" "parse_url ?e = (\<lambda>_. Inr ?u)" by (simp_all add: granting_command_def demo_command_def)
  obtain a where a: "url_Parse authorizeEndpoint = Inr a" using authorize_path by blast
  have evs: "first_answer (parse_url ?e) (Auth (config ?e)) ''st'' ?evs = Some (Inr ''c0de'')"
    by (simp add: f handle_authorize_def a handle_callback_def callback_of_def)
  have x: "on_world (exchange ?e ?u ''c0de'') ?s = (Inr ?out, ?s)"
    by (rule on_world_same) (rule granting_exchange)
  define exp where "exp = wrap64 (unix_seconds (wclock (world_of ?s)) + ExpiresIn ?out) * second"
  have "wclock (world_of ?s) = 1000" by (simp add: demo_shell_def)
  then have "time_min \<le> exp" "exp < time_max"
    by (simp_all add: exp_def empty_credentials_def unix_seconds_def second_def wrap64_def time_min_def time_max_def)
  moreover have "create_err (wfs (world_of ?s)) ?loc = None" "write_err (wfs (world_of ?s)) ?loc = None"
    by (simp_all add: demo_shell_def session_fs_def fresh_home_def)
  ultimately obtain fs' where "WriteOAuth ?loc (ocAccessToken ?out) (ocRefreshToken ?out) exp (ocScope ?out) (ocTokenType ?out)
      (wfs (world_of ?s)) = (Inr (), fs')"
    using WriteOAuth_ok [OF logged_in_read] by blast
  then have "store_credentials ?e ?out (world_of ?s) = (Inr (), (world_of ?s)\<lparr>wfs := fs'\<rparr>)"
    by (simp only: store_credentials_def f exp_def [symmetric] on_disk_world)
  from on_world_result [where f = "store_credentials ?e ?out", OF this] obtain s' where w: "on_world (store_credentials ?e ?out) ?s = (Inr (), s')"
    by (cases "on_world (store_credentials ?e ?out) ?s") simp
  have b: "parse_endpoint ?e ''auth'' (APIEndpoint (Auth (config ?e))) = Inr ?u"
    by (simp add: parse_endpoint_def f)
  have "login ?e (Some ''st'') (\<lambda>_. None) ?evs ?s = Some (info success_text s')"
    by (simp only: login_def b evs x w sum.case option.case prod.case)
  then have l: "login ?e (Some ''st'') (\<lambda>_. None) ?evs ?s = Some (Done, snd (info success_text s'))"
    by (simp add: info_def)
  from login_checks_state [OF l] obtain base pre q post out s1 ss where r: "?evs = pre @ Callback q # post"
    "\<forall>ev\<in>set pre. \<exists>q. ev = Authorize q" "parse_endpoint ?e ''auth'' (APIEndpoint (Auth (config ?e))) = Inr base"
    "on_world (exchange ?e base (q ''code'')) ?s = (Inr out, s1)"
    and s: "Read (session_file ?e) (wfs (world_of (snd (info success_text s')))) =
        (Inr (ss\<lparr>SOAuth := \<lparr>AccessToken = ocAccessToken out, RefreshToken = ocRefreshToken out,
         Expiration = wrap64 (unix_seconds (wclock (world_of s1)) + ExpiresIn out) * second, Scope = ocScope out, TokenType = ocTokenType out\<rparr>\<rparr>),
         wfs (world_of (snd (info success_text s'))))"
    by (elim exE conjE)
  from r(1) have "q = callback_of ''st'' ''c0de''" by (auto simp: Cons_eq_append_conv)
  then have "q ''code'' = ''c0de''" by (simp add: callback_of_def)
  with r(3,4) b x have "out = ?out" by simp
  then have "ocAccessToken out = ''new''" by simp
  with l s [unfolded f] show ?thesis by (intro exI conjI) (rule l, assumption, simp)
qed

end
