(* ===== verification/Session_Machine.thy ===== *)
theory Session_Machine
  imports Conf_Session
begin

text \<open>
  What \<^verbatim>\<open>SessionInterface\<close> of \<^verbatim>\<open>nerd/conf/session.go\<close> promises, as an abstract machine: a session is a snapshot, or
  lost; reading gives it, a write changes its own section, and a write that cannot be spelled in JSON loses
  it. The file with its reads, truncations and JSON documents is a refinement of that machine.
\<close>

section \<open>The abstract session\<close>

datatype session_op =
    OpRead
  | OpJWT string string
  | OpOAuth string string int string string
  | OpProject string string

fun changed :: "session_op \<Rightarrow> SessionSnapshot \<Rightarrow> SessionSnapshot" where
  "changed OpRead ss = ss"
| "changed (OpJWT t r) ss = ss\<lparr>SJWT := \<lparr>Token = t, JRefreshToken = r\<rparr>\<rparr>"
| "changed (OpOAuth a rt e sc ty) ss =
     ss\<lparr>SOAuth := \<lparr>AccessToken = a, RefreshToken = rt, Expiration = e, Scope = sc, TokenType = ty\<rparr>\<rparr>"
| "changed (OpProject n g) ss = ss\<lparr>SProject := \<lparr>PName = n, AWSRegion = g\<rparr>\<rparr>"

text \<open>The years JSON has a spelling for.\<close>

definition storable :: "SessionSnapshot \<Rightarrow> bool" where
  "storable ss \<longleftrightarrow> time_min \<le> Expiration (SOAuth ss) \<and> Expiration (SOAuth ss) < time_max"

text \<open>An answer is an error (\<open>None\<close>), a snapshot, or just success.\<close>

fun abs_step :: "session_op \<Rightarrow> SessionSnapshot option \<Rightarrow> SessionSnapshot option option \<times> SessionSnapshot option" where
  "abs_step op None = (None, None)"
| "abs_step OpRead (Some ss) = (Some (Some ss), Some ss)"
| "abs_step op (Some ss) = (if storable (changed op ss) then (Some None, Some (changed op ss)) else (None, None))"

section \<open>The session in its file\<close>

definition silent :: "(goerr + unit) \<times> fsys \<Rightarrow> (goerr + SessionSnapshot option) \<times> fsys" where
  "silent x = (case x of (Inl err, fs) \<Rightarrow> (Inl err, fs) | (Inr _, fs) \<Rightarrow> (Inr None, fs))"

fun session_step :: "string \<Rightarrow> session_op \<Rightarrow> fsys \<Rightarrow> (goerr + SessionSnapshot option) \<times> fsys" where
  "session_step loc OpRead fs = (case Read loc fs of (Inl err, fs) \<Rightarrow> (Inl err, fs) | (Inr ss, fs) \<Rightarrow> (Inr (Some ss), fs))"
| "session_step loc (OpJWT t r) fs = silent (WriteJWT loc t r fs)"
| "session_step loc (OpOAuth a rt e sc ty) fs = silent (WriteOAuth loc a rt e sc ty fs)"
| "session_step loc (OpProject n g) fs = silent (WriteProject loc n g fs)"

fun run_ops :: "('o \<Rightarrow> 's \<Rightarrow> 'r \<times> 's) \<Rightarrow> 'o list \<Rightarrow> 's \<Rightarrow> 'r list \<times> 's" where
  "run_ops step [] s = ([], s)"
| "run_ops step (op # ops) s = (case step op s of (r, s) \<Rightarrow> (case run_ops step ops s of (rs, s) \<Rightarrow> (r # rs, s)))"

section \<open>The refinement\<close>

text \<open>The file can be opened for writing and written, and it reads as the abstract session.\<close>

definition represents :: "string \<Rightarrow> fsys \<Rightarrow> SessionSnapshot option \<Rightarrow> bool" where
  "represents loc fs a \<longleftrightarrow> create_err fs loc = None \<and> write_err fs loc = None \<and>
     (case a of Some ss \<Rightarrow> Read loc fs = (Inr ss, fs) | None \<Rightarrow> \<exists>err. Read loc fs = (Inl err, fs))"

definition answer_of :: "goerr + 'r \<Rightarrow> 'r option" where
  "answer_of r = (case r of Inl _ \<Rightarrow> None | Inr x \<Rightarrow> Some x)"

lemma update_lost:
  assumes "Read loc fs = (Inr ss, fs)" and "create_err fs loc = None" and "\<not> storable (upd ss)"
  shows "\<exists>err fs'. call (readFile loc) h1 (\<lambda>ss. call (writeFile loc (upd ss)) h2 (\<lambda>_ fs. (Inr (), fs))) fs = (Inl err, fs')
    \<and> represents loc fs' None = (write_err fs loc = None)"
proof -
  let ?fs = "fs\<lparr>disk := (disk fs)(loc := Some None)\<rparr>"
  from assms(3) encode_snapshot_ok [of "upd ss"] obtain err where "encode_snapshot (upd ss) = Inl err"
    by (cases "encode_snapshot (upd ss)") (auto simp: storable_def)
  with assms(2) obtain err where "writeFile loc (upd ss) fs = (Inl err, ?fs)"
    by (simp add: writeFile_def Let_def)
  moreover have "open_err fs loc = None"
    using assms(1) by (auto simp: Read_readFile intro: readFile_open)
  ultimately show ?thesis
    using assms(1,2) truncated_unreadable [of ?fs loc] by (simp add: Read_readFile represents_def call_def)
qed

lemma update_refines:
  assumes "represents loc fs a"
  shows "case a of
      None \<Rightarrow> \<exists>err. call (readFile loc) h1 (\<lambda>ss. call (writeFile loc (upd ss)) h2 (\<lambda>_ fs. (Inr (), fs))) fs = (Inl err, fs)
    | Some ss \<Rightarrow>
        if storable (upd ss)
        then \<exists>fs'. call (readFile loc) h1 (\<lambda>ss. call (writeFile loc (upd ss)) h2 (\<lambda>_ fs. (Inr (), fs))) fs = (Inr (), fs')
          \<and> represents loc fs' (Some (upd ss))
        else \<exists>err fs'. call (readFile loc) h1 (\<lambda>ss. call (writeFile loc (upd ss)) h2 (\<lambda>_ fs. (Inr (), fs))) fs = (Inl err, fs')
          \<and> represents loc fs' None"
proof (cases a)
  case None
  with assms show ?thesis by (auto simp: represents_def Read_readFile call_def)
next
  case (Some ss)
  with assms have r: "Read loc fs = (Inr ss, fs)" and e: "create_err fs loc = None" "write_err fs loc = None"
    by (simp_all add: represents_def)
  show ?thesis
  proof (cases "storable (upd ss)")
    case True
    then have "time_min \<le> Expiration (SOAuth (upd ss))" "Expiration (SOAuth (upd ss)) < time_max"
      by (simp_all add: storable_def)
    from update_ok [where upd = upd, OF r e this, of h1 h2] e True Some show ?thesis by (auto simp: represents_def)
  next
    case False
    from update_lost [where upd = upd, OF r e(1) False, of h1 h2] e False Some show ?thesis by simp
  qed
qed

lemma step_refines:
  assumes "represents loc fs a"
  shows "answer_of (fst (session_step loc op fs)) = fst (abs_step op a) \<and> represents loc (snd (session_step loc op fs)) (snd (abs_step op a))"
proof (cases op)
  case OpRead
  with assms show ?thesis by (cases a) (auto simp: represents_def answer_of_def)
next
  case (OpJWT t r)
  from update_refines [OF assms, of "wrapped ''failed to read config''" "\<lambda>ss. ss\<lparr>SJWT := \<lparr>Token = t, JRefreshToken = r\<rparr>\<rparr>"
      "wrapped ''failed to write config''"] OpJWT assms
  show ?thesis by (cases a) (auto simp: WriteJWT_def silent_def answer_of_def split: if_splits)
next
  case (OpOAuth ac rt e sc ty)
  from update_refines [OF assms, of "wrapped ''failed to read config''" "changed op" "wrapped ''failed to write config''"] OpOAuth assms
  show ?thesis by (cases a) (auto simp: WriteOAuth_def silent_def answer_of_def split: if_splits)
next
  case (OpProject n g)
  from update_refines [OF assms, of "wrapped ''failed to read config''" "changed op" "wrapped ''failed to write config''"] OpProject assms
  show ?thesis by (cases a) (auto simp: WriteProject_def silent_def answer_of_def split: if_splits)
qed

text \<open>
  C7: The session file implements the abstract session: whatever is read and written, in any order and for any
  values, every answer is the one of the abstract machine and the file goes on to represent its state, also
  after a write that loses the session; for a file that can be opened and written.
\<close>

theorem session_refines:
  assumes "represents loc fs a"
  shows "map answer_of (fst (run_ops (session_step loc) ops fs)) = fst (run_ops abs_step ops a)
    \<and> represents loc (snd (run_ops (session_step loc) ops fs)) (snd (run_ops abs_step ops a))"
  using assms
proof (induction ops arbitrary: fs a)
  case (Cons op ops)
  obtain r fs1 where c: "session_step loc op fs = (r, fs1)" by (rule prod.exhaust)
  obtain r' a1 where b: "abs_step op a = (r', a1)" by (rule prod.exhaust)
  from step_refines [OF Cons.prems, of op] c b have "answer_of r = r'" and "represents loc fs1 a1" by simp_all
  with Cons.IH [OF this(2)] c b show ?case by (auto split: prod.splits)
qed simp

theorem session_refines_witness:
  "map answer_of (fst (run_ops (session_step ''s.json'')
      [OpProject ''p'' ''g'', OpJWT ''t'' [], OpRead, OpOAuth ''a'' ''r'' (300000000000 * 1000000000) [] [], OpRead] example_fs)) =
     [Some None, Some None, Some (Some (empty_snapshot\<lparr>SProject := \<lparr>PName = ''p'', AWSRegion = ''g''\<rparr>, SJWT := \<lparr>Token = ''t'', JRefreshToken = []\<rparr>\<rparr>)),
      None, None]"
proof -
  have "represents ''s.json'' example_fs (Some empty_snapshot)"
    using example_fs_read by (simp add: represents_def example_fs_def)
  note r = session_refines [OF this, of "[OpProject ''p'' ''g'', OpJWT ''t'' [], OpRead, OpOAuth ''a'' ''r'' (300000000000 * 1000000000) [] [], OpRead]"]
  show ?thesis
    unfolding conjunct1 [OF r] by (simp add: storable_def empty_snapshot_def zero_time_def time_min_def time_max_def)
qed

end
