(* ===== verification/Session_Locks.thy ===== *)
theory Session_Locks
  imports Session_Machine
begin

text \<open>
  Goroutines that use the session at once: the mutex of \<^verbatim>\<open>Session\<close> (\<^verbatim>\<open>nerd/conf/session.go\<close>) around every read and write, with
  the calls of the file system in between as steps of their own. Goroutines that share a \<open>Session\<close> act as if they took
  turns; two of them with a \<open>Session\<close> each, as two commands have, do not.
\<close>

section \<open>A call in its parts\<close>

text \<open>Under the lock; the snapshot is read; the file is truncated; on the way out.\<close>

datatype call_part =
    Locked session_op
  | HasRead session_op SessionSnapshot
  | Created session_op SessionSnapshot
  | Leaving session_op "goerr + SessionSnapshot option"

abbreviation write_failed :: "goerr \<Rightarrow> goerr + SessionSnapshot option" where
  "write_failed err \<equiv> Inl (wrapped ''failed to write config'' err)"

definition read_part :: "string \<Rightarrow> session_op \<Rightarrow> fsys \<Rightarrow> call_part \<times> fsys" where
  "read_part loc op fs = (case readFile loc fs of
     (Inl err, fs) \<Rightarrow> (Leaving op (Inl (if op = OpRead then err else wrapped ''failed to read config'' err)), fs)
   | (Inr ss, fs) \<Rightarrow> (if op = OpRead then Leaving op (Inr (Some ss)) else HasRead op ss, fs))"

definition create_part :: "string \<Rightarrow> session_op \<Rightarrow> SessionSnapshot \<Rightarrow> fsys \<Rightarrow> call_part \<times> fsys" where
  "create_part loc op ss fs = (case create_err fs loc of
     Some n \<Rightarrow> (Leaving op (write_failed (wrapped ''failed to create/open config file'' (os_error ''open'' loc n))), fs)
   | None \<Rightarrow> (Created op ss, fs\<lparr>disk := (disk fs)(loc := Some None)\<rparr>))"

definition encode_part :: "string \<Rightarrow> session_op \<Rightarrow> SessionSnapshot \<Rightarrow> fsys \<Rightarrow> call_part \<times> fsys" where
  "encode_part loc op ss fs = (case encode_snapshot (changed op ss) of
     Inl err \<Rightarrow> (Leaving op (write_failed (wrapped ''failed to encode json'' err)), fs)
   | Inr j \<Rightarrow> (case write_err fs loc of
       Some n \<Rightarrow> (Leaving op (write_failed (wrapped ''failed to encode json'' (os_error ''write'' loc n))), fs)
     | None \<Rightarrow> (Leaving op (Inr None), fs\<lparr>disk := (disk fs)(loc := Some (Some j))\<rparr>)))"

fun advance :: "string \<Rightarrow> call_part \<Rightarrow> fsys \<Rightarrow> (call_part \<times> fsys) option" where
  "advance loc (Locked op) fs = Some (read_part loc op fs)"
| "advance loc (HasRead op ss) fs = Some (create_part loc op ss fs)"
| "advance loc (Created op ss) fs = Some (encode_part loc op ss fs)"
| "advance loc (Leaving op a) fs = None"

fun part_op :: "call_part \<Rightarrow> session_op" where
  "part_op (Locked op) = op" | "part_op (HasRead op _) = op" | "part_op (Created op _) = op" | "part_op (Leaving op _) = op"

text \<open>What a call comes to when nobody else touches the file.\<close>

fun outcome :: "string \<Rightarrow> call_part \<Rightarrow> fsys \<Rightarrow> (goerr + SessionSnapshot option) \<times> fsys" where
  "outcome loc (Locked op) fs = session_step loc op fs"
| "outcome loc (HasRead op ss) fs =
     silent (call (writeFile loc (changed op ss)) (wrapped ''failed to write config'') (\<lambda>_ fs. (Inr (), fs)) fs)"
| "outcome loc (Created op ss) fs = (case encode_part loc op ss fs of (Leaving _ a, fs) \<Rightarrow> (a, fs) | (_, fs) \<Rightarrow> (Inr None, fs))"
| "outcome loc (Leaving op a) fs = (a, fs)"

lemma session_step_write:
  "op \<noteq> OpRead \<Longrightarrow> session_step loc op fs =
     silent (call (readFile loc) (wrapped ''failed to read config'') (\<lambda>ss. call (writeFile loc (changed op ss))
       (wrapped ''failed to write config'') (\<lambda>_ fs. (Inr (), fs))) fs)"
  by (cases op) (simp_all add: WriteJWT_def WriteOAuth_def WriteProject_def)

lemma advance_outcome:
  assumes "advance loc c fs = Some (c', fs')"
  shows "outcome loc c' fs' = outcome loc c fs \<and> part_op c' = part_op c"
proof (cases c)
  case (Locked op)
  show ?thesis
  proof (cases "op = OpRead")
    case True
    with assms Locked show ?thesis
      by (auto simp: read_part_def Read_readFile split: prod.splits sum.splits)
  next
    case False
    with assms Locked session_step_write [OF False, of loc fs] show ?thesis
      by (auto simp: read_part_def silent_def call_def split: prod.splits sum.splits)
  qed
next
  case (HasRead op ss)
  with assms show ?thesis
    by (auto simp: create_part_def encode_part_def writeFile_def silent_def call_def Let_def split: option.splits sum.splits)
next
  case (Created op ss)
  with assms show ?thesis by (auto simp: encode_part_def split: option.splits sum.splits)
qed (use assms in simp)

section \<open>Goroutines\<close>

text \<open>
  What each still has to call, the call it is in, who holds the mutex of each \<open>Session\<close>, and the calls that have
  returned with their answers. \<open>session_of\<close> says whose \<open>Session\<close> a goroutine uses; all are on the same file.
\<close>

record lock_state =
  todo :: "nat \<Rightarrow> session_op list"
  inside :: "nat \<Rightarrow> call_part option"
  holder :: "nat \<Rightarrow> nat option"
  history :: "(nat \<times> session_op \<times> (goerr + SessionSnapshot option)) list"
  sfile :: fsys

inductive lock_step :: "string \<Rightarrow> (nat \<Rightarrow> nat) \<Rightarrow> lock_state \<Rightarrow> lock_state \<Rightarrow> bool" for loc session_of where
  lock: "inside s i = None \<Longrightarrow> todo s i = op # ops \<Longrightarrow> holder s (session_of i) = None \<Longrightarrow>
     lock_step loc session_of s (s\<lparr>todo := (todo s)(i := ops), inside := (inside s)(i := Some (Locked op)),
       holder := (holder s)(session_of i := Some i)\<rparr>)"
| go_on: "inside s i = Some c \<Longrightarrow> advance loc c (sfile s) = Some (c', fs) \<Longrightarrow>
     lock_step loc session_of s (s\<lparr>inside := (inside s)(i := Some c'), sfile := fs\<rparr>)"
| unlock: "inside s i = Some (Leaving op a) \<Longrightarrow>
     lock_step loc session_of s (s\<lparr>inside := (inside s)(i := None), holder := (holder s)(session_of i := None),
       history := history s @ [(i, op, a)]\<rparr>)"

definition lock_start :: "(nat \<Rightarrow> session_op list) \<Rightarrow> fsys \<Rightarrow> lock_state" where
  "lock_start prog fs = \<lparr>todo = prog, inside = (\<lambda>_. None), holder = (\<lambda>_. None), history = [], sfile = fs\<rparr>"

definition calls_of :: "nat \<Rightarrow> (nat \<times> session_op \<times> (goerr + SessionSnapshot option)) list \<Rightarrow> session_op list" where
  "calls_of i h = map (fst \<circ> snd) (filter (\<lambda>e. fst e = i) h)"

definition pending :: "call_part option \<Rightarrow> session_op list" where
  "pending c = (case c of None \<Rightarrow> [] | Some c \<Rightarrow> [part_op c])"

text \<open>Everybody goes through the own calls in their order.\<close>

lemma program_order:
  assumes "(lock_step loc session_of)\<^sup>*\<^sup>* (lock_start prog fs) s"
  shows "calls_of i (history s) @ pending (inside s i) @ todo s i = prog i"
  using assms
proof (induction rule: rtranclp_induct)
  case base
  show ?case by (simp add: lock_start_def calls_of_def pending_def)
next
  case (step s t)
  from step(2) show ?case
  proof cases
    case (lock j op ops)
    with step(3) show ?thesis by (auto simp: calls_of_def pending_def)
  next
    case (go_on j c c' fs')
    with step(3) advance_outcome [OF go_on(3)] show ?thesis by (auto simp: calls_of_def pending_def)
  next
    case (unlock j op a)
    with step(3) show ?thesis by (auto simp: calls_of_def pending_def)
  qed
qed

section \<open>One session\<close>

text \<open>The calls so far, one after the other; whoever holds the mutex is on the way to what the next one would give.\<close>

definition in_turn :: "string \<Rightarrow> (nat \<Rightarrow> nat) \<Rightarrow> fsys \<Rightarrow> lock_state \<Rightarrow> bool" where
  "in_turn loc session_of fs0 s \<longleftrightarrow> (\<exists>fs. run_ops (session_step loc) (map (fst \<circ> snd) (history s)) fs0 = (map (snd \<circ> snd) (history s), fs) \<and>
     ((\<forall>i. inside s i = None) \<and> sfile s = fs \<or>
      (\<exists>i c. inside s i = Some c \<and> (\<forall>j. j \<noteq> i \<longrightarrow> inside s j = None) \<and> holder s (session_of i) = Some i \<and>
         outcome loc c (sfile s) = session_step loc (part_op c) fs)))"

lemma run_ops_append:
  "run_ops step (xs @ ys) s = (case run_ops step xs s of (rs, s) \<Rightarrow> (case run_ops step ys s of (qs, s) \<Rightarrow> (rs @ qs, s)))"
  by (induction xs arbitrary: s) (auto split: prod.splits)

lemma lock_step_in_turn:
  assumes "lock_step loc session_of s t" and "in_turn loc session_of fs0 s" and "\<And>i j. session_of i = session_of j"
  shows "in_turn loc session_of fs0 t"
proof -
  from assms(2) obtain fs where run: "run_ops (session_step loc) (map (fst \<circ> snd) (history s)) fs0 = (map (snd \<circ> snd) (history s), fs)"
    and at: "(\<forall>i. inside s i = None) \<and> sfile s = fs \<or>
      (\<exists>i c. inside s i = Some c \<and> (\<forall>j. j \<noteq> i \<longrightarrow> inside s j = None) \<and> holder s (session_of i) = Some i \<and>
         outcome loc c (sfile s) = session_step loc (part_op c) fs)" unfolding in_turn_def by blast
  from assms(1) show ?thesis
  proof cases
    case (lock i op ops)
    have "holder s (session_of j) = None" for j using lock(4) assms(3) [of j i] by simp
    with at have "(\<forall>i. inside s i = None) \<and> sfile s = fs" by auto
    with run lock show ?thesis unfolding in_turn_def by (intro exI [of _ fs] conjI disjI2 exI [of _ i] exI [of _ "Locked op"]) simp_all
  next
    case (go_on i c c' fs')
    with at have "\<forall>j. j \<noteq> i \<longrightarrow> inside s j = None" and "holder s (session_of i) = Some i"
      and "outcome loc c (sfile s) = session_step loc (part_op c) fs" by (metis option.distinct(1) option.inject)+
    with run go_on advance_outcome [OF go_on(3)] show ?thesis
      unfolding in_turn_def by (intro exI [of _ fs] conjI disjI2 exI [of _ i] exI [of _ c']) simp_all
  next
    case (unlock i op a)
    with at have "\<forall>j. j \<noteq> i \<longrightarrow> inside s j = None" and o: "session_step loc op fs = (a, sfile s)"
      by (metis option.distinct(1) option.inject outcome.simps(4) part_op.simps(4))+
    with run unlock show ?thesis
      unfolding in_turn_def by (intro exI [of _ "sfile s"] conjI disjI1) (simp_all add: run_ops_append)
  qed
qed

text \<open>
  C8: Goroutines that share a \<open>Session\<close> take turns: whatever the interleaving of their file accesses, once nobody is inside a
  call, the answers and the file are those of the calls one after the other, in an order that respects that of each
  goroutine; so no goroutine ever sees a file that another one is writing, and no update of one undoes one of another.
\<close>

theorem session_takes_turns:
  assumes "(lock_step loc session_of)\<^sup>*\<^sup>* (lock_start prog fs) s" and "\<And>i j. session_of i = session_of j" and "\<And>i. inside s i = None"
  shows "run_ops (session_step loc) (map (fst \<circ> snd) (history s)) fs = (map (snd \<circ> snd) (history s), sfile s)
    \<and> (\<forall>i. calls_of i (history s) @ todo s i = prog i)"
proof
  from assms(1) have "in_turn loc session_of fs s"
  proof (induction rule: rtranclp_induct)
    case base
    show ?case by (simp add: in_turn_def lock_start_def)
  next
    case (step s t)
    from lock_step_in_turn [OF step(2,3) assms(2)] show ?case .
  qed
  with assms(3) show "run_ops (session_step loc) (map (fst \<circ> snd) (history s)) fs = (map (snd \<circ> snd) (history s), sfile s)"
    by (auto simp: in_turn_def)
  show "\<forall>i. calls_of i (history s) @ todo s i = prog i"
    using program_order [OF assms(1)] assms(3) by (simp add: pending_def)
qed

section \<open>Every call returns\<close>

fun parts_left :: "call_part \<Rightarrow> nat" where
  "parts_left (Locked _) = 3" | "parts_left (HasRead _ _) = 2" | "parts_left (Created _ _) = 1" | "parts_left (Leaving _ _) = 0"

lemma advance_fewer: "advance loc c fs = Some (c', fs') \<Longrightarrow> parts_left c' < parts_left c"
  by (cases c) (auto simp: read_part_def create_part_def encode_part_def split: prod.splits sum.splits option.splits if_splits)

lemma advance_stops: "advance loc c fs = None \<Longrightarrow> \<exists>op a. c = Leaving op a"
  by (cases c) simp_all

text \<open>Whoever holds the mutex gets out again by itself; whoever finds it free gets through the next call.\<close>

lemma call_runs:
  assumes "inside s i = Some c" and "outcome loc c (sfile s) = (a, fs)"
  shows "(lock_step loc session_of)\<^sup>*\<^sup>* s (s\<lparr>inside := (inside s)(i := None), holder := (holder s)(session_of i := None),
    history := history s @ [(i, part_op c, a)], sfile := fs\<rparr>)"
  using assms
proof (induction "parts_left c" arbitrary: c s rule: less_induct)
  case less
  show ?case
  proof (cases "advance loc c (sfile s)")
    case None
    then obtain op b where "c = Leaving op b" using advance_stops by blast
    with less.prems lock_step.unlock [of s i op b loc session_of] show ?thesis by (cases s) (auto simp: r_into_rtranclp)
  next
    case (Some x)
    then obtain c' fs' where adv: "advance loc c (sfile s) = Some (c', fs')" by (cases x) simp
    from advance_outcome [OF adv] less.prems(2) have o: "outcome loc c' fs' = (a, fs)" and op: "part_op c' = part_op c" by simp_all
    let ?s = "s\<lparr>inside := (inside s)(i := Some c'), sfile := fs'\<rparr>"
    have "(lock_step loc session_of)\<^sup>*\<^sup>* ?s (?s\<lparr>inside := (inside ?s)(i := None), holder := (holder ?s)(session_of i := None),
        history := history ?s @ [(i, part_op c', a)], sfile := fs\<rparr>)"
      by (rule less.hyps [OF advance_fewer [OF adv]]) (simp_all add: o)
    with lock_step.go_on [of s i c loc c' fs' session_of, OF less.prems(1) adv] op show ?thesis
      by (simp add: converse_rtranclp_into_rtranclp)
  qed
qed

lemma call_made:
  assumes "inside s i = None" and "todo s i = op # ops" and "holder s (session_of i) = None"
    and "session_step loc op (sfile s) = (a, fs)"
  shows "(lock_step loc session_of)\<^sup>*\<^sup>* s (s\<lparr>todo := (todo s)(i := ops), history := history s @ [(i, op, a)], sfile := fs\<rparr>)"
proof -
  let ?s = "s\<lparr>todo := (todo s)(i := ops), inside := (inside s)(i := Some (Locked op)), holder := (holder s)(session_of i := Some i)\<rparr>"
  have "(lock_step loc session_of)\<^sup>*\<^sup>* ?s (?s\<lparr>inside := (inside ?s)(i := None), holder := (holder ?s)(session_of i := None),
      history := history ?s @ [(i, part_op (Locked op), a)], sfile := fs\<rparr>)"
    by (rule call_runs) (simp_all add: assms(4))
  moreover have "(?s\<lparr>inside := (inside ?s)(i := None), holder := (holder ?s)(session_of i := None),
      history := history ?s @ [(i, part_op (Locked op), a)], sfile := fs\<rparr>)
    = s\<lparr>todo := (todo s)(i := ops), history := history s @ [(i, op, a)], sfile := fs\<rparr>"
    using assms(1,3) by (simp add: fun_upd_idem)
  ultimately show ?thesis
    using lock_step.lock [of s i op ops session_of loc, OF assms(1-3)] by (metis (no_types, lifting) converse_rtranclp_into_rtranclp)
qed

text \<open>A command stores the project while a refresh stores a token.\<close>

definition two_writers :: "nat \<Rightarrow> session_op list" where
  "two_writers i = (if i = 0 then [OpProject ''p'' ''g''] else if i = 1 then [OpJWT ''t'' []] else [])"

theorem session_takes_turns_witness:
  "\<exists>s :: lock_state. map fst (history s) = [1, 0] \<and>
     run_ops (session_step ''s.json'') [OpJWT ''t'' [], OpProject ''p'' ''g''] example_fs = (map (snd \<circ> snd) (history s), sfile s)
     \<and> (\<forall>i. calls_of i (history s) @ todo s i = two_writers i)"
proof -
  let ?start = "lock_start two_writers example_fs"
  obtain a fs1 where 1: "session_step ''s.json'' (OpJWT ''t'' []) example_fs = (a, fs1)" by fastforce
  obtain b fs2 where 2: "session_step ''s.json'' (OpProject ''p'' ''g'') fs1 = (b, fs2)" by fastforce
  let ?mid = "?start\<lparr>todo := (todo ?start)(1 := []), history := history ?start @ [(1, OpJWT ''t'' [], a)], sfile := fs1\<rparr>"
  let ?final = "?mid\<lparr>todo := (todo ?mid)(0 := []), history := history ?mid @ [(0, OpProject ''p'' ''g'', b)], sfile := fs2\<rparr>"
  have "(lock_step ''s.json'' (\<lambda>_. 0))\<^sup>*\<^sup>* ?start ?mid"
    by (rule call_made) (simp_all add: lock_start_def two_writers_def 1 del: session_step.simps)
  moreover have "(lock_step ''s.json'' (\<lambda>_. 0))\<^sup>*\<^sup>* ?mid ?final"
    by (rule call_made) (simp_all add: lock_start_def two_writers_def 2 del: session_step.simps)
  ultimately have run: "(lock_step ''s.json'' (\<lambda>_. 0))\<^sup>*\<^sup>* ?start ?final" by (rule rtranclp_trans)
  have "inside ?final = (\<lambda>_. None)" and "history ?final = [(1, OpJWT ''t'' [], a), (0, OpProject ''p'' ''g'', b)]"
    by (simp_all add: lock_start_def)
  with run obtain s where s: "(lock_step ''s.json'' (\<lambda>_. 0))\<^sup>*\<^sup>* ?start s" "inside s = (\<lambda>_. None)"
      "history s = [(1, OpJWT ''t'' [], a), (0, OpProject ''p'' ''g'', b)]" by blast
  have "run_ops (session_step ''s.json'') (map (fst \<circ> snd) (history s)) example_fs = (map (snd \<circ> snd) (history s), sfile s)
    \<and> (\<forall>i. calls_of i (history s) @ todo s i = two_writers i)"
    by (rule session_takes_turns [OF s(1)]) (simp_all add: s(2))
  with s(3) show ?thesis by - (rule exI [of _ s], simp del: session_step.simps run_ops.simps)
qed

section \<open>Two sessions\<close>

text \<open>Two goroutines, each with a \<open>Session\<close> of its own, as two commands have.\<close>

definition two :: "session_op list \<Rightarrow> session_op list \<Rightarrow> call_part option \<Rightarrow> call_part option
    \<Rightarrow> (nat \<times> session_op \<times> (goerr + SessionSnapshot option)) list \<Rightarrow> fsys \<Rightarrow> lock_state" where
  "two t0 t1 c0 c1 h fs = \<lparr>todo = (\<lambda>i. if i = 0 then t0 else if i = 1 then t1 else []),
     inside = (\<lambda>i. if i = 0 then c0 else if i = 1 then c1 else None),
     holder = (\<lambda>i. if i = 0 then map_option (\<lambda>_. 0) c0 else if i = 1 then map_option (\<lambda>_. 1) c1 else None), history = h, sfile = fs\<rparr>"

abbreviation two_step :: "string \<Rightarrow> lock_state \<Rightarrow> lock_state \<Rightarrow> bool" where
  "two_step loc \<equiv> lock_step loc (\<lambda>i. i)"

lemma two_start: "lock_start (\<lambda>i. if i = 0 then t0 else if i = 1 then t1 else []) fs = two t0 t1 None None [] fs"
  by (simp add: lock_start_def two_def fun_eq_iff)

lemma two_locks:
  "two_step loc (two (op # t0) t1 None c1 h fs) (two t0 t1 (Some (Locked op)) c1 h fs)"
  "two_step loc (two t0 (op # t1) c0 None h fs) (two t0 t1 c0 (Some (Locked op)) h fs)"
proof -
  have "two t0 t1 (Some (Locked op)) c1 h fs = (two (op # t0) t1 None c1 h fs)\<lparr>todo := (todo (two (op # t0) t1 None c1 h fs))(0 := t0),
      inside := (inside (two (op # t0) t1 None c1 h fs))(0 := Some (Locked op)), holder := (holder (two (op # t0) t1 None c1 h fs))(0 := Some 0)\<rparr>"
    by (simp add: two_def fun_eq_iff)
  then show "two_step loc (two (op # t0) t1 None c1 h fs) (two t0 t1 (Some (Locked op)) c1 h fs)"
    by (simp only:) (rule lock_step.lock; simp add: two_def)
  have "two t0 t1 c0 (Some (Locked op)) h fs = (two t0 (op # t1) c0 None h fs)\<lparr>todo := (todo (two t0 (op # t1) c0 None h fs))(1 := t1),
      inside := (inside (two t0 (op # t1) c0 None h fs))(1 := Some (Locked op)), holder := (holder (two t0 (op # t1) c0 None h fs))(1 := Some 1)\<rparr>"
    by (simp add: two_def fun_eq_iff)
  then show "two_step loc (two t0 (op # t1) c0 None h fs) (two t0 t1 c0 (Some (Locked op)) h fs)"
    by (simp only:) (rule lock_step.lock; simp add: two_def)
qed

lemma two_goes_on:
  "advance loc c fs = Some (c', fs') \<Longrightarrow> two_step loc (two t0 t1 (Some c) c1 h fs) (two t0 t1 (Some c') c1 h fs')"
  "advance loc c fs = Some (c', fs') \<Longrightarrow> two_step loc (two t0 t1 c0 (Some c) h fs) (two t0 t1 c0 (Some c') h fs')"
proof -
  assume a: "advance loc c fs = Some (c', fs')"
  have "two t0 t1 (Some c') c1 h fs' = (two t0 t1 (Some c) c1 h fs)\<lparr>inside := (inside (two t0 t1 (Some c) c1 h fs))(0 := Some c'), sfile := fs'\<rparr>"
    by (simp add: two_def fun_eq_iff)
  then show "two_step loc (two t0 t1 (Some c) c1 h fs) (two t0 t1 (Some c') c1 h fs')"
    using a by (simp only:) (rule lock_step.go_on; simp add: two_def)
  have "two t0 t1 c0 (Some c') h fs' = (two t0 t1 c0 (Some c) h fs)\<lparr>inside := (inside (two t0 t1 c0 (Some c) h fs))(1 := Some c'), sfile := fs'\<rparr>"
    by (simp add: two_def fun_eq_iff)
  then show "two_step loc (two t0 t1 c0 (Some c) h fs) (two t0 t1 c0 (Some c') h fs')"
    using a by (simp only:) (rule lock_step.go_on; simp add: two_def)
qed

lemma two_unlocks:
  "two_step loc (two t0 t1 (Some (Leaving op a)) c1 h fs) (two t0 t1 None c1 (h @ [(0, op, a)]) fs)"
  "two_step loc (two t0 t1 c0 (Some (Leaving op a)) h fs) (two t0 t1 c0 None (h @ [(1, op, a)]) fs)"
proof -
  have "two t0 t1 None c1 (h @ [(0, op, a)]) fs = (two t0 t1 (Some (Leaving op a)) c1 h fs)\<lparr>inside := (inside (two t0 t1 (Some (Leaving op a)) c1 h fs))(0 := None),
      holder := (holder (two t0 t1 (Some (Leaving op a)) c1 h fs))(0 := None), history := history (two t0 t1 (Some (Leaving op a)) c1 h fs) @ [(0, op, a)]\<rparr>"
    by (simp add: two_def fun_eq_iff)
  then show "two_step loc (two t0 t1 (Some (Leaving op a)) c1 h fs) (two t0 t1 None c1 (h @ [(0, op, a)]) fs)"
    by (simp only:) (rule lock_step.unlock; simp add: two_def)
  have "two t0 t1 c0 None (h @ [(1, op, a)]) fs = (two t0 t1 c0 (Some (Leaving op a)) h fs)\<lparr>inside := (inside (two t0 t1 c0 (Some (Leaving op a)) h fs))(1 := None),
      holder := (holder (two t0 t1 c0 (Some (Leaving op a)) h fs))(1 := None), history := history (two t0 t1 c0 (Some (Leaving op a)) h fs) @ [(1, op, a)]\<rparr>"
    by (simp add: two_def fun_eq_iff)
  then show "two_step loc (two t0 t1 c0 (Some (Leaving op a)) h fs) (two t0 t1 c0 None (h @ [(1, op, a)]) fs)"
    by (simp only:) (rule lock_step.unlock; simp add: two_def)
qed

lemma storable_encoded: "storable ss \<Longrightarrow> \<exists>j. encode_snapshot ss = Inr j"
  using encode_snapshot_ok [of ss] by (simp add: storable_def)

lemma write_parts:
  assumes "create_err fs loc = None" and "write_err fs loc = None" and "encode_snapshot (changed op ss) = Inr j"
  shows "advance loc (HasRead op ss) fs = Some (Created op ss, fs\<lparr>disk := (disk fs)(loc := Some None)\<rparr>)"
    and "advance loc (Created op ss) (fs\<lparr>disk := (disk fs)(loc := Some None)\<rparr>) = Some (Leaving op (Inr None), fs\<lparr>disk := (disk fs)(loc := Some (Some j))\<rparr>)"
  using assms by (simp_all add: create_part_def encode_part_def)

text \<open>Two and three steps; a write up to the truncation, and from there on.\<close>

lemma lock_steps2: "lock_step loc f a b \<Longrightarrow> lock_step loc f b c \<Longrightarrow> (lock_step loc f)\<^sup>*\<^sup>* a c"
  by (rule converse_rtranclp_into_rtranclp [OF _ r_into_rtranclp])

lemma lock_steps3:
  "lock_step loc f a b \<Longrightarrow> lock_step loc f b c \<Longrightarrow> lock_step loc f c d \<Longrightarrow> (lock_step loc f)\<^sup>*\<^sup>* a d"
  by (rule rtranclp.rtrancl_into_rtrancl [OF lock_steps2])

lemma two_reads:
  assumes "readFile loc fs = (Inr ss, fs)" and "op \<noteq> OpRead"
  shows "(two_step loc)\<^sup>*\<^sup>* (two (op # t0) t1 None c1 h fs) (two t0 t1 (Some (HasRead op ss)) c1 h fs)"
    and "(two_step loc)\<^sup>*\<^sup>* (two t0 (op # t1) c0 None h fs) (two t0 t1 c0 (Some (HasRead op ss)) h fs)"
proof -
  have read: "advance loc (Locked op) fs = Some (HasRead op ss, fs)" using assms by (simp add: read_part_def)
  show "(two_step loc)\<^sup>*\<^sup>* (two (op # t0) t1 None c1 h fs) (two t0 t1 (Some (HasRead op ss)) c1 h fs)"
    by (rule lock_steps2 [OF two_locks(1) two_goes_on(1) [OF read]])
  show "(two_step loc)\<^sup>*\<^sup>* (two t0 (op # t1) c0 None h fs) (two t0 t1 c0 (Some (HasRead op ss)) h fs)"
    by (rule lock_steps2 [OF two_locks(2) two_goes_on(2) [OF read]])
qed

lemma two_writes:
  assumes "create_err fs loc = None" and "write_err fs loc = None" and "encode_snapshot (changed op ss) = Inr j"
  shows "(two_step loc)\<^sup>*\<^sup>* (two t0 t1 (Some (HasRead op ss)) c1 h fs)
      (two t0 t1 None c1 (h @ [(0, op, Inr None)]) (fs\<lparr>disk := (disk fs)(loc := Some (Some j))\<rparr>))"
    and "(two_step loc)\<^sup>*\<^sup>* (two t0 t1 c0 (Some (HasRead op ss)) h fs)
      (two t0 t1 c0 None (h @ [(1, op, Inr None)]) (fs\<lparr>disk := (disk fs)(loc := Some (Some j))\<rparr>))"
proof -
  note create = write_parts(1) [OF assms] and encode = write_parts(2) [OF assms]
  show "(two_step loc)\<^sup>*\<^sup>* (two t0 t1 (Some (HasRead op ss)) c1 h fs)
      (two t0 t1 None c1 (h @ [(0, op, Inr None)]) (fs\<lparr>disk := (disk fs)(loc := Some (Some j))\<rparr>))"
    by (rule lock_steps3 [OF two_goes_on(1) [OF create] two_goes_on(1) [OF encode] two_unlocks(1)])
  show "(two_step loc)\<^sup>*\<^sup>* (two t0 t1 c0 (Some (HasRead op ss)) h fs)
      (two t0 t1 c0 None (h @ [(1, op, Inr None)]) (fs\<lparr>disk := (disk fs)(loc := Some (Some j))\<rparr>))"
    by (rule lock_steps3 [OF two_goes_on(2) [OF create] two_goes_on(2) [OF encode] two_unlocks(2)])
qed

text \<open>
  Both read before either writes: both calls succeed, and the file holds what the second one made of the old snapshot.
\<close>

lemma sessions_lose_updates:
  assumes "represents loc fs (Some ss)" and "op1 \<noteq> OpRead" and "op2 \<noteq> OpRead"
    and "storable (changed op1 ss)" and "storable (changed op2 ss)"
  shows "\<exists>s. (two_step loc)\<^sup>*\<^sup>* (lock_start (\<lambda>i. if i = 0 then [op1] else if i = 1 then [op2] else []) fs) s
    \<and> (\<forall>i. inside s i = None) \<and> history s = [(0, op1, Inr None), (1, op2, Inr None)]
    \<and> represents loc (sfile s) (Some (changed op2 ss))"
proof -
  from assms(1) have fine: "create_err fs loc = None" "write_err fs loc = None" and r: "readFile loc fs = (Inr ss, fs)"
    by (simp_all add: represents_def Read_readFile)
  from storable_encoded [OF assms(4)] obtain j1 where j1: "encode_snapshot (changed op1 ss) = Inr j1" by blast
  from storable_encoded [OF assms(5)] obtain j2 where j2: "encode_snapshot (changed op2 ss) = Inr j2" by blast
  let ?h1 = "[(0, op1, Inr None)]" and ?h2 = "[(0, op1, Inr None), (1, op2, Inr None)]"
  let ?fs1 = "fs\<lparr>disk := (disk fs)(loc := Some (Some j1))\<rparr>"
  let ?fs2 = "?fs1\<lparr>disk := (disk ?fs1)(loc := Some (Some j2))\<rparr>"
  let ?final = "two [] [] None None ?h2 ?fs2"
  have fine1: "create_err ?fs1 loc = None" "write_err ?fs1 loc = None" using fine by simp_all
  have "(two_step loc)\<^sup>*\<^sup>* (two [op1] [op2] None None [] fs) (two [] [op2] (Some (HasRead op1 ss)) None [] fs)"
    by (rule two_reads(1) [OF r assms(2)])
  moreover have "(two_step loc)\<^sup>*\<^sup>* (two [] [op2] (Some (HasRead op1 ss)) None [] fs) (two [] [] (Some (HasRead op1 ss)) (Some (HasRead op2 ss)) [] fs)"
    by (rule two_reads(2) [OF r assms(3)])
  moreover have "(two_step loc)\<^sup>*\<^sup>* (two [] [] (Some (HasRead op1 ss)) (Some (HasRead op2 ss)) [] fs) (two [] [] None (Some (HasRead op2 ss)) ?h1 ?fs1)"
    using two_writes(1) [OF fine j1, of "[]" "[]" "Some (HasRead op2 ss)" "[]"] by simp
  moreover have "(two_step loc)\<^sup>*\<^sup>* (two [] [] None (Some (HasRead op2 ss)) ?h1 ?fs1) ?final"
    using two_writes(2) [OF fine1 j2, of "[]" "[]" None ?h1] by simp
  ultimately have run: "(two_step loc)\<^sup>*\<^sup>* (two [op1] [op2] None None [] fs) ?final" by (meson rtranclp_trans)
  have "writeFile loc (changed op2 ss) ?fs1 = (Inr (), ?fs2)"
    using fine1 j2 by (simp add: writeFile_def)
  from writeFile_readFile(1) [OF this] readFile_open [OF r] fine
  have "represents loc ?fs2 (Some (changed op2 ss))" by (simp add: represents_def Read_readFile)
  with run show ?thesis
    unfolding two_start by (intro exI [of _ ?final] conjI) (simp_all add: two_def)
qed

text \<open>And one that reads while another one is between the truncation and the encoding finds no session at all.\<close>

lemma sessions_read_truncated:
  assumes "represents loc fs (Some ss)" and "op \<noteq> OpRead"
  shows "\<exists>s. (two_step loc)\<^sup>*\<^sup>* (lock_start (\<lambda>i. if i = 0 then [op] else if i = 1 then [OpRead] else []) fs) s
    \<and> history s = [(1, OpRead, Inl (wrapped ''failed to parse config file'' json_syntax_error))]"
proof -
  from assms(1) have fine: "create_err fs loc = None" and r: "readFile loc fs = (Inr ss, fs)"
    by (simp_all add: represents_def Read_readFile)
  let ?fs1 = "fs\<lparr>disk := (disk fs)(loc := Some None)\<rparr>"
  let ?a = "Inl (wrapped ''failed to parse config file'' json_syntax_error) :: goerr + SessionSnapshot option"
  let ?mid = "two [] [OpRead] (Some (Created op ss)) None [] ?fs1" and ?final = "two [] [] (Some (Created op ss)) None ([] @ [(1, OpRead, ?a)]) ?fs1"
  have create: "advance loc (HasRead op ss) fs = Some (Created op ss, ?fs1)" using fine by (simp add: create_part_def)
  have lost: "advance loc (Locked OpRead) ?fs1 = Some (Leaving OpRead ?a, ?fs1)"
    using truncated_unreadable [of ?fs1 loc] readFile_open [OF r] by (simp add: read_part_def Read_readFile)
  have mid: "(two_step loc)\<^sup>*\<^sup>* (two [op] [OpRead] None None [] fs) ?mid"
    by (rule rtranclp.rtrancl_into_rtrancl [OF two_reads(1) [OF r assms(2)]]) (rule two_goes_on(1) [OF create])
  have last: "(two_step loc)\<^sup>*\<^sup>* ?mid ?final"
    by (rule lock_steps3 [OF two_locks(2) two_goes_on(2) [OF lost] two_unlocks(2)])
  from rtranclp_trans [OF mid last] show ?thesis
    unfolding two_start by (intro exI [of _ ?final] conjI) (simp_all add: two_def)
qed

end
