(* ===== verification/Outputter_Sinks.thy ===== *)
theory Outputter_Sinks
  imports Command_Run
begin

text \<open>
  The outputter of \<^verbatim>\<open>command/format/outputter.go\<close> with its writers: the logger, the filter of levels before the error stream,
  and the log file beside it. \<open>Command_Run\<close> says which lines end up where; here they go there through writers
  that may refuse them, and it is shown that they do when none refuses, and what becomes of messages when the log file does.
\<close>

section \<open>Writers\<close>

datatype stream = Stdout | Stderr | LogFile string

text \<open>\<^verbatim>\<open>logutils.LevelFilter\<close> with the lowest level it lets through, and \<^verbatim>\<open>io.MultiWriter\<close>, which stops at the first error.\<close>

datatype sink = To stream | LevelFilter string sink | MultiWriter "sink list"

text \<open>
  All writes so far, in their order; what a stream says to the write with a number, what the system says to
  opening a file, and to using one that was closed. A write that is refused writes nothing.
\<close>

record out_world =
  writes :: "(stream \<times> string) list"
  refuses :: "stream \<Rightarrow> nat \<Rightarrow> goerr option"
  open_fails :: "string \<Rightarrow> goerr option"
  closed_files :: "string list"
  closed_error :: "string \<Rightarrow> goerr"

definition refusal :: "stream \<Rightarrow> out_world \<Rightarrow> goerr option" where
  "refusal st w = (case st of
     LogFile loc \<Rightarrow> if loc \<in> set (closed_files w) then Some (closed_error w loc) else refuses w st (length (writes w))
   | _ \<Rightarrow> refuses w st (length (writes w)))"

fun sink_write :: "sink \<Rightarrow> string \<Rightarrow> out_world \<Rightarrow> goerr option \<times> out_world"
and sinks_write :: "sink list \<Rightarrow> string \<Rightarrow> out_world \<Rightarrow> goerr option \<times> out_world" where
  "sink_write (To st) p w =
     (case refusal st w of Some err \<Rightarrow> (Some err, w) | None \<Rightarrow> (None, w\<lparr>writes := writes w @ [(st, p)]\<rparr>))"
| "sink_write (LevelFilter lowest s) p w = (if line_level p \<in> set (bad_levels lowest) then (None, w) else sink_write s p w)"
| "sink_write (MultiWriter ss) p w = sinks_write ss p w"
| "sinks_write [] p w = (None, w)"
| "sinks_write (s # ss) p w = (case sink_write s p w of (Some err, w) \<Rightarrow> (Some err, w) | (None, w) \<Rightarrow> sinks_write ss p w)"

section \<open>The logger\<close>

text \<open>\<^verbatim>\<open>log.Logger\<close>: the header of a line depends on the flags; \<open>stamp\<close> is the time and the place in the source.\<close>

record logger =
  lSink :: sink
  lPrefix :: string
  lFlags :: nat

definition log_line :: "(nat \<Rightarrow> out_world \<Rightarrow> string) \<Rightarrow> logger \<Rightarrow> out_world \<Rightarrow> string \<Rightarrow> string" where
  "log_line stamp l w s = lPrefix l @ (if lFlags l = 0 then [] else stamp (lFlags l) w) @ s
     @ (if s = [] \<or> last s \<noteq> CHR 10 then [CHR 10] else [])"

text \<open>\<^verbatim>\<open>Printf\<close> with the text it formats, and \<^verbatim>\<open>Println\<close>; both drop the error.\<close>

definition logger_Printf :: "(nat \<Rightarrow> out_world \<Rightarrow> string) \<Rightarrow> logger \<Rightarrow> string \<Rightarrow> out_world \<Rightarrow> out_world" where
  "logger_Printf stamp l s w = snd (sink_write (lSink l) (log_line stamp l w s) w)"

definition logger_Println :: "(nat \<Rightarrow> out_world \<Rightarrow> string) \<Rightarrow> logger \<Rightarrow> string \<Rightarrow> out_world \<Rightarrow> out_world" where
  "logger_Println stamp l s = logger_Printf stamp l (s @ [CHR 10])"

text \<open>\<^verbatim>\<open>log.LstdFlags | log.Lshortfile\<close>.\<close>

definition debugFlags :: nat where
  "debugFlags = 1 + 2 + 16"

section \<open>The outputter\<close>

record Outputter =
  oDebug :: bool
  outputType :: output_type
  outw :: sink
  errw :: sink
  logfile :: "string option"
  oLogger :: "logger option"

text \<open>Where the logger is to write; setting it for a missing logger panics (\<open>None\<close>).\<close>

definition filter_sink :: "Outputter \<Rightarrow> sink" where
  "filter_sink o1 =
     (let logLevel = (if oDebug o1 then ''DEBUG'' else ''INFO''); lf = LevelFilter logLevel (errw o1) in
      case logfile o1 of Some loc \<Rightarrow> MultiWriter [To (LogFile loc), lf] | None \<Rightarrow> lf)"

definition setFilter :: "Outputter \<Rightarrow> Outputter option" where
  "setFilter o1 = map_option (\<lambda>l. o1\<lparr>oLogger := Some (l\<lparr>lSink := filter_sink o1\<rparr>)\<rparr>) (oLogger o1)"

definition NewOutputter :: "sink \<Rightarrow> sink \<Rightarrow> logger option \<Rightarrow> Outputter option" where
  "NewOutputter ow ew l = setFilter \<lparr>oDebug = False, outputType = OtherType [], outw = ow, errw = ew, logfile = None, oLogger = l\<rparr>"

definition outputter_Close :: "Outputter \<Rightarrow> out_world \<Rightarrow> goerr option \<times> out_world" where
  "outputter_Close o1 w = (case logfile o1 of None \<Rightarrow> (None, w)
   | Some loc \<Rightarrow> if loc \<in> set (closed_files w) then (Some (closed_error w loc), w) else (None, w\<lparr>closed_files := loc # closed_files w\<rparr>))"

definition ErrW :: "Outputter \<Rightarrow> sink" where
  "ErrW o1 = errw o1"

definition SetOutputType :: "output_type \<Rightarrow> Outputter \<Rightarrow> Outputter" where
  "SetOutputType t o1 = o1\<lparr>outputType := t\<rparr>"

definition outputter_SetDebug :: "bool \<Rightarrow> Outputter \<Rightarrow> Outputter option" where
  "outputter_SetDebug b o1 = (case setFilter (o1\<lparr>oDebug := b\<rparr>) of None \<Rightarrow> None
   | Some o1 \<Rightarrow> Some (if b then o1\<lparr>oLogger := map_option (\<lambda>l. l\<lparr>lFlags := debugFlags\<rparr>) (oLogger o1)\<rparr> else o1))"

definition SetLogToDisk :: "string \<Rightarrow> Outputter \<Rightarrow> out_world \<Rightarrow> (goerr option \<times> Outputter \<times> out_world) option" where
  "SetLogToDisk loc o1 w = (case open_fails w loc of
     Some err \<Rightarrow> Some (Some (wrapped ''failed to open log file'' err), o1, w)
   | None \<Rightarrow> (case setFilter (o1\<lparr>logfile := Some loc\<rparr>) of None \<Rightarrow> None
       | Some o1 \<Rightarrow> Some (None, o1, w\<lparr>closed_files := removeAll loc (closed_files w)\<rparr>)))"

definition multi :: "Outputter \<Rightarrow> sink \<Rightarrow> sink" where
  "multi o1 s = (case logfile o1 of None \<Rightarrow> s | Some loc \<Rightarrow> MultiWriter [s, To (LogFile loc)])"

definition outputter_WriteError :: "(nat \<Rightarrow> out_world \<Rightarrow> string) \<Rightarrow> goerr \<Rightarrow> Outputter \<Rightarrow> out_world \<Rightarrow> out_world option" where
  "outputter_WriteError stamp err o1 w = (case oLogger o1 of None \<Rightarrow> None
   | Some l \<Rightarrow> Some (logger_Printf stamp l (debug_line err @ [CHR 10]) (logger_Println stamp l (top_message err) w)))"

text \<open>A decorator writes to a writer. That of no format drops the error; one with a text passes it on.\<close>

type_synonym decorator = "sink \<Rightarrow> out_world \<Rightarrow> goerr option \<times> out_world"

definition notImplDecorator :: "output_type \<Rightarrow> decorator" where
  "notImplDecorator t s w = (None, snd (sink_write s (fst (NotImplDecorator t)) w))"

definition text_decorator :: "string \<times> goerr option \<Rightarrow> decorator" where
  "text_decorator d s w = (case sink_write s (fst d) w of (Some err, w) \<Rightarrow> (Some err, w) | (None, w) \<Rightarrow> (snd d, w))"

definition outputter_Output :: "(nat \<Rightarrow> out_world \<Rightarrow> string) \<Rightarrow> (output_type \<rightharpoonup> decorator) \<Rightarrow> Outputter \<Rightarrow> out_world \<Rightarrow> out_world option" where
  "outputter_Output stamp d o1 w =
     (let deco = (case d (outputType o1) of Some deco \<Rightarrow> deco | None \<Rightarrow> notImplDecorator (outputType o1)) in
      case deco (multi o1 (outw o1)) w of
        (None, w) \<Rightarrow> Some w
      | (Some err, w) \<Rightarrow> outputter_WriteError stamp (wrapped ''failed to decorate output'' err) o1 w)"

text \<open>The one \<^verbatim>\<open>newCommand\<close> makes.\<close>

definition new_outputter :: "Outputter option" where
  "new_outputter = NewOutputter (To Stdout) (To Stderr) (Some \<lparr>lSink = To Stderr, lPrefix = [], lFlags = 0\<rparr>)"

section \<open>What can happen to an outputter\<close>

datatype out_op =
    OpDebug bool
  | OpType output_type
  | OpLog string
  | OpLine string
  | OpError goerr
  | OpOutput "output_type \<rightharpoonup> string \<times> goerr option"

text \<open>A log file that cannot be opened is reported to the caller and leaves the outputter alone.\<close>

fun out_step :: "(nat \<Rightarrow> out_world \<Rightarrow> string) \<Rightarrow> out_op \<Rightarrow> Outputter \<times> out_world \<Rightarrow> (Outputter \<times> out_world) option" where
  "out_step stamp (OpDebug b) (o1, w) = map_option (\<lambda>o1. (o1, w)) (outputter_SetDebug b o1)"
| "out_step stamp (OpType t) (o1, w) = Some (SetOutputType t o1, w)"
| "out_step stamp (OpLog loc) (o1, w) = map_option snd (SetLogToDisk loc o1 w)"
| "out_step stamp (OpLine s) (o1, w) = map_option (\<lambda>l. (o1, logger_Println stamp l s w)) (oLogger o1)"
| "out_step stamp (OpError err) (o1, w) = map_option (Pair o1) (outputter_WriteError stamp err o1 w)"
| "out_step stamp (OpOutput d) (o1, w) = map_option (Pair o1) (outputter_Output stamp (\<lambda>t. map_option text_decorator (d t)) o1 w)"

fun out_steps :: "(nat \<Rightarrow> out_world \<Rightarrow> string) \<Rightarrow> out_op list \<Rightarrow> Outputter \<times> out_world \<Rightarrow> (Outputter \<times> out_world) option" where
  "out_steps stamp [] s = Some s"
| "out_steps stamp (op # ops) s = (case out_step stamp op s of None \<Rightarrow> None | Some s \<Rightarrow> out_steps stamp ops s)"

text \<open>The same in the terms of \<open>Command_Run\<close>.\<close>

fun line_step :: "out_op \<Rightarrow> outputter \<Rightarrow> outputter" where
  "line_step (OpDebug b) = SetDebug b"
| "line_step (OpType t) = (\<lambda>o1. o1\<lparr>otype := t\<rparr>)"
| "line_step (OpLog loc) = (\<lambda>o1. o1\<lparr>has_logfile := True\<rparr>)"
| "line_step (OpLine s) = Println s"
| "line_step (OpError err) = WriteError err"
| "line_step (OpOutput d) = Output d"

section \<open>The wiring\<close>

text \<open>The logger writes through the filter for the level that is set, and to the log file if there is one.\<close>

definition wired :: "Outputter \<Rightarrow> bool" where
  "wired o1 \<longleftrightarrow> outw o1 = To Stdout \<and> errw o1 = To Stderr \<and>
     (\<exists>l. oLogger o1 = Some l \<and> lPrefix l = [] \<and> lSink l = filter_sink o1)"

lemma filter_sink_update [simp]:
  "filter_sink (o1\<lparr>oLogger := k\<rparr>) = filter_sink o1" "filter_sink (o1\<lparr>outputType := t\<rparr>) = filter_sink o1"
  by (simp_all add: filter_sink_def)

lemma new_wired: "\<exists>o1. new_outputter = Some o1 \<and> wired o1 \<and> \<not> oDebug o1 \<and> outputType o1 = OtherType [] \<and> logfile o1 = None"
  by (simp add: new_outputter_def NewOutputter_def setFilter_def wired_def filter_sink_def)

lemma wired_SetOutputType: "wired o1 \<Longrightarrow> wired (SetOutputType t o1)"
  by (simp add: wired_def SetOutputType_def)

lemma wired_setFilter:
  assumes "wired o0" and "outw o1 = outw o0" and "errw o1 = errw o0" and "oLogger o1 = oLogger o0"
  obtains k where "setFilter o1 = Some (o1\<lparr>oLogger := Some k\<rparr>)" and "lPrefix k = []" and "lSink k = filter_sink o1"
    and "wired (o1\<lparr>oLogger := Some k\<rparr>)"
  using assms by (auto simp: setFilter_def wired_def)

lemma wired_SetDebug:
  assumes "wired o1"
  obtains k where "outputter_SetDebug b o1 = Some (o1\<lparr>oDebug := b, oLogger := Some k\<rparr>)" and "wired (o1\<lparr>oDebug := b, oLogger := Some k\<rparr>)"
proof -
  from wired_setFilter [OF assms, of "o1\<lparr>oDebug := b\<rparr>"] obtain k where
    k: "setFilter (o1\<lparr>oDebug := b\<rparr>) = Some (o1\<lparr>oDebug := b, oLogger := Some k\<rparr>)" "wired (o1\<lparr>oDebug := b, oLogger := Some k\<rparr>)" by auto
  show thesis
  proof (rule that [of "if b then k\<lparr>lFlags := debugFlags\<rparr> else k"])
    show "outputter_SetDebug b o1 = Some (o1\<lparr>oDebug := b, oLogger := Some (if b then k\<lparr>lFlags := debugFlags\<rparr> else k)\<rparr>)"
      using k(1) by (simp add: outputter_SetDebug_def)
    show "wired (o1\<lparr>oDebug := b, oLogger := Some (if b then k\<lparr>lFlags := debugFlags\<rparr> else k)\<rparr>)"
      using k(2) by (simp add: wired_def)
  qed
qed

lemma wired_SetLogToDisk:
  assumes "wired o1" and "open_fails w loc = None"
  obtains k where "SetLogToDisk loc o1 w = Some (None, o1\<lparr>logfile := Some loc, oLogger := Some k\<rparr>, w\<lparr>closed_files := removeAll loc (closed_files w)\<rparr>)"
    and "wired (o1\<lparr>logfile := Some loc, oLogger := Some k\<rparr>)"
proof -
  from wired_setFilter [OF assms(1), of "o1\<lparr>logfile := Some loc\<rparr>"] obtain k where
    "setFilter (o1\<lparr>logfile := Some loc\<rparr>) = Some (o1\<lparr>logfile := Some loc, oLogger := Some k\<rparr>)" "wired (o1\<lparr>logfile := Some loc, oLogger := Some k\<rparr>)" by auto
  with assms(2) that show thesis by (simp add: SetLogToDisk_def)
qed

text \<open>Turning debugging off does not take back the time stamps it brought.\<close>

lemma debug_flags_stay:
  assumes "new_outputter = Some o1" and "outputter_SetDebug True o1 = Some o2" and "outputter_SetDebug False o2 = Some o3"
  shows "\<exists>l k. oLogger o1 = Some l \<and> lFlags l = 0 \<and> oLogger o3 = Some k \<and> lFlags k = debugFlags"
  using assms by (auto simp: new_outputter_def NewOutputter_def setFilter_def outputter_SetDebug_def)

section \<open>Lines reach their streams\<close>

text \<open>Nothing is refused, and everything can be opened.\<close>

definition willing :: "out_world \<Rightarrow> bool" where
  "willing w \<longleftrightarrow> (\<forall>st n. refuses w st n = None) \<and> (\<forall>loc. open_fails w loc = None) \<and> closed_files w = []"

lemma willing_writes [simp]: "willing (w\<lparr>writes := xs\<rparr>) = willing w" "willing w \<Longrightarrow> willing (w\<lparr>closed_files := []\<rparr>)"
  by (simp_all add: willing_def)

lemma willing_refusal [simp]: "willing w \<Longrightarrow> refusal st w = None"
  by (simp add: willing_def refusal_def split: stream.splits)

text \<open>A line as it is written: with a header before it, and the end of line behind.\<close>

definition shown_as :: "string \<Rightarrow> string \<Rightarrow> bool" where
  "shown_as line p \<longleftrightarrow> (\<exists>h n. CHR ''['' \<notin> set h \<and> (n = [] \<or> n = [CHR 10]) \<and> p = h @ line @ n)"

lemma line_level_end: "line_level (s @ [CHR 10]) = line_level s"
proof (cases "dropWhile (\<lambda>c. c \<noteq> CHR ''['') s")
  case Nil
  then have "dropWhile (\<lambda>c. c \<noteq> CHR ''['') (s @ [CHR 10]) = []" by (simp add: dropWhile_append)
  with Nil show ?thesis by (simp only: line_level_def list.case)
next
  case (Cons b rest)
  then have "dropWhile (\<lambda>c. c \<noteq> CHR ''['') (s @ [CHR 10]) = b # rest @ [CHR 10]"
    using dropWhile_eq_Nil_conv [of "\<lambda>c. c \<noteq> CHR ''[''" s] by (auto simp: dropWhile_append)
  with Cons show ?thesis by (simp add: line_level_def takeWhile_append1)
qed

lemma line_level_header: "CHR ''['' \<notin> set h \<Longrightarrow> line_level (h @ s) = line_level s"
proof -
  assume "CHR ''['' \<notin> set h"
  then have "dropWhile (\<lambda>c. c \<noteq> CHR ''['') (h @ s) = dropWhile (\<lambda>c. c \<noteq> CHR ''['') s" by (intro dropWhile_append2) auto
  then show ?thesis by (simp only: line_level_def)
qed

lemma shown_as_level: "shown_as line p \<Longrightarrow> line_level p = line_level line"
  by (auto simp: shown_as_def line_level_header line_level_end)

text \<open>
  The writes are those of the outputter of \<open>Command_Run\<close>: what is on the error stream, on the output and in log files.
\<close>

definition on_stream :: "(stream \<Rightarrow> bool) \<Rightarrow> out_world \<Rightarrow> string list" where
  "on_stream f w = map snd (filter (\<lambda>(st, _). f st) (writes w))"

fun is_log :: "stream \<Rightarrow> bool" where
  "is_log (LogFile _) = True"
| "is_log _ = False"

definition agrees :: "Outputter \<times> out_world \<Rightarrow> outputter \<Rightarrow> bool" where
  "agrees = (\<lambda>(o1, w) a. wired o1 \<and> willing w \<and> odebug a = oDebug o1 \<and> otype a = outputType o1 \<and> has_logfile a = (logfile o1 \<noteq> None) \<and>
     list_all2 shown_as (err_lines a) (on_stream (\<lambda>st. st = Stderr) w) \<and>
     list_all2 shown_as (log_lines a) (on_stream is_log w) \<and> out_lines a = on_stream (\<lambda>st. st = Stdout) w)"

lemma on_stream_write [simp]:
  "on_stream f (w\<lparr>writes := writes w @ xs\<rparr>) = on_stream f w @ map snd (filter (\<lambda>(st, _). f st) xs)"
  "on_stream f (w\<lparr>closed_files := cs\<rparr>) = on_stream f w"
  by (simp_all add: on_stream_def)

lemma log_line_shown:
  assumes "\<And>f u. CHR ''['' \<notin> set (stamp f u)" and "lPrefix l = []"
  shows "shown_as s (log_line stamp l w s)" and "shown_as s (log_line stamp l w (s @ [CHR 10]))"
proof -
  have "\<exists>h. CHR ''['' \<notin> set h \<and> (if lFlags l = 0 then [] else stamp (lFlags l) w) = h" using assms(1) by simp
  then show "shown_as s (log_line stamp l w s)" "shown_as s (log_line stamp l w (s @ [CHR 10]))"
    unfolding shown_as_def log_line_def assms(2) by auto
qed

lemma Printf_agrees:
  assumes "agrees (o1, w) a" and "oLogger o1 = Some l" and "shown_as line (log_line stamp l w s)"
  shows "agrees (o1, logger_Printf stamp l s w) (Println line a)"
proof -
  from assms(1,2) have l: "lSink l = filter_sink o1" and w: "willing w" and e: "errw o1 = To Stderr"
    and a: "odebug a = oDebug o1" "has_logfile a = (logfile o1 \<noteq> None)"
    by (auto simp: agrees_def wired_def)
  have lvl: "line_level (log_line stamp l w s) = line_level line" using assms(3) by (rule shown_as_level)
  let ?f = "if line_level line \<in> set (bad_levels (log_level a)) then [] else [(Stderr, log_line stamp l w s)]"
  let ?xs = "(case logfile o1 of None \<Rightarrow> [] | Some loc \<Rightarrow> [(LogFile loc, log_line stamp l w s)]) @ ?f"
  have "logger_Printf stamp l s w = w\<lparr>writes := writes w @ ?xs\<rparr>"
    using w by (simp add: logger_Printf_def l filter_sink_def e lvl log_level_def a(1) split: option.splits)
  then show ?thesis
    using assms(1,3) by (auto simp: agrees_def Println_def a(2) list_all2_appendI split: option.splits)
qed

lemma WriteError_agrees:
  assumes "agrees (o1, w) a" and "\<And>f u. CHR ''['' \<notin> set (stamp f u)"
  shows "\<exists>w'. outputter_WriteError stamp err o1 w = Some w' \<and> agrees (o1, w') (WriteError err a)"
proof -
  from assms(1) obtain l where l: "oLogger o1 = Some l" "lPrefix l = []" by (auto simp: agrees_def wired_def)
  note s = log_line_shown(2) [of stamp l, OF assms(2) l(2)]
  have "agrees (o1, logger_Println stamp l (top_message err) w) (Println (top_message err) a)"
    unfolding logger_Println_def by (rule Printf_agrees [OF assms(1) l(1) s])
  from Printf_agrees [OF this l(1) s] show ?thesis
    by (simp add: outputter_WriteError_def l(1) WriteError_def)
qed

lemma Output_agrees:
  assumes "agrees (o1, w) a" and "\<And>f u. CHR ''['' \<notin> set (stamp f u)"
  shows "\<exists>w'. outputter_Output stamp (\<lambda>t. map_option text_decorator (d t)) o1 w = Some w' \<and> agrees (o1, w') (Output d a)"
proof -
  let ?t = "outputType o1"
  obtain msg err where t: "(case d ?t of Some d \<Rightarrow> d | None \<Rightarrow> NotImplDecorator ?t) = (msg, err)" by (rule prod.exhaust)
  from assms(1) have w: "willing w" "outw o1 = To Stdout" and e: "otype a = ?t" "has_logfile a = (logfile o1 \<noteq> None)"
    by (auto simp: agrees_def wired_def)
  have t': "(case d (otype a) of Some d \<Rightarrow> d | None \<Rightarrow> NotImplDecorator (otype a)) = (msg, err)" using t by (simp only: e(1))
  let ?w = "w\<lparr>writes := writes w @ (Stdout, msg) # (case logfile o1 of None \<Rightarrow> [] | Some loc \<Rightarrow> [(LogFile loc, msg)])\<rparr>"
  let ?a = "a\<lparr>out_lines := out_lines a @ [msg], log_lines := (if has_logfile a then log_lines a @ [msg] else log_lines a)\<rparr>"
  have deco: "(case map_option text_decorator (d ?t) of Some deco \<Rightarrow> deco | None \<Rightarrow> notImplDecorator ?t) (multi o1 (outw o1)) w = (err, ?w)"
    using t w by (auto simp: text_decorator_def notImplDecorator_def NotImplDecorator_def multi_def split: option.splits)
  have "shown_as msg msg" unfolding shown_as_def by (rule exI [of _ "[]"], rule exI [of _ "[]"]) simp
  then have agree: "agrees (o1, ?w) ?a"
    using assms(1) by (auto simp: agrees_def e(2) list_all2_appendI split: option.splits)
  show ?thesis
  proof (cases err)
    case None
    with deco agree show ?thesis unfolding outputter_Output_def Output_def Let_def t' by simp
  next
    case (Some x)
    from WriteError_agrees [where stamp = stamp, OF agree assms(2)] obtain w' where
      "outputter_WriteError stamp (wrapped ''failed to decorate output'' x) o1 ?w = Some w'"
      "agrees (o1, w') (WriteError (wrapped ''failed to decorate output'' x) ?a)" by blast
    with deco Some show ?thesis unfolding outputter_Output_def Output_def Let_def t' by simp
  qed
qed

lemma step_agrees:
  assumes "agrees s a" and "\<And>f u. CHR ''['' \<notin> set (stamp f u)"
  shows "\<exists>s'. out_step stamp op s = Some s' \<and> agrees s' (line_step op a)"
proof -
  obtain o1 w where s: "s = (o1, w)" by (rule prod.exhaust)
  have g: "agrees (o1, w) a" using assms(1) by (simp add: s)
  then have o: "wired o1" and w: "willing w" by (simp_all add: agrees_def)
  show ?thesis
  proof (cases op)
    case (OpDebug b)
    from wired_SetDebug [OF o, of b] obtain k where
      "outputter_SetDebug b o1 = Some (o1\<lparr>oDebug := b, oLogger := Some k\<rparr>)" "wired (o1\<lparr>oDebug := b, oLogger := Some k\<rparr>)" .
    with g OpDebug s show ?thesis by (simp add: agrees_def SetDebug_def)
  next
    case (OpType t)
    with g s wired_SetOutputType [OF o, of t] show ?thesis by (simp add: agrees_def) (simp add: SetOutputType_def)
  next
    case (OpLog loc)
    from w have f: "open_fails w loc = None" "closed_files w = []" by (simp_all add: willing_def)
    from wired_SetLogToDisk [where w = w and loc = loc, OF o f(1)] obtain k where
      "SetLogToDisk loc o1 w = Some (None, o1\<lparr>logfile := Some loc, oLogger := Some k\<rparr>, w\<lparr>closed_files := removeAll loc (closed_files w)\<rparr>)"
      "wired (o1\<lparr>logfile := Some loc, oLogger := Some k\<rparr>)" .
    with g OpLog s f(2) show ?thesis by (simp add: agrees_def)
  next
    case (OpLine t)
    from o obtain l where l: "oLogger o1 = Some l" "lPrefix l = []" by (auto simp: wired_def)
    from Printf_agrees [OF g l(1) log_line_shown(2) [of stamp l, OF assms(2) l(2)], of t] OpLine s l(1) show ?thesis
      by (simp add: logger_Println_def)
  next
    case (OpError err)
    with WriteError_agrees [where stamp = stamp, OF g assms(2), of err] s show ?thesis by auto
  next
    case (OpOutput d)
    with Output_agrees [where stamp = stamp, OF g assms(2), of d] s show ?thesis by auto
  qed
qed

definition fresh_outputter :: outputter where
  "fresh_outputter = \<lparr>odebug = False, otype = OtherType [], has_logfile = False, err_lines = [], log_lines = [], out_lines = []\<rparr>"

text \<open>
  C27: Where the lines go: whatever a command makes of its outputter, options in any order, messages, errors and outputs in
  between, the logger with its filter and its writers puts on the error stream, on the output and into the log
  file exactly the lines that the lists of \<open>Command_Run\<close> hold, each with its time stamp and end of line, as long
  as no writer refuses; in particular the filter is always the one for the last choice of debugging, and
  the log file gets the lines the filter holds back.
\<close>

theorem outputter_refines:
  assumes "willing w" and "writes w = []" and "\<And>f u. CHR ''['' \<notin> set (stamp f u)"
  shows "\<exists>o1 o2 w2. new_outputter = Some o1 \<and> out_steps stamp ops (o1, w) = Some (o2, w2) \<and>
     (let a = fold line_step ops fresh_outputter in
       list_all2 shown_as (err_lines a) (on_stream (\<lambda>st. st = Stderr) w2) \<and>
       list_all2 shown_as (log_lines a) (on_stream is_log w2) \<and> out_lines a = on_stream (\<lambda>st. st = Stdout) w2)"
proof -
  have "\<exists>s'. out_steps stamp ops s = Some s' \<and> agrees s' (fold line_step ops a)" if "agrees s a" for s a
    using that
  proof (induction ops arbitrary: s a)
    case (Cons op ops)
    from step_agrees [where stamp = stamp, OF Cons.prems assms(3), of op] obtain s' where
      "out_step stamp op s = Some s'" "agrees s' (line_step op a)" by blast
    with Cons.IH [of s' "line_step op a"] show ?case by simp
  qed simp
  moreover obtain o1 where o1: "new_outputter = Some o1" and "agrees (o1, w) fresh_outputter"
    using new_wired assms(1,2) by (auto simp: agrees_def fresh_outputter_def on_stream_def)
  ultimately obtain o2 w2 where "out_steps stamp ops (o1, w) = Some (o2, w2)" "agrees (o2, w2) (fold line_step ops fresh_outputter)"
    by (metis surj_pair)
  with o1 show ?thesis by (auto simp: agrees_def Let_def)
qed

section \<open>A log file that refuses\<close>

text \<open>A full disk: the log file takes nothing any more.\<close>

definition log_full :: "string \<Rightarrow> out_world \<Rightarrow> bool" where
  "log_full loc w \<longleftrightarrow> (\<forall>n. refuses w (LogFile loc) n \<noteq> None)"

fun keeps_log :: "out_op \<Rightarrow> bool" where
  "keeps_log (OpLog _) = False"
| "keeps_log _ = True"

definition only_output :: "out_world \<Rightarrow> out_world \<Rightarrow> bool" where
  "only_output w w' \<longleftrightarrow> (\<exists>xs. w' = w\<lparr>writes := writes w @ map (Pair Stdout) xs\<rparr>)"

lemma only_output_refl [simp]: "only_output w w"
  unfolding only_output_def by (rule exI [of _ "[]"]) simp

lemma only_output_trans: "only_output w u \<Longrightarrow> only_output u v \<Longrightarrow> only_output w v"
  unfolding only_output_def by (metis (no_types, lifting) append_assoc map_append out_world.select_convs(1) out_world.surjective out_world.update_convs(1))

lemma log_full_refuses: "log_full loc w \<Longrightarrow> \<exists>err. refusal (LogFile loc) w = Some err"
  unfolding log_full_def by (auto simp: refusal_def)

lemma log_full_only_output: "log_full loc w \<Longrightarrow> only_output w w' \<Longrightarrow> log_full loc w'"
  by (auto simp: log_full_def only_output_def)

lemma filter_sink_log: "logfile o1 = Some loc \<Longrightarrow> \<exists>lf. filter_sink o1 = MultiWriter [To (LogFile loc), lf]"
  by (simp add: filter_sink_def Let_def)

lemma Printf_silent:
  assumes "lSink l = MultiWriter (To (LogFile loc) # lfs)" and "log_full loc w"
  shows "logger_Printf stamp l s w = w"
  using log_full_refuses [OF assms(2)] by (auto simp: logger_Printf_def assms(1))

lemma WriteError_silent:
  assumes "wired o1" and "logfile o1 = Some loc" and "log_full loc w"
  shows "outputter_WriteError stamp err o1 w = Some w"
  using assms(1) filter_sink_log [OF assms(2)]
  by (auto simp: outputter_WriteError_def wired_def logger_Println_def Printf_silent [OF _ assms(3)])

lemma Output_silent:
  assumes "wired o1" and "logfile o1 = Some loc" and "log_full loc w"
  shows "\<exists>w'. outputter_Output stamp (\<lambda>t. map_option text_decorator (d t)) o1 w = Some w' \<and> only_output w w'"
proof -
  let ?t = "outputType o1"
  let ?deco = "case map_option text_decorator (d ?t) of Some deco \<Rightarrow> deco | None \<Rightarrow> notImplDecorator ?t"
  have m: "multi o1 (outw o1) = MultiWriter [To Stdout, To (LogFile loc)]" using assms(1,2) by (simp add: multi_def wired_def)
  have put: "only_output w (w\<lparr>writes := writes w @ [(Stdout, p)]\<rparr>)" for p
    unfolding only_output_def by (rule exI [of _ "[p]"]) simp
  have kept: "only_output w u" if "sink_write (multi o1 (outw o1)) p w = (r, u)" for p r u
    using that log_full_refuses [OF log_full_only_output [OF assms(3) put [of p]]] put [of p]
    by (auto simp: m split: option.splits)
  obtain r u where u: "?deco (multi o1 (outw o1)) w = (r, u)" by (rule prod.exhaust)
  then have u': "only_output w u"
    by (auto simp: text_decorator_def notImplDecorator_def split: option.splits prod.splits intro: kept [OF surjective_pairing] dest: kept)
  from WriteError_silent [OF assms(1,2) log_full_only_output [OF assms(3) u']] u u' show ?thesis
    by (cases r) (simp_all add: outputter_Output_def Let_def)
qed

lemma step_silent:
  assumes "wired o1" and "logfile o1 = Some loc" and "log_full loc w" and "keeps_log op"
  shows "\<exists>o2 w2. out_step stamp op (o1, w) = Some (o2, w2) \<and> wired o2 \<and> logfile o2 = Some loc \<and> only_output w w2"
proof (cases op)
  case (OpDebug b)
  from wired_SetDebug [OF assms(1), of b] OpDebug assms(2) show ?thesis by force
next
  case (OpType t)
  with assms(2) wired_SetOutputType [OF assms(1), of t] show ?thesis by (simp add: SetOutputType_def)
next
  case (OpLine s)
  from assms(1) filter_sink_log [OF assms(2)] obtain l lf where
    l: "oLogger o1 = Some l" "lSink l = MultiWriter [To (LogFile loc), lf]" by (auto simp: wired_def)
  from Printf_silent [OF l(2) assms(3)] OpLine l(1) assms(1,2) show ?thesis by (simp add: logger_Println_def)
next
  case (OpError err)
  with WriteError_silent [OF assms(1-3)] assms(1,2) show ?thesis by simp
next
  case (OpOutput d)
  from Output_silent [OF assms(1-3), of stamp d] obtain w' where
    "outputter_Output stamp (\<lambda>t. map_option text_decorator (d t)) o1 w = Some w'" "only_output w w'" by blast
  with OpOutput assms(1,2) show ?thesis by simp
qed (use assms(4) in simp)


section \<open>Examples\<close>

definition calm_world :: out_world where
  "calm_world = \<lparr>writes = [], refuses = (\<lambda>_ _. None), open_fails = (\<lambda>_. None), closed_files = [], closed_error = (\<lambda>_. Sentinel EOF)\<rparr>"

definition full_world :: out_world where
  "full_world = calm_world\<lparr>refuses := (\<lambda>st _. if st = LogFile ''/log'' then Some (Fundamental ''no space left on device'') else None)\<rparr>"

definition demo_ops :: "out_op list" where
  "demo_ops = [OpLog ''/log'', OpDebug False, OpType Raw, OpLine ''[DEBUG] hidden'', OpOutput [Raw \<mapsto> (''row'', None)], OpError (Fundamental ''broken'')]"

theorem outputter_refines_witness:
  "\<exists>o1 o2 w2. new_outputter = Some o1 \<and> out_steps (\<lambda>_ _. ''12:00 '') demo_ops (o1, calm_world) = Some (o2, w2)
     \<and> list_all2 shown_as [''broken''] (on_stream (\<lambda>st. st = Stderr) w2) \<and> on_stream (\<lambda>st. st = Stdout) w2 = [''row'']
     \<and> list_all2 shown_as [''[DEBUG] hidden'', ''row'', ''broken'', ''[DEBUG] Underlying error: broken''] (on_stream is_log w2)"
proof -
  let ?a = "fold line_step demo_ops fresh_outputter"
  have a: "err_lines ?a = [''broken'']" "out_lines ?a = [''row'']"
    "log_lines ?a = [''[DEBUG] hidden'', ''row'', ''broken'', ''[DEBUG] Underlying error: broken'']" by code_simp+
  have c: "willing calm_world" "writes calm_world = []" by (simp_all add: willing_def calm_world_def)
  have "CHR ''['' \<notin> set ''12:00 ''" by simp
  from outputter_refines [OF c, where stamp = "\<lambda>_ _. ''12:00 ''" and ops = demo_ops, OF this] a show ?thesis
    by (simp only: Let_def) metis
qed


end
