(* ===== verification/Api_Types.thy ===== *)
theory Api_Types
  imports Batch_Client Conf_Config
begin

text \<open>
  Whatever a server answers, the results of the API calls are values of their Go types: a number that does
  not fit into 64 bits ends the call with an error and is never stored, anywhere in a result. A predicate
  for each payload, that the decoders keep it, and what follows for the calls.
\<close>

section \<open>Decoders keep a type\<close>

definition typed_fields :: "('r \<Rightarrow> bool) \<Rightarrow> 'r fields \<Rightarrow> bool" where
  "typed_fields P fs \<longleftrightarrow> (\<forall>n d v r r'. (n, d) \<in> set fs \<longrightarrow> P r \<longrightarrow> d v r = Inr r' \<longrightarrow> P r')"

lemma typed_nil: "typed_fields P []"
  by (simp add: typed_fields_def)

lemma typed_cons: "(\<And>v r r'. P r \<Longrightarrow> d v r = Inr r' \<Longrightarrow> P r') \<Longrightarrow> typed_fields P fs \<Longrightarrow> typed_fields P ((n, d) # fs)"
  unfolding typed_fields_def by (simp only: list.set insert_iff prod.inject) blast

lemma typed_append: "typed_fields P fs \<Longrightarrow> typed_fields P gs \<Longrightarrow> typed_fields P (fs @ gs)"
  unfolding typed_fields_def by (simp only: set_append Un_iff) blast

lemma typed_fieldD: "typed_fields P fs \<Longrightarrow> (n, d) \<in> set fs \<Longrightarrow> P r \<Longrightarrow> d v r = Inr r' \<Longrightarrow> P r'"
  unfolding typed_fields_def by blast

text \<open>One rule for each kind of field.\<close>

lemma typed_str: "(\<And>s r. P r \<Longrightarrow> P (upd s r)) \<Longrightarrow> typed_fields P fs \<Longrightarrow> typed_fields P ((n, set_str upd) # fs)"
  by (rule typed_cons) (auto simp: set_str_def split: json.splits)

lemma typed_int: "(\<And>i r. P r \<Longrightarrow> in_int64 i \<Longrightarrow> P (upd i r)) \<Longrightarrow> typed_fields P fs \<Longrightarrow> typed_fields P ((n, set_int upd) # fs)"
  by (rule typed_cons) (auto simp: set_int_def split: json.splits if_splits)

lemma typed_slice: "(\<And>xs r. P r \<Longrightarrow> P (upd xs r)) \<Longrightarrow> typed_fields P fs \<Longrightarrow> typed_fields P ((n, set_slice d upd) # fs)"
  by (rule typed_cons) (auto simp: set_slice_def split: json.splits sum.splits)

lemma typed_strmap: "(\<And>xs r. P r \<Longrightarrow> P (upd xs r)) \<Longrightarrow> typed_fields P fs \<Longrightarrow> typed_fields P ((n, set_strmap upd) # fs)"
  by (rule typed_cons) (auto simp: set_strmap_def split: json.splits sum.splits)

lemma decode_members_typed: "typed_fields P fs \<Longrightarrow> decode_members fs kvs r = Inr r' \<Longrightarrow> P r \<Longrightarrow> P r'"
proof (induction fs kvs r rule: decode_members.induct)
  case (2 fs k v kvs r)
  show ?case
  proof (cases "find_field fs k")
    case (Some d)
    with 2(4) obtain x where x: "d v r = Inr x" "decode_members fs kvs x = Inr r'" by (auto split: sum.splits)
    from find_field_cases [OF Some] obtain n where "(n, d) \<in> set fs" by blast
    from typed_fieldD [OF 2(3) this 2(5) x(1)] 2(2) [OF Some x(1) 2(3) x(2)] show ?thesis by blast
  qed (use 2 in auto)
qed simp

lemma decode_struct_typed: "typed_fields P fs \<Longrightarrow> decode_struct fs j r = Inr r' \<Longrightarrow> P r \<Longrightarrow> P r'"
  using decode_members_typed by (auto simp: decode_struct_def split: json.splits)

lemma elem_struct_typed: "typed_fields P fs \<Longrightarrow> P zero \<Longrightarrow> elem_struct fs zero j = Inr x \<Longrightarrow> pred_option P x"
  by (auto simp: elem_struct_def split: if_splits sum.splits dest: decode_struct_typed)

lemma decode_elems_typed: "(\<And>j x. d j = Inr x \<Longrightarrow> Q x) \<Longrightarrow> decode_elems d js = Inr xs \<Longrightarrow> list_all Q xs"
  by (induction js arbitrary: xs) (auto split: sum.splits)

lemma slice_of_structs_typed:
  assumes "typed_fields P fs" and "P zero" and "set_slice (elem_struct fs zero) (\<lambda>xs _. xs) j r = Inr xs"
  shows "list_all (pred_option P) xs"
  using assms(3) decode_elems_typed [OF elem_struct_typed [OF assms(1,2)]]
  by (auto simp: set_slice_def split: json.splits sum.splits)

section \<open>The payloads\<close>

definition dataset_typed :: "'a DatasetSummary_scheme \<Rightarrow> bool" where
  "dataset_typed ds \<longleftrightarrow> in_int64 (UploadExpire ds) \<and> in_int64 (dsCreatedAt ds)"

definition task_typed :: "'a TaskSummary_scheme \<Rightarrow> bool" where
  "task_typed t \<longleftrightarrow> in_int64 (tsTaskID t) \<and> in_int64 (TTL t)"

definition workload_typed :: "'a WorkloadSummary_scheme \<Rightarrow> bool" where
  "workload_typed wl \<longleftrightarrow> in_int64 (NrOfWorkers wl) \<and> in_int64 (wlCreatedAt wl)"

definition described_workload_typed :: "DescribeWorkloadOutput \<Rightarrow> bool" where
  "described_workload_typed wl \<longleftrightarrow> workload_typed wl \<and> list_all (\<lambda>(status, n). in_int64 n) (TaskCount wl)"

definition project_typed :: "auth_Project \<Rightarrow> bool" where
  "project_typed p \<longleftrightarrow> in_int64 (apID p)"

lemma zero_typed [simp]: "in_int64 0"
  by (simp add: in_int64_def min_int64_def max_int64_def)

lemma typed_intmap:
  assumes "\<And>xs r. P r \<Longrightarrow> list_all (\<lambda>(status, i). in_int64 i) xs \<Longrightarrow> P (upd xs r)" and "typed_fields P fs"
  shows "typed_fields P ((n, set_intmap upd) # fs)"
proof (rule typed_cons [OF _ assms(2)])
  fix v r r' assume "P r" and s: "set_intmap upd v r = Inr r'"
  have e: "elem_int j = Inr i \<Longrightarrow> in_int64 i" for j i
    by (auto simp: elem_int_def split: json.splits if_splits)
  have z: "list_all in_int64 ns \<Longrightarrow> list_all (\<lambda>(status, i). in_int64 i) (zip ks ns)" for ks :: "string list" and ns
    by (auto simp: list_all_iff dest: set_zip_rightD)
  from s obtain xs where "r' = upd xs r" "list_all (\<lambda>(status, i). in_int64 i) xs"
    using z decode_elems_typed [of elem_int in_int64, OF e] by (auto simp: set_intmap_def split: json.splits sum.splits)
  with assms(1) \<open>P r\<close> show "P r'" by blast
qed

lemmas typed_rules = typed_nil typed_str typed_int typed_slice typed_strmap typed_intmap

lemma dataset_fields_typed: "typed_fields dataset_typed dataset_fields"
  unfolding dataset_fields_def by (intro typed_rules) (simp_all add: dataset_typed_def)

lemma task_fields_typed: "typed_fields task_typed task_fields"
  unfolding task_fields_def by (intro typed_rules) (simp_all add: task_typed_def)

lemma workload_fields_typed: "typed_fields workload_typed workload_fields"
  unfolding workload_fields_def by (intro typed_rules) (simp_all add: workload_typed_def)

lemma project_fields_typed: "typed_fields project_typed auth_project_fields"
  unfolding auth_project_fields_def by (intro typed_rules) (simp_all add: project_typed_def)

lemma create_dataset_fields_typed:
  "typed_fields (\<lambda>ds. dataset_typed ds \<and> in_int64 (HeartbeatInterval ds)) create_dataset_fields"
  unfolding create_dataset_fields_def dataset_fields_def
  by (intro typed_append typed_rules) (simp_all add: dataset_typed_def)

lemma describe_task_fields_typed: "typed_fields (\<lambda>t. task_typed t \<and> in_int64 (NumDispatches t)) describe_task_fields"
  unfolding describe_task_fields_def task_fields_def by (intro typed_append typed_rules) (simp_all add: task_typed_def)

lemma describe_workload_fields_typed: "typed_fields described_workload_typed describe_workload_fields"
  unfolding describe_workload_fields_def workload_fields_def
  by (intro typed_append typed_rules) (simp_all add: described_workload_typed_def workload_typed_def)

section \<open>The calls\<close>

lemma send_decodes:
  "send exec h (zero, Some d) req w = (Inr r, w') \<Longrightarrow> \<exists>j. d j zero = Inr r"
  by (auto simp: send_def finish_response_def Decode_def split: prod.splits sum.splits if_splits)

lemma doRequest_decodes:
  "doRequest c m p i (zero, Some d) s = (Inr r, s') \<Longrightarrow> \<exists>j. d j zero = Inr r"
  by (auto simp: doRequest_def call_def check_def split: prod.splits sum.splits dest: send_decodes)

lemma auth_doRequest_decodes:
  "auth_doRequest c m p i (zero, Some d) s = (Inr r, s') \<Longrightarrow> \<exists>j. d j zero = Inr r"
  by (auto simp: auth_doRequest_def call_def check_def split: prod.splits sum.splits dest: send_decodes)

lemma struct_call_typed:
  "typed_fields P fs \<Longrightarrow> P zero \<Longrightarrow> doRequest c m p i (into fs zero) s = (Inr r, s') \<Longrightarrow> P r"
  unfolding into_def by (drule doRequest_decodes) (blast dest: decode_struct_typed)

text \<open>A list is the one member of its output.\<close>

lemma typed_list_member:
  assumes "typed_fields P fs" and "P zero"
  shows "typed_fields (list_all (pred_option P)) [(n, set_slice (elem_struct fs zero) (\<lambda>xs _. xs))]"
  by (rule typed_cons [OF _ typed_nil]) (rule slice_of_structs_typed [OF assms])

lemma list_call_typed:
  assumes "typed_fields P fs" and "P zero"
    and "doRequest c m p i (into [(n, set_slice (elem_struct fs zero) (\<lambda>xs _. xs))] []) s = (Inr r, s')"
  shows "list_all (pred_option P) r"
  by (rule struct_call_typed [OF typed_list_member [OF assms(1,2)] _ assms(3)]) simp

lemmas empty_payloads = empty_dataset_def empty_create_dataset_def DatasetSummary.extend_def empty_task_def empty_describe_task_def
  TaskSummary.extend_def empty_workload_def empty_describe_workload_def WorkloadSummary.extend_def

lemma empty_typed [simp]:
  "dataset_typed empty_dataset" "dataset_typed empty_create_dataset" "in_int64 (HeartbeatInterval empty_create_dataset)"
  "task_typed empty_task" "task_typed empty_describe_task" "in_int64 (NumDispatches empty_describe_task)"
  "workload_typed empty_workload" "described_workload_typed empty_describe_workload"
  by (simp_all add: dataset_typed_def task_typed_def workload_typed_def described_workload_typed_def empty_payloads)


text \<open>A server whose dataset expires later than an \<^verbatim>\<open>int64\<close> can say, and one with a dataset of its type.\<close>

definition dated_client :: "int \<Rightarrow> unit ClientConfig" where
  "dated_client n = \<lparr>Doer = (\<lambda>_ w. (Inr \<lparr>StatusCode = 200, Status = ''200 OK'', RespBody = Inr (JObj [(''upload_expire'', JNum n)])\<rparr>, w)),
     TokenProvider = Some \<lparr>IsExpired = (\<lambda>w. (False, w)), Retrieve = (\<lambda>w. (Inr ''t'', w))\<rparr>, BaseURL = empty_url\<rparr>"


end
