(* ===== verification/Command_Display.thy ===== *)
theory Command_Display
  imports Transfer_Commands Workload_Commands
begin

text \<open>
  What the commands display: the decorators of \<^verbatim>\<open>command/format/decorators.go\<close> and, for every command, the
  header and the templates of its \<^verbatim>\<open>DoRun\<close>. A template is the list of its pieces; the package that
  executes it is \<^verbatim>\<open>html/template\<close>, which escapes every value. How the tab writer lays out its
  cells, how \<^verbatim>\<open>humanize\<close> spells an instant and the JSON encoder are arguments.
\<close>

section \<open>Templates\<close>

definition tab :: string where "tab = [CHR 9]"
definition nl :: string where "nl = [CHR 10]"

text \<open>\<^verbatim>\<open>htmlReplacementTable\<close>.\<close>

definition html_char :: "char \<Rightarrow> string" where
  "html_char c =
     (if c = CHR 34 then ''&#34;'' else if c = CHR 39 then ''&#39;'' else if c = CHR ''&'' then ''&amp;''
      else if c = CHR ''+'' then ''&#43;'' else if c = CHR ''<'' then ''&lt;'' else if c = CHR ''>'' then ''&gt;''
      else if c = CHR 0x00 then [CHR 0xEF, CHR 0xBF, CHR 0xBD] else [c])"

definition html_escape :: "string \<Rightarrow> string" where
  "html_escape s = concat (map html_char s)"

text \<open>A text, or a value in its \<^verbatim>\<open>%v\<close> form.\<close>

datatype 'v piece = Text string | Value "'v \<Rightarrow> string"

fun piece_text :: "'v \<Rightarrow> 'v piece \<Rightarrow> string" where
  "piece_text v (Text s) = s"
| "piece_text v (Value f) = html_escape (f v)"

definition pieces_text :: "'v piece list \<Rightarrow> 'v \<Rightarrow> string" where
  "pieces_text ps v = concat (map (piece_text v) ps)"

text \<open>The execution of a template writes some text and may then fail.\<close>

type_synonym 'v template = "'v \<Rightarrow> string \<times> goerr option"

definition fields_template :: "'v piece list \<Rightarrow> 'v template" where
  "fields_template ps v = (pieces_text ps v, None)"

definition nil_pointer :: goerr where
  "nil_pointer = Fundamental ''nil pointer evaluating a field''"

definition is_text :: "'v piece \<Rightarrow> bool" where
  "is_text p = (case p of Text _ \<Rightarrow> True | _ \<Rightarrow> False)"

text \<open>\<^verbatim>\<open>{{range $i, $x := ...}}\<close> over pointers: a nil one ends the execution at its first field.\<close>

fun range_template :: "'x piece list \<Rightarrow> 'x option list template" where
  "range_template ps [] = ([], None)"
| "range_template ps (None # xs) =
     (if list_all is_text ps then (case range_template ps xs of (t, e) \<Rightarrow> (concat (map (\<lambda>p. case p of Text s \<Rightarrow> s | _ \<Rightarrow> []) ps) @ t, e))
      else (concat (map (\<lambda>p. case p of Text s \<Rightarrow> s | _ \<Rightarrow> []) (takeWhile is_text ps)), Some nil_pointer))"
| "range_template ps (Some x # xs) = (case range_template ps xs of (t, e) \<Rightarrow> (pieces_text ps x @ t, e))"

text \<open>One template after another.\<close>

definition then_template :: "'v template \<Rightarrow> 'v template \<Rightarrow> 'v template" where
  "then_template f g v = (case f v of (t, Some e) \<Rightarrow> (t, Some e) | (t, None) \<Rightarrow> (case g v of (u, e) \<Rightarrow> (t @ u, e)))"

section \<open>The decorators\<close>

record display_env =
  unix_ago :: "int \<Rightarrow> string"
  unix_nano_ago :: "int \<Rightarrow> string"
  tabs :: "bool \<Rightarrow> string \<Rightarrow> string" \<comment> \<open>what comes out of the tab writer, with and without \<^verbatim>\<open>Flush\<close>\<close>
  encode_json :: "reply \<Rightarrow> string \<times> goerr option"

text \<open>The templates of the repository all parse.\<close>

definition TmplDecorate :: "'v template \<Rightarrow> 'v \<Rightarrow> string \<times> goerr option" where
  "TmplDecorate tmpl v = (case tmpl v of
     (t, None) \<Rightarrow> (t, None) | (t, Some err) \<Rightarrow> (t, Some (wrapped ''failed to parse output into template'' err)))"

text \<open>Without \<^verbatim>\<open>Flush\<close> after an error.\<close>

definition TableDecorate :: "display_env \<Rightarrow> string \<Rightarrow> 'v template \<Rightarrow> 'v \<Rightarrow> string \<times> goerr option" where
  "TableDecorate d header tmpl v =
     (let h = (if header \<noteq> [] then header @ nl else []) in
      case tmpl v of
        (t, None) \<Rightarrow> (tabs d True (h @ t), None)
      | (t, Some err) \<Rightarrow> (tabs d False (h @ t), Some (wrapped ''failed to parse output into template'' err)))"

definition three_types :: "display_env \<Rightarrow> string \<Rightarrow> 'v template \<Rightarrow> 'v template \<Rightarrow> 'v \<Rightarrow> reply \<Rightarrow> output_type \<rightharpoonup> string \<times> goerr option" where
  "three_types d header pretty raw v r =
     [Pretty \<mapsto> TableDecorate d header pretty v, Raw \<mapsto> TmplDecorate raw v, JSON \<mapsto> encode_json d r]"

section \<open>The displays\<close>

text \<open>Cells of a line, apart by tabs.\<close>

definition cells :: "('x \<Rightarrow> string) list \<Rightarrow> 'x piece list" where
  "cells fs = join_with [Text tab] (map (\<lambda>f. [Value f]) fs) @ [Text nl]"

definition strings_text :: "string list \<Rightarrow> string" where
  "strings_text xs = ''['' @ join_with '' '' xs @ '']''"

definition dataset_list_display :: "display_env \<Rightarrow> DatasetSummary option list \<Rightarrow> output_type \<rightharpoonup> string \<times> goerr option" where
  "dataset_list_display d xs = three_types d (''DATASET ID'' @ tab @ ''CREATED'')
     (range_template (cells [DatasetID, \<lambda>x. unix_ago d (dsCreatedAt x)]))
     (range_template (cells [DatasetID, \<lambda>x. int_text (dsCreatedAt x)])) xs (Datasets xs)"

definition project_list_display :: "display_env \<Rightarrow> auth_Project list \<Rightarrow> output_type \<rightharpoonup> string \<times> goerr option" where
  "project_list_display d ps = three_types d ''PROJECTS'' (range_template (cells [apSlug])) (range_template (cells [apSlug, apURL]))
     (map Some ps) (Projects ps)"

definition secret_create_display :: "display_env \<Rightarrow> SecretSummary \<Rightarrow> output_type \<rightharpoonup> string \<times> goerr option" where
  "secret_create_display d out = three_types d ''New Secret:''
     (fields_template [Text (''Name:'' @ tab), Value scName, Text (nl @ tab @ ''Type:'' @ tab), Value SecretSummary.scType, Text (nl @ tab @ tab)])
     (fields_template [Text (''Name:'' @ tab), Value scName, Text (nl @ tab @ tab @ ''Type:'' @ tab), Value SecretSummary.scType, Text (nl @ tab @ tab)])
     out (SecretCreated out)"

definition secret_describe_display :: "display_env \<Rightarrow> DescribeSecretOutput \<Rightarrow> output_type \<rightharpoonup> string \<times> goerr option" where
  "secret_describe_display d out =
     (if SecretSummary.scType out = ''Opaque'' then
        three_types d ''Secret Details:''
          (fields_template [Text (''Name:'' @ tab @ tab), Value scName, Text (nl @ ''Type:'' @ tab @ tab), Value SecretSummary.scType,
             Text (nl @ ''Key:'' @ tab @ tab), Value scKey, Text (nl @ ''Value:'' @ tab @ tab), Value scValue, Text nl])
          (fields_template [Text (''ID:'' @ tab @ tab), Value scName, Text (nl @ ''Type:'' @ tab @ tab), Value SecretSummary.scType,
             Text (nl @ ''Key:'' @ tab @ tab), Value scKey, Text (nl @ ''Value:'' @ tab @ tab), Value scValue, Text nl])
          out (SecretDetails out)
      else
        three_types d ''Secret Details:''
          (fields_template [Text (''Name:'' @ tab @ tab), Value scName, Text (nl @ tab @ tab @ ''Type:'' @ tab @ tab), Value SecretSummary.scType,
             Text (nl @ tab @ tab @ ''Key:'' @ tab @ tab), Value scKey, Text (nl @ tab @ tab)])
          (fields_template [Text (''ID:'' @ tab @ tab), Value scName, Text (nl @ ''Type:'' @ tab @ tab), Value SecretSummary.scType,
             Text (nl @ ''Key:'' @ tab @ tab), Value scKey, Text nl])
          out (SecretDetails out))"

definition secret_list_display :: "display_env \<Rightarrow> ListSecretsOutput \<Rightarrow> output_type \<rightharpoonup> string \<times> goerr option" where
  "secret_list_display d out = three_types d (''SECRET NAME'' @ tab @ ''TYPE'')
     (range_template (cells [scName, SecretSummary.scType])) (range_template (cells [scName, SecretSummary.scType])) (Secrets out) (SecretsOf out)"

definition task_pieces :: "(int \<Rightarrow> string) \<Rightarrow> DescribeTaskOutput piece list" where
  "task_pieces created = [Text (''ID:'' @ tab), Value (\<lambda>t. int_text (tsTaskID t)), Text (nl @ ''Cmd:'' @ tab), Value (\<lambda>t. strings_text (tsCmd t)),
     Text (nl @ ''OutputID:'' @ tab), Value tsOutputDatasetID, Text (nl @ ''Status:'' @ tab), Value tsStatus,
     Text (nl @ ''Created:'' @ tab), Value (\<lambda>t. created (tsTaskID t)), Text nl]"

text \<open>The id of a task is the instant of its creation, in nanoseconds.\<close>

definition task_describe_display :: "display_env \<Rightarrow> DescribeTaskOutput \<Rightarrow> output_type \<rightharpoonup> string \<times> goerr option" where
  "task_describe_display d out = three_types d ''Workload Details:'' (fields_template (task_pieces (unix_nano_ago d)))
     (fields_template (task_pieces int_text)) out (TaskDetails out)"

definition task_list_display :: "display_env \<Rightarrow> TaskSummary option list \<Rightarrow> output_type \<rightharpoonup> string \<times> goerr option" where
  "task_list_display d ts = three_types d (''TASK ID'' @ tab @ ''CMD'' @ tab @ ''OUTPUT ID'' @ tab @ ''STATUS'' @ tab @ ''CREATED'')
     (range_template (cells [\<lambda>t. int_text (tsTaskID t), \<lambda>t. strings_text (tsCmd t), tsOutputDatasetID, tsStatus, \<lambda>t. unix_nano_ago d (tsTaskID t)]))
     (range_template (cells [\<lambda>t. int_text (tsTaskID t), \<lambda>t. strings_text (tsCmd t), tsOutputDatasetID, tsStatus, \<lambda>t. int_text (tsTaskID t)]))
     ts (Tasks ts)"

text \<open>Every piece after the first line of the raw template is behind a tab.\<close>

definition workload_template :: "string \<Rightarrow> (int \<Rightarrow> string) \<Rightarrow> DescribeWorkloadOutput template" where
  "workload_template indent created =
     then_template
       (fields_template [Text (''ID:'' @ tab @ tab @ tab), Value wlWorkloadID, Text (nl @ indent @ ''Image:'' @ tab @ tab @ tab), Value Image,
          Text (nl @ indent @ ''Input:'' @ tab @ tab @ tab), Value InputDatasetID,
          Text (nl @ indent @ ''Created:'' @ tab @ tab @ tab), Value (\<lambda>w. created (wlCreatedAt w)), Text (nl @ indent @ ''Workers:'' @ tab @ tab @ tab)])
     (then_template (\<lambda>w. range_template [Value WorkerID, Text '' ('', Value wkStatus, Text '') ''] (Workers w))
       (fields_template [Text (nl @ tab)]))"

definition workload_describe_display :: "display_env \<Rightarrow> DescribeWorkloadOutput \<Rightarrow> output_type \<rightharpoonup> string \<times> goerr option" where
  "workload_describe_display d out = three_types d ''Workload Details:'' (workload_template [] (unix_ago d)) (workload_template tab int_text)
     out (WorkloadDetails out)"

definition workload_list_display :: "display_env \<Rightarrow> WorkloadSummary option list \<Rightarrow> output_type \<rightharpoonup> string \<times> goerr option" where
  "workload_list_display d ws = three_types d (''WORKLOAD ID'' @ tab @ ''IMAGE'' @ tab @ ''INPUT'' @ tab @ ''CREATED'')
     (range_template (cells [wlWorkloadID, Image, InputDatasetID, \<lambda>w. unix_ago d (wlCreatedAt w)]))
     (range_template (cells [wlWorkloadID, Image, InputDatasetID, \<lambda>w. int_text (wlCreatedAt w)])) ws (Workloads ws)"

text \<open>The renderer of the commands.\<close>

fun display :: "display_env \<Rightarrow> renderer" where
  "display d (Datasets xs) = dataset_list_display d xs"
| "display d (Projects ps) = project_list_display d ps"
| "display d (SecretCreated out) = secret_create_display d out"
| "display d (SecretDetails out) = secret_describe_display d out"
| "display d (SecretsOf out) = secret_list_display d out"
| "display d (TaskDetails out) = task_describe_display d out"
| "display d (Tasks ts) = task_list_display d ts"
| "display d (WorkloadDetails out) = workload_describe_display d out"
| "display d (Workloads ws) = workload_list_display d ws"

text \<open>An upload displays its dataset; all three are templates.\<close>

definition upload_display :: "DatasetSummary \<Rightarrow> output_type \<rightharpoonup> string \<times> goerr option" where
  "upload_display ds =
     (let tmpl = fields_template [Text ''Upload complete! ID of new dataset: '', Value DatasetID, Text nl];
          jsonTmpl = fields_template [Text (''{'' @ [CHR 34] @ ''dataset_id'' @ [CHR 34] @ '':'' @ [CHR 34]), Value DatasetID,
            Text (''}'' @ [CHR 34] @ ''}'')] in
      [Pretty \<mapsto> TmplDecorate tmpl ds, Raw \<mapsto> TmplDecorate tmpl ds, JSON \<mapsto> TmplDecorate jsonTmpl ds])"

section \<open>What a raw listing says\<close>

text \<open>Texts that \<^verbatim>\<open>html/template\<close> leaves alone, and that do not hold a tab or the end of a line.\<close>

definition harmless_char :: "char \<Rightarrow> bool" where
  "harmless_char c \<longleftrightarrow> html_char c = [c] \<and> c \<noteq> CHR 9 \<and> c \<noteq> CHR 10"

abbreviation harmless :: "string \<Rightarrow> bool" where
  "harmless \<equiv> list_all harmless_char"

lemma harmless_escape: "harmless s \<Longrightarrow> html_escape s = s"
  by (induction s) (simp_all add: harmless_char_def html_escape_def)

lemma digit_harmless: "is_digit c \<Longrightarrow> harmless_char c"
proof -
  assume "is_digit c"
  moreover have "list_all (\<lambda>x. \<not> is_digit x) [CHR 34, CHR 39, CHR ''&'', CHR ''+'', CHR ''<'', CHR ''>'', CHR 0x00, CHR 9, CHR 10]"
    by code_simp
  ultimately have "c \<notin> set [CHR 34, CHR 39, CHR ''&'', CHR ''+'', CHR ''<'', CHR ''>'', CHR 0x00, CHR 9, CHR 10]"
    by (auto simp only: list_all_iff)
  then show ?thesis unfolding harmless_char_def html_char_def by simp
qed

lemma int_text_harmless: "harmless (int_text n)"
proof -
  have "harmless_char CHR ''-''" by code_simp
  moreover have "harmless (nat_text k)" for k
    using nat_text_digits digit_harmless by (simp add: list_all_iff)
  ultimately show ?thesis by (simp add: int_text_def)
qed

lemma harmless_join: "harmless sep \<Longrightarrow> list_all harmless xs \<Longrightarrow> harmless (join_with sep xs)"
  by (induction sep xs rule: join_with.induct) simp_all

lemma strings_text_harmless: "list_all harmless xs \<Longrightarrow> harmless (strings_text xs)"
proof -
  have "harmless ''[''" "harmless '']''" "harmless '' ''" by code_simp+
  then show "list_all harmless xs \<Longrightarrow> ?thesis"
    using harmless_join [of "'' ''" xs] by (simp only: strings_text_def list_all_append)
qed

lemma pieces_append: "pieces_text (ps @ qs) v = pieces_text ps v @ pieces_text qs v"
  by (simp add: pieces_text_def)

lemma joined_pieces: "pieces_text (join_with [Text tab] (map (\<lambda>f. [Value f]) fs)) x = join_with tab (map (\<lambda>f. html_escape (f x)) fs)"
proof (induction fs)
  case (Cons f fs)
  then show ?case by (cases fs) (simp_all add: pieces_text_def)
qed (simp add: pieces_text_def)

lemma range_template_lines:
  "range_template (cells fs) (map Some xs) = (concat (map (\<lambda>x. join_with tab (map (\<lambda>f. html_escape (f x)) fs) @ nl) xs), None)"
proof -
  have "pieces_text (cells fs) x = join_with tab (map (\<lambda>f. html_escape (f x)) fs) @ nl" for x
    by (simp only: cells_def pieces_append joined_pieces) (simp add: pieces_text_def)
  then show ?thesis by (induction xs) simp_all
qed

text \<open>Lines and cells of a listing.\<close>

definition raw_rows :: "string \<Rightarrow> string list list" where
  "raw_rows t = map (split_on (CHR 9)) (butlast (split_on (CHR 10) t))"

lemma split_lines:
  "list_all (\<lambda>l. CHR 10 \<notin> set l) ls \<Longrightarrow> split_on (CHR 10) (concat (map (\<lambda>l. l @ nl) ls)) = ls @ [[]]"
proof (induction ls)
  case (Cons l ls)
  then show ?case using split_on_append [of "CHR 10" l "concat (map (\<lambda>l. l @ nl) ls)"] by (simp add: nl_def)
qed simp

lemma join_set: "set (join_with sep xs) \<subseteq> set sep \<union> \<Union> (set ` set xs)"
  by (induction sep xs rule: join_with.induct) auto

lemma rows_back:
  assumes "fs \<noteq> []" and "list_all (\<lambda>x. list_all (\<lambda>f. harmless (f x)) fs) xs"
  shows "raw_rows (fst (range_template (cells fs) (map Some xs))) = map (\<lambda>x. map (\<lambda>f. f x) fs) xs"
proof -
  define line where "line x = join_with tab (map (\<lambda>f. f x) fs)" for x
  have e: "html_escape (f x) = f x" if "x \<in> set xs" "f \<in> set fs" for f x
    using assms(2) that by (auto simp: list_all_iff intro!: harmless_escape [unfolded list_all_iff])
  have "fst (range_template (cells fs) (map Some xs)) = concat (map (\<lambda>x. line x @ nl) xs)"
    using e by (simp add: range_template_lines line_def cong: map_cong)
  then have f: "fst (range_template (cells fs) (map Some xs)) = concat (map (\<lambda>l. l @ nl) (map line xs))"
    by (simp add: comp_def)
  have clean: "CHR 9 \<notin> set (f x)" "CHR 10 \<notin> set (f x)" if "x \<in> set xs" "f \<in> set fs" for f x
    using assms(2) that by (auto simp: list_all_iff harmless_char_def)
  have "CHR 10 \<notin> set (line x)" if "x \<in> set xs" for x
    using join_set [of tab "map (\<lambda>f. f x) fs"] clean(2) [OF that] by (auto simp: line_def tab_def)
  then have s: "split_on (CHR 10) (concat (map (\<lambda>l. l @ nl) (map line xs))) = map line xs @ [[]]"
    by (intro split_lines) (simp add: list_all_iff)
  have "split_on (CHR 9) (line x) = map (\<lambda>f. f x) fs" if "x \<in> set xs" for x
    using split_on_join [of "map (\<lambda>f. f x) fs" "CHR 9"] assms(1) clean(1) [OF that] by (simp add: line_def tab_def)
  then show ?thesis unfolding raw_rows_def f s by simp
qed

lemma raw_listing: "TmplDecorate (range_template (cells fs)) (map Some xs) = (fst (range_template (cells fs) (map Some xs)), None)"
  by (simp add: TmplDecorate_def range_template_lines)

text \<open>
  C38: The raw listings are for scripts: where no cell holds a tab, the end of a line or a character that \<^verbatim>\<open>html/template\<close>
  spells as an entity, cutting the raw output of \<^verbatim>\<open>dataset list\<close>, \<^verbatim>\<open>workload list\<close>, \<^verbatim>\<open>secret list\<close> and \<^verbatim>\<open>task list\<close> at the ends of
  lines and at the tabs gives back exactly the cells of every entry, in order, the numbers in full.
\<close>

theorem raw_listings_read_back:
  assumes "list_all (\<lambda>x. harmless (DatasetID x)) ds"
    and "list_all (\<lambda>x. harmless (wlWorkloadID x) \<and> harmless (Image x) \<and> harmless (InputDatasetID x)) ws"
    and "list_all (\<lambda>x. harmless (scName x) \<and> harmless (SecretSummary.scType x)) ss"
    and "list_all (\<lambda>x. list_all harmless (tsCmd x) \<and> harmless (tsOutputDatasetID x) \<and> harmless (tsStatus x)) ts"
  shows "\<exists>td tw ts' tt.
      display d (Datasets (map Some ds)) Raw = Some (td, None) \<and> raw_rows td = map (\<lambda>x. [DatasetID x, int_text (dsCreatedAt x)]) ds
    \<and> display d (Workloads (map Some ws)) Raw = Some (tw, None)
    \<and> raw_rows tw = map (\<lambda>x. [wlWorkloadID x, Image x, InputDatasetID x, int_text (wlCreatedAt x)]) ws
    \<and> display d (SecretsOf \<lparr>lsProjectID = project, Secrets = map Some ss\<rparr>) Raw = Some (ts', None)
    \<and> raw_rows ts' = map (\<lambda>x. [scName x, SecretSummary.scType x]) ss
    \<and> display d (Tasks (map Some ts)) Raw = Some (tt, None)
    \<and> raw_rows tt = map (\<lambda>x. [int_text (tsTaskID x), strings_text (tsCmd x), tsOutputDatasetID x, tsStatus x, int_text (tsTaskID x)]) ts"
proof -
  note r = raw_listing three_types_def
  have h: "harmless (int_text n)" for n by (rule int_text_harmless)
  have 1: "raw_rows (fst (range_template (cells [DatasetID, \<lambda>x. int_text (dsCreatedAt x)]) (map Some ds))) =
      map (\<lambda>x. [DatasetID x, int_text (dsCreatedAt x)]) ds"
    by (subst rows_back) (use assms(1) h in \<open>simp_all add: list_all_iff\<close>)
  have 2: "raw_rows (fst (range_template (cells [wlWorkloadID, Image, InputDatasetID, \<lambda>w. int_text (wlCreatedAt w)]) (map Some ws))) =
      map (\<lambda>x. [wlWorkloadID x, Image x, InputDatasetID x, int_text (wlCreatedAt x)]) ws"
    by (subst rows_back) (use assms(2) h in \<open>simp_all add: list_all_iff\<close>)
  have 3: "raw_rows (fst (range_template (cells [scName, SecretSummary.scType]) (map Some ss))) =
      map (\<lambda>x. [scName x, SecretSummary.scType x]) ss"
    by (subst rows_back) (use assms(3) h in \<open>simp_all add: list_all_iff\<close>)
  have s: "harmless (strings_text (tsCmd x))" if "x \<in> set ts" for x
    using assms(4) that by (intro strings_text_harmless) (simp add: list_all_iff)
  have 4: "raw_rows (fst (range_template (cells [\<lambda>t. int_text (tsTaskID t), \<lambda>t. strings_text (tsCmd t), tsOutputDatasetID, tsStatus,
        \<lambda>t. int_text (tsTaskID t)]) (map Some ts))) =
      map (\<lambda>x. [int_text (tsTaskID x), strings_text (tsCmd x), tsOutputDatasetID x, tsStatus x, int_text (tsTaskID x)]) ts"
    by (subst rows_back) (use assms(4) h s in \<open>simp_all add: list_all_iff\<close>)
  show ?thesis
    by (simp add: dataset_list_display_def workload_list_display_def secret_list_display_def task_list_display_def r 1 2 3 4)
qed

text \<open>A tab writer that changes nothing, and instants in seconds.\<close>

definition plain_display :: display_env where
  "plain_display = \<lparr>unix_ago = int_text, unix_nano_ago = int_text, tabs = (\<lambda>_ s. s), encode_json = (\<lambda>_. ([], None))\<rparr>"

theorem raw_listings_read_back_witness:
  "\<exists>t. display plain_display (Datasets [Some (empty_dataset\<lparr>DatasetID := ''d-7'', dsCreatedAt := 15\<rparr>)]) Raw = Some (t, None)
     \<and> raw_rows t = [[''d-7'', ''15'']]"
proof -
  let ?ds = "empty_dataset\<lparr>DatasetID := ''d-7'', dsCreatedAt := 15\<rparr>"
  have h: "list_all (\<lambda>x. harmless (DatasetID x)) [?ds]" by (simp add: harmless_char_def html_char_def)
  have i: "int_text 15 = ''15''" by code_simp
  have n: "list_all P []" for P :: "'zz \<Rightarrow> bool" by simp
  from raw_listings_read_back [OF h n n n, of plain_display "[]"] obtain t where
    "display plain_display (Datasets (map Some [?ds])) Raw = Some (t, None)"
    "raw_rows t = map (\<lambda>x. [DatasetID x, int_text (dsCreatedAt x)]) [?ds]" by (elim exE conjE) simp
  then show ?thesis by (intro exI [of _ t]) (simp add: i)
qed

text \<open>Characters of HTML come out as entities, also in a raw listing: the command \<open>a & b\<close> of a task, for one.\<close>

lemma raw_listing_escapes:
  "display d (Tasks [Some (empty_task\<lparr>tsCmd := [''a'', ''&'', ''b'']\<rparr>)]) Raw =
     Some (''0'' @ tab @ ''[a &amp; b]'' @ tab @ tab @ tab @ ''0'' @ nl, None)"
proof -
  have i: "int_text 0 = ''0''" by code_simp
  show ?thesis
    by (simp add: task_list_display_def three_types_def TmplDecorate_def cells_def pieces_text_def html_escape_def html_char_def
        strings_text_def empty_task_def i tab_def nl_def)
qed

text \<open>The JSON of an upload names the dataset with a brace behind its id.\<close>

lemma upload_json_brace:
  "harmless (DatasetID ds) \<Longrightarrow> upload_display ds JSON =
     Some (''{'' @ [CHR 34] @ ''dataset_id'' @ [CHR 34] @ '':'' @ [CHR 34] @ DatasetID ds @ ''}'' @ [CHR 34] @ ''}'', None)"
  by (simp add: upload_display_def TmplDecorate_def fields_template_def pieces_text_def harmless_escape)

end
