(* ===== verification/SemVer.thy ===== *)
theory SemVer
  imports Go_Errors
begin

text \<open>
  \<^verbatim>\<open>nerd/version.go\<close>: semantic versions, their parser, printer and comparison, and
  \<^verbatim>\<open>VersionMessage\<close>, which tells the user that a newer release exists. The request to the GitHub
  API (package \<^verbatim>\<open>sling\<close>) is an argument: its error, or the decoded releases and GitHub error.
\<close>

datatype semver = SemVer (Major: int) (Minor: int) (Patch: int)

definition BuiltFromSourceVersion :: string where
  "BuiltFromSourceVersion = ''built.from.src''"

record GHRelease =
  Name :: string
  HTMLURL :: string

record GHError =
  GHMessage :: string
  URL :: string

text \<open>The error of \<^verbatim>\<open>strconv.Atoi\<close>; quoting of special characters is left out.\<close>

definition num_error :: "string \<Rightarrow> atoi_error \<Rightarrow> goerr" where
  "num_error s e = Fundamental (''strconv.Atoi: parsing '' @ [CHR 34] @ s @ [CHR 34] @ '': '' @
     (case e of ErrSyntax \<Rightarrow> ''invalid syntax'' | ErrRange \<Rightarrow> ''value out of range''))"

definition parse_failed :: "string \<Rightarrow> string \<Rightarrow> string" where
  "parse_failed ver why = ''failed to parse semantic version '' @ [CHR 39] @ ver @ [CHR 39] @ '', because '' @ why"

definition ParseSemVer :: "string \<Rightarrow> goerr + semver" where
  "ParseSemVer ver =
     (case split_on CHR ''.'' ver of
        [p0, p1, p2] \<Rightarrow>
          (case Atoi p0 of (_, Some e) \<Rightarrow>
             Inl (wrapped (parse_failed ver ''the major version is not an integer'') (num_error p0 e))
           | (major, None) \<Rightarrow>
          (case Atoi p1 of (_, Some e) \<Rightarrow>
             Inl (wrapped (parse_failed ver ''the minor version is not an integer'') (num_error p1 e))
           | (minor, None) \<Rightarrow>
          (case Atoi p2 of (_, Some e) \<Rightarrow>
             Inl (wrapped (parse_failed ver ''the patch version is not an integer'') (num_error p2 e))
           | (patch, None) \<Rightarrow> Inr (SemVer major minor patch))))
      | _ \<Rightarrow> Inl (Fundamental (parse_failed ver ''does not consist of 3 parts'')))"

definition GreaterThan :: "semver \<Rightarrow> semver \<Rightarrow> bool" where
  "GreaterThan s other =
     (if Major s > Major other then True
      else if Major s < Major other then False
      else if Minor s > Minor other then True
      else if Minor s < Minor other then False
      else if Patch s > Patch other then True
      else False)"

definition ToString :: "semver \<Rightarrow> string" where
  "ToString s = int_text (Major s) @ ''.'' @ int_text (Minor s) @ ''.'' @ int_text (Patch s)"

text \<open>What \<^verbatim>\<open>VersionMessage\<close> prints on stderr, if anything.\<close>

definition VersionMessage ::
    "string \<Rightarrow> (goerr + GHRelease list \<times> GHError) \<Rightarrow> string option" where
  "VersionMessage current receive =
     (if current = BuiltFromSourceVersion then None
      else case receive of
        Inl err \<Rightarrow> Some (error_text (wrapped ''failed to access GitHub releases page'' err))
      | Inr (releases, e) \<Rightarrow>
          if GHMessage e \<noteq> [] then
            Some (''Recieved GitHub error message: '' @ GHMessage e @ '' ('' @ URL e @ '')'')
          else (case releases of
            [] \<Rightarrow> None
          | latest # _ \<Rightarrow>
             (case ParseSemVer (replace_first (Name latest) ''v'' '''') of
                Inl err \<Rightarrow> Some (error_text (wrapped ''failed to parse latest semantic version'' err))
              | Inr latestVersion \<Rightarrow>
                 (case ParseSemVer current of
                    Inl err \<Rightarrow> Some (error_text (wrapped ''failed to parse current semantic version'' err))
                  | Inr currentVersion \<Rightarrow>
                     if GreaterThan latestVersion currentVersion then
                       Some (''A new version ('' @ ToString latestVersion @ '') of the nerd CLI is available. Your current version is ''
                             @ ToString currentVersion @ ''. Please visit '' @ HTMLURL latest @ '' to get the latest version.'')
                     else None))))"

section \<open>The order of versions\<close>

text \<open>
  \<^verbatim>\<open>GreaterThan\<close> as the strict order of the type, so that the order library applies to versions.
\<close>

instantiation semver :: linorder
begin

definition less_semver :: "semver \<Rightarrow> semver \<Rightarrow> bool" where
  "a < b \<longleftrightarrow> GreaterThan b a"

definition less_eq_semver :: "semver \<Rightarrow> semver \<Rightarrow> bool" where
  "a \<le> b \<longleftrightarrow> a = b \<or> GreaterThan b a"

instance
  by standard (auto simp: less_semver_def less_eq_semver_def GreaterThan_def semver.expand
      split: if_splits)

end

definition in_range :: "semver \<Rightarrow> bool" where
  "in_range v \<longleftrightarrow> in_int64 (Major v) \<and> in_int64 (Minor v) \<and> in_int64 (Patch v)"

section \<open>Lemmas\<close>

lemma GreaterThan_lex:
  "GreaterThan a b \<longleftrightarrow>
     Major b < Major a \<or> Major b = Major a \<and> Minor b < Minor a \<or>
     Major b = Major a \<and> Minor b = Minor a \<and> Patch b < Patch a"
  by (auto simp: GreaterThan_def)

lemma split_ToString:
  "split_on CHR ''.'' (ToString v) = [int_text (Major v), int_text (Minor v), int_text (Patch v)]"
  using split_on_append [of "CHR ''.''" "int_text (Major v)"]
    split_on_append [of "CHR ''.''" "int_text (Minor v)"]
  by (simp add: ToString_def)

lemma ParseSemVer_ToString: "in_range v \<Longrightarrow> ParseSemVer (ToString v) = Inr v"
  by (simp add: ParseSemVer_def split_ToString in_range_def)

lemma ParseSemVer_Inr:
  "ParseSemVer s = Inr v \<Longrightarrow> \<exists>p0 p1 p2. s = p0 @ ''.'' @ p1 @ ''.'' @ p2 \<and>
     Atoi p0 = (Major v, None) \<and> Atoi p1 = (Minor v, None) \<and> Atoi p2 = (Patch v, None)"
proof -
  assume ok: "ParseSemVer s = Inr v"
  then obtain p0 p1 p2 where sp: "split_on CHR ''.'' s = [p0, p1, p2]"
    by (auto simp: ParseSemVer_def split: list.splits)
  have "s = join_with ''.'' [p0, p1, p2]"
    by (simp flip: sp)
  with ok sp show ?thesis
    by (intro exI [of _ p0] exI [of _ p1] exI [of _ p2])
      (auto simp: ParseSemVer_def split: option.splits prod.splits)
qed

lemma ParseSemVer_range: "ParseSemVer s = Inr v \<Longrightarrow> in_range v"
  by (metis Atoi_in_int64 ParseSemVer_Inr fst_conv in_range_def)

lemma replace_first_v: "replace_first (CHR ''v'' # s) ''v'' '''' = s"
  using replace_first_hit [of "''v''" s "''''"] by simp

section \<open>Properties\<close>

text \<open>
  C31: The parser accepts exactly the versions of three dot-separated decimal integers and reads
  back what \<^verbatim>\<open>ToString\<close> prints: a version parses to \<open>v\<close> and prints the same text again exactly
  when its fields fit Go's \<^verbatim>\<open>int\<close>; whatever parses is in that range.
\<close>

theorem semver_roundtrip:
  "(in_range v \<longleftrightarrow> ParseSemVer (ToString v) = Inr v)
   \<and> (\<forall>s. ParseSemVer s = Inr v \<longrightarrow> in_range v \<and> ParseSemVer (ToString v) = ParseSemVer s)"
  using ParseSemVer_ToString ParseSemVer_range by metis

theorem semver_roundtrip_witness:
  "ParseSemVer ''1.+2.3'' = Inr (SemVer 1 2 3) \<and> ParseSemVer (ToString (SemVer 1 2 3)) = ParseSemVer ''1.+2.3''"
proof -
  have p: "ParseSemVer ''1.+2.3'' = Inr (SemVer 1 2 3)"
    by code_simp
  with semver_roundtrip [of "SemVer 1 2 3"] show ?thesis by blast
qed

text \<open>
  A release build is told about the newest release exactly when that release is later in
  the lexicographic order on (major, minor, patch); the message names both versions, and no
  message is printed when the running version is the newest or newer.
\<close>

theorem version_notice:
  assumes "in_range cur" and "in_range new" and "GHMessage e = []"
    and "Name latest = CHR ''v'' # ToString new"
  shows "VersionMessage (ToString cur) (Inr (latest # older, e)) =
     (if Major cur < Major new \<or> Major cur = Major new \<and> Minor cur < Minor new \<or>
         Major cur = Major new \<and> Minor cur = Minor new \<and> Patch cur < Patch new
      then Some (''A new version ('' @ ToString new @ '') of the nerd CLI is available. Your current version is ''
             @ ToString cur @ ''. Please visit '' @ HTMLURL latest @ '' to get the latest version.'')
      else None)"
proof -
  have "ToString cur \<noteq> BuiltFromSourceVersion"
    using ParseSemVer_ToString [OF assms(1)]
    by (auto simp: BuiltFromSourceVersion_def ParseSemVer_def Atoi_def is_digit_def)
  with assms show ?thesis
    by (simp add: VersionMessage_def ParseSemVer_ToString replace_first_v GreaterThan_lex)
qed

theorem version_notice_witness:
  "VersionMessage ''1.0.9'' (Inr ([\<lparr>Name = ''v1.1.0'', HTMLURL = ''u''\<rparr>], \<lparr>GHMessage = '''', URL = ''''\<rparr>))
     = Some (''A new version (1.1.0) of the nerd CLI is available. Your current version is 1.0.9. Please visit u to get the latest version.'')"
proof -
  have t: "ToString (SemVer 1 0 9) = ''1.0.9''" "ToString (SemVer 1 1 0) = ''1.1.0''"
    by code_simp+
  have "in_range (SemVer 1 0 9)" "in_range (SemVer 1 1 0)"
    by (simp_all add: in_range_def in_int64_def min_int64_def max_int64_def)
  from version_notice [OF this, of "\<lparr>GHMessage = '''', URL = ''''\<rparr>" "\<lparr>Name = ''v1.1.0'', HTMLURL = ''u''\<rparr>" "[]"]
  show ?thesis by (simp add: t)
qed

end
