(* ===== verification/Command_Parts.thy ===== *)
theory Command_Parts
  imports SemVer Workload_Commands Transfer_Commands
begin

text \<open>
  What the commands are put together from: the public key that JWTs are checked with (\<^verbatim>\<open>nerd/jwt/jwt.go\<close>), the
  queue and the store of a project (\<^verbatim>\<open>nerd/aws\<close>), the texts of a command (\<^verbatim>\<open>command/command.go\<close>), and the command
  that has no \<^verbatim>\<open>DoRun\<close>, \<^verbatim>\<open>version\<close>. PEM, X.509 and the sessions of AWS are arguments.
\<close>

section \<open>Keys\<close>

definition ParseECDSAPublicKeyFromPemBytes :: "(string \<Rightarrow> 'b option) \<Rightarrow> ('b \<Rightarrow> goerr + 'p) \<Rightarrow> ('p \<Rightarrow> 'k option) \<Rightarrow> string \<Rightarrow> goerr + 'k" where
  "ParseECDSAPublicKeyFromPemBytes pem_Decode ParsePKIXPublicKey ecdsa pemb =
     (case pem_Decode pemb of
        None \<Rightarrow> Inl (Fundamental ''failed to parse PEM block containing the public key'')
      | Some block \<Rightarrow>
         (case ParsePKIXPublicKey block of
            Inl err \<Rightarrow> Inl (wrapped ''failed to parse'' err)
          | Inr pub \<Rightarrow>
             (case ecdsa pub of
                Some key \<Rightarrow> Inr key
              | None \<Rightarrow> Inl (Fundamental (''pem bytes doesn'' @ [CHR 39] @ ''t contain a ECDSA public key'')))))"

definition DecodeTokenWithKey :: "'k token_parser \<Rightarrow> string \<Rightarrow> 'k \<Rightarrow> goerr + int" where
  "DecodeTokenWithKey parse nerdToken key = decodeToken parse key nerdToken"

definition DecodeTokenWithPEM :: "'k token_parser \<Rightarrow> (string \<Rightarrow> goerr + 'k) \<Rightarrow> string \<Rightarrow> string \<Rightarrow> goerr + int" where
  "DecodeTokenWithPEM parse key_of nerdToken pem =
     (case key_of pem of
        Inl err \<Rightarrow> Inl (wrapped ''failed to parse public key PEM to ecdsa key'' err)
      | Inr key \<Rightarrow> decodeToken parse key nerdToken)"

text \<open>A token is decoded only with a key the PEM holds, and only if its signature is valid for that key.\<close>

lemma DecodeTokenWithPEM_signed:
  "DecodeTokenWithPEM parse (ParseECDSAPublicKeyFromPemBytes pd px ec) tok pem = Inr n \<longleftrightarrow>
     (\<exists>block pub key. pd pem = Some block \<and> px block = Inr pub \<and> ec pub = Some key \<and> parse key tok = Inr (n, True))"
  by (auto simp: DecodeTokenWithPEM_def ParseECDSAPublicKeyFromPemBytes_def decodeToken_def split: option.splits sum.splits if_splits)

text \<open>Without an ECDSA key no command on a project starts, and nothing is sent.\<close>

lemma no_key_no_client:
  assumes "parse_key e = ParseECDSAPublicKeyFromPemBytes pd px ec"
    and "\<And>block pub. pd (PublicKey (Auth (config e))) = Some block \<Longrightarrow> px block = Inr pub \<Longrightarrow> ec pub = None"
  shows "\<exists>err. with_project e k s = (Failing (HandleError (wrapped ''ECDSA Public Key is invalid'' err)), s)"
proof -
  have "ParseECDSAPublicKeyFromPemBytes pd px ec (PublicKey (Auth (config e))) \<noteq> Inr key" for key
    using assms(2) by (auto simp: ParseECDSAPublicKeyFromPemBytes_def split: option.splits sum.splits)
  then obtain err where "parse_key e (PublicKey (Auth (config e))) = Inl err"
    by (cases "parse_key e (PublicKey (Auth (config e)))") (simp_all add: assms(1))
  then show ?thesis by (auto simp: with_project_def command_NewClient_def given_def)
qed

section \<open>User and password\<close>

text \<open>\<open>ask\<close> shows a question and reads a line, \<open>ask_secret\<close> the same without an echo; the first error ends it.\<close>

definition UserPassProvider :: "(string \<Rightarrow> 'w \<Rightarrow> 'w) \<Rightarrow> (string \<Rightarrow> 'w \<Rightarrow> (goerr + string) \<times> 'w) \<Rightarrow> (string \<Rightarrow> 'w \<Rightarrow> (goerr + string) \<times> 'w)
    \<Rightarrow> 'w \<Rightarrow> (goerr + string \<times> string) \<times> 'w" where
  "UserPassProvider tell ask ask_secret w =
     (case ask ''Username: '' (tell ''Please enter your Nerdalize username and password.'' w) of
        (Inl err, w) \<Rightarrow> (Inl (wrapped ''failed to read username'' err), w)
      | (Inr user, w) \<Rightarrow>
         (case ask_secret ''Password: '' w of
            (Inl err, w) \<Rightarrow> (Inl (wrapped ''failed to read password'' err), w)
          | (Inr pass, w) \<Rightarrow> (Inr (user, pass), w)))"

section \<open>Queue and store\<close>

definition no_sessions :: string where
  "no_sessions = ''could not create AWS sessions''"

text \<open>A session has the credentials of the project and the region; \<open>sqs\<close> and \<open>s3\<close> make the services of one.\<close>

definition NewQueueClient :: "(string \<Rightarrow> string \<Rightarrow> goerr + 'sess) \<Rightarrow> ('sess \<Rightarrow> 'w sqs) \<Rightarrow> string \<Rightarrow> string \<Rightarrow> goerr + (message, 'w) QueueOps" where
  "NewQueueClient session sqs projectID region =
     (case session projectID region of Inl err \<Rightarrow> Inl (wrapped no_sessions err) | Inr sess \<Rightarrow> Inr (QueueClient (sqs sess)))"

definition NewDataClient :: "(string \<Rightarrow> string \<Rightarrow> goerr + 'sess) \<Rightarrow> ('sess \<Rightarrow> 'w s3) \<Rightarrow> string \<Rightarrow> string \<Rightarrow> goerr + 'w DataOps" where
  "NewDataClient session s3 projectID region =
     (case session projectID region of Inl err \<Rightarrow> Inl (wrapped no_sessions err) | Inr sess \<Rightarrow> Inr (DataClient (s3 sess)))"

text \<open>Where AWS refuses a session a worker is not started, and a download fetches nothing; the output folder is there by then.\<close>

lemma work_without_session:
  assumes "session project region = Inl err" and "command_NewClient e = Inr c" and "work_command parse_text opts = Inr cmds"
    and "Read (session_file e) (wfs (world_of s)) = (Inr ss, fs)" and "RequireProjectID ss = Inr project" and "AWSRegion (SProject ss) = region"
    and "1 \<le> length args"
  shows "workload_work e parse_text (NewQueueClient session sqs) new_store opts args s = (Inl (HandleError (wrapped no_sessions err)), s)"
  using assms read_session_same [OF assms(4)] by (auto simp: workload_work_def NewQueueClient_def split: prod.splits)

lemma download_without_session:
  assumes "session project region = Inl err" and "command_NewClient e = Inr c"
    and "Read (session_file e) (wfs (world_of s)) = (Inr ss, fs)" and "RequireProjectID ss = Inr project" and "AWSRegion (SProject ss) = region"
    and "2 \<le> length args" and "output_folder (args ! 1) d = (Inr (), d1)"
  shows "dataset_download e (NewDataClient session s3) x args s d r s' d' \<longleftrightarrow>
    r = Failing (HandleError (wrapped ''could not create aws dataops client'' (wrapped no_sessions err))) \<and> s' = s \<and> d' = d1"
proof -
  have p: "prepare_download e (NewDataClient session s3) args s d =
      (Inl (HandleError (wrapped ''could not create aws dataops client'' (wrapped no_sessions err))), s, d1)"
    using assms read_session_same [OF assms(3)] by (simp add: prepare_download_def download_clients_def NewDataClient_def)
  show ?thesis by (subst dataset_download.simps) (use p in auto)
qed

section \<open>The log of requests\<close>

text \<open>\<open>dump\<close> prints a message with its body or without; a message that cannot be printed with it is printed without.\<close>

definition dumped :: "(bool \<Rightarrow> 'r \<Rightarrow> goerr + string) \<Rightarrow> 'r \<Rightarrow> goerr + string" where
  "dumped dump r = (case dump True r of Inl _ \<Rightarrow> dump False r | Inr txt \<Rightarrow> Inr txt)"

definition LogRequest :: "(bool \<Rightarrow> 'r \<Rightarrow> goerr + string) \<Rightarrow> 'r \<Rightarrow> outputter \<Rightarrow> outputter" where
  "LogRequest dump req = Println (case dumped dump req of
     Inr txt \<Rightarrow> ''[DEBUG] HTTP Request:'' @ [CHR 10] @ txt @ [CHR 10]
   | Inl err \<Rightarrow> ''[DEBUG] Failed to log HTTP request '' @ in_quotes (error_text err))"

definition LogResponse :: "(bool \<Rightarrow> 'r \<Rightarrow> goerr + string) \<Rightarrow> 'r \<Rightarrow> outputter \<Rightarrow> outputter" where
  "LogResponse dump res = Println (case dumped dump res of
     Inr txt \<Rightarrow> ''[DEBUG] HTTP Response:'' @ [CHR 10] @ txt @ [CHR 10]
   | Inl err \<Rightarrow> ''[DEBUG] Failed to log HTTP response '' @ in_quotes (error_text err))"

text \<open>Without the debug flag nothing of it is shown, but a log file gets all of it, credentials included.\<close>

lemma debug_hidden: "\<not> odebug o1 \<Longrightarrow> err_lines (Println (''[DEBUG]'' @ t) o1) = err_lines o1"
  by (simp add: Println_def line_level_def log_level_def bad_levels_def levels_def)

lemma LogRequest_kept:
  assumes "dumped dump req = Inr txt" and "\<not> odebug o1"
  shows "err_lines (LogRequest dump req o1) = err_lines o1
    \<and> log_lines (LogRequest dump req o1) =
        log_lines o1 @ (if has_logfile o1 then [''[DEBUG] HTTP Request:'' @ [CHR 10] @ txt @ [CHR 10]] else [])"
  using debug_hidden [OF assms(2), of "'' HTTP Request:'' @ [CHR 10] @ txt @ [CHR 10]"]
  by (simp add: LogRequest_def assms(1)) (simp add: Println_def)

section \<open>The texts of a command\<close>

definition Description :: "string \<Rightarrow> string \<Rightarrow> string" where
  "Description help synopsis = (if help = [] then synopsis else help)"

definition Help :: "string \<Rightarrow> string \<Rightarrow> string \<Rightarrow> string" where
  "Help help synopsis options = [CHR 10] @ Description help synopsis @ [CHR 10, CHR 10] @ options"

section \<open>The version\<close>

text \<open>The lines on the error stream; the release is asked for only after the version has been shown.\<close>

definition Version_Run :: "string \<Rightarrow> string \<Rightarrow> goerr + GHRelease list \<times> GHError \<Rightarrow> int \<times> string list" where
  "Version_Run version commit receive =
     (0, (version @ '' ('' @ commit @ '')'') # (case VersionMessage version receive of None \<Rightarrow> [] | Some line \<Rightarrow> [line]))"

text \<open>The command never fails, and a build from source asks nobody.\<close>

lemma Version_Run_from_source: "Version_Run BuiltFromSourceVersion commit receive = (0, [BuiltFromSourceVersion @ '' ('' @ commit @ '')''])"
  by (simp add: Version_Run_def VersionMessage_def)

end
