(* ===== verification/Command_Options.thy ===== *)
theory Command_Options
  imports Command_Parts
begin

text \<open>
  How commands are made: the options they declare as tags of a struct, \<^verbatim>\<open>newCommand\<close> with the options all commands
  share (\<^verbatim>\<open>command/command.go\<close>, \<^verbatim>\<open>command/opts.go\<close>), \<^verbatim>\<open>createCommand\<close>, help and completion of the newer
  commands (\<^verbatim>\<open>cmd/cmd.go\<close>). The library of flags is an argument.
\<close>

section \<open>Options\<close>

datatype field_type = TString | TStrings | TInt | TUint64 | TDuration | TBool | TBools | TBoolFunc | TStringFunc

record option_tags =
  tType :: field_type
  tLong :: string
  tShort :: "char option"
  tDefault :: "string list"
  tMask :: "string option"
  tEnv :: string
  tChoices :: "string list"
  tOptional :: "string option"
  tRequired :: bool
  tDescription :: string

definition tagged :: "field_type \<Rightarrow> string \<Rightarrow> string \<Rightarrow> option_tags" where
  "tagged t l d = \<lparr>tType = t, tLong = l, tShort = None, tDefault = [], tMask = None, tEnv = [], tChoices = [],
     tOptional = None, tRequired = False, tDescription = d\<rparr>"

text \<open>
  The library: a parser for a usage, to which groups of options are added. \<^verbatim>\<open>flags.Default\<close> prints errors and
  answers \<^verbatim>\<open>--help\<close>, \<^verbatim>\<open>flags.None\<close> does not.
\<close>

datatype parser_mode = DefaultFlags | NoFlags

record 'p flag_library =
  NewNamedParser :: "string \<Rightarrow> parser_mode \<Rightarrow> 'p"
  AddGroup :: "string \<Rightarrow> option_tags list \<Rightarrow> 'p \<Rightarrow> goerr + 'p"
  Groups :: "'p \<Rightarrow> option_tags list list"
  WriteHelp :: "'p \<Rightarrow> string"

text \<open>What the library demands of a group: no name twice, and no default for a boolean option.\<close>

definition is_bool :: "option_tags \<Rightarrow> bool" where
  "is_bool t \<longleftrightarrow> tType t = TBool \<or> tType t = TBools"

definition sound_group :: "option_tags list \<Rightarrow> bool" where
  "sound_group os \<longleftrightarrow> distinct (filter (\<lambda>l. l \<noteq> []) (map tLong os)) \<and> distinct (filter (\<lambda>s. s \<noteq> None) (map tShort os))
     \<and> list_all (\<lambda>t. is_bool t \<longrightarrow> tDefault t = []) os"

definition lawful_flags :: "'p flag_library \<Rightarrow> bool" where
  "lawful_flags fl \<longleftrightarrow> (\<forall>g os p. sound_group os \<longrightarrow> (\<exists>p'. AddGroup fl g os p = Inr p' \<and> Groups fl p' = Groups fl p @ [os]))
     \<and> (\<forall>u m. Groups fl (NewNamedParser fl u m) = [])"

lemma lawful_add:
  "lawful_flags fl \<Longrightarrow> sound_group os \<Longrightarrow> \<exists>p'. AddGroup fl g os p = Inr p' \<and> Groups fl p' = Groups fl p @ [os]"
  and lawful_new: "lawful_flags fl \<Longrightarrow> Groups fl (NewNamedParser fl u m) = []"
  by (simp_all add: lawful_flags_def)

section \<open>Making a command\<close>

definition OutputOpts :: "option_tags list" where
  "OutputOpts =
     [(tagged TBoolFunc ''debug'' ''Show debug output'')\<lparr>tDefault := [''false''], tOptional := Some ''true'', tEnv := ''NERD_DEBUG''\<rparr>,
      (tagged TStringFunc ''output'' ''Format of the output'')\<lparr>tDefault := [''pretty''], tChoices := [''pretty'', ''raw'', ''json'']\<rparr>]"

definition ConfOpts :: "option_tags list" where
  "ConfOpts =
     [(tagged TStringFunc ''config-file'' ''Location of config file'')\<lparr>tDefault := [[]], tMask := Some [], tEnv := ''NERD_CONFIG_FILE''\<rparr>,
      (tagged TStringFunc ''session-file'' ''Location of session file'')\<lparr>tDefault := [[]], tMask := Some [], tEnv := ''NERD_SESSION_FILE''\<rparr>]
     @ OutputOpts"

definition SharedOptionsGroup :: string where
  "SharedOptionsGroup = ''Other Options''"

text \<open>The function of a command is set by its factory.\<close>

record ('p, 'r) made_command =
  cmUsage :: string
  cmHelp :: string
  cmSynopsis :: string
  cmParser :: 'p
  cmRun :: 'r

definition newCommand :: "'p flag_library \<Rightarrow> string \<Rightarrow> string \<Rightarrow> string \<Rightarrow> option_tags list option \<Rightarrow> 'r \<Rightarrow> goerr + ('p, 'r) made_command" where
  "newCommand fl usage synopsis help opts run =
     (let parser = NewNamedParser fl usage DefaultFlags in
      case (case opts of None \<Rightarrow> Inr parser | Some os \<Rightarrow> AddGroup fl ''Options'' os parser) of
        Inl err \<Rightarrow> Inl err
      | Inr parser \<Rightarrow>
         (case AddGroup fl SharedOptionsGroup ConfOpts parser of
            Inl err \<Rightarrow> Inl err
          | Inr parser \<Rightarrow> Inr \<lparr>cmUsage = usage, cmHelp = help, cmSynopsis = synopsis, cmParser = parser, cmRun = run\<rparr>))"

definition made :: "goerr + ('p, 'r) made_command \<Rightarrow> goerr + ('p, 'r) made_command" where
  "made r = (case r of Inl err \<Rightarrow> Inl (wrapped ''failed to create command'' err) | Inr c \<Rightarrow> Inr c)"

definition command_Help :: "'p flag_library \<Rightarrow> ('p, 'r) made_command \<Rightarrow> string" where
  "command_Help fl c = Help (cmHelp c) (cmSynopsis c) (WriteHelp fl (cmParser c))"

lemma made_command:
  assumes "made (newCommand fl usage synopsis help opts run) = Inr c"
  shows "cmUsage c = usage \<and> cmSynopsis c = synopsis \<and> cmHelp c = help \<and> cmRun c = run"
  using assms by (auto simp: made_def newCommand_def Let_def split: sum.splits option.splits)

lemma ConfOpts_sound: "sound_group ConfOpts"
  by (simp add: sound_group_def ConfOpts_def OutputOpts_def tagged_def is_bool_def)

lemma sound_command_made:
  assumes "lawful_flags fl" and "\<And>os. opts = Some os \<Longrightarrow> sound_group os"
  shows "\<exists>c. made (newCommand fl usage synopsis help opts run) = Inr c
    \<and> Groups fl (cmParser c) = (case opts of None \<Rightarrow> [] | Some os \<Rightarrow> [os]) @ [ConfOpts]"
proof -
  note a = lawful_add [OF assms(1)]
  note n = lawful_new [OF assms(1)]
  obtain p1 where p1: "(case opts of None \<Rightarrow> Inr (NewNamedParser fl usage DefaultFlags)
      | Some os \<Rightarrow> AddGroup fl ''Options'' os (NewNamedParser fl usage DefaultFlags)) = Inr p1"
    "Groups fl p1 = (case opts of None \<Rightarrow> [] | Some os \<Rightarrow> [os])"
    using a [OF assms(2)] n by (cases opts) force+
  from a [OF ConfOpts_sound, of SharedOptionsGroup p1] p1(2) show ?thesis
    by (auto simp: made_def newCommand_def p1(1))
qed

section \<open>The newer commands\<close>

record ('p, 'r) cmd_command =
  flagParser :: 'p
  cmdRun :: 'r
  helpFunc :: string

definition GlobalOpts :: "option_tags list" where
  "GlobalOpts = [tagged TBool ''debug'' ''show verbose debug information'']"

text \<open>No value where an option group is refused: \<^verbatim>\<open>createCommand\<close> panics, and with it the start of every command.\<close>

definition createCommand :: "'p flag_library \<Rightarrow> 'r \<Rightarrow> string \<Rightarrow> string \<Rightarrow> option_tags list \<Rightarrow> ('p, 'r) cmd_command option" where
  "createCommand fl run help usage fgroup =
     (case AddGroup fl ''Options'' fgroup (NewNamedParser fl usage NoFlags) of
        Inl _ \<Rightarrow> None
      | Inr p \<Rightarrow>
         (case AddGroup fl ''Global Options'' GlobalOpts p of
            Inl _ \<Rightarrow> None
          | Inr p \<Rightarrow> Some \<lparr>flagParser = p, cmdRun = run, helpFunc = help\<rparr>))"

definition cmd_Help :: "'p flag_library \<Rightarrow> ('p, 'r) cmd_command \<Rightarrow> string" where
  "cmd_Help fl c = [CHR 10] @ helpFunc c @ [CHR 10] @ WriteHelp fl (flagParser c)"

datatype predictor = PredictNothing | PredictAnything

definition addFlagPredicts :: "option_tags \<Rightarrow> (string \<rightharpoonup> predictor) \<Rightarrow> (string \<rightharpoonup> predictor)" where
  "addFlagPredicts f preds =
     (let p = (if is_bool f then PredictNothing else PredictAnything);
          preds = preds(''--'' @ tLong f \<mapsto> p) in
      (case tShort f of None \<Rightarrow> preds | Some c \<Rightarrow> preds([CHR ''-'', c] \<mapsto> p)))"

definition AutocompleteFlags :: "'p flag_library \<Rightarrow> ('p, 'r) cmd_command \<Rightarrow> (string \<rightharpoonup> predictor)" where
  "AutocompleteFlags fl c = fold addFlagPredicts (concat (Groups fl (flagParser c))) Map.empty"

lemma sound_cmd_created:
  assumes "lawful_flags fl" and "sound_group fgroup"
  shows "\<exists>c. createCommand fl run help usage fgroup = Some c \<and> Groups fl (flagParser c) = [fgroup, GlobalOpts] \<and> cmdRun c = run"
proof -
  note a = lawful_add [OF assms(1)]
  have g: "sound_group GlobalOpts" by (simp add: sound_group_def GlobalOpts_def tagged_def is_bool_def)
  obtain p1 where "AddGroup fl ''Options'' fgroup (NewNamedParser fl usage NoFlags) = Inr p1" "Groups fl p1 = [fgroup]"
    using a [OF assms(2), of "''Options''" "NewNamedParser fl usage NoFlags"] lawful_new [OF assms(1)] by auto
  with a [OF g, of "''Global Options''" p1] show ?thesis by (auto simp: createCommand_def)
qed

text \<open>Completion offers exactly the flags of the options, with one or two hyphens.\<close>

definition flag_names :: "option_tags \<Rightarrow> string set" where
  "flag_names f = insert (''--'' @ tLong f) (case tShort f of None \<Rightarrow> {} | Some c \<Rightarrow> {[CHR ''-'', c]})"

lemma addFlagPredicts_dom: "dom (addFlagPredicts f preds) = flag_names f \<union> dom preds"
  by (auto simp: addFlagPredicts_def flag_names_def Let_def split: option.splits)

lemma AutocompleteFlags_dom:
  "dom (AutocompleteFlags fl c) = (\<Union>f \<in> set (concat (Groups fl (flagParser c))). flag_names f)"
proof -
  have "dom (fold addFlagPredicts fs m) = (\<Union>f \<in> set fs. flag_names f) \<union> dom m" for fs m
    by (induction fs arbitrary: m) (auto simp: addFlagPredicts_dom)
  then show ?thesis by (simp add: AutocompleteFlags_def)
qed

end
