(* ===== verification/Command_Table.thy ===== *)
theory Command_Table
  imports Command_Options Job_Command Login_Flow Command_Properties
begin

text \<open>
  The table of commands of \<^verbatim>\<open>main.go\<close>: the factory of each command with its usage, options and function
  (\<^verbatim>\<open>command/*.go\<close>, \<^verbatim>\<open>cmd/job*.go\<close>), and that each asks for what its usage says. A function is a relation of
  the arguments, the machine before, how it ends and the machine after, since some of them run goroutines.
\<close>

section \<open>What the functions work on\<close>

text \<open>The terminal, the session and the servers, and the disk on which datasets are.\<close>

type_synonym 'x machine = "'x shell \<times> disk"
type_synonym 'x run_func = "string list \<Rightarrow> 'x machine \<Rightarrow> ended \<Rightarrow> 'x machine \<Rightarrow> bool"

text \<open>
  The surroundings of the functions, and the options as the parser leaves them: fuel for the polling of
  \<^verbatim>\<open>task receive\<close>, what can be seen of a path, the state and the browser of a login with what its server is asked,
  and the worker of \<open>Worker_Loop\<close>, which runs until the interrupt.
\<close>

record ('k, 'x, 'm) program =
  cenv :: "('k, 'x) command_env"
  layout :: renderer
  upload_layout :: "DatasetSummary \<Rightarrow> output_type \<rightharpoonup> string \<times> goerr option"
  json_text :: "json \<Rightarrow> string"
  text_json :: "string \<Rightarrow> json option"
  md5_hex :: "string \<Rightarrow> string"
  spell_runs :: "Run list \<Rightarrow> string"
  queue_of :: "string \<Rightarrow> string \<Rightarrow> goerr + ('m, 'x batch_world) QueueOps"
  store_of :: "string \<Rightarrow> string \<Rightarrow> goerr + 'x batch_ops"
  xenv :: "'x batch_world transfer_env"
  path_stat :: "string \<Rightarrow> goerr + bool"
  path_tree :: "string \<Rightarrow> tree"
  stdin :: "(string \<times> goerr option) option"
  polls :: nat
  login_state :: "string option"
  open_browser :: "string \<Rightarrow> goerr option"
  login_events :: "server_event list"
  place_opts :: ProjectPlaceOpts
  create_opts :: SecretCreateOpts
  start_opts :: WorkloadStartOpts
  work_opts :: WorkloadWorkOpts
  task_env :: "string list"
  works :: "('m, 'x batch_world) QueueOps working \<Rightarrow> 'x machine \<Rightarrow> 'x machine \<Rightarrow> bool"

text \<open>Functions that leave the disk alone, those that need fuel, and the others.\<close>

definition functional :: "(string list \<Rightarrow> 'x shell \<Rightarrow> ended \<times> 'x shell) \<Rightarrow> 'x run_func" where
  "functional f args m r m' \<longleftrightarrow> f args (fst m) = (r, fst m') \<and> snd m' = snd m"

definition fuelled :: "(string list \<Rightarrow> 'x shell \<Rightarrow> (ended \<times> 'x shell) option) \<Rightarrow> 'x run_func" where
  "fuelled f args m r m' \<longleftrightarrow> f args (fst m) = Some (r, fst m') \<and> snd m' = snd m"

definition refused_store :: "goerr + 's \<Rightarrow> goerr option" where
  "refused_store r = (case r of Inl err \<Rightarrow> Some err | Inr _ \<Rightarrow> None)"

definition work_run :: "('k, 'x, 'm) program \<Rightarrow> 'x run_func" where
  "work_run p args m r m' \<longleftrightarrow>
     (case workload_work (cenv p) (text_json p) (queue_of p) (\<lambda>project region. refused_store (store_of p project region)) (work_opts p) args (fst m) of
        (Inl err, s) \<Rightarrow> r = Failing err \<and> m' = (s, snd m)
      | (Inr wk, s) \<Rightarrow> r = Done \<and> works p wk (s, snd m) m')"

definition upload_run :: "('k, 'x, 'm) program \<Rightarrow> 'x run_func" where
  "upload_run p args m r m' \<longleftrightarrow>
     dataset_upload (cenv p) (store_of p) (xenv p) (upload_layout p) args (path_stat p (args ! 0)) (path_tree p (args ! 0)) (fst m) r (fst m')
     \<and> snd m' = snd m"

definition download_run :: "('k, 'x, 'm) program \<Rightarrow> 'x run_func" where
  "download_run p args m r m' \<longleftrightarrow> dataset_download (cenv p) (store_of p) (xenv p) args (fst m) (snd m) r (fst m') (snd m')"

definition outputs_run :: "('k, 'x, 'm) program \<Rightarrow> 'x run_func" where
  "outputs_run p args m r m' \<longleftrightarrow> workload_download (cenv p) (store_of p) (xenv p) (md5_hex p) args (fst m) (snd m) r (fst m') (snd m')"

text \<open>\<^verbatim>\<open>Run\<close> with a function that is a relation: what it makes of the end the function came to.\<close>

definition runs_with :: "(string list \<Rightarrow> 'w \<Rightarrow> string list parsed \<times> 'w) \<Rightarrow> (string list \<Rightarrow> 'w \<Rightarrow> ended \<Rightarrow> 'w \<Rightarrow> bool)
    \<Rightarrow> (goerr \<Rightarrow> 'w \<Rightarrow> 'w) \<Rightarrow> string list \<Rightarrow> 'w \<Rightarrow> int \<Rightarrow> 'w \<Rightarrow> bool" where
  "runs_with parse run write_error args w n w' \<longleftrightarrow>
     (case parse args w of
        (Parsed as, w1) \<Rightarrow> \<exists>r w2. run as w1 r w2 \<and> Run parse (\<lambda>_ _. (r, w2)) write_error args w = (n, w')
      | _ \<Rightarrow> Run parse (\<lambda>_ w. (Done, w)) write_error args w = (n, w'))"

section \<open>Options\<close>

text \<open>As the structs of the options have them, field by field.\<close>

definition WorkloadStart_options :: "option_tags list" where
  "WorkloadStart_options =
     [(tagged TStrings ''env'' ''Environment variables'')\<lparr>tShort := Some CHR ''e''\<rparr>,
      (tagged TString ''input-dataset'' ''Input dataset ID, will be available in /input in your container'')\<lparr>tShort := Some CHR ''d''\<rparr>,
      (tagged TInt ''instances'' ''Number of working instances'')\<lparr>tShort := Some CHR ''i'', tDefault := [''1'']\<rparr>,
      (tagged TString ''pull-secret'' ''The pull secret will be used to fetch the private image'')\<lparr>tShort := Some CHR ''p''\<rparr>,
      (tagged TUint64 ''size'' ''The amount of resources you want to use for your workload, in compute units.'')\<lparr>tShort := Some CHR ''s''\<rparr>]"

definition WorkloadWork_options :: "option_tags list" where
  "WorkloadWork_options =
     [(tagged TString ''entrypoint-json-base64'' ''Work entrypoint, first json and then base64 encoded.'')\<lparr>tDefault := [''W10='']\<rparr>,
      (tagged TString ''cmd-json-base64'' ''Work cmd, first json and then base64 encoded.'')\<lparr>tDefault := [''W10='']\<rparr>,
      (tagged TString ''output-dir'' ''When set, data in --output-dir will be uploaded after each task run.'')\<lparr>tDefault := [[]], tMask := Some []\<rparr>]"

definition ProjectPlace_options :: "option_tags list" where
  "ProjectPlace_options =
     [(tagged TString ''token'' ''placement that authenticates using JWT'')\<lparr>tDefault := [[]], tMask := Some []\<rparr>,
      (tagged TString ''username'' ''username for placement that authenticates using username/password'')\<lparr>tDefault := [[]], tMask := Some []\<rparr>,
      (tagged TString ''password'' ''password for placement that authenticates using username/password'')\<lparr>tDefault := [[]], tMask := Some []\<rparr>,
      (tagged TBool ''insecure'' ''disable checking of server certificate'')\<lparr>tMask := Some []\<rparr>,
      (tagged TString ''compute_units'' ''default size of a project'')\<lparr>tDefault := [''2'']\<rparr>]"

definition TaskCreate_options :: "option_tags list" where
  "TaskCreate_options = [(tagged TStrings ''env'' ''environment variables to use'')\<lparr>tShort := Some CHR ''e''\<rparr>]"

definition SecretCreate_options :: "option_tags list" where
  "SecretCreate_options =
     [(tagged TString ''username'' ''Username for Docker registry authentication'')\<lparr>tDefault := [[]], tMask := Some []\<rparr>,
      (tagged TString ''password'' ''Password for Docker registry authentication'')\<lparr>tDefault := [[]], tMask := Some []\<rparr>,
      (tagged TString ''type'' ''Type of secret to display'')\<lparr>tDefault := [''opaque''], tMask := Some []\<rparr>]"

text \<open>The type is declared and parsed, but \<^verbatim>\<open>secret list\<close> never looks at it.\<close>

definition SecretList_options :: "option_tags list" where
  "SecretList_options = [(tagged TString ''type'' ''Type of secret to display, defaults to all.'')\<lparr>tDefault := [''all''], tMask := Some []\<rparr>]"

definition JobRun_options :: "option_tags list" where
  "JobRun_options =
     [(tagged TString ''kube-config'' ''file at which Nerd will look for Kubernetes credentials'')\<lparr>tMask := Some ''~/.kube/conf''\<rparr>,
      (tagged TString ''namespace'' ''the Kubernetes namespace in which jobs will be managed'')
        \<lparr>tDefault := [''default''], tMask := Some ''default'', tRequired := True\<rparr>,
      (tagged TDuration ''timeout'' ''duration for which Nerd will wait for Kubernetes'')
        \<lparr>tDefault := [''10s''], tMask := Some ''10s'', tRequired := True\<rparr>,
      (tagged TString ''name'' ''assign a name to the job'')\<lparr>tShort := Some CHR ''n''\<rparr>]"

section \<open>The factories\<close>

type_synonym ('p, 'x) factory = "goerr + ('p, 'x run_func) made_command"

text \<open>The groups; that of the secrets has the function of the projects, which does the same.\<close>

definition group_run :: "'x run_func" where
  "group_run = functional (\<lambda>_. group_command)"

definition LoginFactory :: "'p flag_library \<Rightarrow> ('k, 'x, 'm) program \<Rightarrow> ('p, 'x) factory" where
  "LoginFactory fl p = made (newCommand fl ''nerd login''
     ''Start a new authorized session.'' [] None (fuelled (\<lambda>_. login (cenv p) (login_state p) (open_browser p) (login_events p))))"

definition WorkloadFactory :: "'p flag_library \<Rightarrow> ('p, 'x) factory" where
  "WorkloadFactory fl = made (newCommand fl ''nerd workload <subcommand>'' ''Control compute capacity for working on tasks.'' [] None group_run)"

definition WorkloadStartFactory :: "'p flag_library \<Rightarrow> ('k, 'x, 'm) program \<Rightarrow> ('p, 'x) factory" where
  "WorkloadStartFactory fl p = made (newCommand fl ''nerd workload start <image>''
     ''Provision a new workload to provide compute.'' [] (Some WorkloadStart_options) (functional (workload_start (cenv p) (json_text p) (start_opts p))))"

definition WorkloadStopFactory :: "'p flag_library \<Rightarrow> ('k, 'x, 'm) program \<Rightarrow> ('p, 'x) factory" where
  "WorkloadStopFactory fl p = made (newCommand fl ''nerd workload stop <workload-id>''
     ''Stop a workload from providing compute capacity.'' [] None (functional (workload_stop (cenv p))))"

definition WorkloadListFactory :: "'p flag_library \<Rightarrow> ('k, 'x, 'm) program \<Rightarrow> ('p, 'x) factory" where
  "WorkloadListFactory fl p = made (newCommand fl ''nerd workload list''
     ''Show a list of all workloads in the current project.'' [] None (functional (\<lambda>_. workload_list (cenv p) (layout p))))"

definition WorkloadDescribeFactory :: "'p flag_library \<Rightarrow> ('k, 'x, 'm) program \<Rightarrow> ('p, 'x) factory" where
  "WorkloadDescribeFactory fl p = made (newCommand fl ''nerd workload describe <workload-id>''
     ''Return more information about a specific workload.'' [] None (functional (workload_describe (cenv p) (layout p))))"

definition WorkloadDownloadFactory :: "'p flag_library \<Rightarrow> ('k, 'x, 'm) program \<Rightarrow> ('p, 'x) factory" where
  "WorkloadDownloadFactory fl p = made (newCommand fl ''nerd workload download <workload-id> <output-dir>''
     ''Download output data of a workload.'' [] None (outputs_run p))"

definition WorkloadWorkFactory :: "'p flag_library \<Rightarrow> ('k, 'x, 'm) program \<Rightarrow> ('p, 'x) factory" where
  "WorkloadWorkFactory fl p = made (newCommand fl ''nerd workload work <workload-id>''
     ''Start working tasks of a queue locally.'' [] (Some WorkloadWork_options) (work_run p))"

definition WorkerFactory :: "'p flag_library \<Rightarrow> ('p, 'x) factory" where
  "WorkerFactory fl = made (newCommand fl ''nerd worker <subcommand>'' ''Control individual compute processes.'' [] None group_run)"

definition WorkerLogsFactory :: "'p flag_library \<Rightarrow> ('k, 'x, 'm) program \<Rightarrow> ('p, 'x) factory" where
  "WorkerLogsFactory fl p = made (newCommand fl ''nerd worker logs <workload-id> <worker-id>''
     ''Return recent logs from a worker.'' [] None (functional (worker_logs (cenv p))))"

definition DatasetFactory :: "'p flag_library \<Rightarrow> ('p, 'x) factory" where
  "DatasetFactory fl = made (newCommand fl ''nerd dataset <subcommand>'' ''Upload and download datasets for tasks to use.'' [] None group_run)"

definition DatasetUploadFactory :: "'p flag_library \<Rightarrow> ('k, 'x, 'm) program \<Rightarrow> ('p, 'x) factory" where
  "DatasetUploadFactory fl p = made (newCommand fl ''nerd dataset upload <path>''
     ''Upload data from a directory to the cloud and create a new dataset.'' [] None (upload_run p))"

definition DatasetDownloadFactory :: "'p flag_library \<Rightarrow> ('k, 'x, 'm) program \<Rightarrow> ('p, 'x) factory" where
  "DatasetDownloadFactory fl p = made (newCommand fl ''nerd dataset download <dataset-id> <output-dir>''
     ''Download data from the cloud to a local directory.'' [] None (download_run p))"

definition DatasetListFactory :: "'p flag_library \<Rightarrow> ('k, 'x, 'm) program \<Rightarrow> ('p, 'x) factory" where
  "DatasetListFactory fl p = made (newCommand fl ''nerd dataset list''
     ''Show a list of all datasets.'' [] None (functional (\<lambda>_. dataset_list (cenv p) (layout p))))"

definition ProjectFactory :: "'p flag_library \<Rightarrow> ('p, 'x) factory" where
  "ProjectFactory fl = made (newCommand fl ''nerd project <subcommand>'' ''Set and list projects.'' [] None group_run)"

definition ProjectPlaceFactory :: "'p flag_library \<Rightarrow> ('k, 'x, 'm) program \<Rightarrow> ('p, 'x) factory" where
  "ProjectPlaceFactory fl p = made (newCommand fl ''nerd project place <host>''
     ''Place the current project on a compute cluster.'' [] (Some ProjectPlace_options) (functional (project_place (cenv p) (place_opts p))))"

definition ProjectExpelFactory :: "'p flag_library \<Rightarrow> ('k, 'x, 'm) program \<Rightarrow> ('p, 'x) factory" where
  "ProjectExpelFactory fl p = made (newCommand fl ''nerd project expel''
     ''Move the current project away from its current cluster.'' [] None (functional (\<lambda>_. project_expel (cenv p))))"

definition ProjectSetFactory :: "'p flag_library \<Rightarrow> ('k, 'x, 'm) program \<Rightarrow> ('p, 'x) factory" where
  "ProjectSetFactory fl p = made (newCommand fl ''nerd project set''
     ''Set current working project.'' [] None (functional (project_set (cenv p))))"

definition ProjectListFactory :: "'p flag_library \<Rightarrow> ('k, 'x, 'm) program \<Rightarrow> ('p, 'x) factory" where
  "ProjectListFactory fl p = made (newCommand fl ''nerd project list''
     ''List all your projects.'' [] None (functional (\<lambda>_. project_list (cenv p) (layout p))))"

definition TaskFactory :: "'p flag_library \<Rightarrow> ('p, 'x) factory" where
  "TaskFactory fl = made (newCommand fl ''nerd task <subcommand>'' ''Manage the lifecycle of compute tasks.'' [] None group_run)"

definition TaskListFactory :: "'p flag_library \<Rightarrow> ('k, 'x, 'm) program \<Rightarrow> ('p, 'x) factory" where
  "TaskListFactory fl p = made (newCommand fl ''nerd task list <workload-id>''
     ''Show a list of all task currently in a queue.'' [] None (functional (task_list (cenv p) (layout p))))"

definition TaskCreateFactory :: "'p flag_library \<Rightarrow> ('k, 'x, 'm) program \<Rightarrow> ('p, 'x) factory" where
  "TaskCreateFactory fl p = made (newCommand fl ''nerd task create <workload-id> -- [cmd [args...]]''
     ''Create a new task for a workload.'' [] (Some TaskCreate_options) (functional (task_create (cenv p) (task_env p) (stdin p))))"

definition TaskStopFactory :: "'p flag_library \<Rightarrow> ('k, 'x, 'm) program \<Rightarrow> ('p, 'x) factory" where
  "TaskStopFactory fl p = made (newCommand fl ''nerd task stop <workload-id> <task-id>''
     ''Abort any run(s) of the specified task on a queue.'' [] None (functional (task_stop (cenv p))))"

definition TaskDescribeFactory :: "'p flag_library \<Rightarrow> ('k, 'x, 'm) program \<Rightarrow> ('p, 'x) factory" where
  "TaskDescribeFactory fl p = made (newCommand fl ''nerd task describe <workload-id> <task-id>''
     ''Return more information about a specific task.'' [] None (functional (task_describe (cenv p) (layout p))))"

definition TaskReceiveFactory :: "'p flag_library \<Rightarrow> ('k, 'x, 'm) program \<Rightarrow> ('p, 'x) factory" where
  "TaskReceiveFactory fl p = made (newCommand fl ''nerd task receive <workload-id>''
     ''Wait for a new task run to be available on a queue.'' [] None (fuelled (task_receive (polls p) (cenv p) (queue_of p) (spell_runs p))))"

definition TaskHeartbeatFactory :: "'p flag_library \<Rightarrow> ('k, 'x, 'm) program \<Rightarrow> ('p, 'x) factory" where
  "TaskHeartbeatFactory fl p = made (newCommand fl ''nerd task heartbeat <workload-id> <task-id> <run-token>''
     ''Indicate that a task run is still in progress.'' [] None (functional (task_heartbeat (cenv p))))"

definition TaskSuccessFactory :: "'p flag_library \<Rightarrow> ('k, 'x, 'm) program \<Rightarrow> ('p, 'x) factory" where
  "TaskSuccessFactory fl p = made (newCommand fl ''nerd task success <workload-id> <task-id> <run-token> <result>''
     ''Mark a task run as having succeeded.'' [] None (functional (task_success (cenv p))))"

definition TaskFailureFactory :: "'p flag_library \<Rightarrow> ('k, 'x, 'm) program \<Rightarrow> ('p, 'x) factory" where
  "TaskFailureFactory fl p = made (newCommand fl ''nerd task failure <workload-id> <task-id> <run-token> <error-code> <err-message>''
     ''Mark a task run as being failed.'' [] None (functional (task_failure (cenv p))))"

definition SecretFactory :: "'p flag_library \<Rightarrow> ('p, 'x) factory" where
  "SecretFactory fl = made (newCommand fl ''nerd secret <subcommand>'' ''Set and list secrets (opaque or for a registry).'' (''A secret can be set to access a Docker registry (type registry),'' @ [CHR 10] @ ''or to store sensitive information.'') None group_run)"

definition SecretListFactory :: "'p flag_library \<Rightarrow> ('k, 'x, 'm) program \<Rightarrow> ('p, 'x) factory" where
  "SecretListFactory fl p = made (newCommand fl ''nerd secret list''
     ''Show a list of all secrets in the current project.'' [] (Some SecretList_options) (functional (\<lambda>_. secret_list (cenv p) (layout p))))"

definition SecretDescribeFactory :: "'p flag_library \<Rightarrow> ('k, 'x, 'm) program \<Rightarrow> ('p, 'x) factory" where
  "SecretDescribeFactory fl p = made (newCommand fl ''nerd secret describe <name>''
     ''Show more information about a specific secret.'' [] None (functional (secret_describe (cenv p) (layout p))))"

definition secretCreateUsage :: string where
  "secretCreateUsage = ''nerd secret create <registry> --type registry --username <user> --password <pwd>'' @ [CHR 10] @
     ''   OR'' @ [CHR 10] @ ''  nerd secret create <name-for-secret> <key=value> [more]''"

definition secretCreateHelp :: string where
  "secretCreateHelp = ''A secret can contain either credentials for a registry,'' @ [CHR 10] @
     ''or key-value pairs that will be made available in your worker.''"

definition SecretCreateFactory :: "'p flag_library \<Rightarrow> ('k, 'x, 'm) program \<Rightarrow> ('p, 'x) factory" where
  "SecretCreateFactory fl p = made (newCommand fl secretCreateUsage
     ''Create secrets.'' secretCreateHelp (Some SecretCreate_options) (functional (secret_create (cenv p) (layout p) (create_opts p))))"

definition SecretDeleteFactory :: "'p flag_library \<Rightarrow> ('k, 'x, 'm) program \<Rightarrow> ('p, 'x) factory" where
  "SecretDeleteFactory fl p = made (newCommand fl ''nerd secret delete <name>''
     ''Remove a secret.'' [] None (functional (secret_delete (cenv p))))"

text \<open>The version command has a function of its own in place of the one all others run in.\<close>

definition CreateVersionFactory :: "'p flag_library \<Rightarrow> string \<Rightarrow> string \<Rightarrow> goerr + GHRelease list \<times> GHError
    \<Rightarrow> goerr + ('p, int \<times> string list) made_command" where
  "CreateVersionFactory fl version commit receive =
     made (newCommand fl ''nerd version'' ''Check the current version.'' [] None (Version_Run version commit receive))"

text \<open>The newer commands.\<close>

type_synonym 'w job_func = "string list \<Rightarrow> 'w \<Rightarrow> (goerr option \<times> 'w) option"

definition JobFactory :: "'p flag_library \<Rightarrow> ('p, 'w job_func) cmd_command option" where
  "JobFactory fl = createCommand fl (\<lambda>args w. Some (job_Execute args w)) ''Manage the lifecycle of compute jobs.'' ''nerd job <subcommand>'' []"

definition PlaceholderHelp :: string where "PlaceholderHelp = ''<help>''"
definition PlaceholderUsage :: string where "PlaceholderUsage = ''<usage>''"

definition JobRunFactory :: "'p flag_library \<Rightarrow> ('c, 'kc, 'w) job_env \<Rightarrow> KubeOpts \<Rightarrow> string \<Rightarrow> ('p, 'w job_func) cmd_command option" where
  "JobRunFactory fl je kopts name = createCommand fl (job_run_Execute je kopts name) PlaceholderHelp PlaceholderUsage JobRun_options"

section \<open>The table\<close>

datatype ('p, 'x, 'w) entry =
    Plain "('p, 'x) factory"
  | Version_command "goerr + ('p, int \<times> string list) made_command"
  | Job_command "('p, 'w job_func) cmd_command option"

record job_program =
  kube_opts :: KubeOpts
  job_name :: string

text \<open>The commands of \<^verbatim>\<open>command\<close>, and the whole table.\<close>

definition plain_commands :: "'p flag_library \<Rightarrow> ('k, 'x, 'm) program \<Rightarrow> (string \<times> ('p, 'x) factory) list" where
  "plain_commands fl p =
    [(''login'', LoginFactory fl p),
     (''workload'', WorkloadFactory fl),
     (''workload start'', WorkloadStartFactory fl p),
     (''workload stop'', WorkloadStopFactory fl p),
     (''workload list'', WorkloadListFactory fl p),
     (''workload describe'', WorkloadDescribeFactory fl p),
     (''workload download'', WorkloadDownloadFactory fl p),
     (''workload work'', WorkloadWorkFactory fl p),
     (''worker'', WorkerFactory fl),
     (''worker logs'', WorkerLogsFactory fl p),
     (''dataset'', DatasetFactory fl),
     (''dataset upload'', DatasetUploadFactory fl p),
     (''dataset download'', DatasetDownloadFactory fl p),
     (''dataset list'', DatasetListFactory fl p),
     (''project'', ProjectFactory fl),
     (''project place'', ProjectPlaceFactory fl p),
     (''project expel'', ProjectExpelFactory fl p),
     (''project set'', ProjectSetFactory fl p),
     (''project list'', ProjectListFactory fl p),
     (''task'', TaskFactory fl),
     (''task list'', TaskListFactory fl p),
     (''task create'', TaskCreateFactory fl p),
     (''task stop'', TaskStopFactory fl p),
     (''task describe'', TaskDescribeFactory fl p),
     (''task receive'', TaskReceiveFactory fl p),
     (''task heartbeat'', TaskHeartbeatFactory fl p),
     (''task success'', TaskSuccessFactory fl p),
     (''task failure'', TaskFailureFactory fl p),
     (''secret'', SecretFactory fl),
     (''secret list'', SecretListFactory fl p),
     (''secret describe'', SecretDescribeFactory fl p),
     (''secret create'', SecretCreateFactory fl p),
     (''secret delete'', SecretDeleteFactory fl p)]"

definition create_Commands :: "'p flag_library \<Rightarrow> ('k, 'x, 'm) program \<Rightarrow> string \<Rightarrow> string \<Rightarrow> goerr + GHRelease list \<times> GHError
    \<Rightarrow> ('c, 'kc, 'w) job_env \<Rightarrow> job_program \<Rightarrow> (string \<times> ('p, 'x, 'w) entry) list" where
  "create_Commands fl p version commit receive je jp =
     (''version'', Version_command (CreateVersionFactory fl version commit receive))
     # map (\<lambda>(name, f). (name, Plain f)) (plain_commands fl p)
     @ [(''job'', Job_command (JobFactory fl)), (''job run'', Job_command (JobRunFactory fl je (kube_opts jp) (job_name jp)))]"

definition HiddenCommands :: "string list" where
  "HiddenCommands = [''job'', ''project expel'', ''project place'', ''task receive'', ''task heartbeat'', ''task success'', ''task failure'']"

text \<open>
  \<^verbatim>\<open>create\<close> and \<^verbatim>\<open>main\<close>. The library of command lines, an argument, chooses a command by the words it is given and
  runs it; its own error goes to the error stream, and its status is that of the process.
\<close>

record ('p, 'x, 'w) cli_program =
  cliName :: string
  cliArgs :: "string list"
  cliHidden :: "string list"
  cliCommands :: "(string \<times> ('p, 'x, 'w) entry) list"

definition program_name :: string where
  "program_name = ''nerd''"

definition source_commit :: string where
  "source_commit = ''0000000''"

definition create :: "string list \<Rightarrow> 'p flag_library \<Rightarrow> ('k, 'x, 'm) program \<Rightarrow> goerr + GHRelease list \<times> GHError
    \<Rightarrow> ('c, 'kc, 'w) job_env \<Rightarrow> job_program \<Rightarrow> ('p, 'x, 'w) cli_program" where
  "create args fl p receive je jp = \<lparr>cliName = program_name, cliArgs = program_args args, cliHidden = HiddenCommands,
     cliCommands = create_Commands fl p BuiltFromSourceVersion source_commit receive je jp\<rparr>"

definition main_process :: "(('p, 'x, 'w) cli_program \<Rightarrow> int \<times> goerr option) \<Rightarrow> ('p, 'x, 'w) cli_program \<Rightarrow> string \<times> int" where
  "main_process cli_Run c = (case cli_Run c of (status, err) \<Rightarrow>
     ((case err of None \<Rightarrow> [] | Some e \<Rightarrow> program_name @ '': '' @ error_text e), status))"

end
