(* ===== verification/Command_Usage.thy ===== *)
theory Command_Usage
  imports Command_Table Transfer_Properties
begin

text \<open>
  What the table of commands promises: each command is made, says its own name, and asks for the arguments its
  usage names before it does anything.
\<close>

section \<open>Arguments in a usage\<close>

text \<open>The words in angle brackets up to the first option or double hyphen.\<close>

definition placeholders :: "string \<Rightarrow> nat" where
  "placeholders usage =
     length (filter (\<lambda>w. take 1 w = ''<'') (takeWhile (\<lambda>w. take 1 w \<noteq> ''-'') (split_on CHR '' '' usage)))"

definition says_name :: "string \<Rightarrow> string \<Rightarrow> bool" where
  "says_name usage name \<longleftrightarrow> take (5 + length name) usage = ''nerd '' @ name"

text \<open>A function that, with fewer than \<open>n\<close> arguments, asks for more and does nothing else.\<close>

definition wants :: "nat \<Rightarrow> 'x run_func \<Rightarrow> bool" where
  "wants n run \<longleftrightarrow> (\<forall>args m r m'. length args < n \<longrightarrow> (run args m r m' \<longleftrightarrow> r = Failing not_enough \<and> m' = m))"

lemma wants_none: "wants 0 run"
  by (simp add: wants_def)

lemma wants_functional: "(\<And>args s. length args < n \<Longrightarrow> f args s = (Failing not_enough, s)) \<Longrightarrow> wants n (functional f)"
  by (auto simp: wants_def functional_def prod_eq_iff)

lemma wants_at_least: "(\<And>args. f args = at_least n args (k args)) \<Longrightarrow> wants n (functional f)"
  by (rule wants_functional) (simp add: at_least_def)

lemma wants_group: "wants 1 group_run"
  unfolding group_run_def by (rule wants_functional) (simp add: group_command_def)

lemma wants_receive: "wants 1 (fuelled (task_receive n e q sp))"
  by (auto simp: wants_def fuelled_def task_receive_def prod_eq_iff)

lemma wants_work: "wants 1 (work_run p)"
  by (auto simp: wants_def work_run_def workload_work_def prod_eq_iff)

lemma wants_upload: "wants 1 (upload_run p)"
  by (auto simp: wants_def upload_run_def prod_eq_iff dataset_upload.simps)

lemma few_prepared: "length args < 2 \<Longrightarrow> prepare_download e st args s d = (Inl not_enough, s, d)"
  by (simp add: prepare_download_def)

lemma wants_download: "wants 2 (download_run p)"
  by (auto simp: wants_def download_run_def prod_eq_iff dataset_download.simps few_prepared)

lemma wants_outputs: "wants 2 (outputs_run p)"
  by (auto simp: wants_def outputs_run_def prod_eq_iff workload_download.simps few_prepared)

lemmas wants_run = wants_none wants_group wants_receive wants_work wants_upload wants_download wants_outputs

section \<open>Each command\<close>

text \<open>What is shown of a factory: name and arguments of its usage fit the table and the function.\<close>

definition fits :: "string \<Rightarrow> ('p, 'x) factory \<Rightarrow> bool" where
  "fits name f \<longleftrightarrow> (\<forall>c. f = Inr c \<longrightarrow> says_name (cmUsage c) name \<and> (name \<noteq> ''project set'' \<longrightarrow> wants (placeholders (cmUsage c)) (cmRun c)))"

lemma fitsI:
  assumes "wants n run" and "placeholders usage = n" and "says_name usage name"
  shows "fits name (made (newCommand fl usage synopsis hlp opts run))"
  using assms by (auto simp: fits_def dest!: made_command)

text \<open>The one command whose usage names fewer arguments than it wants.\<close>

lemma fits_project_set: "fits ''project set'' (ProjectSetFactory fl p)"
  by (auto simp: fits_def ProjectSetFactory_def says_name_def dest!: made_command)

lemma wants_guarded:
  "wants 1 (functional (workload_start e j wo))" "wants 1 (functional (workload_stop e))" "wants 1 (functional (workload_describe e l))"
  "wants 2 (functional (worker_logs e))" "wants 1 (functional (project_place e po))" "wants 1 (functional (project_set e))"
  "wants 1 (functional (task_list e l))" "wants 1 (functional (task_create e te inp))" "wants 2 (functional (task_stop e))"
  "wants 2 (functional (task_describe e l))" "wants 3 (functional (task_heartbeat e))" "wants 4 (functional (task_success e))"
  "wants 5 (functional (task_failure e))" "wants 1 (functional (secret_describe e l))" "wants 1 (functional (secret_create e l so))"
  "wants 1 (functional (secret_delete e))"
  by (rule wants_at_least, rule workload_start_def workload_stop_def workload_describe_def worker_logs_def project_place_def
        project_set_def task_list_def task_create_def task_stop_def task_describe_def task_heartbeat_def task_success_def
        task_failure_def secret_describe_def secret_create_def secret_delete_def)+

lemmas factory_defs =
    LoginFactory_def WorkloadFactory_def WorkloadStartFactory_def WorkloadStopFactory_def WorkloadListFactory_def
    WorkloadDescribeFactory_def WorkloadDownloadFactory_def WorkloadWorkFactory_def WorkerFactory_def WorkerLogsFactory_def
    DatasetFactory_def DatasetUploadFactory_def DatasetDownloadFactory_def DatasetListFactory_def ProjectFactory_def
    ProjectPlaceFactory_def ProjectExpelFactory_def ProjectSetFactory_def ProjectListFactory_def TaskFactory_def
    TaskListFactory_def TaskCreateFactory_def TaskStopFactory_def TaskDescribeFactory_def TaskReceiveFactory_def
    TaskHeartbeatFactory_def TaskSuccessFactory_def TaskFailureFactory_def SecretFactory_def SecretListFactory_def
    SecretDescribeFactory_def SecretCreateFactory_def SecretDeleteFactory_def

lemma all_fit: "list_all (\<lambda>(name, f). fits name f) (plain_commands fl p)"
  apply (simp only: plain_commands_def list.pred_inject prod.case fits_project_set simp_thms)
  apply (unfold factory_defs, intro conjI)
  apply (rule fitsI, (rule wants_guarded wants_group wants_receive wants_work wants_upload wants_download wants_outputs
      | rule wants_none), code_simp, code_simp)+
  done

section \<open>The table\<close>

text \<open>No group of options names a flag twice, so the library takes them all.\<close>

lemma options_sound:
  "list_all sound_group [WorkloadStart_options, WorkloadWork_options, ProjectPlace_options, TaskCreate_options, SecretCreate_options,
     SecretList_options, JobRun_options, []]"
  by (simp add: sound_group_def is_bool_def tagged_def WorkloadStart_options_def WorkloadWork_options_def ProjectPlace_options_def
      TaskCreate_options_def SecretCreate_options_def SecretList_options_def JobRun_options_def)

lemma made_sound:
  assumes "lawful_flags fl" and "\<And>os. opts = Some os \<Longrightarrow> sound_group os"
  shows "\<not> isl (made (newCommand fl usage synopsis hlp opts run))"
  using sound_command_made [OF assms(1), of opts usage synopsis hlp run] assms(2) by auto

lemma all_made:
  assumes "lawful_flags fl"
  shows "list_all (\<lambda>(name, f). \<not> isl f) (plain_commands fl p)"
  using options_sound unfolding plain_commands_def list.pred_inject prod.case factory_defs ProjectSetFactory_def
  by (intro conjI TrueI made_sound [OF assms]) simp_all

fun entry_made :: "('p, 'x, 'w) entry \<Rightarrow> bool" where
  "entry_made (Plain f) = (\<not> isl f)"
| "entry_made (Version_command f) = (\<not> isl f)"
| "entry_made (Job_command c) = (c \<noteq> None)"

lemma every_command_made:
  assumes "lawful_flags fl" and "(name, en) \<in> set (create_Commands fl p version commit receive je jp)"
  shows "entry_made en"
proof -
  have v: "\<not> isl (CreateVersionFactory fl version commit receive)"
    unfolding CreateVersionFactory_def by (rule made_sound [OF assms(1)]) simp
  have j: "createCommand fl run hlp usage os \<noteq> None" if "sound_group os" for run :: "'zz job_func" and hlp usage os
    using sound_cmd_created [OF assms(1) that, of run hlp usage] by auto
  have o: "sound_group JobRun_options" "sound_group []" using options_sound by simp_all
  have p: "\<not> isl g" if "(name, g) \<in> set (plain_commands fl p)" for g
    using all_made [OF assms(1), of p] that by (auto simp: list_all_iff)
  from assms(2) consider "en = Version_command (CreateVersionFactory fl version commit receive)"
    | g where "en = Plain g" "(name, g) \<in> set (plain_commands fl p)"
    | "en = Job_command (JobFactory fl)" | "en = Job_command (JobRunFactory fl je (kube_opts jp) (job_name jp))"
    unfolding create_Commands_def by auto
  then show ?thesis
    using v by cases (simp_all add: p JobFactory_def JobRunFactory_def j [OF o(1)] j [OF o(2)] del: not_None_eq)
qed

text \<open>No name is given twice, every command of two words has its group, and what is hidden is there.\<close>

lemma table_names:
  "map fst (plain_commands fl p) = [''login'', ''workload'', ''workload start'', ''workload stop'', ''workload list'', ''workload describe'',
     ''workload download'', ''workload work'', ''worker'', ''worker logs'', ''dataset'', ''dataset upload'', ''dataset download'',
     ''dataset list'', ''project'', ''project place'', ''project expel'', ''project set'', ''project list'', ''task'', ''task list'',
     ''task create'', ''task stop'', ''task describe'', ''task receive'', ''task heartbeat'', ''task success'', ''task failure'',
     ''secret'', ''secret list'', ''secret describe'', ''secret create'', ''secret delete'']"
  by (simp add: plain_commands_def)

lemma table_names_all:
  "map fst (create_Commands fl p version commit receive je jp) = ''version'' # map fst (plain_commands fl p) @ [''job'', ''job run'']"
  by (simp add: create_Commands_def split_beta comp_def)

definition group_of :: "string \<Rightarrow> string" where
  "group_of name = takeWhile (\<lambda>c. c \<noteq> CHR '' '') name"

lemma table_closed:
  "distinct (map fst (create_Commands fl p version commit receive je jp))"
  "group_of ` set (map fst (create_Commands fl p version commit receive je jp)) \<subseteq> set (map fst (create_Commands fl p version commit receive je jp))"
  "set HiddenCommands \<subseteq> set (map fst (create_Commands fl p version commit receive je jp))"
  unfolding table_names_all table_names by code_simp+

section \<open>Too few arguments\<close>


text \<open>Then the program exits with the code that makes the library print the help, after the message.\<close>

lemma starved_exit:
  assumes "wants n run" and "parse args w = (Parsed as, m)" and "length as < n"
  shows "runs_with parse run write_error args w code w' \<longleftrightarrow> code = RunResultHelp \<and> w' = write_error not_enough m"
proof -
  have "run as m r m' \<longleftrightarrow> r = Failing not_enough \<and> m' = m" for r m'
    using assms(1) [unfolded wants_def] assms(3) by blast
  moreover have "Cause (Some not_enough) = Some not_enough" by (simp add: not_enough_def)
  ultimately show ?thesis
    by (simp only: runs_with_def Run_def assms(2) prod.case parsed.case) (auto simp: not_enough_def)
qed

section \<open>An example program\<close>

text \<open>A library of flags that keeps the groups it is given and knows what it demands of them.\<close>

definition plain_flags :: "option_tags list list flag_library" where
  "plain_flags = \<lparr>NewNamedParser = (\<lambda>_ _. []),
     AddGroup = (\<lambda>_ os p. if sound_group os then Inr (p @ [os]) else Inl (Fundamental ''duplicate flag'')),
     Groups = (\<lambda>p. p), WriteHelp = (\<lambda>_. [])\<rparr>"

lemma plain_flags_lawful: "lawful_flags plain_flags"
  by (simp add: lawful_flags_def plain_flags_def)

definition demo_program :: "(unit, unit, unit) program" where
  "demo_program = \<lparr>cenv = demo_command, layout = (\<lambda>_ _. None), upload_layout = (\<lambda>_ _. None), json_text = (\<lambda>_. ''{}''),
     text_json = (\<lambda>_. Some (JArr [])), md5_hex = (\<lambda>_. ''f00''), spell_runs = (\<lambda>_. []), queue_of = (\<lambda>_ _. Inl (Sentinel EOF)),
     store_of = (\<lambda>_ _. Inl (Sentinel EOF)), xenv = demo_env, path_stat = (\<lambda>_. Inr True), path_tree = (\<lambda>_. Folder None []), stdin = None,
     polls = 3, login_state = None, open_browser = (\<lambda>_. None), login_events = [],
     place_opts = \<lparr>ppToken = [], ppUsername = [], ppPassword = [], ppInsecure = False, ppComputeUnits = ''2''\<rparr>,
     create_opts = \<lparr>scUsername = [], scPassword = [], scType = ''opaque''\<rparr>,
     start_opts = \<lparr>wsEnv = [], wsInputDataset = [], wsInstances = 1, wsPullSecret = [], wsSize = 0\<rparr>,
     work_opts = \<lparr>EntrypointJSONB64 = ''W10='', CmdJSONB64 = ''W10='', OutputDir = []\<rparr>, task_env = [], works = (\<lambda>_ m m'. m' = m)\<rparr>"


end
